(* ===== verification/Prelude.thy ===== *)
theory Prelude
  imports Main "HOL-Library.Word" "HOL-Library.Multiset"
begin

text \<open>
  Shared vocabulary of the development: the machine integers of the Rust sources, the
  \<^verbatim>\<open>Result\<close> type with its \<^verbatim>\<open>?\<close> operator, fixed-size byte arrays \<^verbatim>\<open>[u8; N]\<close>, the
  big-endian and little-endian byte orders of \<^verbatim>\<open>to_be_bytes\<close> and friends, and the exact
  reads of \<^verbatim>\<open>std::io::Read\<close> on an in-memory buffer.  The lemma collections declared here
  (\<open>result_simps\<close>, \<open>codec_intros\<close>) carry the proofs of the component theories.

  A \<^verbatim>\<open>usize\<close> is 64 bits wide.  Lengths and sums of lengths of buffers that really exist
  are far below \<open>2 ^ 63\<close> and are \<^typ>\<open>nat\<close>s; a \<^verbatim>\<open>usize\<close> whose wrap-around can be
  observed is a \<^typ>\<open>64 word\<close>.
\<close>

named_theorems result_simps \<open>rewriting of Result values and of the question-mark operator\<close>
named_theorems codec_intros \<open>introduction rules for lawful XDR codecs\<close>

section \<open>Machine integers\<close>

type_synonym u8 = "8 word"
type_synonym u16 = "16 word"
type_synonym u32 = "32 word"
type_synonym u64 = "64 word"
type_synonym usize = "64 word"
type_synonym bytes = "8 word list"

section \<open>Result values\<close>

text \<open>\<^verbatim>\<open>Result<T, E>\<close> is the sum \<open>'e + 'a\<close>, the error on the left.\<close>

abbreviation Ok :: "'a \<Rightarrow> 'e + 'a" where
  "Ok \<equiv> Inr"

abbreviation Err :: "'e \<Rightarrow> 'e + 'a" where
  "Err \<equiv> Inl"

text \<open>The \<^verbatim>\<open>?\<close> operator: an error leaves the enclosing function at once.\<close>

definition and_then :: "'e + 'a \<Rightarrow> ('a \<Rightarrow> 'e + 'b) \<Rightarrow> 'e + 'b" where
  "and_then r f = (case r of Err e \<Rightarrow> Err e | Ok x \<Rightarrow> f x)"

definition map_ok :: "('a \<Rightarrow> 'b) \<Rightarrow> 'e + 'a \<Rightarrow> 'e + 'b" where
  "map_ok f r = and_then r (\<lambda>x. Ok (f x))"

definition is_ok :: "'e + 'a \<Rightarrow> bool" where
  "is_ok r = (case r of Err _ \<Rightarrow> False | Ok _ \<Rightarrow> True)"

definition ok_or :: "'e \<Rightarrow> 'a option \<Rightarrow> 'e + 'a" where
  "ok_or e x = (case x of None \<Rightarrow> Err e | Some y \<Rightarrow> Ok y)"

lemma and_then_Ok [simp, result_simps]: "and_then (Ok x) f = f x"
  by (simp add: and_then_def)

lemma and_then_Err [simp, result_simps]: "and_then (Err e) f = Err e"
  by (simp add: and_then_def)

lemma and_then_eq_Ok [result_simps]:
  "and_then r f = Ok y \<longleftrightarrow> (\<exists>x. r = Ok x \<and> f x = Ok y)"
  by (cases r) simp_all

lemma and_then_eq_Err [result_simps]:
  "and_then r f = Err e \<longleftrightarrow> r = Err e \<or> (\<exists>x. r = Ok x \<and> f x = Err e)"
  by (cases r) simp_all

lemma and_then_assoc: "and_then (and_then r f) g = and_then r (\<lambda>x. and_then (f x) g)"
  by (cases r) simp_all

lemma and_then_cong [fundef_cong]:
  "r = r' \<Longrightarrow> (\<And>x. r' = Ok x \<Longrightarrow> f x = g x) \<Longrightarrow> and_then r f = and_then r' g"
  by (cases r') simp_all

lemma map_ok_simps [simp, result_simps]:
  "map_ok f (Ok x) = Ok (f x)" "map_ok f (Err e) = Err e"
  by (simp_all add: map_ok_def)

lemma map_ok_eq_Ok [result_simps]: "map_ok f r = Ok y \<longleftrightarrow> (\<exists>x. r = Ok x \<and> y = f x)"
  by (cases r) auto

lemma map_ok_eq_Err [simp, result_simps]: "map_ok f r = Err e \<longleftrightarrow> r = Err e"
  by (cases r) simp_all

lemma is_ok_simps [simp, result_simps]: "is_ok (Ok x)" "\<not> is_ok (Err e)"
  by (simp_all add: is_ok_def)

lemma is_ok_iff: "is_ok r \<longleftrightarrow> (\<exists>x. r = Ok x)"
  by (cases r) simp_all

lemma ok_or_simps [simp, result_simps]: "ok_or e None = Err e" "ok_or e (Some x) = Ok x"
  by (simp_all add: ok_or_def)

lemma ok_or_eq_Ok [result_simps]: "ok_or e x = Ok y \<longleftrightarrow> x = Some y"
  by (cases x) simp_all

lemma ok_or_eq_Err [result_simps]: "ok_or e x = Err e' \<longleftrightarrow> x = None \<and> e' = e"
  by (cases x) auto

section \<open>Fixed-size byte arrays\<close>

text \<open>\<^verbatim>\<open>[u8; N]\<close>: the lists of exactly \<open>N\<close> bytes, with \<open>N\<close> at the type level.\<close>

typedef (overloaded) ('n::len) u8_array = "{xs :: u8 list. length xs = LENGTH('n)}"
  morphisms array_bytes Array
proof
  show "replicate (LENGTH('n)) 0 \<in> {xs :: u8 list. length xs = LENGTH('n)}" by simp
qed

lemma length_array_bytes [simp]: "length (array_bytes (a :: 'n::len u8_array)) = LENGTH('n)"
  using array_bytes [of a] by simp

lemma Array_array_bytes [simp]: "Array (array_bytes a) = a"
  by (rule array_bytes_inverse)

lemma array_bytes_Array [simp]:
  "length xs = LENGTH('n) \<Longrightarrow> array_bytes (Array xs :: 'n::len u8_array) = xs"
  by (simp add: Array_inverse)

lemma Array_eq_iff:
  "length xs = LENGTH('n) \<Longrightarrow> length ys = LENGTH('n) \<Longrightarrow>
   (Array xs :: 'n::len u8_array) = Array ys \<longleftrightarrow> xs = ys"
  by (simp add: Array_inject)

lemma array_bytes_eq_iff: "array_bytes a = array_bytes b \<longleftrightarrow> a = b"
  by (rule array_bytes_inject)

section \<open>Byte order\<close>

text \<open>
  The value of a big-endian byte sequence and the \<open>n\<close> least significant bytes of a number,
  most significant first.
\<close>

fun be_value :: "bytes \<Rightarrow> nat" where
  "be_value [] = 0"
| "be_value (b # bs) = unat b * 256 ^ length bs + be_value bs"

fun be_bytes :: "nat \<Rightarrow> nat \<Rightarrow> bytes" where
  "be_bytes 0 v = []"
| "be_bytes (Suc n) v = of_nat (v div 256 ^ n) # be_bytes n v"

lemma length_be_bytes [simp]: "length (be_bytes n v) = n"
  by (induction n) simp_all

lemma unat_u8_less [simp]: "unat (b :: u8) < 256"
  using unsigned_less [of b, where ?'a = nat] by simp

lemma be_value_less: "be_value bs < 256 ^ length bs"
proof (induction bs)
  case (Cons b bs)
  have "unat b * 256 ^ length bs + be_value bs < (unat b + 1) * 256 ^ length bs"
    using Cons by simp
  also have "\<dots> \<le> 256 * 256 ^ length bs"
    using unat_u8_less [of b] by (intro mult_right_mono) (simp_all add: Suc_le_eq)
  finally show ?case by simp
qed simp

lemma be_bytes_mod: "be_bytes n (v mod 256 ^ n) = be_bytes n v"
proof -
  have "be_bytes k (v mod 256 ^ n) = be_bytes k v" if "k \<le> n" for k
    using that
  proof (induction k)
    case (Suc k)
    obtain d where n: "n = k + Suc d" using Suc.prems by (metis add_Suc_right le_iff_add add_Suc)
    have "v mod 256 ^ n div 256 ^ k = v div 256 ^ k mod 256 ^ Suc d"
      by (simp only: n power_add div_mult2_eq mod_mult2_eq) (simp add: algebra_simps)
    then have "(of_nat (v mod 256 ^ n div 256 ^ k) :: u8) = of_nat (v div 256 ^ k mod 256 ^ Suc d)"
      by simp
    also have "\<dots> = of_nat (v div 256 ^ k)"
      by (simp add: word_unat_eq_iff unat_of_nat mod_mod_cancel)
    finally show ?case using Suc by simp
  qed simp
  then show ?thesis by simp
qed

lemma be_value_be_bytes: "be_value (be_bytes n v) = v mod 256 ^ n"
proof (induction n)
  case (Suc n)
  have "unat (of_nat (v div 256 ^ n) :: u8) = v div 256 ^ n mod 256"
    by (simp add: unat_of_nat)
  moreover have "v mod (256 ^ n * 256) = 256 ^ n * (v div 256 ^ n mod 256) + v mod 256 ^ n"
    by (rule mod_mult2_eq)
  ultimately show ?case using Suc by (simp add: mult.commute)
qed simp

lemma be_bytes_add_mult: "be_bytes n (k * 256 ^ n + v) = be_bytes n v"
  by (metis be_bytes_mod mod_mult_self3)

lemma be_bytes_be_value: "be_bytes (length bs) (be_value bs) = bs"
proof (induction bs)
  case (Cons b bs)
  have "(unat b * 256 ^ length bs + be_value bs) div 256 ^ length bs = unat b"
    using be_value_less [of bs] by simp
  then show ?case using Cons by (simp add: be_bytes_add_mult)
qed simp

text \<open>
  \<^verbatim>\<open>to_be_bytes\<close>, \<^verbatim>\<open>from_be_bytes\<close>, \<^verbatim>\<open>to_le_bytes\<close> and \<^verbatim>\<open>from_le_bytes\<close> at any width
  that is a multiple of eight bits.
\<close>

definition to_be_bytes :: "'w::len word \<Rightarrow> bytes" where
  "to_be_bytes w = be_bytes (LENGTH('w) div 8) (unat w)"

definition from_be_bytes :: "bytes \<Rightarrow> 'w::len word" where
  "from_be_bytes bs = of_nat (be_value bs)"

definition to_le_bytes :: "'w::len word \<Rightarrow> bytes" where
  "to_le_bytes w = rev (to_be_bytes w)"

definition from_le_bytes :: "bytes \<Rightarrow> 'w::len word" where
  "from_le_bytes bs = from_be_bytes (rev bs)"

lemma length_to_be_bytes [simp]: "length (to_be_bytes (w :: 'w::len word)) = LENGTH('w) div 8"
  by (simp add: to_be_bytes_def)

lemma length_to_le_bytes [simp]: "length (to_le_bytes (w :: 'w::len word)) = LENGTH('w) div 8"
  by (simp add: to_le_bytes_def)

lemma width_in_bytes: "8 dvd LENGTH('w::len) \<Longrightarrow> (256::nat) ^ (LENGTH('w) div 8) = 2 ^ LENGTH('w)"
proof (elim dvdE)
  fix k assume k: "LENGTH('w) = 8 * k"
  have "(256::nat) ^ k = (2 ^ 8) ^ k" by simp
  then show ?thesis by (simp only: k power_mult) simp
qed

lemma from_to_be_bytes [simp]:
  "8 dvd LENGTH('w) \<Longrightarrow> from_be_bytes (to_be_bytes w) = (w :: 'w::len word)"
  by (simp add: from_be_bytes_def to_be_bytes_def be_value_be_bytes width_in_bytes)

lemma to_from_be_bytes:
  assumes "8 dvd LENGTH('w)" and "length bs = LENGTH('w) div 8"
  shows "to_be_bytes (from_be_bytes bs :: 'w::len word) = bs"
proof -
  have "be_value bs < 2 ^ LENGTH('w)"
    using be_value_less [of bs] assms by (simp add: width_in_bytes)
  then have "unat (of_nat (be_value bs) :: 'w word) = be_value bs"
    by (simp add: unat_of_nat)
  then show ?thesis
    using be_bytes_be_value [of bs] assms by (simp add: from_be_bytes_def to_be_bytes_def)
qed

lemma from_to_le_bytes [simp]:
  "8 dvd LENGTH('w) \<Longrightarrow> from_le_bytes (to_le_bytes w) = (w :: 'w::len word)"
  by (simp add: from_le_bytes_def to_le_bytes_def)

lemma to_from_le_bytes:
  "8 dvd LENGTH('w) \<Longrightarrow> length bs = LENGTH('w) div 8 \<Longrightarrow>
   to_le_bytes (from_le_bytes bs :: 'w::len word) = bs"
  by (simp add: from_le_bytes_def to_le_bytes_def to_from_be_bytes)

lemma to_be_bytes_inject:
  "8 dvd LENGTH('w) \<Longrightarrow> to_be_bytes (v :: 'w::len word) = to_be_bytes w \<longleftrightarrow> v = w"
  by (metis from_to_be_bytes)

lemma to_le_bytes_inject:
  "8 dvd LENGTH('w) \<Longrightarrow> to_le_bytes (v :: 'w::len word) = to_le_bytes w \<longleftrightarrow> v = w"
  by (metis from_to_le_bytes)

section \<open>Lists\<close>

lemma take_append_split:
  "take k (xs @ ys) = (if k < length xs then take k xs else xs @ take (k - length xs) ys)"
  by simp

lemma find_Some_iff_first:
  "find P xs = Some x \<Longrightarrow> x \<in> set xs \<and> P x"
  by (auto simp: find_Some_iff)

section \<open>Numbers in text\<close>

definition digit :: "nat \<Rightarrow> char" where
  "digit n = char_of (48 + n)"

text \<open>\<^verbatim>\<open>Display\<close> of an unsigned integer.\<close>

fun decimal :: "nat \<Rightarrow> string" where
  "decimal n = (if n < 10 then [digit n] else decimal (n div 10) @ [digit (n mod 10)])"

declare decimal.simps [simp del]

definition is_digit :: "char \<Rightarrow> bool" where
  "is_digit c \<longleftrightarrow> 48 \<le> (of_char c :: nat) \<and> (of_char c :: nat) \<le> 57"

definition digit_value :: "char \<Rightarrow> nat" where
  "digit_value c = of_char c - 48"

text \<open>\<^verbatim>\<open>str::parse::<u16>\<close>: a plus sign may come first; the sums grow, so it is enough to look at the last.\<close>

definition parse_u16 :: "string \<Rightarrow> u16 option" where
  "parse_u16 s =
     (let ds = (if s \<noteq> [] \<and> hd s = CHR ''+'' then tl s else s) in
      if ds = [] \<or> \<not> list_all is_digit ds then None
      else
        (let n = foldl (\<lambda>n c. n * 10 + digit_value c) 0 ds in
         if n < 2 ^ 16 then Some (of_nat n) else None))"

definition split_once :: "char \<Rightarrow> string \<Rightarrow> (string \<times> string) option" where
  "split_once c s = (if c \<in> set s then Some (takeWhile (\<lambda>x. x \<noteq> c) s, tl (dropWhile (\<lambda>x. x \<noteq> c) s)) else None)"

text \<open>The bytes of a text, whose characters are the bytes of its encoding.\<close>

definition string_bytes :: "string \<Rightarrow> bytes" where
  "string_bytes s = map of_char s"

lemma digit_eval:
  "digit 0 = CHR ''0''" "digit (Suc 0) = CHR ''1''" "digit 2 = CHR ''2''" "digit 3 = CHR ''3''" "digit 4 = CHR ''4''"
  "digit 5 = CHR ''5''" "digit 6 = CHR ''6''" "digit 7 = CHR ''7''" "digit 8 = CHR ''8''" "digit 9 = CHR ''9''"
  by (simp_all add: digit_def char_of_def bit_iff_odd)

end
