(* ===== verification/Xdr_Codec.thy ===== *)
theory Xdr_Codec
  imports Prelude
begin

text \<open>
  The XDR codec of \<^verbatim>\<open>nfs3_types/src/xdr_codec\<close>: the error type, the padding arithmetic
  of \<^verbatim>\<open>util.rs\<close>, the \<^verbatim>\<open>Pack\<close> and \<^verbatim>\<open>Unpack\<close> traits as a record of functions (the
  dictionary of a type's implementation), the implementations for the primitive types, for
  \<^verbatim>\<open>Opaque\<close>, \<^verbatim>\<open>List<T>\<close> and \<^verbatim>\<open>Void\<close>, and the size-limited \<^verbatim>\<open>BoundedList\<close>.

  The locale \<open>xdr_codec\<close> states what a client of the traits relies on: the byte count
  that \<^verbatim>\<open>pack\<close> returns is the number of bytes it appended and is \<^verbatim>\<open>packed_size\<close>, it is a
  multiple of four, \<^verbatim>\<open>unpack\<close> inverts \<^verbatim>\<open>pack\<close> and leaves what follows unread, a truncated
  encoding is refused.  \<open>xdr_codec_total\<close> adds that every decoded value can be encoded.
  Each implementation is interpreted in them.
\<close>

unbundle bit_operations_syntax

section \<open>Errors, reads and writes\<close>

datatype io_error = UnexpectedEof | OtherIo

datatype xdr_error =
    Io io_error
  | InvalidEnumValue u32
  | InvalidLength nat
  | ObjectTooLarge nat

text \<open>
  All readers and writers of the program are in-memory: a \<^verbatim>\<open>Vec<u8>\<close> or a
  \<^verbatim>\<open>Cursor\<close>.  Writing appends and cannot fail; an exact read fails when the rest of the
  input is too short.
\<close>

definition write_all :: "bytes \<Rightarrow> bytes \<Rightarrow> bytes" where
  "write_all out bs = out @ bs"

definition read_exact :: "nat \<Rightarrow> bytes \<Rightarrow> xdr_error + bytes \<times> bytes" where
  "read_exact n i =
     (if n \<le> length i then Ok (take n i, drop n i) else Err (Io UnexpectedEof))"

section \<open>Padding (util.rs)\<close>

definition add_padding :: "usize \<Rightarrow> usize" where
  "add_padding sz = (sz + 3) AND NOT 3"

definition get_padding :: "usize \<Rightarrow> usize" where
  "get_padding len = (- len) AND 3"

definition zero_padding :: "usize \<Rightarrow> bytes" where
  "zero_padding len = take (unat (get_padding len)) [0, 0, 0]"

section \<open>The traits (traits.rs)\<close>

record 'a codec =
  packed_size :: "'a \<Rightarrow> nat"
  pack :: "'a \<Rightarrow> bytes \<Rightarrow> xdr_error + nat \<times> bytes"
  unpack :: "bytes \<Rightarrow> xdr_error + 'a \<times> nat \<times> bytes"

section \<open>Primitive types (primitives.rs)\<close>

definition u32_codec :: "u32 codec" where
  "u32_codec = \<lparr>
     packed_size = (\<lambda>_. 4),
     pack = (\<lambda>w out. Ok (4, write_all out (to_be_bytes w))),
     unpack = (\<lambda>i. and_then (read_exact 4 i) (\<lambda>(bs, r). Ok (from_be_bytes bs, 4, r))) \<rparr>"

definition u64_codec :: "u64 codec" where
  "u64_codec = \<lparr>
     packed_size = (\<lambda>_. 8),
     pack = (\<lambda>w out. Ok (8, write_all out (to_be_bytes w))),
     unpack = (\<lambda>i. and_then (read_exact 8 i) (\<lambda>(bs, r). Ok (from_be_bytes bs, 8, r))) \<rparr>"

definition bool_codec :: "bool codec" where
  "bool_codec = \<lparr>
     packed_size = (\<lambda>_. 4),
     pack = (\<lambda>b out. pack u32_codec (if b then 1 else 0) out),
     unpack = (\<lambda>i. and_then (unpack u32_codec i) (\<lambda>(val, n, r).
       if val = 0 then Ok (False, n, r)
       else if val = 1 then Ok (True, n, r)
       else Err (InvalidEnumValue val))) \<rparr>"

text \<open>\<^verbatim>\<open>u32::try_from(len)\<close> for a length.\<close>

definition u32_try_from :: "nat \<Rightarrow> u32 option" where
  "u32_try_from n = (if n < 2 ^ 32 then Some (of_nat n) else None)"

fun vec_u32_pack_items :: "u32 list \<Rightarrow> bytes \<Rightarrow> xdr_error + nat \<times> bytes" where
  "vec_u32_pack_items [] out = Ok (0, out)"
| "vec_u32_pack_items (x # xs) out =
     and_then (pack u32_codec x out) (\<lambda>(n, out1).
       and_then (vec_u32_pack_items xs out1) (\<lambda>(m, out2). Ok (n + m, out2)))"

fun vec_u32_unpack_items :: "nat \<Rightarrow> bytes \<Rightarrow> xdr_error + u32 list \<times> nat \<times> bytes" where
  "vec_u32_unpack_items 0 i = Ok ([], 0, i)"
| "vec_u32_unpack_items (Suc k) i =
     and_then (unpack u32_codec i) (\<lambda>(x, n, i1).
       and_then (vec_u32_unpack_items k i1) (\<lambda>(xs, m, i2). Ok (x # xs, n + m, i2)))"

definition vec_u32_codec :: "u32 list codec" where
  "vec_u32_codec = \<lparr>
     packed_size = (\<lambda>xs. 4 + length xs * 4),
     pack = (\<lambda>xs out.
       case u32_try_from (length xs) of
         None \<Rightarrow> Err (ObjectTooLarge (length xs))
       | Some len \<Rightarrow> and_then (pack u32_codec len out) (\<lambda>(n, out1).
           and_then (vec_u32_pack_items xs out1) (\<lambda>(m, out2). Ok (n + m, out2)))),
     unpack = (\<lambda>i. and_then (unpack u32_codec i) (\<lambda>(len, n, i1).
       and_then (vec_u32_unpack_items (unat len) i1) (\<lambda>(xs, m, i2). Ok (xs, n + m, i2)))) \<rparr>"

text \<open>Fixed arrays \<^verbatim>\<open>[u8; N]\<close>: the bytes, then zero bytes up to a multiple of four.\<close>

definition unpack_padding :: "nat \<Rightarrow> bytes \<Rightarrow> xdr_error + nat \<times> bytes" where
  "unpack_padding len i =
     (let pad = unat (get_padding (of_nat len)) in
      if pad > 0 then and_then (read_exact pad i) (\<lambda>(_, r). Ok (pad, r)) else Ok (0, i))"

definition u8_array_codec :: "'n::len u8_array codec" where
  "u8_array_codec = \<lparr>
     packed_size = (\<lambda>_. unat (add_padding (of_nat LENGTH('n)))),
     pack = (\<lambda>a out.
       let padding = zero_padding (of_nat LENGTH('n)) in
       Ok (LENGTH('n) + length padding, write_all (write_all out (array_bytes a)) padding)),
     unpack = (\<lambda>i. and_then (read_exact LENGTH('n) i) (\<lambda>(bs, i1).
       and_then (unpack_padding LENGTH('n) i1) (\<lambda>(m, i2). Ok (Array bs, LENGTH('n) + m, i2)))) \<rparr>"

section \<open>Opaque data (opaque.rs)\<close>

type_synonym opaque = bytes

definition opaque_codec :: "opaque codec" where
  "opaque_codec = \<lparr>
     packed_size = (\<lambda>x. 4 + unat (add_padding (of_nat (length x)))),
     pack = (\<lambda>x out.
       case u32_try_from (length x) of
         None \<Rightarrow> Err (ObjectTooLarge (length x))
       | Some len \<Rightarrow> and_then (pack u32_codec len out) (\<lambda>(n, out1).
           let padding = zero_padding (of_nat (length x)) in
           Ok (n + length x + length padding, write_all (write_all out1 x) padding))),
     unpack = (\<lambda>i. and_then (unpack u32_codec i) (\<lambda>(len, n, i1).
       and_then (read_exact (unat len) i1) (\<lambda>(buf, i2).
         and_then (unpack_padding (unat len) i2) (\<lambda>(m, i3).
           Ok (buf, n + unat len + m, i3))))) \<rparr>"

section \<open>Void (void.rs)\<close>

definition void_codec :: "unit codec" where
  "void_codec = \<lparr>
     packed_size = (\<lambda>_. 0),
     pack = (\<lambda>_ out. Ok (0, out)),
     unpack = (\<lambda>i. Ok ((), 0, i)) \<rparr>"

section \<open>Optional-linked lists (list.rs)\<close>

fun list_packed_size :: "'a codec \<Rightarrow> 'a list \<Rightarrow> nat" where
  "list_packed_size c [] = packed_size bool_codec False"
| "list_packed_size c (x # xs) =
     packed_size bool_codec True + packed_size c x + list_packed_size c xs"

fun list_pack :: "'a codec \<Rightarrow> 'a list \<Rightarrow> bytes \<Rightarrow> xdr_error + nat \<times> bytes" where
  "list_pack c [] out = pack bool_codec False out"
| "list_pack c (x # xs) out =
     and_then (pack bool_codec True out) (\<lambda>(n1, out1).
       and_then (pack c x out1) (\<lambda>(n2, out2).
         and_then (list_pack c xs out2) (\<lambda>(n3, out3). Ok (n1 + n2 + n3, out3))))"

text \<open>
  The decoding loop runs until a false marker.  Each round reads four bytes for its marker,
  so \<open>length i + 1\<close> rounds are enough for the input \<open>i\<close>; the lemma
  \<open>list_unpack_unfold\<close> below shows that the bound is never felt.
\<close>

fun list_unpack_loop :: "'a codec \<Rightarrow> nat \<Rightarrow> bytes \<Rightarrow> xdr_error + 'a list \<times> nat \<times> bytes" where
  "list_unpack_loop c 0 i = Err (Io UnexpectedEof)"
| "list_unpack_loop c (Suc fuel) i =
     and_then (unpack bool_codec i) (\<lambda>(more, n1, i1).
       if \<not> more then Ok ([], n1, i1)
       else and_then (unpack c i1) (\<lambda>(x, n2, i2).
         and_then (list_unpack_loop c fuel i2) (\<lambda>(xs, n3, i3).
           Ok (x # xs, n1 + n2 + n3, i3))))"

definition list_codec :: "'a codec \<Rightarrow> 'a list codec" where
  "list_codec c = \<lparr>
     packed_size = list_packed_size c,
     pack = list_pack c,
     unpack = (\<lambda>i. list_unpack_loop c (Suc (length i)) i) \<rparr>"

record 'a bounded_list =
  bl_list :: "'a list"
  current_size :: nat
  max_size :: nat

definition bounded_list_new :: "'a codec \<Rightarrow> nat \<Rightarrow> 'a bounded_list" where
  "bounded_list_new c mx =
     \<lparr> bl_list = [], current_size = packed_size (list_codec c) [], max_size = mx \<rparr>"

definition try_push :: "'a codec \<Rightarrow> 'a \<Rightarrow> 'a bounded_list \<Rightarrow> ('a + unit) \<times> 'a bounded_list" where
  "try_push c item bl =
     (let item_size = packed_size c item + 4 in
      if current_size bl + item_size > max_size bl then (Err item, bl)
      else (Ok (), bl\<lparr> bl_list := bl_list bl @ [item],
                       current_size := current_size bl + item_size \<rparr>))"

definition bounded_list_into_inner :: "'a bounded_list \<Rightarrow> 'a list" where
  "bounded_list_into_inner bl = bl_list bl"

section \<open>The contract of a codec\<close>

locale xdr_codec =
  fixes c :: "'a codec"
  assumes pack_appends: "pack c x out = map_ok (\<lambda>(n, bs). (n, out @ bs)) (pack c x [])"
    and pack_size: "pack c x [] = Ok (n, bs) \<Longrightarrow> n = length bs \<and> n = packed_size c x"
    and size_aligned: "4 dvd packed_size c x"
    and unpack_pack: "pack c x [] = Ok (n, bs) \<Longrightarrow> unpack c (bs @ rest) = Ok (x, n, rest)"
    and unpack_consumes:
      "unpack c i = Ok (x, n, rest) \<Longrightarrow> n = packed_size c x \<and> n \<le> length i \<and> rest = drop n i"
    and unpack_truncated:
      "pack c x [] = Ok (n, bs) \<Longrightarrow> k < n \<Longrightarrow> unpack c (take k bs) = Err (Io UnexpectedEof)"
begin

lemma pack_into: "pack c x [] = Ok (n, bs) \<Longrightarrow> pack c x out = Ok (n, out @ bs)"
  by (subst pack_appends) simp

lemma pack_intoD: "pack c x out = Ok (n, out') \<Longrightarrow> \<exists>bs. pack c x [] = Ok (n, bs) \<and> out' = out @ bs"
  by (subst (asm) pack_appends) (auto simp: result_simps)

lemma pack_into_Err: "pack c x [] = Err e \<Longrightarrow> pack c x out = Err e"
  by (subst pack_appends) simp

text \<open>No encoding is a prefix of the encoding of another value.\<close>

lemma encoding_prefix_free:
  assumes "pack c x [] = Ok (n, bs)" and "pack c y [] = Ok (m, bs @ t)"
  shows "x = y \<and> t = []"
proof -
  have x: "unpack c (bs @ t) = Ok (x, n, t)" using unpack_pack [OF assms(1)] .
  have y: "unpack c (bs @ t) = Ok (y, m, [])" using unpack_pack [OF assms(2), of "[]"] by simp
  from x y show ?thesis by simp
qed

lemma unpack_shrinks: "unpack c i = Ok (x, n, rest) \<Longrightarrow> length rest \<le> length i"
  using unpack_consumes by fastforce

lemma pack_unpack_aligned: "unpack c i = Ok (x, n, rest) \<Longrightarrow> 4 dvd n"
  using unpack_consumes size_aligned by fastforce

end

text \<open>
  Some types have values whose encoding reads as another value.  For them the laws hold on
  the values that \<open>representable\<close> picks out, and decoding gives only such values.
\<close>

locale xdr_codec_on =
  fixes c :: "'a codec" and representable :: "'a \<Rightarrow> bool"
  assumes pack_appends: "pack c x out = map_ok (\<lambda>(n, bs). (n, out @ bs)) (pack c x [])"
    and pack_size: "pack c x [] = Ok (n, bs) \<Longrightarrow> n = length bs \<and> n = packed_size c x"
    and size_aligned: "4 dvd packed_size c x"
    and unpack_pack:
      "representable x \<Longrightarrow> pack c x [] = Ok (n, bs) \<Longrightarrow> unpack c (bs @ rest) = Ok (x, n, rest)"
    and unpack_consumes:
      "unpack c i = Ok (x, n, rest) \<Longrightarrow>
         n = packed_size c x \<and> n \<le> length i \<and> rest = drop n i \<and> representable x"

sublocale xdr_codec \<subseteq> unrestricted: xdr_codec_on c "\<lambda>_. True"
  by unfold_locales
     (rule pack_appends, simp_all add: pack_size size_aligned unpack_pack unpack_consumes)

locale xdr_codec_total = xdr_codec +
  assumes unpack_packable: "unpack c i = Ok (x, n, rest) \<Longrightarrow> \<exists>bs. pack c x [] = Ok (n, bs)"
begin

lemma reencode:
  assumes "unpack c i = Ok (x, n, rest)"
  shows "\<exists>bs. pack c x [] = Ok (n, bs) \<and> length bs = n \<and> unpack c (bs @ rest) = Ok (x, n, rest)"
  using unpack_packable [OF assms] unpack_pack pack_size by blast

end

lemma total_codec_xdr: "xdr_codec_total c \<Longrightarrow> xdr_codec c"
  by (simp add: xdr_codec_total_def)

section \<open>Padding arithmetic\<close>

lemma pad_arith:
  assumes "(a + b) mod 4 = 0"
  shows "a mod 4 = (4 - b mod 4) mod (4::nat)"
proof -
  have "4 dvd a mod 4 + b mod 4" using assms by (simp add: mod_add_eq dvd_eq_mod_eq_0)
  then obtain k where k: "a mod 4 + b mod 4 = 4 * k" ..
  have "a mod 4 < 4" "b mod 4 < 4" by simp_all
  with k have "k = 0 \<or> k = 1" by linarith
  with k \<open>a mod 4 < 4\<close> show ?thesis by (cases "b mod 4 = 0") auto
qed

lemma round_up_arith: "4 * ((s + 3) div 4) = s + (4 - s mod 4) mod (4::nat)"
proof -
  obtain q r where s: "s = 4 * q + r" "r < 4" by (metis mod_less_divisor mult_div_mod_eq zero_less_numeral)
  then have "r = 0 \<or> r = 1 \<or> r = 2 \<or> r = 3" by auto
  then show ?thesis using s by auto
qed

lemma and_3: "(x :: usize) AND 3 = take_bit 2 x"
  by (simp add: take_bit_eq_mask mask_eq_exp_minus_1)

lemma unat_get_padding: "unat (get_padding len) = (4 - unat len mod 4) mod 4"
proof -
  have "(unat (- len) + unat len) mod 2 ^ 64 = unat (- len + len)"
    by (simp only: unat_word_ariths) simp
  then have "(unat (- len) + unat len) mod 2 ^ 64 mod 4 = 0" by simp
  then have "(unat (- len) + unat len) mod 4 = 0" by (simp add: mod_mod_cancel)
  then have "unat (- len) mod 4 = (4 - unat len mod 4) mod 4" by (rule pad_arith)
  moreover have "unat (get_padding len) = take_bit 2 (unat (- len))"
    by (simp only: get_padding_def and_3 unsigned_take_bit_eq)
  ultimately show ?thesis by (simp add: take_bit_eq_mod)
qed

lemma and_not_3: "(x :: usize) AND NOT 3 = push_bit 2 (drop_bit 2 x)"
proof -
  have "(x :: usize) AND NOT 3 = x AND NOT (mask 2)" by (simp add: mask_eq_exp_minus_1)
  also have "\<dots> = push_bit 2 (drop_bit 2 x)"
    by (rule bit_word_eqI) (auto simp: bit_simps not_less le_add_diff_inverse simp flip: add_2_eq_Suc)
  finally show ?thesis .
qed

lemma unat_and_not_3: "unat ((x :: usize) AND NOT 3) = 4 * (unat x div 4)"
proof -
  have x: "unat x < 2 ^ 64" using unsigned_less [of x, where ?'a = nat] by simp
  have "4 * (unat x div 4) \<le> unat x" by simp
  with x have less: "4 * (unat x div 4) < 2 ^ 64" by linarith
  have "unat (x AND NOT 3) = 4 * (unat x mod 2 ^ 64 div 4) mod 2 ^ 64"
    by (simp only: and_not_3 unsigned_push_bit_eq unsigned_drop_bit_eq)
      (simp add: push_bit_eq_mult drop_bit_eq_div mult.commute take_bit_eq_mod)
  also have "\<dots> = 4 * (unat x div 4)" using x less by (simp only: mod_less)
  finally show ?thesis .
qed

lemma unat_add_padding:
  assumes "unat sz + 3 < 2 ^ 64"
  shows "unat (add_padding sz) = unat sz + unat (get_padding sz)"
proof -
  have "unat (sz + 3) = unat sz + 3"
    using assms by (subst unat_word_ariths) simp
  then have "unat (add_padding sz) = 4 * ((unat sz + 3) div 4)"
    by (simp only: add_padding_def unat_and_not_3)
  then show ?thesis by (simp only: unat_get_padding round_up_arith)
qed

lemma unat_of_nat_u64 [simp]: "n < 2 ^ 64 \<Longrightarrow> unat (of_nat n :: u64) = n"
  by (simp add: unat_of_nat)

text \<open>The number of zero bytes that bring a length to a multiple of four.\<close>

definition pad4 :: "nat \<Rightarrow> nat" where
  "pad4 n = (4 - n mod 4) mod 4"

lemma get_padding_of_nat:
  "unat (get_padding (of_nat n)) = pad4 n"
proof -
  have "unat (of_nat n :: usize) mod 4 = n mod 4"
    by (simp add: unat_of_nat mod_mod_cancel)
  then show ?thesis by (simp only: unat_get_padding pad4_def)
qed

lemma length_zero_padding: "length (zero_padding len) = unat (get_padding len)"
  by (simp add: zero_padding_def unat_get_padding)

lemma add_padding_of_nat:
  "n < 2 ^ 63 \<Longrightarrow> unat (add_padding (of_nat n)) = n + pad4 n"
  by (subst unat_add_padding) (simp_all add: get_padding_of_nat)

lemma add_padding_aligned: "4 dvd unat (add_padding sz)"
  by (simp only: add_padding_def unat_and_not_3) simp

section \<open>The primitive codecs are lawful\<close>

lemma read_exact_append [simp]: "length xs = n \<Longrightarrow> read_exact n (xs @ ys) = Ok (xs, ys)"
  by (simp add: read_exact_def)

lemma read_exact_short [simp]: "length xs < n \<Longrightarrow> read_exact n xs = Err (Io UnexpectedEof)"
  by (simp add: read_exact_def)

lemma read_exact_eq_Ok [result_simps]:
  "read_exact n i = Ok (a, b) \<longleftrightarrow> n \<le> length i \<and> a = take n i \<and> b = drop n i"
  by (auto simp: read_exact_def)

lemma word_codec_lawful:
  fixes c :: "'w::len word codec"
  assumes w: "8 dvd LENGTH('w)" "LENGTH('w) div 8 = s" "4 dvd s"
    and "packed_size c = (\<lambda>_. s)"
    and "pack c = (\<lambda>w out. Ok (s, write_all out (to_be_bytes w)))"
    and "unpack c = (\<lambda>i. and_then (read_exact s i) (\<lambda>(bs, r). Ok (from_be_bytes bs, s, r)))"
  shows "xdr_codec_total c"
  by unfold_locales (use assms in \<open>auto simp: write_all_def result_simps\<close>)

lemma u32_codec_lawful [codec_intros]: "xdr_codec_total u32_codec"
  by (rule word_codec_lawful) (simp_all add: u32_codec_def)

lemma u64_codec_lawful [codec_intros]: "xdr_codec_total u64_codec"
  by (rule word_codec_lawful) (simp_all add: u64_codec_def)

interpretation u32: xdr_codec_total u32_codec
  by (rule u32_codec_lawful)

interpretation u64: xdr_codec_total u64_codec
  by (rule u64_codec_lawful)

lemma u32_pack [simp]: "pack u32_codec w out = Ok (4, out @ to_be_bytes w)"
  by (simp add: u32_codec_def write_all_def)

lemma u32_unpack [simp]: "unpack u32_codec (to_be_bytes w @ r) = Ok (w, 4, r)"
  by (simp add: u32_codec_def)

lemma u32_unpack_short [simp]: "length i < 4 \<Longrightarrow> unpack u32_codec i = Err (Io UnexpectedEof)"
  by (simp add: u32_codec_def)

lemma u32_unpack_eq_Ok:
  "unpack u32_codec i = Ok (w, n, r) \<longleftrightarrow>
     n = 4 \<and> 4 \<le> length i \<and> i = to_be_bytes w @ r"
  by (auto simp: u32_codec_def result_simps to_from_be_bytes)

lemma u32_sizes [simp]: "packed_size u32_codec w = 4" "packed_size u64_codec v = 8"
  "packed_size bool_codec b = 4" "packed_size void_codec u = 0"
  by (simp_all add: u32_codec_def u64_codec_def bool_codec_def void_codec_def)

lemma bool_codec_lawful [codec_intros]: "xdr_codec_total bool_codec"
  by unfold_locales
     (auto simp: bool_codec_def result_simps u32_unpack_eq_Ok intro: exI [of _ "0::u32"] split: if_splits)

interpretation bool: xdr_codec_total bool_codec
  by (rule bool_codec_lawful)

lemma void_codec_lawful [codec_intros]: "xdr_codec_total void_codec"
  by unfold_locales (simp_all add: void_codec_def)

interpretation void: xdr_codec_total void_codec
  by (rule void_codec_lawful)

subsection \<open>Vectors of integers\<close>

lemma vec_u32_pack_items [simp]:
  "vec_u32_pack_items xs out = Ok (4 * length xs, out @ concat (map to_be_bytes xs))"
  by (induction xs arbitrary: out) simp_all

lemma vec_u32_unpack_items [simp]:
  "vec_u32_unpack_items (length xs) (concat (map to_be_bytes xs) @ r) = Ok (xs, 4 * length xs, r)"
  by (induction xs) simp_all

lemma vec_u32_unpack_items_Ok:
  "vec_u32_unpack_items k i = Ok (xs, n, r) \<Longrightarrow>
     length xs = k \<and> n = 4 * k \<and> 4 * k \<le> length i \<and> r = drop n i"
  by (induction k arbitrary: i xs n r) (force simp: result_simps u32_unpack_eq_Ok)+

lemma vec_u32_unpack_items_short:
  "length i < 4 * k \<Longrightarrow> vec_u32_unpack_items k i = Err (Io UnexpectedEof)"
proof (induction k arbitrary: i)
  case (Suc k)
  show ?case
  proof (cases "unpack u32_codec i")
    case (Inl e)
    then have "e = Io UnexpectedEof" by (auto simp: u32_codec_def read_exact_def split: if_splits)
    with Inl show ?thesis by simp
  next
    case (Inr y)
    then obtain w n r where y: "unpack u32_codec i = Ok (w, n, r)" by (cases y) auto
    then have "i = to_be_bytes w @ r" by (simp add: u32_unpack_eq_Ok)
    with Suc.prems have "length r < 4 * k" by simp
    with y Suc.IH [of r] show ?thesis by simp
  qed
qed simp

lemma length_concat_be_bytes [simp]: "length (concat (map to_be_bytes (xs :: u32 list))) = 4 * length xs"
  by (induction xs) simp_all

lemma u32_try_from_Some [simp]: "n < 2 ^ 32 \<Longrightarrow> u32_try_from n = Some (of_nat n)"
  by (simp add: u32_try_from_def)

lemma unat_of_nat_u32 [simp]: "n < 2 ^ 32 \<Longrightarrow> unat (of_nat n :: u32) = n"
  by (simp add: unat_of_nat)

lemma unat_u32_less [simp]: "unat (w :: u32) < 4294967296"
  using unsigned_less [of w, where ?'a = nat] by simp

lemma vec_u32_pack:
  "pack vec_u32_codec xs out =
     (if length xs < 2 ^ 32
      then Ok (4 + 4 * length xs, out @ to_be_bytes (of_nat (length xs) :: u32) @ concat (map to_be_bytes xs))
      else Err (ObjectTooLarge (length xs)))"
  by (simp add: vec_u32_codec_def u32_try_from_def)

lemma vec_u32_unpack:
  "unpack vec_u32_codec i = and_then (unpack u32_codec i) (\<lambda>(len, n, i1).
     and_then (vec_u32_unpack_items (unat len) i1) (\<lambda>(xs, m, i2). Ok (xs, n + m, i2)))"
  by (simp add: vec_u32_codec_def)

lemma vec_u32_packed_size [simp]: "packed_size vec_u32_codec xs = 4 + 4 * length xs"
  by (simp add: vec_u32_codec_def)

lemma vec_u32_codec_lawful [codec_intros]: "xdr_codec_total vec_u32_codec"
proof unfold_locales
  fix x :: "u32 list" and k n :: nat and bs :: bytes
  assume p: "pack vec_u32_codec x [] = Ok (n, bs)" and k: "k < n"
  show "unpack vec_u32_codec (take k bs) = Err (Io UnexpectedEof)"
  proof (cases "k < 4")
    case False
    with p k show ?thesis
      by (auto simp: vec_u32_pack vec_u32_unpack take_append_split vec_u32_unpack_items_short
          split: if_splits)
  qed (use p in \<open>auto simp: vec_u32_unpack\<close>)
qed (auto simp: vec_u32_pack vec_u32_unpack result_simps u32_unpack_eq_Ok
    dest!: vec_u32_unpack_items_Ok split: if_splits)

interpretation vec_u32: xdr_codec_total vec_u32_codec
  by (rule vec_u32_codec_lawful)

subsection \<open>Opaque data and fixed arrays\<close>

lemma unpack_padding_eq_Ok:
  "unpack_padding n i = Ok (m, r) \<longleftrightarrow>
     m = pad4 n \<and> m \<le> length i \<and> r = drop m i"
  by (auto simp: unpack_padding_def Let_def get_padding_of_nat result_simps)

lemma unpack_padding_short:
  "length i < pad4 n \<Longrightarrow> unpack_padding n i = Err (Io UnexpectedEof)"
  by (simp add: unpack_padding_def Let_def get_padding_of_nat)

lemma length_zero_padding_of_nat [simp]:
  "length (zero_padding (of_nat n)) = pad4 n"
  by (simp add: length_zero_padding get_padding_of_nat)

lemma opaque_pack:
  "pack opaque_codec x out =
     (if length x < 2 ^ 32
      then Ok (4 + length x + pad4 (length x),
               out @ to_be_bytes (of_nat (length x) :: u32) @ x @ zero_padding (of_nat (length x)))
      else Err (ObjectTooLarge (length x)))"
  by (simp add: opaque_codec_def u32_try_from_def Let_def write_all_def)

lemma opaque_packed_size:
  "length x < 2 ^ 63 \<Longrightarrow> packed_size opaque_codec x = 4 + length x + pad4 (length x)"
  by (simp add: opaque_codec_def add_padding_of_nat)

lemma opaque_unpack:
  "unpack opaque_codec i = and_then (unpack u32_codec i) (\<lambda>(len, n, i1).
     and_then (read_exact (unat len) i1) (\<lambda>(buf, i2).
       and_then (unpack_padding (unat len) i2) (\<lambda>(m, i3). Ok (buf, n + unat len + m, i3))))"
  by (simp add: opaque_codec_def)

lemma opaque_unpackD:
  assumes "unpack opaque_codec i = Ok (x, n, r)"
  shows "length x < 2 ^ 32 \<and> n = 4 + length x + pad4 (length x) \<and> n \<le> length i \<and> r = drop n i"
proof -
  obtain w i1 where "i = to_be_bytes (w :: u32) @ i1" "unat w \<le> length i1"
    "x = take (unat w) i1" "pad4 (unat w) \<le> length i1 - unat w"
    "n = 4 + unat w + pad4 (unat w)" "r = drop (pad4 (unat w)) (drop (unat w) i1)"
    using assms
    by (auto simp: opaque_unpack result_simps u32_unpack_eq_Ok unpack_padding_eq_Ok)
  then show ?thesis by (auto simp: add.commute)
qed

lemma opaque_codec_lawful [codec_intros]: "xdr_codec_total opaque_codec"
proof unfold_locales
  fix x :: opaque and k n :: nat and bs :: bytes
  assume p: "pack opaque_codec x [] = Ok (n, bs)" and k: "k < n"
  from p have len: "length x < 2 ^ 32" and n: "n = 4 + length x + pad4 (length x)"
    and bs: "bs = to_be_bytes (of_nat (length x) :: u32) @ x @ zero_padding (of_nat (length x))"
    by (auto simp: opaque_pack split: if_splits)
  consider "k < 4" | "4 \<le> k" "k < 4 + length x" | "4 + length x \<le> k" by linarith
  then show "unpack opaque_codec (take k bs) = Err (Io UnexpectedEof)"
  proof cases
    case 1 then show ?thesis by (simp add: opaque_unpack)
  next
    case 2 then show ?thesis using len by (simp add: opaque_unpack bs take_append_split)
  next
    case 3
    then have "take k bs = to_be_bytes (of_nat (length x) :: u32) @ x @
        take (k - 4 - length x) (zero_padding (of_nat (length x)))"
      by (simp add: bs)
    moreover have "min (k - 4 - length x) (pad4 (length x)) < pad4 (length x)"
      using 3 k n by simp
    ultimately show ?thesis using len by (simp add: opaque_unpack unpack_padding_short)
  qed
next
  fix x :: opaque and n :: nat and bs rest :: bytes
  assume "pack opaque_codec x [] = Ok (n, bs)"
  then show "unpack opaque_codec (bs @ rest) = Ok (x, n, rest)"
    by (auto simp: opaque_pack opaque_unpack unpack_padding_eq_Ok result_simps split: if_splits)
next
  fix x :: opaque
  show "4 dvd packed_size opaque_codec x"
    by (simp add: opaque_codec_def add_padding_aligned)
qed (auto simp: opaque_pack opaque_packed_size dest: opaque_unpackD split: if_splits)

interpretation opaque: xdr_codec_total opaque_codec
  by (rule opaque_codec_lawful)

lemma u8_array_pack:
  "pack (u8_array_codec :: 'n::len u8_array codec) a out =
     Ok (LENGTH('n) + pad4 LENGTH('n), out @ array_bytes a @ zero_padding (of_nat LENGTH('n)))"
  by (simp add: u8_array_codec_def Let_def write_all_def)

lemma u8_array_unpack:
  "unpack (u8_array_codec :: 'n::len u8_array codec) i =
     and_then (read_exact LENGTH('n) i) (\<lambda>(bs, i1).
       and_then (unpack_padding LENGTH('n) i1) (\<lambda>(m, i2). Ok (Array bs, LENGTH('n) + m, i2)))"
  by (simp add: u8_array_codec_def)

lemma u8_array_packed_size:
  "LENGTH('n::len) < 2 ^ 63 \<Longrightarrow>
   packed_size (u8_array_codec :: 'n u8_array codec) a = LENGTH('n) + pad4 LENGTH('n)"
  by (simp add: u8_array_codec_def add_padding_of_nat)

lemma pad4_aligned: "4 dvd n + pad4 n"
  by (simp add: pad4_def round_up_arith [symmetric])

lemma u8_array_codec_lawful:
  assumes "LENGTH('n::len) < 2 ^ 63"
  shows "xdr_codec_total (u8_array_codec :: 'n u8_array codec)"
proof unfold_locales
  fix x :: "'n u8_array" and k n :: nat and bs :: bytes
  assume p: "pack u8_array_codec x [] = Ok (n, bs)" and k: "k < n"
  from p have n: "n = LENGTH('n) + pad4 LENGTH('n)"
    and bs: "bs = array_bytes x @ zero_padding (of_nat LENGTH('n))"
    by (simp_all add: u8_array_pack)
  show "unpack (u8_array_codec :: 'n u8_array codec) (take k bs) = Err (Io UnexpectedEof)"
  proof (cases "k < LENGTH('n)")
    case True then show ?thesis by (simp add: u8_array_unpack)
  next
    case False
    then have "take k bs = array_bytes x @ take (k - LENGTH('n)) (zero_padding (of_nat LENGTH('n)))"
      by (simp add: bs)
    moreover have "min (k - LENGTH('n)) (pad4 LENGTH('n)) < pad4 LENGTH('n)"
      using False k n by simp
    ultimately show ?thesis by (simp add: u8_array_unpack unpack_padding_short)
  qed
qed (use assms in \<open>auto simp: u8_array_pack u8_array_unpack u8_array_packed_size result_simps
    unpack_padding_eq_Ok pad4_aligned add.commute\<close>)

lemma u8_array8_codec_lawful [codec_intros]: "xdr_codec_total (u8_array_codec :: 8 u8_array codec)"
  by (rule u8_array_codec_lawful) simp

interpretation u8_array8: xdr_codec_total "u8_array_codec :: 8 u8_array codec"
  by (rule u8_array8_codec_lawful)

lemma u8_array8_packed_size [simp]: "packed_size (u8_array_codec :: 8 u8_array codec) a = 8"
  by (simp add: u8_array_packed_size pad4_def)

subsection \<open>Lists\<close>

lemma bool_pack [simp]:
  "pack bool_codec b out = Ok (4, out @ to_be_bytes (if b then 1 else 0 :: u32))"
  by (simp add: bool_codec_def)

lemma bool_unpack [simp]:
  "unpack bool_codec (to_be_bytes (1 :: u32) @ r) = Ok (True, 4, r)"
  "unpack bool_codec (to_be_bytes (0 :: u32) @ r) = Ok (False, 4, r)"
  by (simp_all add: bool_codec_def)

lemma bool_unpack_short [simp]: "length i < 4 \<Longrightarrow> unpack bool_codec i = Err (Io UnexpectedEof)"
  by (simp add: bool_codec_def)

context xdr_codec
begin

lemma list_size_aligned: "4 dvd list_packed_size c xs"
  by (induction xs) (simp_all add: size_aligned dvd_add)

lemma list_pack_appends: "list_pack c xs out = map_ok (\<lambda>(n, bs). (n, out @ bs)) (list_pack c xs [])"
proof (induction xs arbitrary: out)
  case (Cons x xs)
  show ?case
  proof (cases "pack c x []")
    case (Inl e) show ?thesis by (simp add: pack_into_Err [OF Inl])
  next
    case (Inr y)
    then obtain n b where y: "pack c x [] = Ok (n, b)" by (cases y) simp
    have 1: "list_pack c xs (out @ to_be_bytes (1 :: u32) @ b) =
        map_ok (\<lambda>(n, bs). (n, (out @ to_be_bytes (1 :: u32) @ b) @ bs)) (list_pack c xs [])"
      and 2: "list_pack c xs (to_be_bytes (1 :: u32) @ b) =
        map_ok (\<lambda>(n, bs). (n, (to_be_bytes (1 :: u32) @ b) @ bs)) (list_pack c xs [])"
      by (rule Cons.IH)+
    show ?thesis
      by (cases "list_pack c xs []") (auto simp: pack_into [OF y] 1 2)
  qed
qed simp

lemma list_pack_Nil [simp]: "list_pack c [] [] = Ok (4, to_be_bytes (0 :: u32))"
  by simp

lemma list_pack_Cons:
  "list_pack c (x # xs) [] = Ok (n, bs) \<longleftrightarrow>
     (\<exists>n1 b1 n2 b2. pack c x [] = Ok (n1, b1) \<and> list_pack c xs [] = Ok (n2, b2) \<and>
        n = 4 + n1 + n2 \<and> bs = to_be_bytes (1 :: u32) @ b1 @ b2)"
  by (subst list_pack.simps, subst pack_appends, subst list_pack_appends)
     (auto simp: result_simps)

lemma list_pack_size:
  "list_pack c xs [] = Ok (n, bs) \<Longrightarrow> n = length bs \<and> n = list_packed_size c xs"
  by (induction xs arbitrary: n bs)
     (auto simp: list_pack_Cons simp del: list_pack.simps dest!: pack_size)

text \<open>With enough rounds the loop decodes what was encoded, whatever follows it.\<close>

lemma list_unpack_loop_pack:
  "list_pack c xs [] = Ok (n, bs) \<Longrightarrow> length xs < fuel \<Longrightarrow>
   list_unpack_loop c fuel (bs @ rest) = Ok (xs, n, rest)"
proof (induction xs arbitrary: n bs fuel)
  case Nil then show ?case by (cases fuel) auto
next
  case (Cons x xs)
  then obtain f where f: "fuel = Suc f" "length xs < f" by (cases fuel) auto
  obtain n1 b1 n2 b2 where x: "pack c x [] = Ok (n1, b1)" and xs: "list_pack c xs [] = Ok (n2, b2)"
    and n: "n = 4 + n1 + n2" "bs = to_be_bytes (1 :: u32) @ b1 @ b2"
    using Cons.prems(1) by (auto simp: list_pack_Cons simp del: list_pack.simps)
  have "unpack c (b1 @ b2 @ rest) = Ok (x, n1, b2 @ rest)" by (rule unpack_pack [OF x])
  moreover have "list_unpack_loop c f (b2 @ rest) = Ok (xs, n2, rest)" by (rule Cons.IH [OF xs f(2)])
  ultimately show ?case by (simp add: f n)
qed

lemma list_unpack_loop_consumes:
  "list_unpack_loop c fuel i = Ok (xs, n, rest) \<Longrightarrow>
     n = list_packed_size c xs \<and> n \<le> length i \<and> rest = drop n i"
proof (induction fuel arbitrary: i xs n rest)
  case (Suc fuel)
  from Suc.prems obtain more n1 i1 where b: "unpack bool_codec i = Ok (more, n1, i1)"
    by (auto simp: result_simps)
  then have b': "n1 = 4" "4 \<le> length i" "i1 = drop 4 i"
    using bool.unpack_consumes [OF b] by auto
  show ?case
  proof (cases more)
    case False with Suc.prems b b' show ?thesis by simp
  next
    case True
    with Suc.prems b obtain x n2 i2 ys n3 where x: "unpack c i1 = Ok (x, n2, i2)"
      and ys: "list_unpack_loop c fuel i2 = Ok (ys, n3, rest)" and r: "xs = x # ys" "n = n1 + n2 + n3"
      by (auto simp: result_simps)
    show ?thesis using Suc.IH [OF ys] unpack_consumes [OF x] b' r
      by (auto simp: add.commute add.left_commute)
  qed
qed simp

lemma list_unpack_loop_truncated:
  "list_pack c xs [] = Ok (n, bs) \<Longrightarrow> k < n \<Longrightarrow>
   list_unpack_loop c fuel (take k bs) = Err (Io UnexpectedEof)"
proof (induction xs arbitrary: n bs k fuel)
  case Nil then show ?case by (cases fuel) auto
next
  case (Cons x xs)
  obtain n1 b1 n2 b2 where x: "pack c x [] = Ok (n1, b1)" and xs: "list_pack c xs [] = Ok (n2, b2)"
    and n: "n = 4 + n1 + n2" "bs = to_be_bytes (1 :: u32) @ b1 @ b2"
    using Cons.prems(1) by (auto simp: list_pack_Cons simp del: list_pack.simps)
  have len: "length b1 = n1" using pack_size [OF x] by simp
  show ?case
  proof (cases fuel)
    case (Suc f)
    consider "k < 4" | "4 \<le> k" "k < 4 + n1" | "4 + n1 \<le> k" by linarith
    then show ?thesis
    proof cases
      case 1 then show ?thesis by (simp add: Suc)
    next
      case 2
      then have "unpack c (take (k - 4) b1) = Err (Io UnexpectedEof)"
        by (intro unpack_truncated [OF x]) simp
      with 2 show ?thesis by (simp add: Suc n len)
    next
      case 3
      then have "take k bs = to_be_bytes (1 :: u32) @ b1 @ take (k - 4 - n1) b2"
        by (simp add: n len)
      moreover have "list_unpack_loop c f (take (k - 4 - n1) b2) = Err (Io UnexpectedEof)"
        using 3 Cons.prems(2) n by (intro Cons.IH [OF xs]) simp
      ultimately show ?thesis by (simp add: Suc unpack_pack [OF x])
    qed
  qed simp
qed

text \<open>
  The bound on the rounds is never reached: with any bound above the input's length the loop
  gives the same result, so \<open>list_codec\<close> satisfies the loop's own equation.
\<close>

lemma list_unpack_loop_enough:
  "length i < fuel \<Longrightarrow> length i < fuel' \<Longrightarrow> list_unpack_loop c fuel i = list_unpack_loop c fuel' i"
proof (induction fuel arbitrary: fuel' i)
  case (Suc fuel)
  then obtain f' where f': "fuel' = Suc f'" by (cases fuel') auto
  have step: "list_unpack_loop c fuel i2 = list_unpack_loop c f' i2"
    if "unpack bool_codec i = Ok (more, n1, i1)" "unpack c i1 = Ok (x, n2, i2)" for more n1 i1 x n2 i2
  proof (rule Suc.IH)
    have "length i1 + 4 \<le> length i" using bool.unpack_consumes [OF that(1)] by auto
    moreover have "length i2 \<le> length i1" by (rule unpack_shrinks [OF that(2)])
    ultimately show "length i2 < fuel" "length i2 < f'" using Suc.prems f' by linarith+
  qed
  show ?case unfolding f' list_unpack_loop.simps
    by (intro and_then_cong refl) (auto intro!: and_then_cong simp: step split: prod.splits)
qed simp

lemma list_unpack_unfold:
  "unpack (list_codec c) i =
     and_then (unpack bool_codec i) (\<lambda>(more, n1, i1).
       if \<not> more then Ok ([], n1, i1)
       else and_then (unpack c i1) (\<lambda>(x, n2, i2).
         and_then (unpack (list_codec c) i2) (\<lambda>(xs, n3, i3). Ok (x # xs, n1 + n2 + n3, i3))))"
  (is "_ = ?R")
proof -
  have "list_unpack_loop c (length i) i2 = list_unpack_loop c (Suc (length i2)) i2"
    if "unpack bool_codec i = Ok (more, n1, i1)" "unpack c i1 = Ok (x, n2, i2)" for more n1 i1 x n2 i2
    using bool.unpack_consumes [OF that(1)] unpack_shrinks [OF that(2)]
    by (intro list_unpack_loop_enough) auto
  then show ?thesis
    unfolding list_codec_def codec.simps list_unpack_loop.simps(2) [of _ "length i"]
    by (intro and_then_cong refl) (auto intro!: and_then_cong split: prod.splits)
qed

lemma length_less_list_packed_size: "length xs < list_packed_size c xs"
  by (induction xs) simp_all

lemma list_lawful: "xdr_codec (list_codec c)"
proof unfold_locales
  fix xs :: "'a list" and n :: nat and bs rest :: bytes
  assume p: "pack (list_codec c) xs [] = Ok (n, bs)"
  then have "length xs < length bs"
    using list_pack_size [of xs n bs] length_less_list_packed_size [of xs] by (simp add: list_codec_def)
  with p show "unpack (list_codec c) (bs @ rest) = Ok (xs, n, rest)"
    by (simp add: list_codec_def list_unpack_loop_pack del: list_unpack_loop.simps)
next
  fix xs :: "'a list" and out :: bytes
  show "pack (list_codec c) xs out = map_ok (\<lambda>(n, bs). (n, out @ bs)) (pack (list_codec c) xs [])"
    unfolding list_codec_def codec.simps by (rule list_pack_appends)
qed (simp_all add: list_codec_def list_size_aligned list_pack_size list_unpack_loop_truncated
    list_unpack_loop_consumes del: list_unpack_loop.simps)

end

context xdr_codec_total
begin

lemma list_unpack_loop_packable:
  "list_unpack_loop c fuel i = Ok (xs, n, rest) \<Longrightarrow> \<exists>bs. list_pack c xs [] = Ok (n, bs)"
proof (induction fuel arbitrary: i xs n rest)
  case (Suc fuel)
  from Suc.prems obtain more n1 i1 where b: "unpack bool_codec i = Ok (more, n1, i1)"
    by (auto simp: result_simps)
  then have b': "n1 = 4" using bool.unpack_consumes [OF b] by auto
  show ?case
  proof (cases more)
    case True
    with Suc.prems b obtain x n2 i2 ys n3 where x: "unpack c i1 = Ok (x, n2, i2)"
      and ys: "list_unpack_loop c fuel i2 = Ok (ys, n3, rest)" and r: "xs = x # ys" "n = n1 + n2 + n3"
      by (auto simp: result_simps)
    with Suc.IH [OF ys] unpack_packable [OF x] b' show ?thesis
      by (auto simp: list_pack_Cons simp del: list_pack.simps)
  qed (use Suc.prems b b' in auto)
qed simp

lemma list_total: "xdr_codec_total (list_codec c)"
  by (intro xdr_codec_total.intro list_lawful xdr_codec_total_axioms.intro)
     (simp add: list_codec_def list_unpack_loop_packable del: list_unpack_loop.simps)

end

lemma list_codec_lawful [codec_intros]: "xdr_codec_total c \<Longrightarrow> xdr_codec_total (list_codec c)"
  by (rule xdr_codec_total.list_total)

section \<open>Bounded lists\<close>

text \<open>
  A bounded list never grows beyond its limit: its recorded size is the encoded size of the
  list it holds, which is within the limit as soon as the limit has room for the end marker.
\<close>

definition bounded_list_ok :: "'a codec \<Rightarrow> 'a bounded_list \<Rightarrow> bool" where
  "bounded_list_ok c bl \<longleftrightarrow>
     current_size bl = list_packed_size c (bl_list bl) \<and>
     (bl_list bl \<noteq> [] \<longrightarrow> current_size bl \<le> max_size bl)"

lemma list_packed_size_append:
  "list_packed_size c (xs @ [x]) = list_packed_size c xs + (packed_size c x + 4)"
  by (induction xs) simp_all

lemma bounded_list_new_ok [simp]: "bounded_list_ok c (bounded_list_new c mx)"
  by (simp add: bounded_list_ok_def bounded_list_new_def list_codec_def)

lemma try_push_ok: "bounded_list_ok c bl \<Longrightarrow> bounded_list_ok c (snd (try_push c x bl))"
  by (auto simp: bounded_list_ok_def try_push_def Let_def list_packed_size_append)

lemma try_push_max_size [simp]: "max_size (snd (try_push c x bl)) = max_size bl"
  by (simp add: try_push_def Let_def)

lemma try_push_Ok_iff:
  "fst (try_push c x bl) = Ok () \<longleftrightarrow> current_size bl + packed_size c x + 4 \<le> max_size bl"
  by (auto simp: try_push_def Let_def)

lemma try_push_list:
  "bl_list (snd (try_push c x bl)) = bl_list bl @ (if is_ok (fst (try_push c x bl)) then [x] else [])"
  by (simp add: try_push_def Let_def)

end
