(* ===== verification/Xdr_Derive.thy ===== *)
theory Xdr_Derive
  imports Xdr_Codec
begin

text \<open>
  The derive macro \<^verbatim>\<open>XdrCodec\<close> of \<^verbatim>\<open>nfs3_macros\<close> as codec combinators: what the macro
  generates for a struct (its fields one after the other), for an enum without data (its
  discriminant) and for an enum with data (a tag, then the variant's field).  Each combinator
  gives a lawful codec from lawful codecs, which is how every message type of the protocol
  gets its laws.
\<close>

section \<open>Structs\<close>

text \<open>
  \<^verbatim>\<open>generate_struct_impl\<close>: the generated functions run over the fields in the order of their
  declaration, stop at the first error and add up the counts.  A struct is taken apart into
  the nested pair of its fields by \<open>des\<close> and put together again by \<open>con\<close>.
\<close>

definition fields_codec :: "'a codec \<Rightarrow> 'b codec \<Rightarrow> ('a \<times> 'b) codec" where
  "fields_codec a b = \<lparr>
     packed_size = (\<lambda>(x, y). packed_size a x + packed_size b y),
     pack = (\<lambda>(x, y) out. and_then (pack a x out) (\<lambda>(n, out1).
       and_then (pack b y out1) (\<lambda>(m, out2). Ok (n + m, out2)))),
     unpack = (\<lambda>i. and_then (unpack a i) (\<lambda>(x, n, i1).
       and_then (unpack b i1) (\<lambda>(y, m, i2). Ok ((x, y), n + m, i2)))) \<rparr>"

definition struct_codec :: "('f \<Rightarrow> 'r) \<Rightarrow> ('r \<Rightarrow> 'f) \<Rightarrow> 'f codec \<Rightarrow> 'r codec" where
  "struct_codec con des c = \<lparr>
     packed_size = (\<lambda>r. packed_size c (des r)),
     pack = (\<lambda>r out. pack c (des r) out),
     unpack = (\<lambda>i. and_then (unpack c i) (\<lambda>(f, n, i1). Ok (con f, n, i1))) \<rparr>"

section \<open>Enums without data\<close>

text \<open>\<^verbatim>\<open>generate_simple_enum_impl\<close>: the discriminant \<open>as_u32\<close>, compared with every variant.\<close>

definition simple_enum_codec :: "('e \<Rightarrow> u32) \<Rightarrow> 'e list \<Rightarrow> 'e codec" where
  "simple_enum_codec as_u32 variants = \<lparr>
     packed_size = (\<lambda>_. 4),
     pack = (\<lambda>v out. pack u32_codec (as_u32 v) out),
     unpack = (\<lambda>i. and_then (unpack u32_codec i) (\<lambda>(tag, n, i1).
       case find (\<lambda>v. tag = as_u32 v) variants of
         None \<Rightarrow> Err (InvalidEnumValue tag)
       | Some v \<Rightarrow> Ok (v, n, i1))) \<rparr>"

section \<open>Enums with data\<close>

text \<open>
  \<^verbatim>\<open>generate_complex_enum_impl\<close>.  \<open>as_variant\<close> gives the tag of a value with the size and
  the packing of its field; \<open>variants\<close> lists, for every tag, how the variant is decoded.
\<close>

type_synonym payload = "nat \<times> (bytes \<Rightarrow> xdr_error + nat \<times> bytes)"

definition unit_payload :: payload where
  "unit_payload = (0, \<lambda>out. Ok (0, out))"

definition field_payload :: "'a codec \<Rightarrow> 'a \<Rightarrow> payload" where
  "field_payload c x = (packed_size c x, pack c x)"

definition unit_variant :: "'e \<Rightarrow> bytes \<Rightarrow> xdr_error + 'e \<times> nat \<times> bytes" where
  "unit_variant v i = Ok (v, 0, i)"

definition field_variant :: "('a \<Rightarrow> 'e) \<Rightarrow> 'a codec \<Rightarrow> bytes \<Rightarrow> xdr_error + 'e \<times> nat \<times> bytes" where
  "field_variant con c i = and_then (unpack c i) (\<lambda>(x, n, i1). Ok (con x, n, i1))"

definition complex_enum_codec ::
  "('e \<Rightarrow> u32 \<times> payload) \<Rightarrow> (u32 \<times> (bytes \<Rightarrow> xdr_error + 'e \<times> nat \<times> bytes)) list \<Rightarrow> 'e codec" where
  "complex_enum_codec as_variant variants = \<lparr>
     packed_size = (\<lambda>v. case as_variant v of (_, sz, _) \<Rightarrow> 4 + sz),
     pack = (\<lambda>v out. case as_variant v of (tag, _, pk) \<Rightarrow>
       and_then (pack u32_codec tag out) (\<lambda>(n, out1).
         and_then (pk out1) (\<lambda>(m, out2). Ok (n + m, out2)))),
     unpack = (\<lambda>i. and_then (unpack u32_codec i) (\<lambda>(tag, n, i1).
       case map_of variants tag of
         None \<Rightarrow> Err (InvalidEnumValue tag)
       | Some f \<Rightarrow> and_then (f i1) (\<lambda>(v, m, i2). Ok (v, n + m, i2)))) \<rparr>"

section \<open>The combinators keep the laws\<close>

lemma fields_pack:
  assumes "xdr_codec a" "xdr_codec b"
  shows "pack (fields_codec a b) (x, y) [] = Ok (n, bs) \<longleftrightarrow>
    (\<exists>n1 b1 n2 b2. pack a x [] = Ok (n1, b1) \<and> pack b y [] = Ok (n2, b2) \<and>
       n = n1 + n2 \<and> bs = b1 @ b2)"
  unfolding fields_codec_def
  by (simp, subst xdr_codec.pack_appends [OF assms(2)]) (auto simp: result_simps)

lemma fields_packed_size [simp]:
  "packed_size (fields_codec a b) (x, y) = packed_size a x + packed_size b y"
  by (simp add: fields_codec_def)

lemma struct_packed_size [simp]: "packed_size (struct_codec con des c) r = packed_size c (des r)"
  by (simp add: struct_codec_def)

lemma fields_unpack:
  "unpack (fields_codec a b) i = and_then (unpack a i) (\<lambda>(x, n, i1).
     and_then (unpack b i1) (\<lambda>(y, m, i2). Ok ((x, y), n + m, i2)))"
  by (simp add: fields_codec_def)

lemma fields_codec_xdr:
  assumes a: "xdr_codec a" and b: "xdr_codec b"
  shows "xdr_codec (fields_codec a b)"
proof unfold_locales
  fix x :: "'a \<times> 'b" and out :: bytes
  obtain u v where x: "x = (u, v)" by (cases x)
  show "pack (fields_codec a b) x out = map_ok (\<lambda>(n, bs). (n, out @ bs)) (pack (fields_codec a b) x [])"
  proof (cases "pack a u []")
    case (Inl e) show ?thesis by (simp add: x fields_codec_def Inl xdr_codec.pack_into_Err [OF a Inl])
  next
    case (Inr y)
    then obtain n bs where u: "pack a u [] = Ok (n, bs)" by (cases y) simp
    note v = xdr_codec.pack_appends [OF b, of v "out @ bs"] xdr_codec.pack_appends [OF b, of v bs]
    show ?thesis
      by (cases "pack b v []") (auto simp: x fields_codec_def u xdr_codec.pack_into [OF a u] v)
  qed
next
  fix x :: "'a \<times> 'b" and i rest :: bytes and n :: nat
  assume "unpack (fields_codec a b) i = Ok (x, n, rest)"
  then obtain u v n1 n2 i1 where "unpack a i = Ok (u, n1, i1)" "unpack b i1 = Ok (v, n2, rest)"
    "x = (u, v)" "n = n1 + n2"
    by (auto simp: fields_codec_def result_simps)
  then show "n = packed_size (fields_codec a b) x \<and> n \<le> length i \<and> rest = drop n i"
    by (auto simp: fields_codec_def add.commute
        dest!: xdr_codec.unpack_consumes [OF a] xdr_codec.unpack_consumes [OF b])
next
  fix x :: "'a \<times> 'b" and n k :: nat and bs :: bytes
  obtain u v where x: "x = (u, v)" by (cases x)
  assume "pack (fields_codec a b) x [] = Ok (n, bs)" and k: "k < n"
  then obtain n1 b1 n2 b2 where u: "pack a u [] = Ok (n1, b1)" and v: "pack b v [] = Ok (n2, b2)"
    and n: "n = n1 + n2" "bs = b1 @ b2"
    by (auto simp: x fields_pack [OF a b])
  have len: "length b1 = n1" using xdr_codec.pack_size [OF a u] by simp
  show "unpack (fields_codec a b) (take k bs) = Err (Io UnexpectedEof)"
  proof (cases "k < n1")
    case True
    then show ?thesis
      using xdr_codec.unpack_truncated [OF a u True] by (simp add: fields_codec_def n len)
  next
    case False
    then have "unpack b (take (k - n1) b2) = Err (Io UnexpectedEof)"
      using k n by (intro xdr_codec.unpack_truncated [OF b v]) simp
    with False show ?thesis
      by (simp add: fields_codec_def n len xdr_codec.unpack_pack [OF a u])
  qed
next
  fix x :: "'a \<times> 'b" and n :: nat and bs rest :: bytes
  assume "pack (fields_codec a b) x [] = Ok (n, bs)"
  then show "unpack (fields_codec a b) (bs @ rest) = Ok (x, n, rest)"
    by (cases x) (auto simp: fields_pack [OF a b] fields_unpack xdr_codec.unpack_pack [OF a]
        xdr_codec.unpack_pack [OF b])
qed (auto simp: fields_pack [OF a b] xdr_codec.size_aligned [OF a] xdr_codec.size_aligned [OF b]
    dest!: xdr_codec.pack_size [OF a] xdr_codec.pack_size [OF b])

lemma fields_codec_lawful [codec_intros]:
  assumes "xdr_codec_total a" "xdr_codec_total b"
  shows "xdr_codec_total (fields_codec a b)"
proof -
  have a: "xdr_codec a" and b: "xdr_codec b" using assms by (simp_all add: xdr_codec_total_def)
  show ?thesis
  proof (intro xdr_codec_total.intro fields_codec_xdr a b xdr_codec_total_axioms.intro)
    fix x :: "'a \<times> 'b" and i rest :: bytes and n :: nat
    assume "unpack (fields_codec a b) i = Ok (x, n, rest)"
    then obtain u v n1 n2 i1 where "unpack a i = Ok (u, n1, i1)" "unpack b i1 = Ok (v, n2, rest)"
      "x = (u, v)" "n = n1 + n2"
      by (auto simp: fields_codec_def result_simps)
    then show "\<exists>bs. pack (fields_codec a b) x [] = Ok (n, bs)"
      by (auto simp: fields_pack [OF a b]
          dest!: xdr_codec_total.unpack_packable [OF assms(1)] xdr_codec_total.unpack_packable [OF assms(2)])
  qed
qed

lemma struct_codec_xdr:
  assumes "xdr_codec c" and con: "\<And>r. con (des r) = r" and des: "\<And>f. des (con f) = f"
  shows "xdr_codec (struct_codec con des c)"
proof -
  have c: "unpack (struct_codec con des c) i = and_then (unpack c i) (\<lambda>(f, n, i1). Ok (con f, n, i1))"
    "pack (struct_codec con des c) r = pack c (des r)"
    "packed_size (struct_codec con des c) r = packed_size c (des r)" for i r
    by (simp_all add: struct_codec_def)
  show ?thesis
  proof (unfold_locales, unfold c)
    fix r and out :: bytes
    show "pack c (des r) out = map_ok (\<lambda>(n, bs). (n, out @ bs)) (pack c (des r) [])"
      by (rule xdr_codec.pack_appends [OF assms(1)])
  qed (auto simp: con des result_simps xdr_codec.unpack_pack [OF assms(1)]
      xdr_codec.size_aligned [OF assms(1)] xdr_codec.unpack_truncated [OF assms(1)]
      dest: xdr_codec.pack_size [OF assms(1)] xdr_codec.unpack_consumes [OF assms(1)])
qed

lemma struct_codec_lawful [codec_intros]:
  assumes "xdr_codec_total c" and "\<And>r. con (des r) = r" and "\<And>f. des (con f) = f"
  shows "xdr_codec_total (struct_codec con des c)"
proof (intro xdr_codec_total.intro struct_codec_xdr xdr_codec_total_axioms.intro)
  fix x and i rest :: bytes and n :: nat
  assume "unpack (struct_codec con des c) i = Ok (x, n, rest)"
  then show "\<exists>bs. pack (struct_codec con des c) x [] = Ok (n, bs)"
    using assms by (auto simp: struct_codec_def result_simps dest: xdr_codec_total.unpack_packable)
qed (use assms in \<open>simp_all add: xdr_codec_total_def\<close>)

lemma simple_enum_codec_lawful:
  assumes "\<And>v. find (\<lambda>w. as_u32 v = as_u32 w) variants = Some v"
  shows "xdr_codec_total (simple_enum_codec as_u32 variants)"
    (is "xdr_codec_total ?c")
proof -
  have c: "pack ?c v out = Ok (4, out @ to_be_bytes (as_u32 v))" "packed_size ?c v = 4"
    "unpack ?c (to_be_bytes (as_u32 v) @ r) = Ok (v, 4, r)" for v out r
    using assms by (simp_all add: simple_enum_codec_def)
  have consumes: "n = 4 \<and> 4 \<le> length i \<and> r = drop 4 i" if "unpack ?c i = Ok (v, n, r)" for i v n r
    using that by (auto simp: simple_enum_codec_def result_simps u32_unpack_eq_Ok split: option.splits)
  have short: "unpack ?c i = Err (Io UnexpectedEof)" if "length i < 4" for i
    using that by (simp add: simple_enum_codec_def)
  show ?thesis by unfold_locales (auto simp: c short dest: consumes)
qed

text \<open>
  For an enum with data: each value's field is decoded by the arm of its tag, and each arm
  produces values with its tag only.
\<close>

definition payload_lawful ::
  "payload \<Rightarrow> (bytes \<Rightarrow> xdr_error + 'e \<times> nat \<times> bytes) \<Rightarrow> 'e \<Rightarrow> bool" where
  "payload_lawful p f v \<longleftrightarrow>
     (\<forall>out. snd p out = map_ok (\<lambda>(n, bs). (n, out @ bs)) (snd p [])) \<and> 4 dvd fst p \<and>
     (\<forall>n bs. snd p [] = Ok (n, bs) \<longrightarrow> n = length bs \<and> n = fst p \<and>
        (\<forall>rest. f (bs @ rest) = Ok (v, n, rest)) \<and>
        (\<forall>k < n. f (take k bs) = Err (Io UnexpectedEof)))"

definition arm_lawful ::
  "('e \<Rightarrow> u32 \<times> payload) \<Rightarrow> u32 \<Rightarrow> (bytes \<Rightarrow> xdr_error + 'e \<times> nat \<times> bytes) \<Rightarrow> bool" where
  "arm_lawful as_variant t f \<longleftrightarrow>
     (\<forall>i v n rest. f i = Ok (v, n, rest) \<longrightarrow>
        n = fst (snd (as_variant v)) \<and> n \<le> length i \<and> rest = drop n i \<and>
        fst (as_variant v) = t \<and> (\<exists>bs. snd (snd (as_variant v)) [] = Ok (n, bs)))"

lemma unit_payload_lawful [codec_intros]: "payload_lawful unit_payload (unit_variant v) v"
  by (simp add: payload_lawful_def unit_payload_def unit_variant_def)

lemma field_payload_lawful [codec_intros]:
  assumes "xdr_codec_total c"
  shows "payload_lawful (field_payload c x) (field_variant con c) (con x)"
proof -
  have c: "xdr_codec c" using assms by (simp add: xdr_codec_total_def)
  show ?thesis
    unfolding payload_lawful_def field_payload_def field_variant_def fst_conv snd_conv
    by (intro conjI allI impI xdr_codec.pack_appends [OF c])
       (auto simp: xdr_codec.size_aligned [OF c] xdr_codec.unpack_pack [OF c]
         xdr_codec.unpack_truncated [OF c] dest: xdr_codec.pack_size [OF c])
qed

lemma field_payload_pair_lawful:
  assumes "xdr_codec_total c"
  shows "payload_lawful (field_payload c (x, y)) (field_variant (\<lambda>(x, y). con x y) c) (con x y)"
  using field_payload_lawful [OF assms, of "(x, y)" "\<lambda>(x, y). con x y"] by simp

lemma unit_arm_lawful [codec_intros]:
  "as_variant v = (t, unit_payload) \<Longrightarrow> arm_lawful as_variant t (unit_variant v)"
  by (simp add: arm_lawful_def unit_variant_def unit_payload_def)

lemma field_arm_lawful [codec_intros]:
  assumes "xdr_codec_total c" and "\<And>x. as_variant (con x) = (t, field_payload c x)"
  shows "arm_lawful as_variant t (field_variant con c)"
proof -
  have c: "xdr_codec c" using assms by (simp add: xdr_codec_total_def)
  show ?thesis
    by (auto simp: arm_lawful_def field_variant_def field_payload_def assms(2) result_simps
        dest: xdr_codec.unpack_consumes [OF c] xdr_codec_total.unpack_packable [OF assms(1)])
qed

lemma complex_enum_codec_lawful:
  assumes arms: "\<And>t f. map_of variants t = Some f \<Longrightarrow> arm_lawful as_variant t f"
    and payloads: "\<And>v. \<exists>f. map_of variants (fst (as_variant v)) = Some f \<and>
      payload_lawful (snd (as_variant v)) f v"
  shows "xdr_codec_total (complex_enum_codec as_variant variants)"
    (is "xdr_codec_total ?c")
proof -
  obtain f where f: "\<And>v. map_of variants (fst (as_variant v)) = Some (f v)"
    and p: "\<And>v. payload_lawful (snd (as_variant v)) (f v) v" using payloads by metis
  define tag sz pk where "tag v = fst (as_variant v)" and "sz v = fst (snd (as_variant v))"
    and "pk v = snd (snd (as_variant v))" for v
  have app: "pk v out = map_ok (\<lambda>(n, bs). (n, out @ bs)) (pk v [])" for v out
    using p [of v] unfolding payload_lawful_def pk_def by blast
  have size: "packed_size ?c v = 4 + sz v" for v
    by (simp add: complex_enum_codec_def sz_def split: prod.split)
  have pack: "pack ?c v out = map_ok (\<lambda>(n, bs). (4 + n, out @ to_be_bytes (tag v) @ bs)) (pk v [])" for v out
  proof -
    have "pack ?c v out = and_then (pk v (out @ to_be_bytes (tag v))) (\<lambda>(m, out2). Ok (4 + m, out2))"
      by (simp add: complex_enum_codec_def tag_def pk_def split: prod.split)
    then show ?thesis
      by (simp only: app [of v "out @ to_be_bytes (tag v)"]) (cases "pk v []"; auto)
  qed
  have unpack: "unpack ?c (to_be_bytes (tag v) @ r) =
      and_then (f v r) (\<lambda>(v', m, i2). Ok (v', 4 + m, i2))" for v r
    by (simp add: complex_enum_codec_def f tag_def)
  have pk: "n = length bs \<and> n = sz v \<and> (\<forall>rest. f v (bs @ rest) = Ok (v, n, rest)) \<and>
      (\<forall>k < n. f v (take k bs) = Err (Io UnexpectedEof))" if "pk v [] = Ok (n, bs)" for v n bs
    using p [of v] that unfolding payload_lawful_def pk_def sz_def by blast
  have short: "unpack ?c i = Err (Io UnexpectedEof)" if "length i < 4" for i
    using that by (simp add: complex_enum_codec_def)
  have consumes: "n = 4 + sz v \<and> n \<le> length i \<and> r = drop n i \<and> (\<exists>m bs. pk v [] = Ok (m, bs) \<and> n = 4 + m)"
    if u: "unpack ?c i = Ok (v, n, r)" for i v n r
  proof -
    obtain t k i1 where t: "unpack u32_codec i = Ok (t, k, i1)"
      using u by (auto simp: complex_enum_codec_def result_simps)
    then have "k = 4" "i = to_be_bytes t @ i1" by (simp_all add: u32_unpack_eq_Ok)
    moreover obtain g m where "map_of variants t = Some g" "g i1 = Ok (v, m, r)" "n = k + m"
      using u by (auto simp: complex_enum_codec_def t result_simps split: option.splits)
    moreover from this have "m = sz v \<and> m \<le> length i1 \<and> r = drop m i1 \<and> (\<exists>bs. pk v [] = Ok (m, bs))"
      using arms [of t g] by (auto simp: arm_lawful_def sz_def pk_def)
    ultimately show ?thesis by auto
  qed
  show ?thesis
  proof unfold_locales
    fix v and n k :: nat and bs :: bytes
    assume "pack ?c v [] = Ok (n, bs)" and k: "k < n"
    then obtain m b where b: "pk v [] = Ok (m, b)" "n = 4 + m" "bs = to_be_bytes (tag v) @ b"
      by (auto simp: pack result_simps)
    show "unpack ?c (take k bs) = Err (Io UnexpectedEof)"
    proof (cases "k < 4")
      case False
      with b k pk [OF b(1)] show ?thesis by (simp add: unpack)
    qed (simp add: short)
  next
    fix v out
    show "pack ?c v out = map_ok (\<lambda>(n, bs). (n, out @ bs)) (pack ?c v [])"
      unfolding pack by (cases "pk v []") auto
  next
    fix v
    have "4 dvd sz v" using p [of v] unfolding payload_lawful_def sz_def by blast
    then show "4 dvd packed_size ?c v" by (simp add: size)
  next
    fix v n i and rest :: bytes
    assume "unpack ?c i = Ok (v, n, rest)"
    then show "\<exists>bs. pack ?c v [] = Ok (n, bs)" by (auto simp: pack dest!: consumes)
  qed (auto simp: pack size unpack result_simps dest!: pk consumes)
qed

lemma complex_enum_codec_lawful_all:
  assumes "\<And>v. \<exists>f. map_of variants (fst (as_variant v)) = Some f \<and>
      payload_lawful (snd (as_variant v)) f v"
    and "list_all (\<lambda>(t, f). arm_lawful as_variant t f) variants"
  shows "xdr_codec_total (complex_enum_codec as_variant variants)"
proof (rule complex_enum_codec_lawful)
  show "arm_lawful as_variant t f" if "map_of variants t = Some f" for t f
    using map_of_SomeD [OF that] assms(2) by (auto simp: list_all_iff)
qed (rule assms(1))

end
