(* ===== verification/Rpc_Types.thy ===== *)
theory Rpc_Types
  imports Xdr_Derive
begin

text \<open>
  The ONC RPC messages of \<^verbatim>\<open>nfs3_types/src/rpc.rs\<close>: the record-marking fragment header,
  call and reply bodies, and their codecs, derived or hand-written as in the source.
\<close>

unbundle bit_operations_syntax

section \<open>Fragment header\<close>

record fragment_header =
  header :: u32

definition fragment_header_codec :: "fragment_header codec" where
  "fragment_header_codec = struct_codec
     (\<lambda>x0. \<lparr> fragment_header.header = x0 \<rparr>)
     (\<lambda>r. fragment_header.header r)
     u32_codec"

lemma fragment_header_codec_lawful [codec_intros]: "xdr_codec_total fragment_header_codec"
  unfolding fragment_header_codec_def by (intro codec_intros) auto

definition EOF_FLAG :: u32 where
  "EOF_FLAG = 0x80000000"

definition MASK :: u32 where
  "MASK = 0x7FFFFFFF"

text \<open>\<^verbatim>\<open>fragment_header::new\<close> panics (\<^const>\<open>None\<close>) on a length above 2 GiB.\<close>

definition fragment_header_new :: "u32 \<Rightarrow> bool \<Rightarrow> fragment_header option" where
  "fragment_header_new len eof =
     (if len \<le> MASK
      then Some \<lparr> fragment_header.header = (if eof then len OR EOF_FLAG else len) \<rparr>
      else None)"

definition fragment_header_eof :: "fragment_header \<Rightarrow> bool" where
  "fragment_header_eof h \<longleftrightarrow> fragment_header.header h AND EOF_FLAG \<noteq> 0"

definition fragment_length :: "fragment_header \<Rightarrow> u32" where
  "fragment_length h = fragment_header.header h AND MASK"

definition into_xdr_buf :: "fragment_header \<Rightarrow> bytes" where
  "into_xdr_buf h = to_be_bytes (fragment_header.header h)"

definition fragment_header_from :: "bytes \<Rightarrow> fragment_header" where
  "fragment_header_from bs = \<lparr> fragment_header.header = from_be_bytes bs \<rparr>"

section \<open>Enumerations\<close>

definition RPC_VERSION_2 :: u32 where
  "RPC_VERSION_2 = 2"

datatype msg_type =
    CALL | REPLY

fun msg_type_as_u32 :: "msg_type \<Rightarrow> u32" where
  "msg_type_as_u32 msg_type.CALL = 0"
| "msg_type_as_u32 msg_type.REPLY = 1"

definition msg_type_variants :: "msg_type list" where
  "msg_type_variants = [msg_type.CALL, msg_type.REPLY]"

definition msg_type_codec :: "msg_type codec" where
  "msg_type_codec = simple_enum_codec msg_type_as_u32 msg_type_variants"

lemma msg_type_codec_lawful [codec_intros]: "xdr_codec_total msg_type_codec"
  unfolding msg_type_codec_def
  by (rule simple_enum_codec_lawful, case_tac v) (simp_all add: msg_type_variants_def)

lemma msg_type_pack: "pack msg_type_codec v out = Ok (4, out @ to_be_bytes (msg_type_as_u32 v))"
  by (simp add: msg_type_codec_def simple_enum_codec_def)

lemma msg_type_packed_size [simp]: "packed_size msg_type_codec v = 4"
  by (simp add: msg_type_codec_def simple_enum_codec_def)

datatype reply_stat =
    MSG_ACCEPTED | MSG_DENIED

fun reply_stat_as_u32 :: "reply_stat \<Rightarrow> u32" where
  "reply_stat_as_u32 reply_stat.MSG_ACCEPTED = 0"
| "reply_stat_as_u32 reply_stat.MSG_DENIED = 1"

definition reply_stat_variants :: "reply_stat list" where
  "reply_stat_variants = [reply_stat.MSG_ACCEPTED, reply_stat.MSG_DENIED]"

definition reply_stat_codec :: "reply_stat codec" where
  "reply_stat_codec = simple_enum_codec reply_stat_as_u32 reply_stat_variants"

lemma reply_stat_codec_lawful [codec_intros]: "xdr_codec_total reply_stat_codec"
  unfolding reply_stat_codec_def
  by (rule simple_enum_codec_lawful, case_tac v) (simp_all add: reply_stat_variants_def)

lemma reply_stat_pack: "pack reply_stat_codec v out = Ok (4, out @ to_be_bytes (reply_stat_as_u32 v))"
  by (simp add: reply_stat_codec_def simple_enum_codec_def)

lemma reply_stat_packed_size [simp]: "packed_size reply_stat_codec v = 4"
  by (simp add: reply_stat_codec_def simple_enum_codec_def)

datatype accept_stat =
    SUCCESS | PROG_UNAVAIL | PROG_MISMATCH | PROC_UNAVAIL | GARBAGE_ARGS | SYSTEM_ERR

fun accept_stat_as_u32 :: "accept_stat \<Rightarrow> u32" where
  "accept_stat_as_u32 accept_stat.SUCCESS = 0"
| "accept_stat_as_u32 accept_stat.PROG_UNAVAIL = 1"
| "accept_stat_as_u32 accept_stat.PROG_MISMATCH = 2"
| "accept_stat_as_u32 accept_stat.PROC_UNAVAIL = 3"
| "accept_stat_as_u32 accept_stat.GARBAGE_ARGS = 4"
| "accept_stat_as_u32 accept_stat.SYSTEM_ERR = 5"

definition accept_stat_variants :: "accept_stat list" where
  "accept_stat_variants = [accept_stat.SUCCESS, accept_stat.PROG_UNAVAIL,
     accept_stat.PROG_MISMATCH, accept_stat.PROC_UNAVAIL, accept_stat.GARBAGE_ARGS,
     accept_stat.SYSTEM_ERR]"

definition accept_stat_codec :: "accept_stat codec" where
  "accept_stat_codec = simple_enum_codec accept_stat_as_u32 accept_stat_variants"

lemma accept_stat_codec_lawful [codec_intros]: "xdr_codec_total accept_stat_codec"
  unfolding accept_stat_codec_def
  by (rule simple_enum_codec_lawful, case_tac v) (simp_all add: accept_stat_variants_def)

lemma accept_stat_pack: "pack accept_stat_codec v out = Ok (4, out @ to_be_bytes (accept_stat_as_u32 v))"
  by (simp add: accept_stat_codec_def simple_enum_codec_def)

lemma accept_stat_packed_size [simp]: "packed_size accept_stat_codec v = 4"
  by (simp add: accept_stat_codec_def simple_enum_codec_def)

datatype reject_stat =
    RPC_MISMATCH | AUTH_ERROR

fun reject_stat_as_u32 :: "reject_stat \<Rightarrow> u32" where
  "reject_stat_as_u32 reject_stat.RPC_MISMATCH = 0"
| "reject_stat_as_u32 reject_stat.AUTH_ERROR = 1"

definition reject_stat_variants :: "reject_stat list" where
  "reject_stat_variants = [reject_stat.RPC_MISMATCH, reject_stat.AUTH_ERROR]"

definition reject_stat_codec :: "reject_stat codec" where
  "reject_stat_codec = simple_enum_codec reject_stat_as_u32 reject_stat_variants"

lemma reject_stat_codec_lawful [codec_intros]: "xdr_codec_total reject_stat_codec"
  unfolding reject_stat_codec_def
  by (rule simple_enum_codec_lawful, case_tac v) (simp_all add: reject_stat_variants_def)

lemma reject_stat_pack: "pack reject_stat_codec v out = Ok (4, out @ to_be_bytes (reject_stat_as_u32 v))"
  by (simp add: reject_stat_codec_def simple_enum_codec_def)

lemma reject_stat_packed_size [simp]: "packed_size reject_stat_codec v = 4"
  by (simp add: reject_stat_codec_def simple_enum_codec_def)

datatype auth_stat =
    AUTH_OK | AUTH_BADCRED | AUTH_REJECTEDCRED | AUTH_BADVERF | AUTH_REJECTEDVERF |
    AUTH_TOOWEAK | AUTH_INVALIDRESP | AUTH_FAILED

fun auth_stat_as_u32 :: "auth_stat \<Rightarrow> u32" where
  "auth_stat_as_u32 auth_stat.AUTH_OK = 0"
| "auth_stat_as_u32 auth_stat.AUTH_BADCRED = 1"
| "auth_stat_as_u32 auth_stat.AUTH_REJECTEDCRED = 2"
| "auth_stat_as_u32 auth_stat.AUTH_BADVERF = 3"
| "auth_stat_as_u32 auth_stat.AUTH_REJECTEDVERF = 4"
| "auth_stat_as_u32 auth_stat.AUTH_TOOWEAK = 5"
| "auth_stat_as_u32 auth_stat.AUTH_INVALIDRESP = 6"
| "auth_stat_as_u32 auth_stat.AUTH_FAILED = 7"

definition auth_stat_variants :: "auth_stat list" where
  "auth_stat_variants = [auth_stat.AUTH_OK, auth_stat.AUTH_BADCRED,
     auth_stat.AUTH_REJECTEDCRED, auth_stat.AUTH_BADVERF, auth_stat.AUTH_REJECTEDVERF,
     auth_stat.AUTH_TOOWEAK, auth_stat.AUTH_INVALIDRESP, auth_stat.AUTH_FAILED]"

definition auth_stat_codec :: "auth_stat codec" where
  "auth_stat_codec = simple_enum_codec auth_stat_as_u32 auth_stat_variants"

lemma auth_stat_codec_lawful [codec_intros]: "xdr_codec_total auth_stat_codec"
  unfolding auth_stat_codec_def
  by (rule simple_enum_codec_lawful, case_tac v) (simp_all add: auth_stat_variants_def)

lemma auth_stat_pack: "pack auth_stat_codec v out = Ok (4, out @ to_be_bytes (auth_stat_as_u32 v))"
  by (simp add: auth_stat_codec_def simple_enum_codec_def)

lemma auth_stat_packed_size [simp]: "packed_size auth_stat_codec v = 4"
  by (simp add: auth_stat_codec_def simple_enum_codec_def)

datatype auth_flavor =
    AUTH_NULL | AUTH_UNIX | AUTH_SHORT | AUTH_DES

fun auth_flavor_as_u32 :: "auth_flavor \<Rightarrow> u32" where
  "auth_flavor_as_u32 auth_flavor.AUTH_NULL = 0"
| "auth_flavor_as_u32 auth_flavor.AUTH_UNIX = 1"
| "auth_flavor_as_u32 auth_flavor.AUTH_SHORT = 2"
| "auth_flavor_as_u32 auth_flavor.AUTH_DES = 3"

definition auth_flavor_variants :: "auth_flavor list" where
  "auth_flavor_variants = [auth_flavor.AUTH_NULL, auth_flavor.AUTH_UNIX,
     auth_flavor.AUTH_SHORT, auth_flavor.AUTH_DES]"

definition auth_flavor_codec :: "auth_flavor codec" where
  "auth_flavor_codec = simple_enum_codec auth_flavor_as_u32 auth_flavor_variants"

lemma auth_flavor_codec_lawful [codec_intros]: "xdr_codec_total auth_flavor_codec"
  unfolding auth_flavor_codec_def
  by (rule simple_enum_codec_lawful, case_tac v) (simp_all add: auth_flavor_variants_def)

lemma auth_flavor_pack: "pack auth_flavor_codec v out = Ok (4, out @ to_be_bytes (auth_flavor_as_u32 v))"
  by (simp add: auth_flavor_codec_def simple_enum_codec_def)

lemma auth_flavor_packed_size [simp]: "packed_size auth_flavor_codec v = 4"
  by (simp add: auth_flavor_codec_def simple_enum_codec_def)

section \<open>Credentials and calls\<close>

record opaque_auth =
  flavor :: auth_flavor
  body :: opaque

definition opaque_auth_codec :: "opaque_auth codec" where
  "opaque_auth_codec = struct_codec
     (\<lambda>(x0, x1). \<lparr> opaque_auth.flavor = x0, opaque_auth.body = x1 \<rparr>)
     (\<lambda>r. (opaque_auth.flavor r, opaque_auth.body r))
     (fields_codec auth_flavor_codec opaque_codec)"

lemma opaque_auth_codec_lawful [codec_intros]: "xdr_codec_total opaque_auth_codec"
  unfolding opaque_auth_codec_def by (intro codec_intros) auto

definition opaque_auth_default :: opaque_auth where
  "opaque_auth_default = \<lparr> opaque_auth.flavor = AUTH_NULL, opaque_auth.body = [] \<rparr>"

record auth_unix =
  stamp :: u32
  machinename :: opaque
  uid :: u32
  gid :: u32
  gids :: "u32 list"

definition auth_unix_codec :: "auth_unix codec" where
  "auth_unix_codec = struct_codec
     (\<lambda>(x0, x1, x2, x3, x4). \<lparr> auth_unix.stamp = x0, auth_unix.machinename = x1,
        auth_unix.uid = x2, auth_unix.gid = x3, auth_unix.gids = x4 \<rparr>)
     (\<lambda>r. (auth_unix.stamp r, auth_unix.machinename r, auth_unix.uid r,
        auth_unix.gid r, auth_unix.gids r))
     (fields_codec u32_codec (fields_codec opaque_codec (fields_codec u32_codec (
        fields_codec u32_codec vec_u32_codec))))"

lemma auth_unix_codec_lawful [codec_intros]: "xdr_codec_total auth_unix_codec"
  unfolding auth_unix_codec_def by (intro codec_intros) auto

definition auth_unix_default :: auth_unix where
  "auth_unix_default = \<lparr> auth_unix.stamp = 0, auth_unix.machinename = [],
     auth_unix.uid = 0, auth_unix.gid = 0, auth_unix.gids = [] \<rparr>"

text \<open>\<^verbatim>\<open>opaque_auth::auth_unix\<close>; \<^const>\<open>None\<close> is the panic of \<^verbatim>\<open>expect\<close>.\<close>

definition opaque_auth_auth_unix :: "auth_unix \<Rightarrow> opaque_auth option" where
  "opaque_auth_auth_unix auth =
     (case pack auth_unix_codec auth [] of
        Err _ \<Rightarrow> None
      | Ok (_, out) \<Rightarrow> Some \<lparr> opaque_auth.flavor = AUTH_UNIX, opaque_auth.body = out \<rparr>)"

record call_body =
  rpcvers :: u32
  prog :: u32
  vers :: u32
  proc :: u32
  cred :: opaque_auth
  verf :: opaque_auth

definition call_body_codec :: "call_body codec" where
  "call_body_codec = struct_codec
     (\<lambda>(x0, x1, x2, x3, x4, x5). \<lparr> call_body.rpcvers = x0, call_body.prog = x1,
        call_body.vers = x2, call_body.proc = x3, call_body.cred = x4, call_body.verf = x5 \<rparr>)
     (\<lambda>r. (call_body.rpcvers r, call_body.prog r, call_body.vers r, call_body.proc r,
        call_body.cred r, call_body.verf r))
     (fields_codec u32_codec (fields_codec u32_codec (fields_codec u32_codec (
        fields_codec u32_codec (fields_codec opaque_auth_codec opaque_auth_codec)))))"

lemma call_body_codec_lawful [codec_intros]: "xdr_codec_total call_body_codec"
  unfolding call_body_codec_def by (intro codec_intros) auto

section \<open>Replies\<close>

text \<open>
  The data of an accepted reply is packed by hand in the source: the status, then the two
  bounds of a \<^verbatim>\<open>PROG_MISMATCH\<close>.
\<close>

datatype accept_stat_data =
    SUCCESS | PROG_UNAVAIL | PROG_MISMATCH u32 u32 | PROC_UNAVAIL | GARBAGE_ARGS | SYSTEM_ERR

fun accept_stat_data_as_variant :: "accept_stat_data \<Rightarrow> u32 \<times> payload" where
  "accept_stat_data_as_variant SUCCESS = (accept_stat_as_u32 accept_stat.SUCCESS, unit_payload)"
| "accept_stat_data_as_variant PROG_UNAVAIL =
     (accept_stat_as_u32 accept_stat.PROG_UNAVAIL, unit_payload)"
| "accept_stat_data_as_variant (PROG_MISMATCH low high) =
     (accept_stat_as_u32 accept_stat.PROG_MISMATCH,
      field_payload (fields_codec u32_codec u32_codec) (low, high))"
| "accept_stat_data_as_variant PROC_UNAVAIL =
     (accept_stat_as_u32 accept_stat.PROC_UNAVAIL, unit_payload)"
| "accept_stat_data_as_variant GARBAGE_ARGS =
     (accept_stat_as_u32 accept_stat.GARBAGE_ARGS, unit_payload)"
| "accept_stat_data_as_variant SYSTEM_ERR =
     (accept_stat_as_u32 accept_stat.SYSTEM_ERR, unit_payload)"

definition accept_stat_data_codec :: "accept_stat_data codec" where
  "accept_stat_data_codec = complex_enum_codec accept_stat_data_as_variant [
     (accept_stat_as_u32 accept_stat.SUCCESS, unit_variant SUCCESS),
     (accept_stat_as_u32 accept_stat.PROG_MISMATCH,
      field_variant (\<lambda>(low, high). PROG_MISMATCH low high) (fields_codec u32_codec u32_codec)),
     (accept_stat_as_u32 accept_stat.PROG_UNAVAIL, unit_variant PROG_UNAVAIL),
     (accept_stat_as_u32 accept_stat.PROC_UNAVAIL, unit_variant PROC_UNAVAIL),
     (accept_stat_as_u32 accept_stat.GARBAGE_ARGS, unit_variant GARBAGE_ARGS),
     (accept_stat_as_u32 accept_stat.SYSTEM_ERR, unit_variant SYSTEM_ERR)]"

lemma accept_stat_data_codec_lawful [codec_intros]: "xdr_codec_total accept_stat_data_codec"
  unfolding accept_stat_data_codec_def
  by (rule complex_enum_codec_lawful_all, case_tac v)
     (auto simp: split_paired_all intro!: codec_intros field_payload_pair_lawful)

record accepted_reply =
  verf :: opaque_auth
  reply_data :: accept_stat_data

definition accepted_reply_codec :: "accepted_reply codec" where
  "accepted_reply_codec = struct_codec
     (\<lambda>(x0, x1). \<lparr> accepted_reply.verf = x0, accepted_reply.reply_data = x1 \<rparr>)
     (\<lambda>r. (accepted_reply.verf r, accepted_reply.reply_data r))
     (fields_codec opaque_auth_codec accept_stat_data_codec)"

lemma accepted_reply_codec_lawful [codec_intros]: "xdr_codec_total accepted_reply_codec"
  unfolding accepted_reply_codec_def by (intro codec_intros) auto

datatype rejected_reply = RPC_MISMATCH u32 u32 | AUTH_ERROR auth_stat

fun rejected_reply_as_variant :: "rejected_reply \<Rightarrow> u32 \<times> payload" where
  "rejected_reply_as_variant (RPC_MISMATCH low high) =
     (reject_stat_as_u32 reject_stat.RPC_MISMATCH,
      field_payload (fields_codec u32_codec u32_codec) (low, high))"
| "rejected_reply_as_variant (AUTH_ERROR stat) =
     (reject_stat_as_u32 reject_stat.AUTH_ERROR, field_payload auth_stat_codec stat)"

definition rejected_reply_codec :: "rejected_reply codec" where
  "rejected_reply_codec = complex_enum_codec rejected_reply_as_variant [
     (reject_stat_as_u32 reject_stat.RPC_MISMATCH,
      field_variant (\<lambda>(low, high). RPC_MISMATCH low high) (fields_codec u32_codec u32_codec)),
     (reject_stat_as_u32 reject_stat.AUTH_ERROR, field_variant AUTH_ERROR auth_stat_codec)]"

lemma rejected_reply_codec_lawful [codec_intros]: "xdr_codec_total rejected_reply_codec"
  unfolding rejected_reply_codec_def
  by (rule complex_enum_codec_lawful_all, case_tac v)
     (auto simp: split_paired_all intro!: codec_intros field_payload_pair_lawful)

datatype reply_body =
    MSG_ACCEPTED accepted_reply
  | MSG_DENIED rejected_reply

fun reply_body_as_variant :: "reply_body \<Rightarrow> u32 \<times> payload" where
  "reply_body_as_variant (reply_body.MSG_ACCEPTED x) = (0, field_payload accepted_reply_codec x)"
| "reply_body_as_variant (reply_body.MSG_DENIED x) = (1, field_payload rejected_reply_codec x)"

definition reply_body_codec :: "reply_body codec" where
  "reply_body_codec = complex_enum_codec reply_body_as_variant [
     (0, field_variant reply_body.MSG_ACCEPTED accepted_reply_codec),
     (1, field_variant reply_body.MSG_DENIED rejected_reply_codec)]"

lemma reply_body_codec_lawful [codec_intros]: "xdr_codec_total reply_body_codec"
  unfolding reply_body_codec_def
  by (rule complex_enum_codec_lawful_all, case_tac v) (auto intro!: codec_intros)

datatype msg_body =
    CALL call_body
  | REPLY reply_body

fun msg_body_as_variant :: "msg_body \<Rightarrow> u32 \<times> payload" where
  "msg_body_as_variant (msg_body.CALL x) = (0, field_payload call_body_codec x)"
| "msg_body_as_variant (msg_body.REPLY x) = (1, field_payload reply_body_codec x)"

definition msg_body_codec :: "msg_body codec" where
  "msg_body_codec = complex_enum_codec msg_body_as_variant [
     (0, field_variant msg_body.CALL call_body_codec),
     (1, field_variant msg_body.REPLY reply_body_codec)]"

lemma msg_body_codec_lawful [codec_intros]: "xdr_codec_total msg_body_codec"
  unfolding msg_body_codec_def
  by (rule complex_enum_codec_lawful_all, case_tac v) (auto intro!: codec_intros)

record rpc_msg =
  xid :: u32
  body :: msg_body

definition rpc_msg_codec :: "rpc_msg codec" where
  "rpc_msg_codec = struct_codec
     (\<lambda>(x0, x1). \<lparr> rpc_msg.xid = x0, rpc_msg.body = x1 \<rparr>)
     (\<lambda>r. (rpc_msg.xid r, rpc_msg.body r))
     (fields_codec u32_codec msg_body_codec)"

lemma rpc_msg_codec_lawful [codec_intros]: "xdr_codec_total rpc_msg_codec"
  unfolding rpc_msg_codec_def by (intro codec_intros) auto

interpretation rpc_msg: xdr_codec_total rpc_msg_codec
  by (rule rpc_msg_codec_lawful)

section \<open>Facts on fragment headers\<close>

lemma MASK_eq: "MASK = mask 31"
  by (simp add: MASK_def mask_eq_exp_minus_1)

lemma EOF_FLAG_eq: "EOF_FLAG = 2 ^ 31"
  by (simp add: EOF_FLAG_def)

lemma le_MASK_iff: "len \<le> MASK \<longleftrightarrow> take_bit 31 len = len"
  by (auto simp: MASK_def word_unat_eq_iff unsigned_take_bit_eq take_bit_nat_eq_self_iff word_le_nat_alt)

lemma and_EOF_FLAG: "w AND EOF_FLAG = 0 \<longleftrightarrow> \<not> bit w 31"
  unfolding EOF_FLAG_eq by (rule and_exp_eq_0_iff_not_bit)

lemma bit_EOF_FLAG: "bit EOF_FLAG 31"
  by (simp add: EOF_FLAG_eq bit_exp_iff)

lemma fragment_header_new_fields:
  assumes "fragment_header_new len is_eof = Some h"
  shows "fragment_length h = len" "fragment_header_eof h = is_eof"
proof -
  have len: "take_bit 31 len = len" and h: "fragment_header.header h = (if is_eof then len OR EOF_FLAG else len)"
    using assms by (auto simp: fragment_header_new_def le_MASK_iff split: if_splits)
  have not31: "\<not> bit len 31" using len by (metis bit_take_bit_iff less_irrefl)
  show "fragment_length h = len"
    using len by (simp add: fragment_length_def h MASK_eq EOF_FLAG_eq take_bit_or flip: take_bit_eq_mask)
  show "fragment_header_eof h = is_eof"
    using not31 by (simp add: fragment_header_eof_def h and_EOF_FLAG bit_or_iff bit_EOF_FLAG)
qed

lemma fragment_header_from_into [simp]: "fragment_header_from (into_xdr_buf h) = h"
  by (simp add: fragment_header_from_def into_xdr_buf_def)

end
