(* ===== verification/Nfs3_Types.thy ===== *)
theory Nfs3_Types
  imports Xdr_Derive
begin

text \<open>
  The data types of the NFSv3 protocol (\<^verbatim>\<open>nfs3_types/src/nfs3.rs\<close>) with their codecs;
  the arguments and results of the procedures are in \<open>Nfs3_Messages\<close>.  A Rust field whose
  name ends in an underscore, or is \<^verbatim>\<open>from\<close> or \<^verbatim>\<open>to\<close>, is written with a prime.
  \<^verbatim>\<open>Nfs3Option<T>\<close> is \<^typ>\<open>'t option\<close>.
\<close>

definition PROGRAM :: u32 where
  "PROGRAM = 100003"

definition VERSION :: u32 where
  "VERSION = 3"

definition ACCESS3_READ :: u32 where
  "ACCESS3_READ = 1"

definition ACCESS3_LOOKUP :: u32 where
  "ACCESS3_LOOKUP = 2"

definition ACCESS3_MODIFY :: u32 where
  "ACCESS3_MODIFY = 4"

definition ACCESS3_EXTEND :: u32 where
  "ACCESS3_EXTEND = 8"

definition ACCESS3_DELETE :: u32 where
  "ACCESS3_DELETE = 16"

definition ACCESS3_EXECUTE :: u32 where
  "ACCESS3_EXECUTE = 32"

definition FSF3_LINK :: u32 where
  "FSF3_LINK = 1"

definition FSF3_SYMLINK :: u32 where
  "FSF3_SYMLINK = 2"

definition FSF3_HOMOGENEOUS :: u32 where
  "FSF3_HOMOGENEOUS = 8"

definition FSF3_CANSETTIME :: u32 where
  "FSF3_CANSETTIME = 16"

definition NFS3_FHSIZE :: nat where
  "NFS3_FHSIZE = 64"

section \<open>Scalars and options\<close>

type_synonym cookie3 = "u64"

type_synonym count3 = "u32"

type_synonym fileid3 = "u64"

type_synonym gid3 = "u32"

type_synonym mode3 = "u32"

type_synonym offset3 = "u64"

type_synonym size3 = "u64"

type_synonym uid3 = "u32"

definition nfs3_option_codec :: "'a codec \<Rightarrow> 'a option codec" where
  "nfs3_option_codec c = complex_enum_codec
     (\<lambda>x. case x of Some val \<Rightarrow> (1, field_payload c val) | None \<Rightarrow> (0, unit_payload))
     [(1, field_variant Some c), (0, unit_variant None)]"

lemma nfs3_option_codec_lawful [codec_intros]:
  "xdr_codec_total c \<Longrightarrow> xdr_codec_total (nfs3_option_codec c)"
  unfolding nfs3_option_codec_def
  by (rule complex_enum_codec_lawful_all, case_tac v) (auto intro!: codec_intros)

lemma nfs3_option_packed_size [simp]:
  "packed_size (nfs3_option_codec c) None = 4"
  "packed_size (nfs3_option_codec c) (Some x) = 4 + packed_size c x"
  by (simp_all add: nfs3_option_codec_def complex_enum_codec_def unit_payload_def field_payload_def)

section \<open>Statuses and procedures\<close>

datatype nfsstat3 =
    NFS3_OK | NFS3ERR_PERM | NFS3ERR_NOENT | NFS3ERR_IO | NFS3ERR_NXIO | NFS3ERR_ACCES |
    NFS3ERR_EXIST | NFS3ERR_XDEV | NFS3ERR_NODEV | NFS3ERR_NOTDIR | NFS3ERR_ISDIR |
    NFS3ERR_INVAL | NFS3ERR_FBIG | NFS3ERR_NOSPC | NFS3ERR_ROFS | NFS3ERR_MLINK |
    NFS3ERR_NAMETOOLONG | NFS3ERR_NOTEMPTY | NFS3ERR_DQUOT | NFS3ERR_STALE | NFS3ERR_REMOTE |
    NFS3ERR_BADHANDLE | NFS3ERR_NOT_SYNC | NFS3ERR_BAD_COOKIE | NFS3ERR_NOTSUPP |
    NFS3ERR_TOOSMALL | NFS3ERR_SERVERFAULT | NFS3ERR_BADTYPE | NFS3ERR_JUKEBOX

fun nfsstat3_as_u32 :: "nfsstat3 \<Rightarrow> u32" where
  "nfsstat3_as_u32 nfsstat3.NFS3_OK = 0"
| "nfsstat3_as_u32 nfsstat3.NFS3ERR_PERM = 1"
| "nfsstat3_as_u32 nfsstat3.NFS3ERR_NOENT = 2"
| "nfsstat3_as_u32 nfsstat3.NFS3ERR_IO = 5"
| "nfsstat3_as_u32 nfsstat3.NFS3ERR_NXIO = 6"
| "nfsstat3_as_u32 nfsstat3.NFS3ERR_ACCES = 13"
| "nfsstat3_as_u32 nfsstat3.NFS3ERR_EXIST = 17"
| "nfsstat3_as_u32 nfsstat3.NFS3ERR_XDEV = 18"
| "nfsstat3_as_u32 nfsstat3.NFS3ERR_NODEV = 19"
| "nfsstat3_as_u32 nfsstat3.NFS3ERR_NOTDIR = 20"
| "nfsstat3_as_u32 nfsstat3.NFS3ERR_ISDIR = 21"
| "nfsstat3_as_u32 nfsstat3.NFS3ERR_INVAL = 22"
| "nfsstat3_as_u32 nfsstat3.NFS3ERR_FBIG = 27"
| "nfsstat3_as_u32 nfsstat3.NFS3ERR_NOSPC = 28"
| "nfsstat3_as_u32 nfsstat3.NFS3ERR_ROFS = 30"
| "nfsstat3_as_u32 nfsstat3.NFS3ERR_MLINK = 31"
| "nfsstat3_as_u32 nfsstat3.NFS3ERR_NAMETOOLONG = 63"
| "nfsstat3_as_u32 nfsstat3.NFS3ERR_NOTEMPTY = 66"
| "nfsstat3_as_u32 nfsstat3.NFS3ERR_DQUOT = 69"
| "nfsstat3_as_u32 nfsstat3.NFS3ERR_STALE = 70"
| "nfsstat3_as_u32 nfsstat3.NFS3ERR_REMOTE = 71"
| "nfsstat3_as_u32 nfsstat3.NFS3ERR_BADHANDLE = 10001"
| "nfsstat3_as_u32 nfsstat3.NFS3ERR_NOT_SYNC = 10002"
| "nfsstat3_as_u32 nfsstat3.NFS3ERR_BAD_COOKIE = 10003"
| "nfsstat3_as_u32 nfsstat3.NFS3ERR_NOTSUPP = 10004"
| "nfsstat3_as_u32 nfsstat3.NFS3ERR_TOOSMALL = 10005"
| "nfsstat3_as_u32 nfsstat3.NFS3ERR_SERVERFAULT = 10006"
| "nfsstat3_as_u32 nfsstat3.NFS3ERR_BADTYPE = 10007"
| "nfsstat3_as_u32 nfsstat3.NFS3ERR_JUKEBOX = 10008"

definition nfsstat3_variants :: "nfsstat3 list" where
  "nfsstat3_variants = [nfsstat3.NFS3_OK, nfsstat3.NFS3ERR_PERM, nfsstat3.NFS3ERR_NOENT,
     nfsstat3.NFS3ERR_IO, nfsstat3.NFS3ERR_NXIO, nfsstat3.NFS3ERR_ACCES,
     nfsstat3.NFS3ERR_EXIST, nfsstat3.NFS3ERR_XDEV, nfsstat3.NFS3ERR_NODEV,
     nfsstat3.NFS3ERR_NOTDIR, nfsstat3.NFS3ERR_ISDIR, nfsstat3.NFS3ERR_INVAL,
     nfsstat3.NFS3ERR_FBIG, nfsstat3.NFS3ERR_NOSPC, nfsstat3.NFS3ERR_ROFS,
     nfsstat3.NFS3ERR_MLINK, nfsstat3.NFS3ERR_NAMETOOLONG, nfsstat3.NFS3ERR_NOTEMPTY,
     nfsstat3.NFS3ERR_DQUOT, nfsstat3.NFS3ERR_STALE, nfsstat3.NFS3ERR_REMOTE,
     nfsstat3.NFS3ERR_BADHANDLE, nfsstat3.NFS3ERR_NOT_SYNC, nfsstat3.NFS3ERR_BAD_COOKIE,
     nfsstat3.NFS3ERR_NOTSUPP, nfsstat3.NFS3ERR_TOOSMALL, nfsstat3.NFS3ERR_SERVERFAULT,
     nfsstat3.NFS3ERR_BADTYPE, nfsstat3.NFS3ERR_JUKEBOX]"

definition nfsstat3_codec :: "nfsstat3 codec" where
  "nfsstat3_codec = simple_enum_codec nfsstat3_as_u32 nfsstat3_variants"

lemma nfsstat3_codec_lawful [codec_intros]: "xdr_codec_total nfsstat3_codec"
  unfolding nfsstat3_codec_def
  by (rule simple_enum_codec_lawful, case_tac v) (simp_all add: nfsstat3_variants_def)

lemma nfsstat3_pack: "pack nfsstat3_codec v out = Ok (4, out @ to_be_bytes (nfsstat3_as_u32 v))"
  by (simp add: nfsstat3_codec_def simple_enum_codec_def)

lemma nfsstat3_packed_size [simp]: "packed_size nfsstat3_codec v = 4"
  by (simp add: nfsstat3_codec_def simple_enum_codec_def)

datatype ftype3 =
    NF3REG | NF3DIR | NF3BLK | NF3CHR | NF3LNK | NF3SOCK | NF3FIFO

fun ftype3_as_u32 :: "ftype3 \<Rightarrow> u32" where
  "ftype3_as_u32 ftype3.NF3REG = 1"
| "ftype3_as_u32 ftype3.NF3DIR = 2"
| "ftype3_as_u32 ftype3.NF3BLK = 3"
| "ftype3_as_u32 ftype3.NF3CHR = 4"
| "ftype3_as_u32 ftype3.NF3LNK = 5"
| "ftype3_as_u32 ftype3.NF3SOCK = 6"
| "ftype3_as_u32 ftype3.NF3FIFO = 7"

definition ftype3_variants :: "ftype3 list" where
  "ftype3_variants = [ftype3.NF3REG, ftype3.NF3DIR, ftype3.NF3BLK, ftype3.NF3CHR,
     ftype3.NF3LNK, ftype3.NF3SOCK, ftype3.NF3FIFO]"

definition ftype3_codec :: "ftype3 codec" where
  "ftype3_codec = simple_enum_codec ftype3_as_u32 ftype3_variants"

lemma ftype3_codec_lawful [codec_intros]: "xdr_codec_total ftype3_codec"
  unfolding ftype3_codec_def
  by (rule simple_enum_codec_lawful, case_tac v) (simp_all add: ftype3_variants_def)

lemma ftype3_pack: "pack ftype3_codec v out = Ok (4, out @ to_be_bytes (ftype3_as_u32 v))"
  by (simp add: ftype3_codec_def simple_enum_codec_def)

lemma ftype3_packed_size [simp]: "packed_size ftype3_codec v = 4"
  by (simp add: ftype3_codec_def simple_enum_codec_def)

datatype stable_how =
    UNSTABLE | DATA_SYNC | FILE_SYNC

fun stable_how_as_u32 :: "stable_how \<Rightarrow> u32" where
  "stable_how_as_u32 stable_how.UNSTABLE = 0"
| "stable_how_as_u32 stable_how.DATA_SYNC = 1"
| "stable_how_as_u32 stable_how.FILE_SYNC = 2"

definition stable_how_variants :: "stable_how list" where
  "stable_how_variants = [stable_how.UNSTABLE, stable_how.DATA_SYNC, stable_how.FILE_SYNC]"

definition stable_how_codec :: "stable_how codec" where
  "stable_how_codec = simple_enum_codec stable_how_as_u32 stable_how_variants"

lemma stable_how_codec_lawful [codec_intros]: "xdr_codec_total stable_how_codec"
  unfolding stable_how_codec_def
  by (rule simple_enum_codec_lawful, case_tac v) (simp_all add: stable_how_variants_def)

lemma stable_how_pack: "pack stable_how_codec v out = Ok (4, out @ to_be_bytes (stable_how_as_u32 v))"
  by (simp add: stable_how_codec_def simple_enum_codec_def)

lemma stable_how_packed_size [simp]: "packed_size stable_how_codec v = 4"
  by (simp add: stable_how_codec_def simple_enum_codec_def)

datatype NFS_PROGRAM =
    NFSPROC3_NULL | NFSPROC3_GETATTR | NFSPROC3_SETATTR | NFSPROC3_LOOKUP | NFSPROC3_ACCESS |
    NFSPROC3_READLINK | NFSPROC3_READ | NFSPROC3_WRITE | NFSPROC3_CREATE | NFSPROC3_MKDIR |
    NFSPROC3_SYMLINK | NFSPROC3_MKNOD | NFSPROC3_REMOVE | NFSPROC3_RMDIR | NFSPROC3_RENAME |
    NFSPROC3_LINK | NFSPROC3_READDIR | NFSPROC3_READDIRPLUS | NFSPROC3_FSSTAT |
    NFSPROC3_FSINFO | NFSPROC3_PATHCONF | NFSPROC3_COMMIT

fun NFS_PROGRAM_as_u32 :: "NFS_PROGRAM \<Rightarrow> u32" where
  "NFS_PROGRAM_as_u32 NFS_PROGRAM.NFSPROC3_NULL = 0"
| "NFS_PROGRAM_as_u32 NFS_PROGRAM.NFSPROC3_GETATTR = 1"
| "NFS_PROGRAM_as_u32 NFS_PROGRAM.NFSPROC3_SETATTR = 2"
| "NFS_PROGRAM_as_u32 NFS_PROGRAM.NFSPROC3_LOOKUP = 3"
| "NFS_PROGRAM_as_u32 NFS_PROGRAM.NFSPROC3_ACCESS = 4"
| "NFS_PROGRAM_as_u32 NFS_PROGRAM.NFSPROC3_READLINK = 5"
| "NFS_PROGRAM_as_u32 NFS_PROGRAM.NFSPROC3_READ = 6"
| "NFS_PROGRAM_as_u32 NFS_PROGRAM.NFSPROC3_WRITE = 7"
| "NFS_PROGRAM_as_u32 NFS_PROGRAM.NFSPROC3_CREATE = 8"
| "NFS_PROGRAM_as_u32 NFS_PROGRAM.NFSPROC3_MKDIR = 9"
| "NFS_PROGRAM_as_u32 NFS_PROGRAM.NFSPROC3_SYMLINK = 10"
| "NFS_PROGRAM_as_u32 NFS_PROGRAM.NFSPROC3_MKNOD = 11"
| "NFS_PROGRAM_as_u32 NFS_PROGRAM.NFSPROC3_REMOVE = 12"
| "NFS_PROGRAM_as_u32 NFS_PROGRAM.NFSPROC3_RMDIR = 13"
| "NFS_PROGRAM_as_u32 NFS_PROGRAM.NFSPROC3_RENAME = 14"
| "NFS_PROGRAM_as_u32 NFS_PROGRAM.NFSPROC3_LINK = 15"
| "NFS_PROGRAM_as_u32 NFS_PROGRAM.NFSPROC3_READDIR = 16"
| "NFS_PROGRAM_as_u32 NFS_PROGRAM.NFSPROC3_READDIRPLUS = 17"
| "NFS_PROGRAM_as_u32 NFS_PROGRAM.NFSPROC3_FSSTAT = 18"
| "NFS_PROGRAM_as_u32 NFS_PROGRAM.NFSPROC3_FSINFO = 19"
| "NFS_PROGRAM_as_u32 NFS_PROGRAM.NFSPROC3_PATHCONF = 20"
| "NFS_PROGRAM_as_u32 NFS_PROGRAM.NFSPROC3_COMMIT = 21"

definition NFS_PROGRAM_variants :: "NFS_PROGRAM list" where
  "NFS_PROGRAM_variants = [NFS_PROGRAM.NFSPROC3_NULL, NFS_PROGRAM.NFSPROC3_GETATTR,
     NFS_PROGRAM.NFSPROC3_SETATTR, NFS_PROGRAM.NFSPROC3_LOOKUP, NFS_PROGRAM.NFSPROC3_ACCESS,
     NFS_PROGRAM.NFSPROC3_READLINK, NFS_PROGRAM.NFSPROC3_READ, NFS_PROGRAM.NFSPROC3_WRITE,
     NFS_PROGRAM.NFSPROC3_CREATE, NFS_PROGRAM.NFSPROC3_MKDIR, NFS_PROGRAM.NFSPROC3_SYMLINK,
     NFS_PROGRAM.NFSPROC3_MKNOD, NFS_PROGRAM.NFSPROC3_REMOVE, NFS_PROGRAM.NFSPROC3_RMDIR,
     NFS_PROGRAM.NFSPROC3_RENAME, NFS_PROGRAM.NFSPROC3_LINK, NFS_PROGRAM.NFSPROC3_READDIR,
     NFS_PROGRAM.NFSPROC3_READDIRPLUS, NFS_PROGRAM.NFSPROC3_FSSTAT,
     NFS_PROGRAM.NFSPROC3_FSINFO, NFS_PROGRAM.NFSPROC3_PATHCONF, NFS_PROGRAM.NFSPROC3_COMMIT]"

definition NFS_PROGRAM_codec :: "NFS_PROGRAM codec" where
  "NFS_PROGRAM_codec = simple_enum_codec NFS_PROGRAM_as_u32 NFS_PROGRAM_variants"

lemma NFS_PROGRAM_codec_lawful [codec_intros]: "xdr_codec_total NFS_PROGRAM_codec"
  unfolding NFS_PROGRAM_codec_def
  by (rule simple_enum_codec_lawful, case_tac v) (simp_all add: NFS_PROGRAM_variants_def)

lemma NFS_PROGRAM_pack: "pack NFS_PROGRAM_codec v out = Ok (4, out @ to_be_bytes (NFS_PROGRAM_as_u32 v))"
  by (simp add: NFS_PROGRAM_codec_def simple_enum_codec_def)

lemma NFS_PROGRAM_packed_size [simp]: "packed_size NFS_PROGRAM_codec v = 4"
  by (simp add: NFS_PROGRAM_codec_def simple_enum_codec_def)

definition NFS_PROGRAM_try_from :: "u32 \<Rightarrow> xdr_error + NFS_PROGRAM" where
  "NFS_PROGRAM_try_from value =
     (if value = 0 then Ok NFSPROC3_NULL
      else if value = 1 then Ok NFSPROC3_GETATTR
      else if value = 2 then Ok NFSPROC3_SETATTR
      else if value = 3 then Ok NFSPROC3_LOOKUP
      else if value = 4 then Ok NFSPROC3_ACCESS
      else if value = 5 then Ok NFSPROC3_READLINK
      else if value = 6 then Ok NFSPROC3_READ
      else if value = 7 then Ok NFSPROC3_WRITE
      else if value = 8 then Ok NFSPROC3_CREATE
      else if value = 9 then Ok NFSPROC3_MKDIR
      else if value = 10 then Ok NFSPROC3_SYMLINK
      else if value = 11 then Ok NFSPROC3_MKNOD
      else if value = 12 then Ok NFSPROC3_REMOVE
      else if value = 13 then Ok NFSPROC3_RMDIR
      else if value = 14 then Ok NFSPROC3_RENAME
      else if value = 15 then Ok NFSPROC3_LINK
      else if value = 16 then Ok NFSPROC3_READDIR
      else if value = 17 then Ok NFSPROC3_READDIRPLUS
      else if value = 18 then Ok NFSPROC3_FSSTAT
      else if value = 19 then Ok NFSPROC3_FSINFO
      else if value = 20 then Ok NFSPROC3_PATHCONF
      else if value = 21 then Ok NFSPROC3_COMMIT
      else Err (InvalidEnumValue value))"

lemma NFS_PROGRAM_try_from_as_u32 [simp]: "NFS_PROGRAM_try_from (NFS_PROGRAM_as_u32 p) = Ok p"
  by (cases p) (simp_all add: NFS_PROGRAM_try_from_def)

lemma NFS_PROGRAM_try_from_Ok: "NFS_PROGRAM_try_from w = Ok p \<Longrightarrow> w = NFS_PROGRAM_as_u32 p"
  by (auto simp: NFS_PROGRAM_try_from_def split: if_splits)

section \<open>Attributes, names and handles\<close>

record nfstime3 =
  seconds :: u32
  nseconds :: u32

definition nfstime3_codec :: "nfstime3 codec" where
  "nfstime3_codec = struct_codec
     (\<lambda>(x0, x1). \<lparr> nfstime3.seconds = x0, nfstime3.nseconds = x1 \<rparr>)
     (\<lambda>r. (nfstime3.seconds r, nfstime3.nseconds r))
     (fields_codec u32_codec u32_codec)"

lemma nfstime3_codec_lawful [codec_intros]: "xdr_codec_total nfstime3_codec"
  unfolding nfstime3_codec_def by (intro codec_intros) auto

record specdata3 =
  specdata1 :: u32
  specdata2 :: u32

definition specdata3_codec :: "specdata3 codec" where
  "specdata3_codec = struct_codec
     (\<lambda>(x0, x1). \<lparr> specdata3.specdata1 = x0, specdata3.specdata2 = x1 \<rparr>)
     (\<lambda>r. (specdata3.specdata1 r, specdata3.specdata2 r))
     (fields_codec u32_codec u32_codec)"

lemma specdata3_codec_lawful [codec_intros]: "xdr_codec_total specdata3_codec"
  unfolding specdata3_codec_def by (intro codec_intros) auto

type_synonym set_gid3 = "gid3 option"

type_synonym set_mode3 = "mode3 option"

type_synonym set_size3 = "size3 option"

type_synonym set_uid3 = "uid3 option"

datatype set_atime =
    DONT_CHANGE
  | SET_TO_SERVER_TIME
  | SET_TO_CLIENT_TIME nfstime3

fun set_atime_as_variant :: "set_atime \<Rightarrow> u32 \<times> payload" where
  "set_atime_as_variant set_atime.DONT_CHANGE = (0, unit_payload)"
| "set_atime_as_variant set_atime.SET_TO_SERVER_TIME = (1, unit_payload)"
| "set_atime_as_variant (set_atime.SET_TO_CLIENT_TIME x) = (2, field_payload nfstime3_codec x)"

definition set_atime_codec :: "set_atime codec" where
  "set_atime_codec = complex_enum_codec set_atime_as_variant [
     (0, unit_variant set_atime.DONT_CHANGE),
     (1, unit_variant set_atime.SET_TO_SERVER_TIME),
     (2, field_variant set_atime.SET_TO_CLIENT_TIME nfstime3_codec)]"

lemma set_atime_codec_lawful [codec_intros]: "xdr_codec_total set_atime_codec"
  unfolding set_atime_codec_def
  by (rule complex_enum_codec_lawful_all, case_tac v) (auto intro!: codec_intros)

datatype set_mtime =
    DONT_CHANGE
  | SET_TO_SERVER_TIME
  | SET_TO_CLIENT_TIME nfstime3

fun set_mtime_as_variant :: "set_mtime \<Rightarrow> u32 \<times> payload" where
  "set_mtime_as_variant set_mtime.DONT_CHANGE = (0, unit_payload)"
| "set_mtime_as_variant set_mtime.SET_TO_SERVER_TIME = (1, unit_payload)"
| "set_mtime_as_variant (set_mtime.SET_TO_CLIENT_TIME x) = (2, field_payload nfstime3_codec x)"

definition set_mtime_codec :: "set_mtime codec" where
  "set_mtime_codec = complex_enum_codec set_mtime_as_variant [
     (0, unit_variant set_mtime.DONT_CHANGE),
     (1, unit_variant set_mtime.SET_TO_SERVER_TIME),
     (2, field_variant set_mtime.SET_TO_CLIENT_TIME nfstime3_codec)]"

lemma set_mtime_codec_lawful [codec_intros]: "xdr_codec_total set_mtime_codec"
  unfolding set_mtime_codec_def
  by (rule complex_enum_codec_lawful_all, case_tac v) (auto intro!: codec_intros)

record sattr3 =
  mode :: set_mode3
  uid :: set_uid3
  gid :: set_gid3
  size :: set_size3
  atime :: set_atime
  mtime :: set_mtime

definition sattr3_codec :: "sattr3 codec" where
  "sattr3_codec = struct_codec
     (\<lambda>(x0, x1, x2, x3, x4, x5). \<lparr> sattr3.mode = x0, sattr3.uid = x1,
        sattr3.gid = x2, sattr3.size = x3, sattr3.atime = x4, sattr3.mtime = x5 \<rparr>)
     (\<lambda>r. (sattr3.mode r, sattr3.uid r, sattr3.gid r, sattr3.size r, sattr3.atime r,
        sattr3.mtime r))
     (fields_codec (nfs3_option_codec u32_codec) (fields_codec (nfs3_option_codec u32_codec) (
        fields_codec (nfs3_option_codec u32_codec) (fields_codec (nfs3_option_codec u64_codec) (
        fields_codec set_atime_codec set_mtime_codec)))))"

lemma sattr3_codec_lawful [codec_intros]: "xdr_codec_total sattr3_codec"
  unfolding sattr3_codec_def by (intro codec_intros) auto

type_synonym cookieverf3 = "8 u8_array"

definition cookieverf3_codec :: "cookieverf3 codec" where
  "cookieverf3_codec = u8_array_codec"

lemma cookieverf3_codec_lawful [codec_intros]: "xdr_codec_total cookieverf3_codec"
  unfolding cookieverf3_codec_def by (intro codec_intros)

datatype createmode3 =
    UNCHECKED | GUARDED | EXCLUSIVE

fun createmode3_as_u32 :: "createmode3 \<Rightarrow> u32" where
  "createmode3_as_u32 createmode3.UNCHECKED = 0"
| "createmode3_as_u32 createmode3.GUARDED = 1"
| "createmode3_as_u32 createmode3.EXCLUSIVE = 2"

definition createmode3_variants :: "createmode3 list" where
  "createmode3_variants = [createmode3.UNCHECKED, createmode3.GUARDED, createmode3.EXCLUSIVE]"

definition createmode3_codec :: "createmode3 codec" where
  "createmode3_codec = simple_enum_codec createmode3_as_u32 createmode3_variants"

lemma createmode3_codec_lawful [codec_intros]: "xdr_codec_total createmode3_codec"
  unfolding createmode3_codec_def
  by (rule simple_enum_codec_lawful, case_tac v) (simp_all add: createmode3_variants_def)

lemma createmode3_pack: "pack createmode3_codec v out = Ok (4, out @ to_be_bytes (createmode3_as_u32 v))"
  by (simp add: createmode3_codec_def simple_enum_codec_def)

lemma createmode3_packed_size [simp]: "packed_size createmode3_codec v = 4"
  by (simp add: createmode3_codec_def simple_enum_codec_def)

type_synonym createverf3 = "8 u8_array"

definition createverf3_codec :: "createverf3 codec" where
  "createverf3_codec = u8_array_codec"

lemma createverf3_codec_lawful [codec_intros]: "xdr_codec_total createverf3_codec"
  unfolding createverf3_codec_def by (intro codec_intros)

type_synonym writeverf3 = "8 u8_array"

definition writeverf3_codec :: "writeverf3 codec" where
  "writeverf3_codec = u8_array_codec"

lemma writeverf3_codec_lawful [codec_intros]: "xdr_codec_total writeverf3_codec"
  unfolding writeverf3_codec_def by (intro codec_intros)

datatype createhow3 =
    UNCHECKED sattr3
  | GUARDED sattr3
  | EXCLUSIVE createverf3

fun createhow3_as_variant :: "createhow3 \<Rightarrow> u32 \<times> payload" where
  "createhow3_as_variant (createhow3.UNCHECKED x) = (0, field_payload sattr3_codec x)"
| "createhow3_as_variant (createhow3.GUARDED x) = (1, field_payload sattr3_codec x)"
| "createhow3_as_variant (createhow3.EXCLUSIVE x) = (2, field_payload createverf3_codec x)"

definition createhow3_codec :: "createhow3 codec" where
  "createhow3_codec = complex_enum_codec createhow3_as_variant [
     (0, field_variant createhow3.UNCHECKED sattr3_codec),
     (1, field_variant createhow3.GUARDED sattr3_codec),
     (2, field_variant createhow3.EXCLUSIVE createverf3_codec)]"

lemma createhow3_codec_lawful [codec_intros]: "xdr_codec_total createhow3_codec"
  unfolding createhow3_codec_def
  by (rule complex_enum_codec_lawful_all, case_tac v) (auto intro!: codec_intros)

record devicedata3 =
  dev_attributes :: sattr3
  spec :: specdata3

definition devicedata3_codec :: "devicedata3 codec" where
  "devicedata3_codec = struct_codec
     (\<lambda>(x0, x1). \<lparr> devicedata3.dev_attributes = x0, devicedata3.spec = x1 \<rparr>)
     (\<lambda>r. (devicedata3.dev_attributes r, devicedata3.spec r))
     (fields_codec sattr3_codec specdata3_codec)"

lemma devicedata3_codec_lawful [codec_intros]: "xdr_codec_total devicedata3_codec"
  unfolding devicedata3_codec_def by (intro codec_intros) auto

record nfs_fh3 =
  data :: opaque

definition nfs_fh3_codec :: "nfs_fh3 codec" where
  "nfs_fh3_codec = struct_codec
     (\<lambda>x0. \<lparr> nfs_fh3.data = x0 \<rparr>)
     (\<lambda>r. nfs_fh3.data r)
     opaque_codec"

lemma nfs_fh3_codec_lawful [codec_intros]: "xdr_codec_total nfs_fh3_codec"
  unfolding nfs_fh3_codec_def by (intro codec_intros) auto

type_synonym filename3 = "opaque"

definition filename3_codec :: "filename3 codec" where
  "filename3_codec = opaque_codec"

lemma filename3_codec_lawful [codec_intros]: "xdr_codec_total filename3_codec"
  unfolding filename3_codec_def by (intro codec_intros)

type_synonym nfspath3 = "opaque"

definition nfspath3_codec :: "nfspath3 codec" where
  "nfspath3_codec = opaque_codec"

lemma nfspath3_codec_lawful [codec_intros]: "xdr_codec_total nfspath3_codec"
  unfolding nfspath3_codec_def by (intro codec_intros)

record diropargs3 =
  dir :: nfs_fh3
  name :: filename3

definition diropargs3_codec :: "diropargs3 codec" where
  "diropargs3_codec = struct_codec
     (\<lambda>(x0, x1). \<lparr> diropargs3.dir = x0, diropargs3.name = x1 \<rparr>)
     (\<lambda>r. (diropargs3.dir r, diropargs3.name r))
     (fields_codec nfs_fh3_codec filename3_codec)"

lemma diropargs3_codec_lawful [codec_intros]: "xdr_codec_total diropargs3_codec"
  unfolding diropargs3_codec_def by (intro codec_intros) auto

record fattr3 =
  type' :: ftype3
  mode :: mode3
  nlink :: u32
  uid :: uid3
  gid :: gid3
  size :: size3
  used :: size3
  rdev :: specdata3
  fsid :: u64
  fileid :: fileid3
  atime :: nfstime3
  mtime :: nfstime3
  ctime :: nfstime3

definition fattr3_codec :: "fattr3 codec" where
  "fattr3_codec = struct_codec
     (\<lambda>(x0, x1, x2, x3, x4, x5, x6, x7, x8, x9, x10, x11, x12). \<lparr>
        fattr3.type' = x0, fattr3.mode = x1, fattr3.nlink = x2, fattr3.uid = x3,
        fattr3.gid = x4, fattr3.size = x5, fattr3.used = x6, fattr3.rdev = x7,
        fattr3.fsid = x8, fattr3.fileid = x9, fattr3.atime = x10, fattr3.mtime = x11,
        fattr3.ctime = x12 \<rparr>)
     (\<lambda>r. (fattr3.type' r, fattr3.mode r, fattr3.nlink r, fattr3.uid r, fattr3.gid r,
        fattr3.size r, fattr3.used r, fattr3.rdev r, fattr3.fsid r, fattr3.fileid r,
        fattr3.atime r, fattr3.mtime r, fattr3.ctime r))
     (fields_codec ftype3_codec (fields_codec u32_codec (fields_codec u32_codec (
        fields_codec u32_codec (fields_codec u32_codec (fields_codec u64_codec (
        fields_codec u64_codec (fields_codec specdata3_codec (fields_codec u64_codec (
        fields_codec u64_codec (fields_codec nfstime3_codec (
        fields_codec nfstime3_codec nfstime3_codec))))))))))))"

lemma fattr3_codec_lawful [codec_intros]: "xdr_codec_total fattr3_codec"
  unfolding fattr3_codec_def by (intro codec_intros) auto

record wcc_attr =
  size :: size3
  mtime :: nfstime3
  ctime :: nfstime3

definition wcc_attr_codec :: "wcc_attr codec" where
  "wcc_attr_codec = struct_codec
     (\<lambda>(x0, x1, x2). \<lparr> wcc_attr.size = x0, wcc_attr.mtime = x1,
        wcc_attr.ctime = x2 \<rparr>)
     (\<lambda>r. (wcc_attr.size r, wcc_attr.mtime r, wcc_attr.ctime r))
     (fields_codec u64_codec (fields_codec nfstime3_codec nfstime3_codec))"

lemma wcc_attr_codec_lawful [codec_intros]: "xdr_codec_total wcc_attr_codec"
  unfolding wcc_attr_codec_def by (intro codec_intros) auto

type_synonym pre_op_attr = "wcc_attr option"

type_synonym post_op_attr = "fattr3 option"

type_synonym post_op_fh3 = "nfs_fh3 option"

type_synonym sattrguard3 = "nfstime3 option"

record wcc_data =
  before :: pre_op_attr
  after :: post_op_attr

definition wcc_data_codec :: "wcc_data codec" where
  "wcc_data_codec = struct_codec
     (\<lambda>(x0, x1). \<lparr> wcc_data.before = x0, wcc_data.after = x1 \<rparr>)
     (\<lambda>r. (wcc_data.before r, wcc_data.after r))
     (fields_codec (nfs3_option_codec wcc_attr_codec) (nfs3_option_codec fattr3_codec))"

lemma wcc_data_codec_lawful [codec_intros]: "xdr_codec_total wcc_data_codec"
  unfolding wcc_data_codec_def by (intro codec_intros) auto

record entry3 =
  fileid :: fileid3
  name :: filename3
  cookie :: cookie3

definition entry3_codec :: "entry3 codec" where
  "entry3_codec = struct_codec
     (\<lambda>(x0, x1, x2). \<lparr> entry3.fileid = x0, entry3.name = x1, entry3.cookie = x2 \<rparr>)
     (\<lambda>r. (entry3.fileid r, entry3.name r, entry3.cookie r))
     (fields_codec u64_codec (fields_codec filename3_codec u64_codec))"

lemma entry3_codec_lawful [codec_intros]: "xdr_codec_total entry3_codec"
  unfolding entry3_codec_def by (intro codec_intros) auto

record entryplus3 =
  fileid :: fileid3
  name :: filename3
  cookie :: cookie3
  name_attributes :: post_op_attr
  name_handle :: post_op_fh3

definition entryplus3_codec :: "entryplus3 codec" where
  "entryplus3_codec = struct_codec
     (\<lambda>(x0, x1, x2, x3, x4). \<lparr> entryplus3.fileid = x0, entryplus3.name = x1,
        entryplus3.cookie = x2, entryplus3.name_attributes = x3, entryplus3.name_handle = x4 \<rparr>)
     (\<lambda>r. (entryplus3.fileid r, entryplus3.name r, entryplus3.cookie r,
        entryplus3.name_attributes r, entryplus3.name_handle r))
     (fields_codec u64_codec (fields_codec filename3_codec (fields_codec u64_codec (
        fields_codec (nfs3_option_codec fattr3_codec) (nfs3_option_codec nfs_fh3_codec)))))"

lemma entryplus3_codec_lawful [codec_intros]: "xdr_codec_total entryplus3_codec"
  unfolding entryplus3_codec_def by (intro codec_intros) auto

record dirlist3 =
  entries :: "entry3 list"
  eof :: bool

definition dirlist3_codec :: "dirlist3 codec" where
  "dirlist3_codec = struct_codec
     (\<lambda>(x0, x1). \<lparr> dirlist3.entries = x0, dirlist3.eof = x1 \<rparr>)
     (\<lambda>r. (dirlist3.entries r, dirlist3.eof r))
     (fields_codec (list_codec entry3_codec) bool_codec)"

lemma dirlist3_codec_lawful [codec_intros]: "xdr_codec_total dirlist3_codec"
  unfolding dirlist3_codec_def by (intro codec_intros) auto

record dirlistplus3 =
  entries :: "entryplus3 list"
  eof :: bool

definition dirlistplus3_codec :: "dirlistplus3 codec" where
  "dirlistplus3_codec = struct_codec
     (\<lambda>(x0, x1). \<lparr> dirlistplus3.entries = x0, dirlistplus3.eof = x1 \<rparr>)
     (\<lambda>r. (dirlistplus3.entries r, dirlistplus3.eof r))
     (fields_codec (list_codec entryplus3_codec) bool_codec)"

lemma dirlistplus3_codec_lawful [codec_intros]: "xdr_codec_total dirlistplus3_codec"
  unfolding dirlistplus3_codec_def by (intro codec_intros) auto

record symlinkdata3 =
  symlink_attributes :: sattr3
  symlink_data :: nfspath3

definition symlinkdata3_codec :: "symlinkdata3 codec" where
  "symlinkdata3_codec = struct_codec
     (\<lambda>(x0, x1). \<lparr> symlinkdata3.symlink_attributes = x0,
        symlinkdata3.symlink_data = x1 \<rparr>)
     (\<lambda>r. (symlinkdata3.symlink_attributes r, symlinkdata3.symlink_data r))
     (fields_codec sattr3_codec nfspath3_codec)"

lemma symlinkdata3_codec_lawful [codec_intros]: "xdr_codec_total symlinkdata3_codec"
  unfolding symlinkdata3_codec_def by (intro codec_intros) auto

section \<open>Device nodes\<close>

text \<open>
  \<^verbatim>\<open>mknoddata3\<close> is packed by hand.  Its variant \<^verbatim>\<open>default\<close>, here \<open>mknod_default\<close>,
  is what any other tag decodes to; it cannot be encoded.
\<close>

datatype mknoddata3 =
    NF3CHR devicedata3 | NF3BLK devicedata3 | NF3SOCK sattr3 | NF3FIFO sattr3 | mknod_default

definition mknoddata3_codec :: "mknoddata3 codec" where
  "mknoddata3_codec = \<lparr>
     packed_size = (\<lambda>v. 4 + (case v of
         NF3CHR val \<Rightarrow> packed_size devicedata3_codec val
       | NF3BLK val \<Rightarrow> packed_size devicedata3_codec val
       | NF3SOCK val \<Rightarrow> packed_size sattr3_codec val
       | NF3FIFO val \<Rightarrow> packed_size sattr3_codec val
       | mknod_default \<Rightarrow> 0)),
     pack = (\<lambda>v out. case v of
         NF3CHR val \<Rightarrow> pack (fields_codec ftype3_codec devicedata3_codec) (ftype3.NF3CHR, val) out
       | NF3BLK val \<Rightarrow> pack (fields_codec ftype3_codec devicedata3_codec) (ftype3.NF3BLK, val) out
       | NF3SOCK val \<Rightarrow> pack (fields_codec ftype3_codec sattr3_codec) (ftype3.NF3SOCK, val) out
       | NF3FIFO val \<Rightarrow> pack (fields_codec ftype3_codec sattr3_codec) (ftype3.NF3FIFO, val) out
       | mknod_default \<Rightarrow> Err (InvalidEnumValue (- 1))),
     unpack = (\<lambda>i. and_then (unpack u32_codec i) (\<lambda>(v, n, i1).
       if v = 4 then and_then (unpack devicedata3_codec i1) (\<lambda>(val, m, i2). Ok (NF3CHR val, n + m, i2))
       else if v = 3 then and_then (unpack devicedata3_codec i1) (\<lambda>(val, m, i2). Ok (NF3BLK val, n + m, i2))
       else if v = 6 then and_then (unpack sattr3_codec i1) (\<lambda>(val, m, i2). Ok (NF3SOCK val, n + m, i2))
       else if v = 7 then and_then (unpack sattr3_codec i1) (\<lambda>(val, m, i2). Ok (NF3FIFO val, n + m, i2))
       else Ok (mknod_default, n, i1))) \<rparr>"

lemma tagged_pack:
  assumes "xdr_codec c" "pack (fields_codec ftype3_codec c) (t, x) [] = Ok (n, bs)"
  shows "\<exists>m b. pack c x [] = Ok (m, b) \<and> n = 4 + m \<and> bs = to_be_bytes (ftype3_as_u32 t) @ b"
  using assms
  by (auto simp: ftype3_pack fields_pack [OF total_codec_xdr [OF ftype3_codec_lawful]])

lemma mknoddata3_packed_size:
  "packed_size mknoddata3_codec (NF3CHR d) = packed_size (fields_codec ftype3_codec devicedata3_codec) (ftype3.NF3CHR, d)"
  "packed_size mknoddata3_codec (NF3BLK d) = packed_size (fields_codec ftype3_codec devicedata3_codec) (ftype3.NF3BLK, d)"
  "packed_size mknoddata3_codec (NF3SOCK a) = packed_size (fields_codec ftype3_codec sattr3_codec) (ftype3.NF3SOCK, a)"
  "packed_size mknoddata3_codec (NF3FIFO a) = packed_size (fields_codec ftype3_codec sattr3_codec) (ftype3.NF3FIFO, a)"
  "packed_size mknoddata3_codec mknod_default = 4"
  by (simp_all add: mknoddata3_codec_def)

lemma mknoddata3_codec_xdr: "xdr_codec mknoddata3_codec"
proof -
  have d: "xdr_codec devicedata3_codec" and s: "xdr_codec sattr3_codec" and t: "xdr_codec ftype3_codec"
    by (rule total_codec_xdr, intro codec_intros)+
  note fd = fields_codec_xdr [OF t d] and fs = fields_codec_xdr [OF t s]
  show ?thesis
  proof unfold_locales
    fix x out
    show "pack mknoddata3_codec x out = map_ok (\<lambda>(n, bs). (n, out @ bs)) (pack mknoddata3_codec x [])"
      by (cases x; simp only: mknoddata3_codec_def codec.simps mknoddata3.case map_ok_simps)
         (rule xdr_codec.pack_appends [OF fd] xdr_codec.pack_appends [OF fs])+
  next
    fix x n bs assume "pack mknoddata3_codec x [] = Ok (n, bs)"
    then show "n = length bs \<and> n = packed_size mknoddata3_codec x"
      by (cases x) (auto simp: mknoddata3_codec_def dest!: tagged_pack [OF d] tagged_pack [OF s]
          dest: xdr_codec.pack_size [OF d] xdr_codec.pack_size [OF s])
  next
    fix x n bs rest assume "pack mknoddata3_codec x [] = Ok (n, bs)"
    then show "unpack mknoddata3_codec (bs @ rest) = Ok (x, n, rest)"
      by (cases x) (auto simp: mknoddata3_codec_def
          dest!: tagged_pack [OF d] tagged_pack [OF s] simp: xdr_codec.unpack_pack [OF d] xdr_codec.unpack_pack [OF s])
  next
    fix x n bs k assume "pack mknoddata3_codec x [] = Ok (n, bs)" "k < n"
    then show "unpack mknoddata3_codec (take k bs) = Err (Io UnexpectedEof)"
      by (cases x; cases "k < 4") (auto simp: mknoddata3_codec_def
          dest!: tagged_pack [OF d] tagged_pack [OF s] simp: xdr_codec.unpack_truncated [OF d] xdr_codec.unpack_truncated [OF s])
  next
    fix x show "4 dvd packed_size mknoddata3_codec x"
      using xdr_codec.size_aligned [OF d] xdr_codec.size_aligned [OF s]
      by (cases x) (simp_all add: mknoddata3_packed_size)
  next
    fix i x n rest assume "unpack mknoddata3_codec i = Ok (x, n, rest)"
    then show "n = packed_size mknoddata3_codec x \<and> n \<le> length i \<and> rest = drop n i"
      by (auto simp: mknoddata3_codec_def result_simps u32_unpack_eq_Ok split: if_splits
        dest!: xdr_codec.unpack_consumes [OF d] xdr_codec.unpack_consumes [OF s])
  qed
qed

interpretation mknoddata3: xdr_codec mknoddata3_codec
  by (rule mknoddata3_codec_xdr)

section \<open>Encoded sizes\<close>

lemma nfstime3_packed_size [simp]: "packed_size nfstime3_codec t = 8"
  by (simp add: nfstime3_codec_def)

lemma specdata3_packed_size [simp]: "packed_size specdata3_codec t = 8"
  by (simp add: specdata3_codec_def)

lemma fattr3_packed_size [simp]: "packed_size fattr3_codec t = 84"
  by (simp add: fattr3_codec_def)

lemma wcc_attr_packed_size [simp]: "packed_size wcc_attr_codec t = 24"
  by (simp add: wcc_attr_codec_def)

end
