(* ===== verification/Nfs3_Messages.thy ===== *)
theory Nfs3_Messages
  imports Nfs3_Types
begin

text \<open>
  Arguments and results of the NFSv3 procedures (\<^verbatim>\<open>nfs3_types/src/nfs3.rs\<close>) with their
  codecs, and \<^verbatim>\<open>Nfs3Result\<close>.
\<close>

section \<open>Results\<close>

datatype ('t, 'e) nfs3_result = Nfs3Ok 't | Nfs3Err nfsstat3 'e

definition nfs3_result_codec :: "'t codec \<Rightarrow> 'e codec \<Rightarrow> ('t, 'e) nfs3_result codec" where
  "nfs3_result_codec ok fail = \<lparr>
     packed_size = (\<lambda>r. case r of
         Nfs3Ok v \<Rightarrow> packed_size nfsstat3_codec NFS3_OK + packed_size ok v
       | Nfs3Err code err \<Rightarrow> packed_size nfsstat3_codec code + packed_size fail err),
     pack = (\<lambda>r out. case r of
         Nfs3Ok v \<Rightarrow> and_then (pack nfsstat3_codec NFS3_OK out) (\<lambda>(n, out1).
           and_then (pack ok v out1) (\<lambda>(m, out2). Ok (n + m, out2)))
       | Nfs3Err code err \<Rightarrow> and_then (pack nfsstat3_codec code out) (\<lambda>(n, out1).
           and_then (pack fail err out1) (\<lambda>(m, out2). Ok (n + m, out2)))),
     unpack = (\<lambda>i. and_then (unpack nfsstat3_codec i) (\<lambda>(code, n, i1).
       if code = NFS3_OK
       then and_then (unpack ok i1) (\<lambda>(val, m, i2). Ok (Nfs3Ok val, n + m, i2))
       else and_then (unpack fail i1) (\<lambda>(val, m, i2). Ok (Nfs3Err code val, n + m, i2)))) \<rparr>"

text \<open>An error with the status \<^verbatim>\<open>NFS3_OK\<close> is the one value whose encoding means another.\<close>

definition nfs3_result_ok :: "('t, 'e) nfs3_result \<Rightarrow> bool" where
  "nfs3_result_ok r \<longleftrightarrow> (case r of Nfs3Ok _ \<Rightarrow> True | Nfs3Err code _ \<Rightarrow> code \<noteq> NFS3_OK)"

lemma nfs3_result_pack:
  "pack (nfs3_result_codec ok fail) (Nfs3Ok v) = pack (fields_codec nfsstat3_codec ok) (NFS3_OK, v)"
  "pack (nfs3_result_codec ok fail) (Nfs3Err code e) = pack (fields_codec nfsstat3_codec fail) (code, e)"
  by (simp_all add: nfs3_result_codec_def fields_codec_def fun_eq_iff)

lemma nfs3_result_packed_size:
  "packed_size (nfs3_result_codec ok fail) (Nfs3Ok v) = packed_size (fields_codec nfsstat3_codec ok) (NFS3_OK, v)"
  "packed_size (nfs3_result_codec ok fail) (Nfs3Err code e) = packed_size (fields_codec nfsstat3_codec fail) (code, e)"
  by (simp_all add: nfs3_result_codec_def)

lemma nfs3_result_codec_on:
  assumes "xdr_codec_total ok" "xdr_codec_total fail"
  shows "xdr_codec_on (nfs3_result_codec ok fail) nfs3_result_ok"
proof -
  have o: "xdr_codec ok" and f: "xdr_codec fail" and s: "xdr_codec nfsstat3_codec"
    using assms nfsstat3_codec_lawful by (simp_all add: total_codec_xdr)
  note fo = fields_codec_xdr [OF s o] and ff = fields_codec_xdr [OF s f]
  show ?thesis
  proof unfold_locales
    fix x out
    show "pack (nfs3_result_codec ok fail) x out =
        map_ok (\<lambda>(n, bs). (n, out @ bs)) (pack (nfs3_result_codec ok fail) x [])"
      by (cases x; simp only: nfs3_result_pack)
         (rule xdr_codec.pack_appends [OF fo] xdr_codec.pack_appends [OF ff])+
  next
    fix x n bs rest
    assume "nfs3_result_ok x" "pack (nfs3_result_codec ok fail) x [] = Ok (n, bs)"
    then show "unpack (nfs3_result_codec ok fail) (bs @ rest) = Ok (x, n, rest)"
      by (cases x) (auto simp: nfs3_result_ok_def nfs3_result_pack fields_pack [OF s o] fields_pack [OF s f],
        auto simp: nfs3_result_codec_def xdr_codec.unpack_pack [OF s] xdr_codec.unpack_pack [OF o] xdr_codec.unpack_pack [OF f])
  next
    fix i x n rest
    assume "unpack (nfs3_result_codec ok fail) i = Ok (x, n, rest)"
    then show "n = packed_size (nfs3_result_codec ok fail) x \<and> n \<le> length i \<and> rest = drop n i \<and> nfs3_result_ok x"
      by (auto simp: nfs3_result_codec_def nfs3_result_ok_def result_simps add.commute split: if_splits
          dest!: xdr_codec.unpack_consumes [OF s] xdr_codec.unpack_consumes [OF o] xdr_codec.unpack_consumes [OF f])
  next
    fix x show "4 dvd packed_size (nfs3_result_codec ok fail) x"
      using xdr_codec.size_aligned [OF fo] xdr_codec.size_aligned [OF ff]
      by (cases x) (simp_all only: nfs3_result_packed_size)
  next
    fix x n bs assume "pack (nfs3_result_codec ok fail) x [] = Ok (n, bs)"
    then show "n = length bs \<and> n = packed_size (nfs3_result_codec ok fail) x"
      using xdr_codec.pack_size [OF fo] xdr_codec.pack_size [OF ff]
      by (cases x) (simp_all only: nfs3_result_packed_size nfs3_result_pack)
  qed
qed

section \<open>GETATTR\<close>

record GETATTR3args =
  object :: nfs_fh3

definition GETATTR3args_codec :: "GETATTR3args codec" where
  "GETATTR3args_codec = struct_codec
     (\<lambda>x0. \<lparr> GETATTR3args.object = x0 \<rparr>)
     (\<lambda>r. GETATTR3args.object r)
     nfs_fh3_codec"

lemma GETATTR3args_codec_lawful [codec_intros]: "xdr_codec_total GETATTR3args_codec"
  unfolding GETATTR3args_codec_def by (intro codec_intros) auto

record GETATTR3resok =
  obj_attributes :: fattr3

definition GETATTR3resok_codec :: "GETATTR3resok codec" where
  "GETATTR3resok_codec = struct_codec
     (\<lambda>x0. \<lparr> GETATTR3resok.obj_attributes = x0 \<rparr>)
     (\<lambda>r. GETATTR3resok.obj_attributes r)
     fattr3_codec"

lemma GETATTR3resok_codec_lawful [codec_intros]: "xdr_codec_total GETATTR3resok_codec"
  unfolding GETATTR3resok_codec_def by (intro codec_intros) auto

type_synonym GETATTR3res = "(GETATTR3resok, unit) nfs3_result"

definition GETATTR3res_codec :: "GETATTR3res codec" where
  "GETATTR3res_codec = nfs3_result_codec GETATTR3resok_codec void_codec"

interpretation GETATTR3res: xdr_codec_on GETATTR3res_codec nfs3_result_ok
  unfolding GETATTR3res_codec_def by (intro nfs3_result_codec_on codec_intros)

section \<open>SETATTR\<close>

record SETATTR3args =
  object :: nfs_fh3
  new_attributes :: sattr3
  guard :: sattrguard3

definition SETATTR3args_codec :: "SETATTR3args codec" where
  "SETATTR3args_codec = struct_codec
     (\<lambda>(x0, x1, x2). \<lparr> SETATTR3args.object = x0,
        SETATTR3args.new_attributes = x1, SETATTR3args.guard = x2 \<rparr>)
     (\<lambda>r. (SETATTR3args.object r, SETATTR3args.new_attributes r, SETATTR3args.guard r))
     (fields_codec nfs_fh3_codec (fields_codec sattr3_codec (nfs3_option_codec nfstime3_codec)))"

lemma SETATTR3args_codec_lawful [codec_intros]: "xdr_codec_total SETATTR3args_codec"
  unfolding SETATTR3args_codec_def by (intro codec_intros) auto

record SETATTR3resok =
  obj_wcc :: wcc_data

definition SETATTR3resok_codec :: "SETATTR3resok codec" where
  "SETATTR3resok_codec = struct_codec
     (\<lambda>x0. \<lparr> SETATTR3resok.obj_wcc = x0 \<rparr>)
     (\<lambda>r. SETATTR3resok.obj_wcc r)
     wcc_data_codec"

lemma SETATTR3resok_codec_lawful [codec_intros]: "xdr_codec_total SETATTR3resok_codec"
  unfolding SETATTR3resok_codec_def by (intro codec_intros) auto

record SETATTR3resfail =
  obj_wcc :: wcc_data

definition SETATTR3resfail_codec :: "SETATTR3resfail codec" where
  "SETATTR3resfail_codec = struct_codec
     (\<lambda>x0. \<lparr> SETATTR3resfail.obj_wcc = x0 \<rparr>)
     (\<lambda>r. SETATTR3resfail.obj_wcc r)
     wcc_data_codec"

lemma SETATTR3resfail_codec_lawful [codec_intros]: "xdr_codec_total SETATTR3resfail_codec"
  unfolding SETATTR3resfail_codec_def by (intro codec_intros) auto

type_synonym SETATTR3res = "(SETATTR3resok, SETATTR3resfail) nfs3_result"

definition SETATTR3res_codec :: "SETATTR3res codec" where
  "SETATTR3res_codec = nfs3_result_codec SETATTR3resok_codec SETATTR3resfail_codec"

interpretation SETATTR3res: xdr_codec_on SETATTR3res_codec nfs3_result_ok
  unfolding SETATTR3res_codec_def by (intro nfs3_result_codec_on codec_intros)

section \<open>LOOKUP\<close>

record LOOKUP3args =
  what :: diropargs3

definition LOOKUP3args_codec :: "LOOKUP3args codec" where
  "LOOKUP3args_codec = struct_codec
     (\<lambda>x0. \<lparr> LOOKUP3args.what = x0 \<rparr>)
     (\<lambda>r. LOOKUP3args.what r)
     diropargs3_codec"

lemma LOOKUP3args_codec_lawful [codec_intros]: "xdr_codec_total LOOKUP3args_codec"
  unfolding LOOKUP3args_codec_def by (intro codec_intros) auto

record LOOKUP3resok =
  object :: nfs_fh3
  obj_attributes :: post_op_attr
  dir_attributes :: post_op_attr

definition LOOKUP3resok_codec :: "LOOKUP3resok codec" where
  "LOOKUP3resok_codec = struct_codec
     (\<lambda>(x0, x1, x2). \<lparr> LOOKUP3resok.object = x0,
        LOOKUP3resok.obj_attributes = x1, LOOKUP3resok.dir_attributes = x2 \<rparr>)
     (\<lambda>r. (LOOKUP3resok.object r, LOOKUP3resok.obj_attributes r,
        LOOKUP3resok.dir_attributes r))
     (fields_codec nfs_fh3_codec (
        fields_codec (nfs3_option_codec fattr3_codec) (nfs3_option_codec fattr3_codec)))"

lemma LOOKUP3resok_codec_lawful [codec_intros]: "xdr_codec_total LOOKUP3resok_codec"
  unfolding LOOKUP3resok_codec_def by (intro codec_intros) auto

record LOOKUP3resfail =
  dir_attributes :: post_op_attr

definition LOOKUP3resfail_codec :: "LOOKUP3resfail codec" where
  "LOOKUP3resfail_codec = struct_codec
     (\<lambda>x0. \<lparr> LOOKUP3resfail.dir_attributes = x0 \<rparr>)
     (\<lambda>r. LOOKUP3resfail.dir_attributes r)
     (nfs3_option_codec fattr3_codec)"

lemma LOOKUP3resfail_codec_lawful [codec_intros]: "xdr_codec_total LOOKUP3resfail_codec"
  unfolding LOOKUP3resfail_codec_def by (intro codec_intros) auto

type_synonym LOOKUP3res = "(LOOKUP3resok, LOOKUP3resfail) nfs3_result"

definition LOOKUP3res_codec :: "LOOKUP3res codec" where
  "LOOKUP3res_codec = nfs3_result_codec LOOKUP3resok_codec LOOKUP3resfail_codec"

interpretation LOOKUP3res: xdr_codec_on LOOKUP3res_codec nfs3_result_ok
  unfolding LOOKUP3res_codec_def by (intro nfs3_result_codec_on codec_intros)

section \<open>ACCESS\<close>

record ACCESS3args =
  object :: nfs_fh3
  access :: u32

definition ACCESS3args_codec :: "ACCESS3args codec" where
  "ACCESS3args_codec = struct_codec
     (\<lambda>(x0, x1). \<lparr> ACCESS3args.object = x0, ACCESS3args.access = x1 \<rparr>)
     (\<lambda>r. (ACCESS3args.object r, ACCESS3args.access r))
     (fields_codec nfs_fh3_codec u32_codec)"

lemma ACCESS3args_codec_lawful [codec_intros]: "xdr_codec_total ACCESS3args_codec"
  unfolding ACCESS3args_codec_def by (intro codec_intros) auto

record ACCESS3resok =
  obj_attributes :: post_op_attr
  access :: u32

definition ACCESS3resok_codec :: "ACCESS3resok codec" where
  "ACCESS3resok_codec = struct_codec
     (\<lambda>(x0, x1). \<lparr> ACCESS3resok.obj_attributes = x0, ACCESS3resok.access = x1 \<rparr>)
     (\<lambda>r. (ACCESS3resok.obj_attributes r, ACCESS3resok.access r))
     (fields_codec (nfs3_option_codec fattr3_codec) u32_codec)"

lemma ACCESS3resok_codec_lawful [codec_intros]: "xdr_codec_total ACCESS3resok_codec"
  unfolding ACCESS3resok_codec_def by (intro codec_intros) auto

record ACCESS3resfail =
  obj_attributes :: post_op_attr

definition ACCESS3resfail_codec :: "ACCESS3resfail codec" where
  "ACCESS3resfail_codec = struct_codec
     (\<lambda>x0. \<lparr> ACCESS3resfail.obj_attributes = x0 \<rparr>)
     (\<lambda>r. ACCESS3resfail.obj_attributes r)
     (nfs3_option_codec fattr3_codec)"

lemma ACCESS3resfail_codec_lawful [codec_intros]: "xdr_codec_total ACCESS3resfail_codec"
  unfolding ACCESS3resfail_codec_def by (intro codec_intros) auto

type_synonym ACCESS3res = "(ACCESS3resok, ACCESS3resfail) nfs3_result"

definition ACCESS3res_codec :: "ACCESS3res codec" where
  "ACCESS3res_codec = nfs3_result_codec ACCESS3resok_codec ACCESS3resfail_codec"

interpretation ACCESS3res: xdr_codec_on ACCESS3res_codec nfs3_result_ok
  unfolding ACCESS3res_codec_def by (intro nfs3_result_codec_on codec_intros)

section \<open>READLINK\<close>

record READLINK3args =
  symlink :: nfs_fh3

definition READLINK3args_codec :: "READLINK3args codec" where
  "READLINK3args_codec = struct_codec
     (\<lambda>x0. \<lparr> READLINK3args.symlink = x0 \<rparr>)
     (\<lambda>r. READLINK3args.symlink r)
     nfs_fh3_codec"

lemma READLINK3args_codec_lawful [codec_intros]: "xdr_codec_total READLINK3args_codec"
  unfolding READLINK3args_codec_def by (intro codec_intros) auto

record READLINK3resok =
  symlink_attributes :: post_op_attr
  data :: nfspath3

definition READLINK3resok_codec :: "READLINK3resok codec" where
  "READLINK3resok_codec = struct_codec
     (\<lambda>(x0, x1). \<lparr> READLINK3resok.symlink_attributes = x0,
        READLINK3resok.data = x1 \<rparr>)
     (\<lambda>r. (READLINK3resok.symlink_attributes r, READLINK3resok.data r))
     (fields_codec (nfs3_option_codec fattr3_codec) nfspath3_codec)"

lemma READLINK3resok_codec_lawful [codec_intros]: "xdr_codec_total READLINK3resok_codec"
  unfolding READLINK3resok_codec_def by (intro codec_intros) auto

record READLINK3resfail =
  symlink_attributes :: post_op_attr

definition READLINK3resfail_codec :: "READLINK3resfail codec" where
  "READLINK3resfail_codec = struct_codec
     (\<lambda>x0. \<lparr> READLINK3resfail.symlink_attributes = x0 \<rparr>)
     (\<lambda>r. READLINK3resfail.symlink_attributes r)
     (nfs3_option_codec fattr3_codec)"

lemma READLINK3resfail_codec_lawful [codec_intros]: "xdr_codec_total READLINK3resfail_codec"
  unfolding READLINK3resfail_codec_def by (intro codec_intros) auto

type_synonym READLINK3res = "(READLINK3resok, READLINK3resfail) nfs3_result"

definition READLINK3res_codec :: "READLINK3res codec" where
  "READLINK3res_codec = nfs3_result_codec READLINK3resok_codec READLINK3resfail_codec"

interpretation READLINK3res: xdr_codec_on READLINK3res_codec nfs3_result_ok
  unfolding READLINK3res_codec_def by (intro nfs3_result_codec_on codec_intros)

section \<open>READ\<close>

record READ3args =
  file' :: nfs_fh3
  offset :: offset3
  count :: count3

definition READ3args_codec :: "READ3args codec" where
  "READ3args_codec = struct_codec
     (\<lambda>(x0, x1, x2). \<lparr> READ3args.file' = x0, READ3args.offset = x1,
        READ3args.count = x2 \<rparr>)
     (\<lambda>r. (READ3args.file' r, READ3args.offset r, READ3args.count r))
     (fields_codec nfs_fh3_codec (fields_codec u64_codec u32_codec))"

lemma READ3args_codec_lawful [codec_intros]: "xdr_codec_total READ3args_codec"
  unfolding READ3args_codec_def by (intro codec_intros) auto

record READ3resok =
  file_attributes :: post_op_attr
  count :: count3
  eof :: bool
  data :: opaque

definition READ3resok_codec :: "READ3resok codec" where
  "READ3resok_codec = struct_codec
     (\<lambda>(x0, x1, x2, x3). \<lparr> READ3resok.file_attributes = x0,
        READ3resok.count = x1, READ3resok.eof = x2, READ3resok.data = x3 \<rparr>)
     (\<lambda>r. (READ3resok.file_attributes r, READ3resok.count r, READ3resok.eof r,
        READ3resok.data r))
     (fields_codec (nfs3_option_codec fattr3_codec) (fields_codec u32_codec (
        fields_codec bool_codec opaque_codec)))"

lemma READ3resok_codec_lawful [codec_intros]: "xdr_codec_total READ3resok_codec"
  unfolding READ3resok_codec_def by (intro codec_intros) auto

record READ3resfail =
  file_attributes :: post_op_attr

definition READ3resfail_codec :: "READ3resfail codec" where
  "READ3resfail_codec = struct_codec
     (\<lambda>x0. \<lparr> READ3resfail.file_attributes = x0 \<rparr>)
     (\<lambda>r. READ3resfail.file_attributes r)
     (nfs3_option_codec fattr3_codec)"

lemma READ3resfail_codec_lawful [codec_intros]: "xdr_codec_total READ3resfail_codec"
  unfolding READ3resfail_codec_def by (intro codec_intros) auto

type_synonym READ3res = "(READ3resok, READ3resfail) nfs3_result"

definition READ3res_codec :: "READ3res codec" where
  "READ3res_codec = nfs3_result_codec READ3resok_codec READ3resfail_codec"

interpretation READ3res: xdr_codec_on READ3res_codec nfs3_result_ok
  unfolding READ3res_codec_def by (intro nfs3_result_codec_on codec_intros)

section \<open>WRITE\<close>

record WRITE3args =
  file' :: nfs_fh3
  offset :: offset3
  count :: count3
  stable :: stable_how
  data :: opaque

definition WRITE3args_codec :: "WRITE3args codec" where
  "WRITE3args_codec = struct_codec
     (\<lambda>(x0, x1, x2, x3, x4). \<lparr> WRITE3args.file' = x0, WRITE3args.offset = x1,
        WRITE3args.count = x2, WRITE3args.stable = x3, WRITE3args.data = x4 \<rparr>)
     (\<lambda>r. (WRITE3args.file' r, WRITE3args.offset r, WRITE3args.count r,
        WRITE3args.stable r, WRITE3args.data r))
     (fields_codec nfs_fh3_codec (fields_codec u64_codec (fields_codec u32_codec (
        fields_codec stable_how_codec opaque_codec))))"

lemma WRITE3args_codec_lawful [codec_intros]: "xdr_codec_total WRITE3args_codec"
  unfolding WRITE3args_codec_def by (intro codec_intros) auto

record WRITE3resok =
  file_wcc :: wcc_data
  count :: count3
  committed :: stable_how
  verf :: writeverf3

definition WRITE3resok_codec :: "WRITE3resok codec" where
  "WRITE3resok_codec = struct_codec
     (\<lambda>(x0, x1, x2, x3). \<lparr> WRITE3resok.file_wcc = x0, WRITE3resok.count = x1,
        WRITE3resok.committed = x2, WRITE3resok.verf = x3 \<rparr>)
     (\<lambda>r. (WRITE3resok.file_wcc r, WRITE3resok.count r, WRITE3resok.committed r,
        WRITE3resok.verf r))
     (fields_codec wcc_data_codec (fields_codec u32_codec (
        fields_codec stable_how_codec writeverf3_codec)))"

lemma WRITE3resok_codec_lawful [codec_intros]: "xdr_codec_total WRITE3resok_codec"
  unfolding WRITE3resok_codec_def by (intro codec_intros) auto

record WRITE3resfail =
  file_wcc :: wcc_data

definition WRITE3resfail_codec :: "WRITE3resfail codec" where
  "WRITE3resfail_codec = struct_codec
     (\<lambda>x0. \<lparr> WRITE3resfail.file_wcc = x0 \<rparr>)
     (\<lambda>r. WRITE3resfail.file_wcc r)
     wcc_data_codec"

lemma WRITE3resfail_codec_lawful [codec_intros]: "xdr_codec_total WRITE3resfail_codec"
  unfolding WRITE3resfail_codec_def by (intro codec_intros) auto

type_synonym WRITE3res = "(WRITE3resok, WRITE3resfail) nfs3_result"

definition WRITE3res_codec :: "WRITE3res codec" where
  "WRITE3res_codec = nfs3_result_codec WRITE3resok_codec WRITE3resfail_codec"

interpretation WRITE3res: xdr_codec_on WRITE3res_codec nfs3_result_ok
  unfolding WRITE3res_codec_def by (intro nfs3_result_codec_on codec_intros)

section \<open>CREATE\<close>

record CREATE3args =
  where' :: diropargs3
  how :: createhow3

definition CREATE3args_codec :: "CREATE3args codec" where
  "CREATE3args_codec = struct_codec
     (\<lambda>(x0, x1). \<lparr> CREATE3args.where' = x0, CREATE3args.how = x1 \<rparr>)
     (\<lambda>r. (CREATE3args.where' r, CREATE3args.how r))
     (fields_codec diropargs3_codec createhow3_codec)"

lemma CREATE3args_codec_lawful [codec_intros]: "xdr_codec_total CREATE3args_codec"
  unfolding CREATE3args_codec_def by (intro codec_intros) auto

record CREATE3resok =
  obj :: post_op_fh3
  obj_attributes :: post_op_attr
  dir_wcc :: wcc_data

definition CREATE3resok_codec :: "CREATE3resok codec" where
  "CREATE3resok_codec = struct_codec
     (\<lambda>(x0, x1, x2). \<lparr> CREATE3resok.obj = x0, CREATE3resok.obj_attributes = x1,
        CREATE3resok.dir_wcc = x2 \<rparr>)
     (\<lambda>r. (CREATE3resok.obj r, CREATE3resok.obj_attributes r, CREATE3resok.dir_wcc r))
     (fields_codec (nfs3_option_codec nfs_fh3_codec) (
        fields_codec (nfs3_option_codec fattr3_codec) wcc_data_codec))"

lemma CREATE3resok_codec_lawful [codec_intros]: "xdr_codec_total CREATE3resok_codec"
  unfolding CREATE3resok_codec_def by (intro codec_intros) auto

record CREATE3resfail =
  dir_wcc :: wcc_data

definition CREATE3resfail_codec :: "CREATE3resfail codec" where
  "CREATE3resfail_codec = struct_codec
     (\<lambda>x0. \<lparr> CREATE3resfail.dir_wcc = x0 \<rparr>)
     (\<lambda>r. CREATE3resfail.dir_wcc r)
     wcc_data_codec"

lemma CREATE3resfail_codec_lawful [codec_intros]: "xdr_codec_total CREATE3resfail_codec"
  unfolding CREATE3resfail_codec_def by (intro codec_intros) auto

type_synonym CREATE3res = "(CREATE3resok, CREATE3resfail) nfs3_result"

definition CREATE3res_codec :: "CREATE3res codec" where
  "CREATE3res_codec = nfs3_result_codec CREATE3resok_codec CREATE3resfail_codec"

interpretation CREATE3res: xdr_codec_on CREATE3res_codec nfs3_result_ok
  unfolding CREATE3res_codec_def by (intro nfs3_result_codec_on codec_intros)

section \<open>MKDIR\<close>

record MKDIR3args =
  where' :: diropargs3
  attributes :: sattr3

definition MKDIR3args_codec :: "MKDIR3args codec" where
  "MKDIR3args_codec = struct_codec
     (\<lambda>(x0, x1). \<lparr> MKDIR3args.where' = x0, MKDIR3args.attributes = x1 \<rparr>)
     (\<lambda>r. (MKDIR3args.where' r, MKDIR3args.attributes r))
     (fields_codec diropargs3_codec sattr3_codec)"

lemma MKDIR3args_codec_lawful [codec_intros]: "xdr_codec_total MKDIR3args_codec"
  unfolding MKDIR3args_codec_def by (intro codec_intros) auto

record MKDIR3resok =
  obj :: post_op_fh3
  obj_attributes :: post_op_attr
  dir_wcc :: wcc_data

definition MKDIR3resok_codec :: "MKDIR3resok codec" where
  "MKDIR3resok_codec = struct_codec
     (\<lambda>(x0, x1, x2). \<lparr> MKDIR3resok.obj = x0, MKDIR3resok.obj_attributes = x1,
        MKDIR3resok.dir_wcc = x2 \<rparr>)
     (\<lambda>r. (MKDIR3resok.obj r, MKDIR3resok.obj_attributes r, MKDIR3resok.dir_wcc r))
     (fields_codec (nfs3_option_codec nfs_fh3_codec) (
        fields_codec (nfs3_option_codec fattr3_codec) wcc_data_codec))"

lemma MKDIR3resok_codec_lawful [codec_intros]: "xdr_codec_total MKDIR3resok_codec"
  unfolding MKDIR3resok_codec_def by (intro codec_intros) auto

record MKDIR3resfail =
  dir_wcc :: wcc_data

definition MKDIR3resfail_codec :: "MKDIR3resfail codec" where
  "MKDIR3resfail_codec = struct_codec
     (\<lambda>x0. \<lparr> MKDIR3resfail.dir_wcc = x0 \<rparr>)
     (\<lambda>r. MKDIR3resfail.dir_wcc r)
     wcc_data_codec"

lemma MKDIR3resfail_codec_lawful [codec_intros]: "xdr_codec_total MKDIR3resfail_codec"
  unfolding MKDIR3resfail_codec_def by (intro codec_intros) auto

type_synonym MKDIR3res = "(MKDIR3resok, MKDIR3resfail) nfs3_result"

definition MKDIR3res_codec :: "MKDIR3res codec" where
  "MKDIR3res_codec = nfs3_result_codec MKDIR3resok_codec MKDIR3resfail_codec"

interpretation MKDIR3res: xdr_codec_on MKDIR3res_codec nfs3_result_ok
  unfolding MKDIR3res_codec_def by (intro nfs3_result_codec_on codec_intros)

section \<open>SYMLINK\<close>

record SYMLINK3args =
  where' :: diropargs3
  symlink :: symlinkdata3

definition SYMLINK3args_codec :: "SYMLINK3args codec" where
  "SYMLINK3args_codec = struct_codec
     (\<lambda>(x0, x1). \<lparr> SYMLINK3args.where' = x0, SYMLINK3args.symlink = x1 \<rparr>)
     (\<lambda>r. (SYMLINK3args.where' r, SYMLINK3args.symlink r))
     (fields_codec diropargs3_codec symlinkdata3_codec)"

lemma SYMLINK3args_codec_lawful [codec_intros]: "xdr_codec_total SYMLINK3args_codec"
  unfolding SYMLINK3args_codec_def by (intro codec_intros) auto

record SYMLINK3resok =
  obj :: post_op_fh3
  obj_attributes :: post_op_attr
  dir_wcc :: wcc_data

definition SYMLINK3resok_codec :: "SYMLINK3resok codec" where
  "SYMLINK3resok_codec = struct_codec
     (\<lambda>(x0, x1, x2). \<lparr> SYMLINK3resok.obj = x0,
        SYMLINK3resok.obj_attributes = x1, SYMLINK3resok.dir_wcc = x2 \<rparr>)
     (\<lambda>r. (SYMLINK3resok.obj r, SYMLINK3resok.obj_attributes r, SYMLINK3resok.dir_wcc r))
     (fields_codec (nfs3_option_codec nfs_fh3_codec) (
        fields_codec (nfs3_option_codec fattr3_codec) wcc_data_codec))"

lemma SYMLINK3resok_codec_lawful [codec_intros]: "xdr_codec_total SYMLINK3resok_codec"
  unfolding SYMLINK3resok_codec_def by (intro codec_intros) auto

record SYMLINK3resfail =
  dir_wcc :: wcc_data

definition SYMLINK3resfail_codec :: "SYMLINK3resfail codec" where
  "SYMLINK3resfail_codec = struct_codec
     (\<lambda>x0. \<lparr> SYMLINK3resfail.dir_wcc = x0 \<rparr>)
     (\<lambda>r. SYMLINK3resfail.dir_wcc r)
     wcc_data_codec"

lemma SYMLINK3resfail_codec_lawful [codec_intros]: "xdr_codec_total SYMLINK3resfail_codec"
  unfolding SYMLINK3resfail_codec_def by (intro codec_intros) auto

type_synonym SYMLINK3res = "(SYMLINK3resok, SYMLINK3resfail) nfs3_result"

definition SYMLINK3res_codec :: "SYMLINK3res codec" where
  "SYMLINK3res_codec = nfs3_result_codec SYMLINK3resok_codec SYMLINK3resfail_codec"

interpretation SYMLINK3res: xdr_codec_on SYMLINK3res_codec nfs3_result_ok
  unfolding SYMLINK3res_codec_def by (intro nfs3_result_codec_on codec_intros)

section \<open>MKNOD\<close>

record MKNOD3args =
  where' :: diropargs3
  what :: mknoddata3

definition MKNOD3args_codec :: "MKNOD3args codec" where
  "MKNOD3args_codec = struct_codec
     (\<lambda>(x0, x1). \<lparr> MKNOD3args.where' = x0, MKNOD3args.what = x1 \<rparr>)
     (\<lambda>r. (MKNOD3args.where' r, MKNOD3args.what r))
     (fields_codec diropargs3_codec mknoddata3_codec)"

lemma MKNOD3args_codec_xdr: "xdr_codec MKNOD3args_codec"
  unfolding MKNOD3args_codec_def
  by (intro struct_codec_xdr fields_codec_xdr mknoddata3_codec_xdr
      total_codec_xdr [OF diropargs3_codec_lawful]) auto

interpretation MKNOD3args: xdr_codec MKNOD3args_codec
  by (rule MKNOD3args_codec_xdr)

record MKNOD3resok =
  obj :: post_op_fh3
  obj_attributes :: post_op_attr
  dir_wcc :: wcc_data

definition MKNOD3resok_codec :: "MKNOD3resok codec" where
  "MKNOD3resok_codec = struct_codec
     (\<lambda>(x0, x1, x2). \<lparr> MKNOD3resok.obj = x0, MKNOD3resok.obj_attributes = x1,
        MKNOD3resok.dir_wcc = x2 \<rparr>)
     (\<lambda>r. (MKNOD3resok.obj r, MKNOD3resok.obj_attributes r, MKNOD3resok.dir_wcc r))
     (fields_codec (nfs3_option_codec nfs_fh3_codec) (
        fields_codec (nfs3_option_codec fattr3_codec) wcc_data_codec))"

lemma MKNOD3resok_codec_lawful [codec_intros]: "xdr_codec_total MKNOD3resok_codec"
  unfolding MKNOD3resok_codec_def by (intro codec_intros) auto

record MKNOD3resfail =
  dir_wcc :: wcc_data

definition MKNOD3resfail_codec :: "MKNOD3resfail codec" where
  "MKNOD3resfail_codec = struct_codec
     (\<lambda>x0. \<lparr> MKNOD3resfail.dir_wcc = x0 \<rparr>)
     (\<lambda>r. MKNOD3resfail.dir_wcc r)
     wcc_data_codec"

lemma MKNOD3resfail_codec_lawful [codec_intros]: "xdr_codec_total MKNOD3resfail_codec"
  unfolding MKNOD3resfail_codec_def by (intro codec_intros) auto

type_synonym MKNOD3res = "(MKNOD3resok, MKNOD3resfail) nfs3_result"

definition MKNOD3res_codec :: "MKNOD3res codec" where
  "MKNOD3res_codec = nfs3_result_codec MKNOD3resok_codec MKNOD3resfail_codec"

interpretation MKNOD3res: xdr_codec_on MKNOD3res_codec nfs3_result_ok
  unfolding MKNOD3res_codec_def by (intro nfs3_result_codec_on codec_intros)

section \<open>REMOVE\<close>

record REMOVE3args =
  object :: diropargs3

definition REMOVE3args_codec :: "REMOVE3args codec" where
  "REMOVE3args_codec = struct_codec
     (\<lambda>x0. \<lparr> REMOVE3args.object = x0 \<rparr>)
     (\<lambda>r. REMOVE3args.object r)
     diropargs3_codec"

lemma REMOVE3args_codec_lawful [codec_intros]: "xdr_codec_total REMOVE3args_codec"
  unfolding REMOVE3args_codec_def by (intro codec_intros) auto

record REMOVE3resok =
  dir_wcc :: wcc_data

definition REMOVE3resok_codec :: "REMOVE3resok codec" where
  "REMOVE3resok_codec = struct_codec
     (\<lambda>x0. \<lparr> REMOVE3resok.dir_wcc = x0 \<rparr>)
     (\<lambda>r. REMOVE3resok.dir_wcc r)
     wcc_data_codec"

lemma REMOVE3resok_codec_lawful [codec_intros]: "xdr_codec_total REMOVE3resok_codec"
  unfolding REMOVE3resok_codec_def by (intro codec_intros) auto

record REMOVE3resfail =
  dir_wcc :: wcc_data

definition REMOVE3resfail_codec :: "REMOVE3resfail codec" where
  "REMOVE3resfail_codec = struct_codec
     (\<lambda>x0. \<lparr> REMOVE3resfail.dir_wcc = x0 \<rparr>)
     (\<lambda>r. REMOVE3resfail.dir_wcc r)
     wcc_data_codec"

lemma REMOVE3resfail_codec_lawful [codec_intros]: "xdr_codec_total REMOVE3resfail_codec"
  unfolding REMOVE3resfail_codec_def by (intro codec_intros) auto

type_synonym REMOVE3res = "(REMOVE3resok, REMOVE3resfail) nfs3_result"

definition REMOVE3res_codec :: "REMOVE3res codec" where
  "REMOVE3res_codec = nfs3_result_codec REMOVE3resok_codec REMOVE3resfail_codec"

interpretation REMOVE3res: xdr_codec_on REMOVE3res_codec nfs3_result_ok
  unfolding REMOVE3res_codec_def by (intro nfs3_result_codec_on codec_intros)

section \<open>RMDIR\<close>

record RMDIR3args =
  object :: diropargs3

definition RMDIR3args_codec :: "RMDIR3args codec" where
  "RMDIR3args_codec = struct_codec
     (\<lambda>x0. \<lparr> RMDIR3args.object = x0 \<rparr>)
     (\<lambda>r. RMDIR3args.object r)
     diropargs3_codec"

lemma RMDIR3args_codec_lawful [codec_intros]: "xdr_codec_total RMDIR3args_codec"
  unfolding RMDIR3args_codec_def by (intro codec_intros) auto

record RMDIR3resok =
  dir_wcc :: wcc_data

definition RMDIR3resok_codec :: "RMDIR3resok codec" where
  "RMDIR3resok_codec = struct_codec
     (\<lambda>x0. \<lparr> RMDIR3resok.dir_wcc = x0 \<rparr>)
     (\<lambda>r. RMDIR3resok.dir_wcc r)
     wcc_data_codec"

lemma RMDIR3resok_codec_lawful [codec_intros]: "xdr_codec_total RMDIR3resok_codec"
  unfolding RMDIR3resok_codec_def by (intro codec_intros) auto

record RMDIR3resfail =
  dir_wcc :: wcc_data

definition RMDIR3resfail_codec :: "RMDIR3resfail codec" where
  "RMDIR3resfail_codec = struct_codec
     (\<lambda>x0. \<lparr> RMDIR3resfail.dir_wcc = x0 \<rparr>)
     (\<lambda>r. RMDIR3resfail.dir_wcc r)
     wcc_data_codec"

lemma RMDIR3resfail_codec_lawful [codec_intros]: "xdr_codec_total RMDIR3resfail_codec"
  unfolding RMDIR3resfail_codec_def by (intro codec_intros) auto

type_synonym RMDIR3res = "(RMDIR3resok, RMDIR3resfail) nfs3_result"

definition RMDIR3res_codec :: "RMDIR3res codec" where
  "RMDIR3res_codec = nfs3_result_codec RMDIR3resok_codec RMDIR3resfail_codec"

interpretation RMDIR3res: xdr_codec_on RMDIR3res_codec nfs3_result_ok
  unfolding RMDIR3res_codec_def by (intro nfs3_result_codec_on codec_intros)

section \<open>RENAME\<close>

record RENAME3args =
  from' :: diropargs3
  to' :: diropargs3

definition RENAME3args_codec :: "RENAME3args codec" where
  "RENAME3args_codec = struct_codec
     (\<lambda>(x0, x1). \<lparr> RENAME3args.from' = x0, RENAME3args.to' = x1 \<rparr>)
     (\<lambda>r. (RENAME3args.from' r, RENAME3args.to' r))
     (fields_codec diropargs3_codec diropargs3_codec)"

lemma RENAME3args_codec_lawful [codec_intros]: "xdr_codec_total RENAME3args_codec"
  unfolding RENAME3args_codec_def by (intro codec_intros) auto

record RENAME3resok =
  fromdir_wcc :: wcc_data
  todir_wcc :: wcc_data

definition RENAME3resok_codec :: "RENAME3resok codec" where
  "RENAME3resok_codec = struct_codec
     (\<lambda>(x0, x1). \<lparr> RENAME3resok.fromdir_wcc = x0, RENAME3resok.todir_wcc = x1 \<rparr>)
     (\<lambda>r. (RENAME3resok.fromdir_wcc r, RENAME3resok.todir_wcc r))
     (fields_codec wcc_data_codec wcc_data_codec)"

lemma RENAME3resok_codec_lawful [codec_intros]: "xdr_codec_total RENAME3resok_codec"
  unfolding RENAME3resok_codec_def by (intro codec_intros) auto

record RENAME3resfail =
  fromdir_wcc :: wcc_data
  todir_wcc :: wcc_data

definition RENAME3resfail_codec :: "RENAME3resfail codec" where
  "RENAME3resfail_codec = struct_codec
     (\<lambda>(x0, x1). \<lparr> RENAME3resfail.fromdir_wcc = x0, RENAME3resfail.todir_wcc = x1 \<rparr>)
     (\<lambda>r. (RENAME3resfail.fromdir_wcc r, RENAME3resfail.todir_wcc r))
     (fields_codec wcc_data_codec wcc_data_codec)"

lemma RENAME3resfail_codec_lawful [codec_intros]: "xdr_codec_total RENAME3resfail_codec"
  unfolding RENAME3resfail_codec_def by (intro codec_intros) auto

type_synonym RENAME3res = "(RENAME3resok, RENAME3resfail) nfs3_result"

definition RENAME3res_codec :: "RENAME3res codec" where
  "RENAME3res_codec = nfs3_result_codec RENAME3resok_codec RENAME3resfail_codec"

interpretation RENAME3res: xdr_codec_on RENAME3res_codec nfs3_result_ok
  unfolding RENAME3res_codec_def by (intro nfs3_result_codec_on codec_intros)

section \<open>LINK\<close>

record LINK3args =
  file' :: nfs_fh3
  link :: diropargs3

definition LINK3args_codec :: "LINK3args codec" where
  "LINK3args_codec = struct_codec
     (\<lambda>(x0, x1). \<lparr> LINK3args.file' = x0, LINK3args.link = x1 \<rparr>)
     (\<lambda>r. (LINK3args.file' r, LINK3args.link r))
     (fields_codec nfs_fh3_codec diropargs3_codec)"

lemma LINK3args_codec_lawful [codec_intros]: "xdr_codec_total LINK3args_codec"
  unfolding LINK3args_codec_def by (intro codec_intros) auto

record LINK3resok =
  file_attributes :: post_op_attr
  linkdir_wcc :: wcc_data

definition LINK3resok_codec :: "LINK3resok codec" where
  "LINK3resok_codec = struct_codec
     (\<lambda>(x0, x1). \<lparr> LINK3resok.file_attributes = x0, LINK3resok.linkdir_wcc = x1 \<rparr>)
     (\<lambda>r. (LINK3resok.file_attributes r, LINK3resok.linkdir_wcc r))
     (fields_codec (nfs3_option_codec fattr3_codec) wcc_data_codec)"

lemma LINK3resok_codec_lawful [codec_intros]: "xdr_codec_total LINK3resok_codec"
  unfolding LINK3resok_codec_def by (intro codec_intros) auto

record LINK3resfail =
  file_attributes :: post_op_attr
  linkdir_wcc :: wcc_data

definition LINK3resfail_codec :: "LINK3resfail codec" where
  "LINK3resfail_codec = struct_codec
     (\<lambda>(x0, x1). \<lparr> LINK3resfail.file_attributes = x0,
        LINK3resfail.linkdir_wcc = x1 \<rparr>)
     (\<lambda>r. (LINK3resfail.file_attributes r, LINK3resfail.linkdir_wcc r))
     (fields_codec (nfs3_option_codec fattr3_codec) wcc_data_codec)"

lemma LINK3resfail_codec_lawful [codec_intros]: "xdr_codec_total LINK3resfail_codec"
  unfolding LINK3resfail_codec_def by (intro codec_intros) auto

type_synonym LINK3res = "(LINK3resok, LINK3resfail) nfs3_result"

definition LINK3res_codec :: "LINK3res codec" where
  "LINK3res_codec = nfs3_result_codec LINK3resok_codec LINK3resfail_codec"

interpretation LINK3res: xdr_codec_on LINK3res_codec nfs3_result_ok
  unfolding LINK3res_codec_def by (intro nfs3_result_codec_on codec_intros)

section \<open>READDIR\<close>

record READDIR3args =
  dir :: nfs_fh3
  cookie :: cookie3
  cookieverf :: cookieverf3
  count :: count3

definition READDIR3args_codec :: "READDIR3args codec" where
  "READDIR3args_codec = struct_codec
     (\<lambda>(x0, x1, x2, x3). \<lparr> READDIR3args.dir = x0, READDIR3args.cookie = x1,
        READDIR3args.cookieverf = x2, READDIR3args.count = x3 \<rparr>)
     (\<lambda>r. (READDIR3args.dir r, READDIR3args.cookie r, READDIR3args.cookieverf r,
        READDIR3args.count r))
     (fields_codec nfs_fh3_codec (fields_codec u64_codec (
        fields_codec cookieverf3_codec u32_codec)))"

lemma READDIR3args_codec_lawful [codec_intros]: "xdr_codec_total READDIR3args_codec"
  unfolding READDIR3args_codec_def by (intro codec_intros) auto

record READDIR3resok =
  dir_attributes :: post_op_attr
  cookieverf :: cookieverf3
  reply :: dirlist3

definition READDIR3resok_codec :: "READDIR3resok codec" where
  "READDIR3resok_codec = struct_codec
     (\<lambda>(x0, x1, x2). \<lparr> READDIR3resok.dir_attributes = x0,
        READDIR3resok.cookieverf = x1, READDIR3resok.reply = x2 \<rparr>)
     (\<lambda>r. (READDIR3resok.dir_attributes r, READDIR3resok.cookieverf r,
        READDIR3resok.reply r))
     (fields_codec (nfs3_option_codec fattr3_codec) (
        fields_codec cookieverf3_codec dirlist3_codec))"

lemma READDIR3resok_codec_lawful [codec_intros]: "xdr_codec_total READDIR3resok_codec"
  unfolding READDIR3resok_codec_def by (intro codec_intros) auto

record READDIR3resfail =
  dir_attributes :: post_op_attr

definition READDIR3resfail_codec :: "READDIR3resfail codec" where
  "READDIR3resfail_codec = struct_codec
     (\<lambda>x0. \<lparr> READDIR3resfail.dir_attributes = x0 \<rparr>)
     (\<lambda>r. READDIR3resfail.dir_attributes r)
     (nfs3_option_codec fattr3_codec)"

lemma READDIR3resfail_codec_lawful [codec_intros]: "xdr_codec_total READDIR3resfail_codec"
  unfolding READDIR3resfail_codec_def by (intro codec_intros) auto

type_synonym READDIR3res = "(READDIR3resok, READDIR3resfail) nfs3_result"

definition READDIR3res_codec :: "READDIR3res codec" where
  "READDIR3res_codec = nfs3_result_codec READDIR3resok_codec READDIR3resfail_codec"

interpretation READDIR3res: xdr_codec_on READDIR3res_codec nfs3_result_ok
  unfolding READDIR3res_codec_def by (intro nfs3_result_codec_on codec_intros)

section \<open>READDIRPLUS\<close>

record READDIRPLUS3args =
  dir :: nfs_fh3
  cookie :: cookie3
  cookieverf :: cookieverf3
  dircount :: count3
  maxcount :: count3

definition READDIRPLUS3args_codec :: "READDIRPLUS3args codec" where
  "READDIRPLUS3args_codec = struct_codec
     (\<lambda>(x0, x1, x2, x3, x4). \<lparr> READDIRPLUS3args.dir = x0,
        READDIRPLUS3args.cookie = x1, READDIRPLUS3args.cookieverf = x2,
        READDIRPLUS3args.dircount = x3, READDIRPLUS3args.maxcount = x4 \<rparr>)
     (\<lambda>r. (READDIRPLUS3args.dir r, READDIRPLUS3args.cookie r,
        READDIRPLUS3args.cookieverf r, READDIRPLUS3args.dircount r, READDIRPLUS3args.maxcount r))
     (fields_codec nfs_fh3_codec (fields_codec u64_codec (fields_codec cookieverf3_codec (
        fields_codec u32_codec u32_codec))))"

lemma READDIRPLUS3args_codec_lawful [codec_intros]: "xdr_codec_total READDIRPLUS3args_codec"
  unfolding READDIRPLUS3args_codec_def by (intro codec_intros) auto

record READDIRPLUS3resok =
  dir_attributes :: post_op_attr
  cookieverf :: cookieverf3
  reply :: dirlistplus3

definition READDIRPLUS3resok_codec :: "READDIRPLUS3resok codec" where
  "READDIRPLUS3resok_codec = struct_codec
     (\<lambda>(x0, x1, x2). \<lparr> READDIRPLUS3resok.dir_attributes = x0,
        READDIRPLUS3resok.cookieverf = x1, READDIRPLUS3resok.reply = x2 \<rparr>)
     (\<lambda>r. (READDIRPLUS3resok.dir_attributes r, READDIRPLUS3resok.cookieverf r,
        READDIRPLUS3resok.reply r))
     (fields_codec (nfs3_option_codec fattr3_codec) (
        fields_codec cookieverf3_codec dirlistplus3_codec))"

lemma READDIRPLUS3resok_codec_lawful [codec_intros]: "xdr_codec_total READDIRPLUS3resok_codec"
  unfolding READDIRPLUS3resok_codec_def by (intro codec_intros) auto

record READDIRPLUS3resfail =
  dir_attributes :: post_op_attr

definition READDIRPLUS3resfail_codec :: "READDIRPLUS3resfail codec" where
  "READDIRPLUS3resfail_codec = struct_codec
     (\<lambda>x0. \<lparr> READDIRPLUS3resfail.dir_attributes = x0 \<rparr>)
     (\<lambda>r. READDIRPLUS3resfail.dir_attributes r)
     (nfs3_option_codec fattr3_codec)"

lemma READDIRPLUS3resfail_codec_lawful [codec_intros]: "xdr_codec_total READDIRPLUS3resfail_codec"
  unfolding READDIRPLUS3resfail_codec_def by (intro codec_intros) auto

type_synonym READDIRPLUS3res = "(READDIRPLUS3resok, READDIRPLUS3resfail) nfs3_result"

definition READDIRPLUS3res_codec :: "READDIRPLUS3res codec" where
  "READDIRPLUS3res_codec = nfs3_result_codec READDIRPLUS3resok_codec READDIRPLUS3resfail_codec"

interpretation READDIRPLUS3res: xdr_codec_on READDIRPLUS3res_codec nfs3_result_ok
  unfolding READDIRPLUS3res_codec_def by (intro nfs3_result_codec_on codec_intros)

section \<open>FSSTAT\<close>

record FSSTAT3args =
  fsroot :: nfs_fh3

definition FSSTAT3args_codec :: "FSSTAT3args codec" where
  "FSSTAT3args_codec = struct_codec
     (\<lambda>x0. \<lparr> FSSTAT3args.fsroot = x0 \<rparr>)
     (\<lambda>r. FSSTAT3args.fsroot r)
     nfs_fh3_codec"

lemma FSSTAT3args_codec_lawful [codec_intros]: "xdr_codec_total FSSTAT3args_codec"
  unfolding FSSTAT3args_codec_def by (intro codec_intros) auto

record FSSTAT3resok =
  obj_attributes :: post_op_attr
  tbytes :: size3
  fbytes :: size3
  abytes :: size3
  tfiles :: size3
  ffiles :: size3
  afiles :: size3
  invarsec :: u32

definition FSSTAT3resok_codec :: "FSSTAT3resok codec" where
  "FSSTAT3resok_codec = struct_codec
     (\<lambda>(x0, x1, x2, x3, x4, x5, x6, x7). \<lparr> FSSTAT3resok.obj_attributes = x0,
        FSSTAT3resok.tbytes = x1, FSSTAT3resok.fbytes = x2, FSSTAT3resok.abytes = x3,
        FSSTAT3resok.tfiles = x4, FSSTAT3resok.ffiles = x5, FSSTAT3resok.afiles = x6,
        FSSTAT3resok.invarsec = x7 \<rparr>)
     (\<lambda>r. (FSSTAT3resok.obj_attributes r, FSSTAT3resok.tbytes r, FSSTAT3resok.fbytes r,
        FSSTAT3resok.abytes r, FSSTAT3resok.tfiles r, FSSTAT3resok.ffiles r,
        FSSTAT3resok.afiles r, FSSTAT3resok.invarsec r))
     (fields_codec (nfs3_option_codec fattr3_codec) (fields_codec u64_codec (
        fields_codec u64_codec (fields_codec u64_codec (fields_codec u64_codec (
        fields_codec u64_codec (fields_codec u64_codec u32_codec)))))))"

lemma FSSTAT3resok_codec_lawful [codec_intros]: "xdr_codec_total FSSTAT3resok_codec"
  unfolding FSSTAT3resok_codec_def by (intro codec_intros) auto

record FSSTAT3resfail =
  obj_attributes :: post_op_attr

definition FSSTAT3resfail_codec :: "FSSTAT3resfail codec" where
  "FSSTAT3resfail_codec = struct_codec
     (\<lambda>x0. \<lparr> FSSTAT3resfail.obj_attributes = x0 \<rparr>)
     (\<lambda>r. FSSTAT3resfail.obj_attributes r)
     (nfs3_option_codec fattr3_codec)"

lemma FSSTAT3resfail_codec_lawful [codec_intros]: "xdr_codec_total FSSTAT3resfail_codec"
  unfolding FSSTAT3resfail_codec_def by (intro codec_intros) auto

type_synonym FSSTAT3res = "(FSSTAT3resok, FSSTAT3resfail) nfs3_result"

definition FSSTAT3res_codec :: "FSSTAT3res codec" where
  "FSSTAT3res_codec = nfs3_result_codec FSSTAT3resok_codec FSSTAT3resfail_codec"

interpretation FSSTAT3res: xdr_codec_on FSSTAT3res_codec nfs3_result_ok
  unfolding FSSTAT3res_codec_def by (intro nfs3_result_codec_on codec_intros)

section \<open>FSINFO\<close>

record FSINFO3args =
  fsroot :: nfs_fh3

definition FSINFO3args_codec :: "FSINFO3args codec" where
  "FSINFO3args_codec = struct_codec
     (\<lambda>x0. \<lparr> FSINFO3args.fsroot = x0 \<rparr>)
     (\<lambda>r. FSINFO3args.fsroot r)
     nfs_fh3_codec"

lemma FSINFO3args_codec_lawful [codec_intros]: "xdr_codec_total FSINFO3args_codec"
  unfolding FSINFO3args_codec_def by (intro codec_intros) auto

record FSINFO3resok =
  obj_attributes :: post_op_attr
  rtmax :: u32
  rtpref :: u32
  rtmult :: u32
  wtmax :: u32
  wtpref :: u32
  wtmult :: u32
  dtpref :: u32
  maxfilesize :: size3
  time_delta :: nfstime3
  properties :: u32

definition FSINFO3resok_codec :: "FSINFO3resok codec" where
  "FSINFO3resok_codec = struct_codec
     (\<lambda>(x0, x1, x2, x3, x4, x5, x6, x7, x8, x9, x10). \<lparr>
        FSINFO3resok.obj_attributes = x0, FSINFO3resok.rtmax = x1, FSINFO3resok.rtpref = x2,
        FSINFO3resok.rtmult = x3, FSINFO3resok.wtmax = x4, FSINFO3resok.wtpref = x5,
        FSINFO3resok.wtmult = x6, FSINFO3resok.dtpref = x7, FSINFO3resok.maxfilesize = x8,
        FSINFO3resok.time_delta = x9, FSINFO3resok.properties = x10 \<rparr>)
     (\<lambda>r. (FSINFO3resok.obj_attributes r, FSINFO3resok.rtmax r, FSINFO3resok.rtpref r,
        FSINFO3resok.rtmult r, FSINFO3resok.wtmax r, FSINFO3resok.wtpref r,
        FSINFO3resok.wtmult r, FSINFO3resok.dtpref r, FSINFO3resok.maxfilesize r,
        FSINFO3resok.time_delta r, FSINFO3resok.properties r))
     (fields_codec (nfs3_option_codec fattr3_codec) (fields_codec u32_codec (
        fields_codec u32_codec (fields_codec u32_codec (fields_codec u32_codec (
        fields_codec u32_codec (fields_codec u32_codec (fields_codec u32_codec (
        fields_codec u64_codec (fields_codec nfstime3_codec u32_codec))))))))))"

lemma FSINFO3resok_codec_lawful [codec_intros]: "xdr_codec_total FSINFO3resok_codec"
  unfolding FSINFO3resok_codec_def by (intro codec_intros) auto

record FSINFO3resfail =
  obj_attributes :: post_op_attr

definition FSINFO3resfail_codec :: "FSINFO3resfail codec" where
  "FSINFO3resfail_codec = struct_codec
     (\<lambda>x0. \<lparr> FSINFO3resfail.obj_attributes = x0 \<rparr>)
     (\<lambda>r. FSINFO3resfail.obj_attributes r)
     (nfs3_option_codec fattr3_codec)"

lemma FSINFO3resfail_codec_lawful [codec_intros]: "xdr_codec_total FSINFO3resfail_codec"
  unfolding FSINFO3resfail_codec_def by (intro codec_intros) auto

type_synonym FSINFO3res = "(FSINFO3resok, FSINFO3resfail) nfs3_result"

definition FSINFO3res_codec :: "FSINFO3res codec" where
  "FSINFO3res_codec = nfs3_result_codec FSINFO3resok_codec FSINFO3resfail_codec"

interpretation FSINFO3res: xdr_codec_on FSINFO3res_codec nfs3_result_ok
  unfolding FSINFO3res_codec_def by (intro nfs3_result_codec_on codec_intros)

section \<open>PATHCONF\<close>

record PATHCONF3args =
  object :: nfs_fh3

definition PATHCONF3args_codec :: "PATHCONF3args codec" where
  "PATHCONF3args_codec = struct_codec
     (\<lambda>x0. \<lparr> PATHCONF3args.object = x0 \<rparr>)
     (\<lambda>r. PATHCONF3args.object r)
     nfs_fh3_codec"

lemma PATHCONF3args_codec_lawful [codec_intros]: "xdr_codec_total PATHCONF3args_codec"
  unfolding PATHCONF3args_codec_def by (intro codec_intros) auto

record PATHCONF3resok =
  obj_attributes :: post_op_attr
  linkmax :: u32
  name_max :: u32
  no_trunc :: bool
  chown_restricted :: bool
  case_insensitive :: bool
  case_preserving :: bool

definition PATHCONF3resok_codec :: "PATHCONF3resok codec" where
  "PATHCONF3resok_codec = struct_codec
     (\<lambda>(x0, x1, x2, x3, x4, x5, x6). \<lparr> PATHCONF3resok.obj_attributes = x0,
        PATHCONF3resok.linkmax = x1, PATHCONF3resok.name_max = x2,
        PATHCONF3resok.no_trunc = x3, PATHCONF3resok.chown_restricted = x4,
        PATHCONF3resok.case_insensitive = x5, PATHCONF3resok.case_preserving = x6 \<rparr>)
     (\<lambda>r. (PATHCONF3resok.obj_attributes r, PATHCONF3resok.linkmax r,
        PATHCONF3resok.name_max r, PATHCONF3resok.no_trunc r,
        PATHCONF3resok.chown_restricted r, PATHCONF3resok.case_insensitive r,
        PATHCONF3resok.case_preserving r))
     (fields_codec (nfs3_option_codec fattr3_codec) (fields_codec u32_codec (
        fields_codec u32_codec (fields_codec bool_codec (fields_codec bool_codec (
        fields_codec bool_codec bool_codec))))))"

lemma PATHCONF3resok_codec_lawful [codec_intros]: "xdr_codec_total PATHCONF3resok_codec"
  unfolding PATHCONF3resok_codec_def by (intro codec_intros) auto

record PATHCONF3resfail =
  obj_attributes :: post_op_attr

definition PATHCONF3resfail_codec :: "PATHCONF3resfail codec" where
  "PATHCONF3resfail_codec = struct_codec
     (\<lambda>x0. \<lparr> PATHCONF3resfail.obj_attributes = x0 \<rparr>)
     (\<lambda>r. PATHCONF3resfail.obj_attributes r)
     (nfs3_option_codec fattr3_codec)"

lemma PATHCONF3resfail_codec_lawful [codec_intros]: "xdr_codec_total PATHCONF3resfail_codec"
  unfolding PATHCONF3resfail_codec_def by (intro codec_intros) auto

type_synonym PATHCONF3res = "(PATHCONF3resok, PATHCONF3resfail) nfs3_result"

definition PATHCONF3res_codec :: "PATHCONF3res codec" where
  "PATHCONF3res_codec = nfs3_result_codec PATHCONF3resok_codec PATHCONF3resfail_codec"

interpretation PATHCONF3res: xdr_codec_on PATHCONF3res_codec nfs3_result_ok
  unfolding PATHCONF3res_codec_def by (intro nfs3_result_codec_on codec_intros)

section \<open>COMMIT\<close>

record COMMIT3args =
  file' :: nfs_fh3
  offset :: offset3
  count :: count3

definition COMMIT3args_codec :: "COMMIT3args codec" where
  "COMMIT3args_codec = struct_codec
     (\<lambda>(x0, x1, x2). \<lparr> COMMIT3args.file' = x0, COMMIT3args.offset = x1,
        COMMIT3args.count = x2 \<rparr>)
     (\<lambda>r. (COMMIT3args.file' r, COMMIT3args.offset r, COMMIT3args.count r))
     (fields_codec nfs_fh3_codec (fields_codec u64_codec u32_codec))"

lemma COMMIT3args_codec_lawful [codec_intros]: "xdr_codec_total COMMIT3args_codec"
  unfolding COMMIT3args_codec_def by (intro codec_intros) auto

record COMMIT3resok =
  file_wcc :: wcc_data
  verf :: writeverf3

definition COMMIT3resok_codec :: "COMMIT3resok codec" where
  "COMMIT3resok_codec = struct_codec
     (\<lambda>(x0, x1). \<lparr> COMMIT3resok.file_wcc = x0, COMMIT3resok.verf = x1 \<rparr>)
     (\<lambda>r. (COMMIT3resok.file_wcc r, COMMIT3resok.verf r))
     (fields_codec wcc_data_codec writeverf3_codec)"

lemma COMMIT3resok_codec_lawful [codec_intros]: "xdr_codec_total COMMIT3resok_codec"
  unfolding COMMIT3resok_codec_def by (intro codec_intros) auto

record COMMIT3resfail =
  file_wcc :: wcc_data

definition COMMIT3resfail_codec :: "COMMIT3resfail codec" where
  "COMMIT3resfail_codec = struct_codec
     (\<lambda>x0. \<lparr> COMMIT3resfail.file_wcc = x0 \<rparr>)
     (\<lambda>r. COMMIT3resfail.file_wcc r)
     wcc_data_codec"

lemma COMMIT3resfail_codec_lawful [codec_intros]: "xdr_codec_total COMMIT3resfail_codec"
  unfolding COMMIT3resfail_codec_def by (intro codec_intros) auto

type_synonym COMMIT3res = "(COMMIT3resok, COMMIT3resfail) nfs3_result"

definition COMMIT3res_codec :: "COMMIT3res codec" where
  "COMMIT3res_codec = nfs3_result_codec COMMIT3resok_codec COMMIT3resfail_codec"

interpretation COMMIT3res: xdr_codec_on COMMIT3res_codec nfs3_result_ok
  unfolding COMMIT3res_codec_def by (intro nfs3_result_codec_on codec_intros)

end
