(* ===== verification/File_Handle.thy ===== *)
theory File_Handle
  imports Nfs3_Types
begin

text \<open>
  File handles (\<^verbatim>\<open>nfs3_server/src/vfs/handle.rs\<close>).  The trait \<^verbatim>\<open>FileHandle\<close> is a pair of
  conversions; the locale \<open>file_handle\<close> states what the server relies on, that the bytes
  of a handle read back as the handle, and holds the lemmas on the handles sent to clients.
  \<^verbatim>\<open>FileHandleU64\<close> is interpreted in it.
\<close>

section \<open>The trait and its 8-byte implementation\<close>

record 'h file_handle_ops =
  as_bytes :: "'h \<Rightarrow> bytes"
  from_bytes :: "bytes \<Rightarrow> 'h option"

text \<open>
  \<^verbatim>\<open>FileHandleU64\<close> keeps the native-endian bytes of a number.  It is represented by the
  number, on a little-endian machine; \<^verbatim>\<open>new\<close>, \<^verbatim>\<open>as_u64\<close> and the conversions from and to
  \<^verbatim>\<open>u64\<close> are then the identity.
\<close>

type_synonym FileHandleU64 = u64

definition FileHandleU64_as_bytes :: "FileHandleU64 \<Rightarrow> bytes" where
  "FileHandleU64_as_bytes h = to_le_bytes h"

definition FileHandleU64_from_bytes :: "bytes \<Rightarrow> FileHandleU64 option" where
  "FileHandleU64_from_bytes bs = (if length bs = 8 then Some (from_le_bytes bs) else None)"

definition FileHandleU64_ops :: "FileHandleU64 file_handle_ops" where
  "FileHandleU64_ops = \<lparr> as_bytes = FileHandleU64_as_bytes, from_bytes = FileHandleU64_from_bytes \<rparr>"

section \<open>Handles on the wire\<close>

record FileHandleConverter =
  generation_number :: u64
  generation_number_le :: "8 u8_array"

text \<open>The generation number is the server's start time in milliseconds.\<close>

definition file_handle_converter_new :: "u64 \<Rightarrow> FileHandleConverter" where
  "file_handle_converter_new start =
     \<lparr> generation_number = start, generation_number_le = Array (to_le_bytes start) \<rparr>"

definition fh_to_nfs :: "'h file_handle_ops \<Rightarrow> FileHandleConverter \<Rightarrow> 'h \<Rightarrow> nfs_fh3" where
  "fh_to_nfs ops conv h =
     \<lparr> nfs_fh3.data = array_bytes (generation_number_le conv) @ as_bytes ops h \<rparr>"

definition check_handle :: "FileHandleConverter \<Rightarrow> nfs_fh3 \<Rightarrow> nfsstat3 + unit" where
  "check_handle conv fh =
     (if length (nfs_fh3.data fh) < 8 then Err NFS3ERR_BADHANDLE
      else if take 8 (nfs_fh3.data fh) = array_bytes (generation_number_le conv) then Ok ()
      else
        (let id_gen = from_le_bytes (take 8 (nfs_fh3.data fh)) in
         if id_gen < generation_number conv then Err NFS3ERR_STALE else Err NFS3ERR_BADHANDLE))"

definition fh_from_nfs :: "'h file_handle_ops \<Rightarrow> FileHandleConverter \<Rightarrow> nfs_fh3 \<Rightarrow> nfsstat3 + 'h" where
  "fh_from_nfs ops conv fh =
     and_then (check_handle conv fh) (\<lambda>_.
       ok_or NFS3ERR_BADHANDLE (from_bytes ops (drop 8 (nfs_fh3.data fh))))"

definition converter_verf :: "FileHandleConverter \<Rightarrow> writeverf3" where
  "converter_verf conv = generation_number_le conv"

section \<open>The contract\<close>

definition converter_ok :: "FileHandleConverter \<Rightarrow> bool" where
  "converter_ok conv \<longleftrightarrow> array_bytes (generation_number_le conv) = to_le_bytes (generation_number conv)"

lemma converter_new_ok [simp]: "converter_ok (file_handle_converter_new start)"
  by (simp add: converter_ok_def file_handle_converter_new_def)

locale file_handle =
  fixes ops :: "'h file_handle_ops"
  assumes from_as_bytes: "from_bytes ops (as_bytes ops h) = Some h"
begin

lemma fh_round_trip: "fh_from_nfs ops conv (fh_to_nfs ops conv h) = Ok h"
  by (simp add: fh_from_nfs_def fh_to_nfs_def check_handle_def from_as_bytes)

lemma fh_to_nfs_inject: "fh_to_nfs ops conv h = fh_to_nfs ops conv h' \<longleftrightarrow> h = h'"
  by (metis fh_round_trip sum.inject(2))

text \<open>A handle of another server instance is refused, as stale when that instance is older.\<close>

lemma fh_other_generation:
  assumes "converter_ok conv" "converter_ok conv'" "generation_number conv \<noteq> generation_number conv'"
  shows "fh_from_nfs ops conv' (fh_to_nfs ops conv h) =
    Err (if generation_number conv < generation_number conv' then NFS3ERR_STALE else NFS3ERR_BADHANDLE)"
  using assms
  by (simp add: fh_from_nfs_def fh_to_nfs_def check_handle_def converter_ok_def to_le_bytes_inject)

end

lemma fh_from_nfs_short: "length (nfs_fh3.data fh) < 8 \<Longrightarrow> fh_from_nfs ops conv fh = Err NFS3ERR_BADHANDLE"
  by (simp add: fh_from_nfs_def check_handle_def)

lemma fh_from_nfs_errors: "fh_from_nfs ops conv fh = Err e \<Longrightarrow> e = NFS3ERR_STALE \<or> e = NFS3ERR_BADHANDLE"
  by (auto simp: fh_from_nfs_def check_handle_def Let_def result_simps split: if_splits)

interpretation FileHandleU64: file_handle FileHandleU64_ops
  by unfold_locales (simp add: FileHandleU64_ops_def FileHandleU64_as_bytes_def FileHandleU64_from_bytes_def)

section \<open>Properties\<close>

text \<open>
  C27: a handle given to a client comes back as the same object from the server instance that
  made it, and only then: an older instance's handle is stale, a younger one's is bad.
\<close>

theorem file_handle_generation:
  "fh_from_nfs FileHandleU64_ops (file_handle_converter_new g')
     (fh_to_nfs FileHandleU64_ops (file_handle_converter_new g) h) =
   (if g = g' then Ok h else if g < g' then Err NFS3ERR_STALE else Err NFS3ERR_BADHANDLE)"
proof (cases "g = g'")
  case False
  then show ?thesis
    by (subst FileHandleU64.fh_other_generation) (simp_all add: file_handle_converter_new_def converter_ok_def)
qed (simp add: FileHandleU64.fh_round_trip)

end
