(* ===== verification/Vfs.thy ===== *)
theory Vfs
  imports Nfs3_Messages File_Handle
begin

text \<open>
  The file system interface of the server (\<^verbatim>\<open>nfs3_server/src/vfs\<close>): the traits
  \<^verbatim>\<open>NfsReadFileSystem\<close> and \<^verbatim>\<open>NfsFileSystem\<close> as records of operations, with their default
  methods, the directory iterators, the adapters, and the helpers of \<^verbatim>\<open>nfs_ext.rs\<close>.

  An operation passes the file system's state along; \<^const>\<open>None\<close> is a panic.  The
  locale \<open>pure_reads\<close> says that the operations of \<^verbatim>\<open>NfsReadFileSystem\<close> leave the state as
  it is; a file system behind \<^verbatim>\<open>ReadOnlyAdapter\<close> then never changes.
\<close>

unbundle bit_operations_syntax

section \<open>Operations with state\<close>

type_synonym ('s, 'a) prog = "'s \<Rightarrow> ('a \<times> 's) option"

definition ret :: "'a \<Rightarrow> ('s, 'a) prog" where
  "ret x s = Some (x, s)"

text \<open>\<^verbatim>\<open>.await\<close>: run an operation and go on with its result.\<close>

definition await :: "('s, 'a) prog \<Rightarrow> ('a \<Rightarrow> ('s, 'b) prog) \<Rightarrow> ('s, 'b) prog" where
  "await m f s = (case m s of None \<Rightarrow> None | Some (x, s') \<Rightarrow> f x s')"

definition panic :: "('s, 'a) prog" where
  "panic s = None"

lemma await_ret [simp]: "await (ret x) f = f x"
  by (simp add: await_def ret_def fun_eq_iff)

lemma await_eq_Some:
  "await m f s = Some (y, s'') \<longleftrightarrow> (\<exists>x s'. m s = Some (x, s') \<and> f x s' = Some (y, s''))"
  by (auto simp: await_def split: option.splits)

lemma ret_eq_Some [simp]: "ret x s = Some (y, s') \<longleftrightarrow> y = x \<and> s' = s"
  by (auto simp: ret_def)

lemma await_cong [fundef_cong]:
  "m = m' \<Longrightarrow> s = s' \<Longrightarrow> (\<And>x s1. m' s' = Some (x, s1) \<Longrightarrow> f x s1 = f' x s1) \<Longrightarrow> await m f s = await m' f' s'"
  by (auto simp: await_def split: option.splits)

text \<open>An operation whose result is \<open>x\<close>, with something to drop at the end of the scope.\<close>

definition drop_then :: "('s, unit) prog \<Rightarrow> 'a \<Rightarrow> ('s, 'a) prog" where
  "drop_then d x = await d (\<lambda>_. ret x)"

lemma drop_then_ret [simp]: "drop_then (ret ()) x = ret x"
  by (simp add: drop_then_def)

lemma drop_then_eq_Some:
  "drop_then d x s = Some (y, s') \<longleftrightarrow> y = x \<and> d s = Some ((), s')"
  "Some (y, s') = drop_then d x s \<longleftrightarrow> y = x \<and> d s = Some ((), s')"
  by (auto simp: drop_then_def await_def ret_def split: option.splits)

named_theorems preserves_intros \<open>operations that leave the state as it is\<close>

definition preserves :: "('s, 'a) prog \<Rightarrow> bool" where
  "preserves m \<longleftrightarrow> (\<forall>s x s'. m s = Some (x, s') \<longrightarrow> s' = s)"

lemma preservesD: "preserves m \<Longrightarrow> m s = Some (x, s') \<Longrightarrow> s' = s"
  by (simp add: preserves_def)

lemma preserves_ret [preserves_intros]: "preserves (ret x)"
  by (simp add: preserves_def)

lemma preserves_panic [preserves_intros]: "preserves panic"
  by (simp add: preserves_def panic_def)

lemma preserves_await [preserves_intros]:
  "preserves m \<Longrightarrow> (\<And>x. preserves (f x)) \<Longrightarrow> preserves (await m f)"
  by (fastforce simp: preserves_def await_eq_Some)

lemma preserves_if [preserves_intros]:
  "(b \<Longrightarrow> preserves m) \<Longrightarrow> (\<not> b \<Longrightarrow> preserves m') \<Longrightarrow> preserves (if b then m else m')"
  by simp

lemma preserves_sum [preserves_intros]:
  "(\<And>e. preserves (f e)) \<Longrightarrow> (\<And>x. preserves (g x)) \<Longrightarrow>
   preserves (case r of Err e \<Rightarrow> f e | Ok x \<Rightarrow> g x)"
  by (simp split: sum.split)

lemma preserves_option [preserves_intros]:
  "preserves m \<Longrightarrow> (\<And>x. preserves (f x)) \<Longrightarrow> preserves (case r of None \<Rightarrow> m | Some x \<Rightarrow> f x)"
  by (simp split: option.split)

lemma preserves_prod [preserves_intros]:
  "(\<And>x y. preserves (f x y)) \<Longrightarrow> preserves (case p of (x, y) \<Rightarrow> f x y)"
  by (simp split: prod.split)

section \<open>Directory iterators (iterator.rs)\<close>

datatype 'a NextResult = NextOk 'a | NextEof | NextErr nfsstat3

type_synonym DirEntry = entry3

record 'h DirEntryPlus =
  fileid :: fileid3
  name :: filename3
  cookie :: cookie3
  name_attributes :: "fattr3 option"
  name_handle :: "'h option"

definition into_entry :: "'h file_handle_ops \<Rightarrow> FileHandleConverter \<Rightarrow> 'h DirEntryPlus \<Rightarrow> entryplus3" where
  "into_entry ops conv e =
     \<lparr> entryplus3.fileid = DirEntryPlus.fileid e, entryplus3.name = DirEntryPlus.name e,
       entryplus3.cookie = DirEntryPlus.cookie e,
       entryplus3.name_attributes = DirEntryPlus.name_attributes e,
       entryplus3.name_handle = map_option (fh_to_nfs ops conv) (DirEntryPlus.name_handle e) \<rparr>"

text \<open>\<^verbatim>\<open>ReadDirPlusToReadDir::next\<close>: the plain part of an entry.\<close>

fun plus_to_dir :: "'h DirEntryPlus NextResult \<Rightarrow> DirEntry NextResult" where
  "plus_to_dir (NextOk e) = NextOk \<lparr> entry3.fileid = DirEntryPlus.fileid e,
     entry3.name = DirEntryPlus.name e, entry3.cookie = DirEntryPlus.cookie e \<rparr>"
| "plus_to_dir NextEof = NextEof"
| "plus_to_dir (NextErr err) = NextErr err"

definition ReadDirPlusToReadDir_next ::
  "('i \<Rightarrow> ('s, 'h DirEntryPlus NextResult \<times> 'i) prog) \<Rightarrow> 'i \<Rightarrow> ('s, DirEntry NextResult \<times> 'i) prog" where
  "ReadDirPlusToReadDir_next inner_next i = await (inner_next i) (\<lambda>(r, i'). ret (plus_to_dir r, i'))"

section \<open>The traits (mod.rs)\<close>

datatype VFSCapabilities = ReadOnly | ReadWrite

text \<open>
  The type variables are the state, the handle and the two iterators.  A path is the bytes of
  a \<^verbatim>\<open>str\<close>.  What happens when an iterator goes out of scope, its \<^verbatim>\<open>Drop\<close>, is an operation
  like the others.
\<close>

record ('s, 'h, 'i, 'p) NfsReadFileSystem =
  vfs_handle :: "'h file_handle_ops"
  vfs_root_dir :: "'s \<Rightarrow> 'h"
  vfs_lookup :: "'h \<Rightarrow> filename3 \<Rightarrow> ('s, nfsstat3 + 'h) prog"
  vfs_lookup_by_path :: "bytes \<Rightarrow> ('s, nfsstat3 + 'h) prog"
  vfs_getattr :: "'h \<Rightarrow> ('s, nfsstat3 + fattr3) prog"
  vfs_read :: "'h \<Rightarrow> u64 \<Rightarrow> u32 \<Rightarrow> ('s, nfsstat3 + bytes \<times> bool) prog"
  vfs_readdir :: "'h \<Rightarrow> u64 \<Rightarrow> ('s, nfsstat3 + 'i) prog"
  vfs_readdir_next :: "'i \<Rightarrow> ('s, DirEntry NextResult \<times> 'i) prog"
  vfs_readdir_drop :: "'i \<Rightarrow> ('s, unit) prog"
  vfs_readdirplus :: "'h \<Rightarrow> u64 \<Rightarrow> ('s, nfsstat3 + 'p) prog"
  vfs_readdirplus_next :: "'p \<Rightarrow> ('s, 'h DirEntryPlus NextResult \<times> 'p) prog"
  vfs_readdirplus_drop :: "'p \<Rightarrow> ('s, unit) prog"
  vfs_readlink :: "'h \<Rightarrow> ('s, nfsstat3 + nfspath3) prog"
  vfs_fsinfo :: "'h \<Rightarrow> ('s, nfsstat3 + FSINFO3resok) prog"

record ('s, 'h, 'i, 'p) NfsFileSystem = "('s, 'h, 'i, 'p) NfsReadFileSystem" +
  vfs_capabilities :: "'s \<Rightarrow> VFSCapabilities"
  vfs_setattr :: "'h \<Rightarrow> sattr3 \<Rightarrow> ('s, nfsstat3 + fattr3) prog"
  vfs_write :: "'h \<Rightarrow> u64 \<Rightarrow> bytes \<Rightarrow> ('s, nfsstat3 + fattr3) prog"
  vfs_create :: "'h \<Rightarrow> filename3 \<Rightarrow> sattr3 \<Rightarrow> ('s, nfsstat3 + 'h \<times> fattr3) prog"
  vfs_create_exclusive :: "'h \<Rightarrow> filename3 \<Rightarrow> createverf3 \<Rightarrow> ('s, nfsstat3 + 'h) prog"
  vfs_mkdir :: "'h \<Rightarrow> filename3 \<Rightarrow> ('s, nfsstat3 + 'h \<times> fattr3) prog"
  vfs_remove :: "'h \<Rightarrow> filename3 \<Rightarrow> ('s, nfsstat3 + unit) prog"
  vfs_rename :: "'h \<Rightarrow> filename3 \<Rightarrow> 'h \<Rightarrow> filename3 \<Rightarrow> ('s, nfsstat3 + unit) prog"
  vfs_symlink :: "'h \<Rightarrow> filename3 \<Rightarrow> nfspath3 \<Rightarrow> sattr3 \<Rightarrow> ('s, nfsstat3 + 'h \<times> fattr3) prog"

subsection \<open>Default methods\<close>

text \<open>\<^verbatim>\<open>str::split\<close> with a one-byte delimiter.\<close>

fun split_delimiter :: "u8 \<Rightarrow> bytes \<Rightarrow> bytes list" where
  "split_delimiter d [] = [[]]"
| "split_delimiter d (c # cs) =
     (if c = d then [] # split_delimiter d cs
      else (case split_delimiter d cs of [] \<Rightarrow> [[c]] | p # ps \<Rightarrow> (c # p) # ps))"

definition DELIMITER :: u8 where
  "DELIMITER = 47"

text \<open>The loop of \<^verbatim>\<open>lookup_by_path\<close>, over the components from the handle \<open>fid\<close>.\<close>

fun lookup_components ::
  "('h \<Rightarrow> filename3 \<Rightarrow> ('s, nfsstat3 + 'h) prog) \<Rightarrow> 'h \<Rightarrow> bytes list \<Rightarrow> ('s, nfsstat3 + 'h) prog" where
  "lookup_components look fid [] = ret (Ok fid)"
| "lookup_components look fid (c # cs) =
     (if c = [] then lookup_components look fid cs
      else await (look fid c) (\<lambda>r. case r of
        Err stat \<Rightarrow> ret (Err stat)
      | Ok fid' \<Rightarrow> lookup_components look fid' cs))"

definition default_lookup_by_path ::
  "('s \<Rightarrow> 'h) \<Rightarrow> ('h \<Rightarrow> filename3 \<Rightarrow> ('s, nfsstat3 + 'h) prog) \<Rightarrow> bytes \<Rightarrow> ('s, nfsstat3 + 'h) prog" where
  "default_lookup_by_path root look path s =
     lookup_components look (root s) (split_delimiter DELIMITER path) s"

definition MEBIBYTE :: u32 where
  "MEBIBYTE = 1024 * 1024"

definition GIBIBYTE :: u64 where
  "GIBIBYTE = 1024 * 1024 * 1024"

definition TEBIBYTE :: u64 where
  "TEBIBYTE = 1024 * GIBIBYTE"

definition default_fsinfo ::
  "('h \<Rightarrow> ('s, nfsstat3 + fattr3) prog) \<Rightarrow> 'h \<Rightarrow> ('s, nfsstat3 + FSINFO3resok) prog" where
  "default_fsinfo gattr root_fileid =
     await (gattr root_fileid) (\<lambda>r.
       let dir_attr = (case r of Err _ \<Rightarrow> None | Ok a \<Rightarrow> Some a) in
       ret (Ok \<lparr> FSINFO3resok.obj_attributes = dir_attr,
         FSINFO3resok.rtmax = MEBIBYTE, FSINFO3resok.rtpref = MEBIBYTE, FSINFO3resok.rtmult = MEBIBYTE,
         FSINFO3resok.wtmax = MEBIBYTE, FSINFO3resok.wtpref = MEBIBYTE, FSINFO3resok.wtmult = MEBIBYTE,
         FSINFO3resok.dtpref = MEBIBYTE, FSINFO3resok.maxfilesize = 128 * GIBIBYTE,
         FSINFO3resok.time_delta = \<lparr> nfstime3.seconds = 0, nfstime3.nseconds = 1000000 \<rparr>,
         FSINFO3resok.properties = FSF3_SYMLINK OR FSF3_HOMOGENEOUS OR FSF3_CANSETTIME \<rparr>))"

section \<open>The read-only adapter (adapters/mod.rs)\<close>

definition remove_write_permissions :: "fattr3 \<Rightarrow> fattr3" where
  "remove_write_permissions attr = attr\<lparr> fattr3.mode := fattr3.mode attr AND 0x16D \<rparr>"

definition ReadOnlyAdapter_getattr ::
  "('s, 'h, 'i, 'p, 'z) NfsReadFileSystem_scheme \<Rightarrow> 'h \<Rightarrow> ('s, nfsstat3 + fattr3) prog" where
  "ReadOnlyAdapter_getattr v h =
     await (vfs_getattr v h) (\<lambda>r. ret (map_ok remove_write_permissions r))"

definition ReadOnlyIterator_next ::
  "('s, 'h, 'i, 'p, 'z) NfsReadFileSystem_scheme \<Rightarrow> 'p \<Rightarrow> ('s, 'h DirEntryPlus NextResult \<times> 'p) prog" where
  "ReadOnlyIterator_next v p =
     await (vfs_readdirplus_next v p) (\<lambda>(r, p').
       ret (case r of
              NextOk e \<Rightarrow> NextOk (e\<lparr> DirEntryPlus.name_attributes :=
                map_option remove_write_permissions (DirEntryPlus.name_attributes e) \<rparr>)
            | _ \<Rightarrow> r, p'))"

definition ReadOnlyAdapter ::
  "('s, 'h, 'i, 'p, 'z) NfsReadFileSystem_scheme \<Rightarrow> ('s, 'h, 'i, 'p) NfsFileSystem" where
  "ReadOnlyAdapter v = \<lparr>
     vfs_handle = vfs_handle v,
     vfs_root_dir = vfs_root_dir v,
     vfs_lookup = vfs_lookup v,
     vfs_lookup_by_path = default_lookup_by_path (vfs_root_dir v) (vfs_lookup v),
     vfs_getattr = ReadOnlyAdapter_getattr v,
     vfs_read = vfs_read v,
     vfs_readdir = vfs_readdir v,
     vfs_readdir_next = vfs_readdir_next v,
     vfs_readdir_drop = vfs_readdir_drop v,
     vfs_readdirplus = vfs_readdirplus v,
     vfs_readdirplus_next = ReadOnlyIterator_next v,
     vfs_readdirplus_drop = vfs_readdirplus_drop v,
     vfs_readlink = vfs_readlink v,
     vfs_fsinfo = default_fsinfo (ReadOnlyAdapter_getattr v),
     vfs_capabilities = (\<lambda>_. ReadOnly),
     vfs_setattr = (\<lambda>_ _. ret (Err NFS3ERR_ROFS)),
     vfs_write = (\<lambda>_ _ _. ret (Err NFS3ERR_ROFS)),
     vfs_create = (\<lambda>_ _ _. ret (Err NFS3ERR_ROFS)),
     vfs_create_exclusive = (\<lambda>_ _ _. ret (Err NFS3ERR_ROFS)),
     vfs_mkdir = (\<lambda>_ _. ret (Err NFS3ERR_ROFS)),
     vfs_remove = (\<lambda>_ _. ret (Err NFS3ERR_ROFS)),
     vfs_rename = (\<lambda>_ _ _ _. ret (Err NFS3ERR_ROFS)),
     vfs_symlink = (\<lambda>_ _ _ _. ret (Err NFS3ERR_ROFS)) \<rparr>"

section \<open>Cookie verifiers and entry lists (nfs\_ext.rs)\<close>

definition NONE_COOKIE_VERF :: cookieverf3 where
  "NONE_COOKIE_VERF = Array (to_be_bytes (0 :: u64))"

definition SOME_COOKIE_VERF :: cookieverf3 where
  "SOME_COOKIE_VERF = Array (to_be_bytes (0xFFCCFFCCFFCCFFCC :: u64))"

definition cookieverf_from_attr :: "post_op_attr \<Rightarrow> cookieverf3" where
  "cookieverf_from_attr dir_attr =
     (case dir_attr of
        Some attr \<Rightarrow>
          Array (to_be_bytes (push_bit 32 (ucast (nfstime3.seconds (fattr3.mtime attr)) :: u64) OR
                              ucast (nfstime3.nseconds (fattr3.mtime attr))))
      | None \<Rightarrow> SOME_COOKIE_VERF)"

definition cookieverf_is_none :: "cookieverf3 \<Rightarrow> bool" where
  "cookieverf_is_none v \<longleftrightarrow> v = NONE_COOKIE_VERF"

record BoundedEntryPlusList =
  bounded_entries :: "entryplus3 bounded_list"
  dircount :: nat
  accumulated_dircount :: nat

definition bounded_entry_plus_new :: "nat \<Rightarrow> nat \<Rightarrow> BoundedEntryPlusList" where
  "bounded_entry_plus_new dc mc =
     \<lparr> bounded_entries = bounded_list_new entryplus3_codec mc, dircount = dc,
       accumulated_dircount = 0 \<rparr>"

definition added_dircount :: "entryplus3 \<Rightarrow> nat" where
  "added_dircount e =
     packed_size u64_codec (entryplus3.fileid e) + 4 +
     packed_size filename3_codec (entryplus3.name e) + packed_size u64_codec (entryplus3.cookie e)"

definition entry_plus_try_push ::
  "entryplus3 \<Rightarrow> BoundedEntryPlusList \<Rightarrow> (entryplus3 + unit) \<times> BoundedEntryPlusList" where
  "entry_plus_try_push e l =
     (if accumulated_dircount l + added_dircount e > dircount l then (Err e, l)
      else
        (let (r, es) = try_push entryplus3_codec e (bounded_entries l);
             l' = l\<lparr> bounded_entries := es \<rparr>
         in if is_ok r
            then (r, l'\<lparr> accumulated_dircount := accumulated_dircount l' + added_dircount e \<rparr>)
            else (r, l')))"

section \<open>File systems whose reads have no effect\<close>

locale pure_reads =
  fixes v :: "('s, 'h, 'i, 'p, 'z) NfsReadFileSystem_scheme"
  assumes pure_lookup: "preserves (vfs_lookup v h nm)"
    and pure_getattr: "preserves (vfs_getattr v h)"
    and pure_read: "preserves (vfs_read v h off cnt)"
    and pure_readdir: "preserves (vfs_readdir v h start)"
    and pure_readdir_next: "preserves (vfs_readdir_next v i)"
    and pure_readdir_drop: "preserves (vfs_readdir_drop v i)"
    and pure_readdirplus: "preserves (vfs_readdirplus v h start)"
    and pure_readdirplus_next: "preserves (vfs_readdirplus_next v p)"
    and pure_readdirplus_drop: "preserves (vfs_readdirplus_drop v p)"
    and pure_readlink: "preserves (vfs_readlink v h)"
    and pure_fsinfo: "preserves (vfs_fsinfo v h)"
begin

lemmas pure_ops = pure_lookup pure_getattr pure_read pure_readdir pure_readdir_next pure_readdir_drop
  pure_readdirplus pure_readdirplus_next pure_readdirplus_drop pure_readlink pure_fsinfo

lemma pure_default_fsinfo: "preserves (default_fsinfo (vfs_getattr v) h)"
  unfolding default_fsinfo_def Let_def by (intro preserves_intros pure_ops)

lemma pure_ReadOnlyAdapter_getattr: "preserves (ReadOnlyAdapter_getattr v h)"
  unfolding ReadOnlyAdapter_getattr_def by (intro preserves_intros pure_ops)

lemma ReadOnlyAdapter_pure: "pure_reads (ReadOnlyAdapter v)"
  unfolding pure_reads_def ReadOnlyAdapter_def ReadOnlyIterator_next_def default_fsinfo_def Let_def
  by (auto intro!: preserves_intros pure_ops pure_ReadOnlyAdapter_getattr)

end

section \<open>Entry lists stay within their bounds\<close>

lemma list_packed_size_nonempty: "4 \<le> list_packed_size c xs"
  by (cases xs) simp_all

definition entry_plus_ok :: "BoundedEntryPlusList \<Rightarrow> bool" where
  "entry_plus_ok l \<longleftrightarrow> bounded_list_ok entryplus3_codec (bounded_entries l) \<and>
     accumulated_dircount l = sum_list (map added_dircount (bl_list (bounded_entries l))) \<and>
     accumulated_dircount l \<le> dircount l"

lemma bounded_entry_plus_new_ok [simp]: "entry_plus_ok (bounded_entry_plus_new dc mc)"
  by (simp add: entry_plus_ok_def bounded_entry_plus_new_def bounded_list_new_def bounded_list_ok_def
      list_codec_def)

lemma entry_plus_try_push_ok:
  "entry_plus_ok l \<Longrightarrow> entry_plus_ok (snd (entry_plus_try_push e l))"
  using try_push_ok [of entryplus3_codec "bounded_entries l" e]
  by (auto simp: entry_plus_ok_def entry_plus_try_push_def Let_def try_push_def split: prod.splits if_splits)

lemma entry_plus_try_push_limits [simp]:
  "dircount (snd (entry_plus_try_push e l)) = dircount l"
  "max_size (bounded_entries (snd (entry_plus_try_push e l))) = max_size (bounded_entries l)"
  by (auto simp: entry_plus_try_push_def Let_def try_push_def split: prod.splits)

lemma entry_plus_try_push_list:
  "bl_list (bounded_entries (snd (entry_plus_try_push e l))) =
     bl_list (bounded_entries l) @ (if is_ok (fst (entry_plus_try_push e l)) then [e] else [])"
  by (auto simp: entry_plus_try_push_def Let_def try_push_def split: prod.splits)

lemma entry_plus_try_push_size:
  "is_ok (fst (entry_plus_try_push e l)) \<Longrightarrow>
   max_size (bounded_entries l) - current_size (bounded_entries (snd (entry_plus_try_push e l))) <
   max_size (bounded_entries l) - current_size (bounded_entries l)"
  by (auto simp: entry_plus_try_push_def Let_def try_push_def split: prod.splits if_splits)

end
