(* ===== verification/Rpc_Messages.thy ===== *)
theory Rpc_Messages
  imports Rpc_Types Vfs
begin

text \<open>
  Messages on a connection (\<^verbatim>\<open>nfs3_server/src/rpcwire/messages.rs\<close>), the per-connection
  context (\<^verbatim>\<open>context.rs\<close>), and the generic \<^verbatim>\<open>handle\<close> of \<^verbatim>\<open>rpcwire.rs\<close> that decodes the
  arguments of a procedure, runs it and encodes its reply.

  An \<^verbatim>\<open>anyhow::Error\<close> is a value of \<open>rpc_error\<close> that keeps its cause.
\<close>

section \<open>Context\<close>

text \<open>
  The transaction tracker is shared by all connections and is part of the server's state, not
  of the context.  Of the mount signal the context keeps whether there is a channel; what is
  sent on it is recorded in the server's state.
\<close>

record ('s, 'h, 'i, 'p) RPCContext =
  local_port :: u16
  client_addr :: string
  auth :: auth_unix
  vfs :: "('s, 'h, 'i, 'p) NfsFileSystem"
  mount_signal :: bool
  export_name :: bytes
  file_handle_converter :: FileHandleConverter

section \<open>Receiving fragments\<close>

datatype rpc_error =
    UnpackFailed xdr_error
  | ExpectedCall u32
  | AuthFailed xdr_error
  | PackFailed xdr_error
  | ReceiveFailed xdr_error

type_synonym IncompleteRpcMessage = bytes
type_synonym CompleteRpcMessage = bytes

datatype PackedRpcMessage = Incomplete IncompleteRpcMessage | Complete CompleteRpcMessage

definition packed_rpc_message_new :: PackedRpcMessage where
  "packed_rpc_message_new = Incomplete []"

text \<open>
  \<^verbatim>\<open>IncompleteRpcMessage::recv\<close> on the bytes that the peer sends: the flag of the last
  fragment, the message so far and the bytes that are left.
\<close>

definition incomplete_recv ::
  "IncompleteRpcMessage \<Rightarrow> bytes \<Rightarrow> rpc_error + bool \<times> IncompleteRpcMessage \<times> bytes" where
  "incomplete_recv msg i =
     (case read_exact 4 i of
        Err e \<Rightarrow> Err (ReceiveFailed e)
      | Ok (header_buf, i1) \<Rightarrow>
          (let h = fragment_header_from header_buf in
           case read_exact (unat (fragment_length h)) i1 of
             Err e \<Rightarrow> Err (ReceiveFailed e)
           | Ok (bs, i2) \<Rightarrow> Ok (fragment_header_eof h, msg @ bs, i2)))"

fun packed_recv :: "PackedRpcMessage \<Rightarrow> bytes \<Rightarrow> rpc_error + bool \<times> PackedRpcMessage \<times> bytes" where
  "packed_recv (Incomplete msg) i =
     and_then (incomplete_recv msg i) (\<lambda>(is_last, msg', i').
       Ok (is_last, if is_last then Complete msg' else Incomplete msg', i'))"
| "packed_recv (Complete msg) i = Ok (True, Complete msg, i)"

section \<open>Incoming calls and their replies\<close>

record IncomingRpcMessage =
  incoming_xid :: u32
  incoming_body :: call_body
  incoming_data :: "bytes option"
  message_start :: nat

definition incoming_try_from :: "CompleteRpcMessage \<Rightarrow> rpc_error + IncomingRpcMessage" where
  "incoming_try_from packed =
     (case unpack rpc_msg_codec packed of
        Err err \<Rightarrow> Err (UnpackFailed err)
      | Ok (rpc, pos, _) \<Rightarrow>
          (case rpc_msg.body rpc of
             CALL call \<Rightarrow> Ok \<lparr> incoming_xid = rpc_msg.xid rpc, incoming_body = call,
                               incoming_data = Some packed, message_start = pos \<rparr>
           | REPLY _ \<Rightarrow> Err (ExpectedCall (rpc_msg.xid rpc))))"

datatype HandleResult = Reply CompleteRpcMessage | NoReply

text \<open>The module's \<^verbatim>\<open>pack\<close>: the header, then the result, in one buffer.\<close>

definition pack_reply :: "rpc_msg \<Rightarrow> 'o codec \<Rightarrow> 'o \<Rightarrow> rpc_error + CompleteRpcMessage" where
  "pack_reply rpc c result =
     (case pack rpc_msg_codec rpc [] of
        Err e \<Rightarrow> Err (PackFailed e)
      | Ok (_, out) \<Rightarrow>
          (case pack c result out of
             Err e \<Rightarrow> Err (PackFailed e)
           | Ok (_, out') \<Rightarrow> Ok out'))"

definition accepted :: "u32 \<Rightarrow> accept_stat_data \<Rightarrow> rpc_msg" where
  "accepted i stat = \<lparr> rpc_msg.xid = i, rpc_msg.body = REPLY (MSG_ACCEPTED
     \<lparr> accepted_reply.verf = opaque_auth_default, accepted_reply.reply_data = stat \<rparr>) \<rparr>"

definition into_success_reply :: "'o codec \<Rightarrow> 'o \<Rightarrow> IncomingRpcMessage \<Rightarrow> rpc_error + HandleResult" where
  "into_success_reply c result m =
     map_ok Reply (pack_reply (accepted (incoming_xid m) SUCCESS) c result)"

definition into_rpc_mismatch :: "IncomingRpcMessage \<Rightarrow> rpc_error + HandleResult" where
  "into_rpc_mismatch m =
     map_ok Reply (pack_reply \<lparr> rpc_msg.xid = incoming_xid m,
       rpc_msg.body = REPLY (MSG_DENIED (RPC_MISMATCH RPC_VERSION_2 RPC_VERSION_2)) \<rparr> void_codec ())"

definition into_error_reply :: "accept_stat_data \<Rightarrow> IncomingRpcMessage \<Rightarrow> rpc_error + HandleResult" where
  "into_error_reply err m =
     map_ok Reply (pack_reply (accepted (incoming_xid m) err) void_codec ())"

text \<open>
  \<^verbatim>\<open>handle\<close> with \<^verbatim>\<open>take_data\<close> at its start, which panics if the data was taken before.
\<close>

definition handle ::
  "'i codec \<Rightarrow> 'o codec \<Rightarrow> 'ctx \<Rightarrow> IncomingRpcMessage \<Rightarrow> ('ctx \<Rightarrow> u32 \<Rightarrow> 'i \<Rightarrow> ('st, 'o) prog) \<Rightarrow>
     ('st, rpc_error + HandleResult) prog" where
  "handle ci co ctx m handler =
     (case incoming_data m of
        None \<Rightarrow> panic
      | Some bs \<Rightarrow>
          (let m = m\<lparr> incoming_data := None \<rparr>; cursor = drop (message_start m) bs in
           case unpack ci cursor of
             Err _ \<Rightarrow> ret (into_error_reply GARBAGE_ARGS m)
           | Ok (args, _, rest) \<Rightarrow>
               if message_start m + (length cursor - length rest) \<noteq> length bs
               then ret (into_error_reply GARBAGE_ARGS m)
               else await (handler ctx (incoming_xid m) args) (\<lambda>result.
                 ret (into_success_reply co result m))))"

section \<open>Facts\<close>

lemma accepted_pack:
  "\<exists>n bs. pack rpc_msg_codec (accepted i stat) [] = Ok (n, bs)"
  by (cases stat)
       (simp_all add: accepted_def rpc_msg_codec_def struct_codec_def fields_codec_def msg_body_codec_def
        reply_body_codec_def accepted_reply_codec_def opaque_auth_codec_def accept_stat_data_codec_def
        complex_enum_codec_def field_payload_def unit_payload_def opaque_auth_default_def auth_flavor_pack
        opaque_codec_def u32_try_from_def Let_def)

end
