(* ===== verification/Mount_Types.thy ===== *)
theory Mount_Types
  imports Xdr_Derive
begin

text \<open>
  The MOUNT protocol's messages (\<^verbatim>\<open>nfs3_types/src/mount.rs\<close>).  A newtype over
  \<^verbatim>\<open>Opaque\<close> is a synonym of it, with its codec; \<^verbatim>\<open>name\<close> is called \<open>name3\<close>.
\<close>

definition PROGRAM :: u32 where
  "PROGRAM = 100005"

definition VERSION :: u32 where
  "VERSION = 3"

definition MNTPATHLEN :: nat where
  "MNTPATHLEN = 1024"

definition MNTNAMLEN :: nat where
  "MNTNAMLEN = 255"

definition FHSIZE3 :: nat where
  "FHSIZE3 = 64"

type_synonym fhandle3 = "opaque"

definition fhandle3_codec :: "fhandle3 codec" where
  "fhandle3_codec = opaque_codec"

lemma fhandle3_codec_lawful [codec_intros]: "xdr_codec_total fhandle3_codec"
  unfolding fhandle3_codec_def by (intro codec_intros)

type_synonym dirpath = "opaque"

definition dirpath_codec :: "dirpath codec" where
  "dirpath_codec = opaque_codec"

lemma dirpath_codec_lawful [codec_intros]: "xdr_codec_total dirpath_codec"
  unfolding dirpath_codec_def by (intro codec_intros)

type_synonym name3 = "opaque"

definition name3_codec :: "name3 codec" where
  "name3_codec = opaque_codec"

lemma name3_codec_lawful [codec_intros]: "xdr_codec_total name3_codec"
  unfolding name3_codec_def by (intro codec_intros)

datatype mountstat3 =
    MNT3_OK | MNT3ERR_PERM | MNT3ERR_NOENT | MNT3ERR_IO | MNT3ERR_ACCES | MNT3ERR_NOTDIR |
    MNT3ERR_INVAL | MNT3ERR_NAMETOOLONG | MNT3ERR_NOTSUPP | MNT3ERR_SERVERFAULT

fun mountstat3_as_u32 :: "mountstat3 \<Rightarrow> u32" where
  "mountstat3_as_u32 mountstat3.MNT3_OK = 0"
| "mountstat3_as_u32 mountstat3.MNT3ERR_PERM = 1"
| "mountstat3_as_u32 mountstat3.MNT3ERR_NOENT = 2"
| "mountstat3_as_u32 mountstat3.MNT3ERR_IO = 5"
| "mountstat3_as_u32 mountstat3.MNT3ERR_ACCES = 13"
| "mountstat3_as_u32 mountstat3.MNT3ERR_NOTDIR = 20"
| "mountstat3_as_u32 mountstat3.MNT3ERR_INVAL = 22"
| "mountstat3_as_u32 mountstat3.MNT3ERR_NAMETOOLONG = 63"
| "mountstat3_as_u32 mountstat3.MNT3ERR_NOTSUPP = 10004"
| "mountstat3_as_u32 mountstat3.MNT3ERR_SERVERFAULT = 10006"

definition mountstat3_variants :: "mountstat3 list" where
  "mountstat3_variants = [mountstat3.MNT3_OK, mountstat3.MNT3ERR_PERM,
     mountstat3.MNT3ERR_NOENT, mountstat3.MNT3ERR_IO, mountstat3.MNT3ERR_ACCES,
     mountstat3.MNT3ERR_NOTDIR, mountstat3.MNT3ERR_INVAL, mountstat3.MNT3ERR_NAMETOOLONG,
     mountstat3.MNT3ERR_NOTSUPP, mountstat3.MNT3ERR_SERVERFAULT]"

definition mountstat3_codec :: "mountstat3 codec" where
  "mountstat3_codec = simple_enum_codec mountstat3_as_u32 mountstat3_variants"

lemma mountstat3_codec_lawful [codec_intros]: "xdr_codec_total mountstat3_codec"
  unfolding mountstat3_codec_def
  by (rule simple_enum_codec_lawful, case_tac v) (simp_all add: mountstat3_variants_def)

lemma mountstat3_pack: "pack mountstat3_codec v out = Ok (4, out @ to_be_bytes (mountstat3_as_u32 v))"
  by (simp add: mountstat3_codec_def simple_enum_codec_def)

lemma mountstat3_packed_size [simp]: "packed_size mountstat3_codec v = 4"
  by (simp add: mountstat3_codec_def simple_enum_codec_def)

record mountres3_ok =
  fhandle :: fhandle3
  auth_flavors :: "u32 list"

definition mountres3_ok_codec :: "mountres3_ok codec" where
  "mountres3_ok_codec = struct_codec
     (\<lambda>(x0, x1). \<lparr> mountres3_ok.fhandle = x0, mountres3_ok.auth_flavors = x1 \<rparr>)
     (\<lambda>r. (mountres3_ok.fhandle r, mountres3_ok.auth_flavors r))
     (fields_codec fhandle3_codec vec_u32_codec)"

lemma mountres3_ok_codec_lawful [codec_intros]: "xdr_codec_total mountres3_ok_codec"
  unfolding mountres3_ok_codec_def by (intro codec_intros) auto

text \<open>The result of MNT, packed by hand in the source.\<close>

datatype mountres3 = MntOk mountres3_ok | MntErr mountstat3

definition mountres3_codec :: "mountres3 codec" where
  "mountres3_codec = \<lparr>
     packed_size = (\<lambda>r. case r of
         MntOk ok \<Rightarrow> packed_size mountstat3_codec MNT3_OK + packed_size mountres3_ok_codec ok
       | MntErr err \<Rightarrow> packed_size mountstat3_codec err),
     pack = (\<lambda>r out. case r of
         MntOk ok \<Rightarrow> and_then (pack mountstat3_codec MNT3_OK out) (\<lambda>(n, out1).
           and_then (pack mountres3_ok_codec ok out1) (\<lambda>(m, out2). Ok (n + m, out2)))
       | MntErr err \<Rightarrow> pack mountstat3_codec err out),
     unpack = (\<lambda>i. and_then (unpack mountstat3_codec i) (\<lambda>(stat, n, i1).
       if stat = MNT3_OK
       then and_then (unpack mountres3_ok_codec i1) (\<lambda>(ok, m, i2). Ok (MntOk ok, n + m, i2))
       else Ok (MntErr stat, n + 0, i1))) \<rparr>"

text \<open>An error with the status \<^verbatim>\<open>MNT3_OK\<close> does not read back.\<close>

definition mountres3_representable :: "mountres3 \<Rightarrow> bool" where
  "mountres3_representable r \<longleftrightarrow> r \<noteq> MntErr MNT3_OK"

interpretation mountres3: xdr_codec_on mountres3_codec mountres3_representable
proof -
  have o: "xdr_codec mountres3_ok_codec" and s: "xdr_codec mountstat3_codec"
    by (rule total_codec_xdr, intro codec_intros)+
  note fo = fields_codec_xdr [OF s o]
  have ok: "pack mountres3_codec (MntOk r) = pack (fields_codec mountstat3_codec mountres3_ok_codec) (MNT3_OK, r)" for r
    by (simp add: mountres3_codec_def fields_codec_def fun_eq_iff)
  show "xdr_codec_on mountres3_codec mountres3_representable"
  proof unfold_locales
    fix x out
    show "pack mountres3_codec x out = map_ok (\<lambda>(n, bs). (n, out @ bs)) (pack mountres3_codec x [])"
      by (cases x, simp only: ok, rule xdr_codec.pack_appends [OF fo])
         (simp add: mountres3_codec_def mountstat3_pack)
  next
    fix x n bs rest
    assume "mountres3_representable x" "pack mountres3_codec x [] = Ok (n, bs)"
    then show "unpack mountres3_codec (bs @ rest) = Ok (x, n, rest)"
      by (cases x) (auto simp: mountres3_representable_def ok fields_pack [OF s o],
         auto simp: mountres3_codec_def xdr_codec.unpack_pack [OF s] xdr_codec.unpack_pack [OF o])
  next
    fix i x n rest
    assume "unpack mountres3_codec i = Ok (x, n, rest)"
    then show "n = packed_size mountres3_codec x \<and> n \<le> length i \<and> rest = drop n i \<and> mountres3_representable x"
      by (auto simp: mountres3_codec_def mountres3_representable_def result_simps add.commute split: if_splits
          dest!: xdr_codec.unpack_consumes [OF s] xdr_codec.unpack_consumes [OF o])
  next
    fix x n bs assume "pack mountres3_codec x [] = Ok (n, bs)"
    then show "n = length bs \<and> n = packed_size mountres3_codec x"
      by (cases x) (auto simp: ok fields_pack [OF s o] dest!: xdr_codec.pack_size [OF s] xdr_codec.pack_size [OF o],
         auto simp: mountres3_codec_def mountstat3_pack)
  qed (auto simp: mountres3_codec_def xdr_codec.size_aligned [OF o] split: mountres3.split)
qed

record mountbody =
  ml_hostname :: name3
  ml_directory :: dirpath

definition mountbody_codec :: "mountbody codec" where
  "mountbody_codec = struct_codec
     (\<lambda>(x0, x1). \<lparr> mountbody.ml_hostname = x0, mountbody.ml_directory = x1 \<rparr>)
     (\<lambda>r. (mountbody.ml_hostname r, mountbody.ml_directory r))
     (fields_codec name3_codec dirpath_codec)"

lemma mountbody_codec_lawful [codec_intros]: "xdr_codec_total mountbody_codec"
  unfolding mountbody_codec_def by (intro codec_intros) auto

type_synonym mountlist = "mountbody list"

record export_node =
  ex_dir :: dirpath
  ex_groups :: "name3 list"

definition export_node_codec :: "export_node codec" where
  "export_node_codec = struct_codec
     (\<lambda>(x0, x1). \<lparr> export_node.ex_dir = x0, export_node.ex_groups = x1 \<rparr>)
     (\<lambda>r. (export_node.ex_dir r, export_node.ex_groups r))
     (fields_codec dirpath_codec (list_codec name3_codec))"

lemma export_node_codec_lawful [codec_intros]: "xdr_codec_total export_node_codec"
  unfolding export_node_codec_def by (intro codec_intros) auto

type_synonym exports = "export_node list"

datatype MOUNT_PROGRAM =
    MOUNTPROC3_NULL | MOUNTPROC3_MNT | MOUNTPROC3_DUMP | MOUNTPROC3_UMNT | MOUNTPROC3_UMNTALL |
    MOUNTPROC3_EXPORT

fun MOUNT_PROGRAM_as_u32 :: "MOUNT_PROGRAM \<Rightarrow> u32" where
  "MOUNT_PROGRAM_as_u32 MOUNT_PROGRAM.MOUNTPROC3_NULL = 0"
| "MOUNT_PROGRAM_as_u32 MOUNT_PROGRAM.MOUNTPROC3_MNT = 1"
| "MOUNT_PROGRAM_as_u32 MOUNT_PROGRAM.MOUNTPROC3_DUMP = 2"
| "MOUNT_PROGRAM_as_u32 MOUNT_PROGRAM.MOUNTPROC3_UMNT = 3"
| "MOUNT_PROGRAM_as_u32 MOUNT_PROGRAM.MOUNTPROC3_UMNTALL = 4"
| "MOUNT_PROGRAM_as_u32 MOUNT_PROGRAM.MOUNTPROC3_EXPORT = 5"

definition MOUNT_PROGRAM_variants :: "MOUNT_PROGRAM list" where
  "MOUNT_PROGRAM_variants = [MOUNT_PROGRAM.MOUNTPROC3_NULL, MOUNT_PROGRAM.MOUNTPROC3_MNT,
     MOUNT_PROGRAM.MOUNTPROC3_DUMP, MOUNT_PROGRAM.MOUNTPROC3_UMNT,
     MOUNT_PROGRAM.MOUNTPROC3_UMNTALL, MOUNT_PROGRAM.MOUNTPROC3_EXPORT]"

definition MOUNT_PROGRAM_codec :: "MOUNT_PROGRAM codec" where
  "MOUNT_PROGRAM_codec = simple_enum_codec MOUNT_PROGRAM_as_u32 MOUNT_PROGRAM_variants"

lemma MOUNT_PROGRAM_codec_lawful [codec_intros]: "xdr_codec_total MOUNT_PROGRAM_codec"
  unfolding MOUNT_PROGRAM_codec_def
  by (rule simple_enum_codec_lawful, case_tac v) (simp_all add: MOUNT_PROGRAM_variants_def)

lemma MOUNT_PROGRAM_pack: "pack MOUNT_PROGRAM_codec v out = Ok (4, out @ to_be_bytes (MOUNT_PROGRAM_as_u32 v))"
  by (simp add: MOUNT_PROGRAM_codec_def simple_enum_codec_def)

lemma MOUNT_PROGRAM_packed_size [simp]: "packed_size MOUNT_PROGRAM_codec v = 4"
  by (simp add: MOUNT_PROGRAM_codec_def simple_enum_codec_def)

definition MOUNT_PROGRAM_try_from :: "u32 \<Rightarrow> xdr_error + MOUNT_PROGRAM" where
  "MOUNT_PROGRAM_try_from value =
     (if value = 0 then Ok MOUNTPROC3_NULL
      else if value = 1 then Ok MOUNTPROC3_MNT
      else if value = 2 then Ok MOUNTPROC3_DUMP
      else if value = 3 then Ok MOUNTPROC3_UMNT
      else if value = 4 then Ok MOUNTPROC3_UMNTALL
      else if value = 5 then Ok MOUNTPROC3_EXPORT
      else Err (InvalidEnumValue value))"

lemma MOUNT_PROGRAM_try_from_as_u32 [simp]: "MOUNT_PROGRAM_try_from (MOUNT_PROGRAM_as_u32 p) = Ok p"
  by (cases p) (simp_all add: MOUNT_PROGRAM_try_from_def)

lemma MOUNT_PROGRAM_try_from_Ok: "MOUNT_PROGRAM_try_from w = Ok p \<Longrightarrow> w = MOUNT_PROGRAM_as_u32 p"
  by (auto simp: MOUNT_PROGRAM_try_from_def split: if_splits)

end
