(* ===== verification/Portmap_Types.thy ===== *)
theory Portmap_Types
  imports Xdr_Derive
begin

text \<open>
  The port mapper's messages (\<^verbatim>\<open>nfs3_types/src/portmap.rs\<close>).  The struct
  \<^verbatim>\<open>mapping\<close> keeps its name.
\<close>

definition IPPROTO_TCP :: u32 where
  "IPPROTO_TCP = 6"

definition IPPROTO_UDP :: u32 where
  "IPPROTO_UDP = 17"

definition PROGRAM :: u32 where
  "PROGRAM = 100000"

definition VERSION :: u32 where
  "VERSION = 2"

definition PMAP_PORT :: u16 where
  "PMAP_PORT = 111"

record mapping =
  prog :: u32
  vers :: u32
  prot :: u32
  port :: u32

definition mapping_codec :: "mapping codec" where
  "mapping_codec = struct_codec
     (\<lambda>(x0, x1, x2, x3). \<lparr> mapping.prog = x0, mapping.vers = x1,
        mapping.prot = x2, mapping.port = x3 \<rparr>)
     (\<lambda>r. (mapping.prog r, mapping.vers r, mapping.prot r, mapping.port r))
     (fields_codec u32_codec (fields_codec u32_codec (fields_codec u32_codec u32_codec)))"

lemma mapping_codec_lawful [codec_intros]: "xdr_codec_total mapping_codec"
  unfolding mapping_codec_def by (intro codec_intros) auto

type_synonym pmaplist = "mapping list"

record call_args =
  prog :: u32
  vers :: u32
  proc :: u32
  args :: opaque

definition call_args_codec :: "call_args codec" where
  "call_args_codec = struct_codec
     (\<lambda>(x0, x1, x2, x3). \<lparr> call_args.prog = x0, call_args.vers = x1,
        call_args.proc = x2, call_args.args = x3 \<rparr>)
     (\<lambda>r. (call_args.prog r, call_args.vers r, call_args.proc r, call_args.args r))
     (fields_codec u32_codec (fields_codec u32_codec (fields_codec u32_codec opaque_codec)))"

lemma call_args_codec_lawful [codec_intros]: "xdr_codec_total call_args_codec"
  unfolding call_args_codec_def by (intro codec_intros) auto

record call_result =
  port :: u32
  res :: opaque

definition call_result_codec :: "call_result codec" where
  "call_result_codec = struct_codec
     (\<lambda>(x0, x1). \<lparr> call_result.port = x0, call_result.res = x1 \<rparr>)
     (\<lambda>r. (call_result.port r, call_result.res r))
     (fields_codec u32_codec opaque_codec)"

lemma call_result_codec_lawful [codec_intros]: "xdr_codec_total call_result_codec"
  unfolding call_result_codec_def by (intro codec_intros) auto

datatype PMAP_PROG =
    PMAPPROC_NULL | PMAPPROC_SET | PMAPPROC_UNSET | PMAPPROC_GETPORT | PMAPPROC_DUMP |
    PMAPPROC_CALLIT

fun PMAP_PROG_as_u32 :: "PMAP_PROG \<Rightarrow> u32" where
  "PMAP_PROG_as_u32 PMAP_PROG.PMAPPROC_NULL = 0"
| "PMAP_PROG_as_u32 PMAP_PROG.PMAPPROC_SET = 1"
| "PMAP_PROG_as_u32 PMAP_PROG.PMAPPROC_UNSET = 2"
| "PMAP_PROG_as_u32 PMAP_PROG.PMAPPROC_GETPORT = 3"
| "PMAP_PROG_as_u32 PMAP_PROG.PMAPPROC_DUMP = 4"
| "PMAP_PROG_as_u32 PMAP_PROG.PMAPPROC_CALLIT = 5"

definition PMAP_PROG_variants :: "PMAP_PROG list" where
  "PMAP_PROG_variants = [PMAP_PROG.PMAPPROC_NULL, PMAP_PROG.PMAPPROC_SET,
     PMAP_PROG.PMAPPROC_UNSET, PMAP_PROG.PMAPPROC_GETPORT, PMAP_PROG.PMAPPROC_DUMP,
     PMAP_PROG.PMAPPROC_CALLIT]"

definition PMAP_PROG_codec :: "PMAP_PROG codec" where
  "PMAP_PROG_codec = simple_enum_codec PMAP_PROG_as_u32 PMAP_PROG_variants"

lemma PMAP_PROG_codec_lawful [codec_intros]: "xdr_codec_total PMAP_PROG_codec"
  unfolding PMAP_PROG_codec_def
  by (rule simple_enum_codec_lawful, case_tac v) (simp_all add: PMAP_PROG_variants_def)

lemma PMAP_PROG_pack: "pack PMAP_PROG_codec v out = Ok (4, out @ to_be_bytes (PMAP_PROG_as_u32 v))"
  by (simp add: PMAP_PROG_codec_def simple_enum_codec_def)

lemma PMAP_PROG_packed_size [simp]: "packed_size PMAP_PROG_codec v = 4"
  by (simp add: PMAP_PROG_codec_def simple_enum_codec_def)

definition PMAP_PROG_try_from :: "u32 \<Rightarrow> xdr_error + PMAP_PROG" where
  "PMAP_PROG_try_from value =
     (if value = 0 then Ok PMAPPROC_NULL
      else if value = 1 then Ok PMAPPROC_SET
      else if value = 2 then Ok PMAPPROC_UNSET
      else if value = 3 then Ok PMAPPROC_GETPORT
      else if value = 4 then Ok PMAPPROC_DUMP
      else if value = 5 then Ok PMAPPROC_CALLIT
      else Err (InvalidEnumValue value))"

lemma PMAP_PROG_try_from_as_u32 [simp]: "PMAP_PROG_try_from (PMAP_PROG_as_u32 p) = Ok p"
  by (cases p) (simp_all add: PMAP_PROG_try_from_def)

lemma PMAP_PROG_try_from_Ok: "PMAP_PROG_try_from w = Ok p \<Longrightarrow> w = PMAP_PROG_as_u32 p"
  by (auto simp: PMAP_PROG_try_from_def split: if_splits)

end
