(* ===== verification/Client_Rpc.thy ===== *)
theory Client_Rpc
  imports Rpc_Messages Mount_Types Portmap_Types
begin

text \<open>
  The RPC client (\<^verbatim>\<open>nfs3_client/src/io.rs\<close>, \<^verbatim>\<open>error.rs\<close> and \<^verbatim>\<open>rpc.rs\<close>).

  The traits \<^verbatim>\<open>AsyncRead\<close> and \<^verbatim>\<open>AsyncWrite\<close> are a record of operations on the state of a
  connection; their implementations over sockets are not part of the program.  An operation
  that panics, or that never ends, has the result \<^const>\<open>None\<close>.
\<close>

section \<open>Errors (error.rs)\<close>

text \<open>The kinds of \<^verbatim>\<open>std::io::Error\<close> that the client tells apart; the number stands for any other.\<close>

datatype client_io_error = AddrInUse | InvalidInput | OtherIoError nat

datatype RpcError = UnexpectedCall | Auth | RpcMismatch | WrongLength | UnexpectedXid
  | NotFullyParsed bytes nat | ProgUnavail | ProgMismatch | ProcUnavail | GarbageArgs | SystemErr

datatype PortmapError = ProgramUnavailable | InvalidPortValue u32

datatype client_error = IoError client_io_error | XdrError xdr_error | Rpc RpcError | Portmap PortmapError
  | MountError mountstat3 | NfsError nfsstat3

fun RpcError_from_rejected :: "rejected_reply \<Rightarrow> RpcError" where
  "RpcError_from_rejected (RPC_MISMATCH lo hi) = RpcMismatch"
| "RpcError_from_rejected (AUTH_ERROR stat) = Auth"

fun RpcError_try_from :: "accept_stat_data \<Rightarrow> unit + RpcError" where
  "RpcError_try_from accept_stat_data.SUCCESS = Err ()"
| "RpcError_try_from accept_stat_data.PROG_UNAVAIL = Ok ProgUnavail"
| "RpcError_try_from (accept_stat_data.PROG_MISMATCH lo hi) = Ok ProgMismatch"
| "RpcError_try_from accept_stat_data.PROC_UNAVAIL = Ok ProcUnavail"
| "RpcError_try_from accept_stat_data.GARBAGE_ARGS = Ok GarbageArgs"
| "RpcError_try_from accept_stat_data.SYSTEM_ERR = Ok SystemErr"

section \<open>Reading and writing (io.rs)\<close>

text \<open>
  \<^verbatim>\<open>async_read\<close> with a buffer of the given length returns the bytes it put there,
  \<^verbatim>\<open>async_write\<close> the number of bytes it took.
\<close>

record 'io async_io =
  async_read :: "nat \<Rightarrow> 'io \<Rightarrow> (client_io_error + bytes) \<times> 'io"
  async_write :: "bytes \<Rightarrow> 'io \<Rightarrow> (client_io_error + nat) \<times> 'io"

text \<open>
  The default methods.  Nothing in the loops says what happens when no byte is transferred, so
  they need not end; slicing past the end of the buffer panics.
\<close>

partial_function (option) async_read_exact ::
  "'io async_io \<Rightarrow> nat \<Rightarrow> 'io \<Rightarrow> ((client_io_error + bytes) \<times> 'io) option" where
  "async_read_exact ops n s =
     (if n = 0 then Some (Ok [], s)
      else case async_read ops n s of
        (Err e, s') \<Rightarrow> Some (Err e, s')
      | (Ok bs, s') \<Rightarrow>
          if length bs > n then None
          else Option.bind (async_read_exact ops (n - length bs) s') (\<lambda>(r, s'').
            Some (map_ok (\<lambda>bs'. bs @ bs') r, s'')))"

partial_function (option) async_write_all ::
  "'io async_io \<Rightarrow> bytes \<Rightarrow> 'io \<Rightarrow> ((client_io_error + unit) \<times> 'io) option" where
  "async_write_all ops buf s =
     (if buf = [] then Some (Ok (), s)
      else case async_write ops buf s of
        (Err e, s') \<Rightarrow> Some (Err e, s')
      | (Ok n, s') \<Rightarrow> if n > length buf then None else async_write_all ops (drop n buf) s')"

section \<open>Calls (rpc.rs)\<close>

record 'io RpcClient =
  rpc_io :: 'io
  rpc_xid :: u32
  rpc_credential :: opaque_auth
  rpc_verifier :: opaque_auth

text \<open>The xid starts at a random number.\<close>

definition rpc_client_new :: "u32 \<Rightarrow> 'io \<Rightarrow> opaque_auth \<Rightarrow> opaque_auth \<Rightarrow> 'io RpcClient" where
  "rpc_client_new random io cr vr = \<lparr> rpc_io = io, rpc_xid = random, rpc_credential = cr, rpc_verifier = vr \<rparr>"

text \<open>The \<^verbatim>\<open>?\<close> operator on the result of an awaited operation.\<close>

definition await_ok :: "('s, 'e + 'a) prog \<Rightarrow> ('a \<Rightarrow> ('s, 'e + 'b) prog) \<Rightarrow> ('s, 'e + 'b) prog" where
  "await_ok m f = await m (\<lambda>r. case r of Err e \<Rightarrow> ret (Err e) | Ok x \<Rightarrow> f x)"

definition io_result :: "('io, client_io_error + 'a) prog \<Rightarrow> ('io, client_error + 'a) prog" where
  "io_result m = await m (\<lambda>r. ret (case r of Err e \<Rightarrow> Err (IoError e) | Ok x \<Rightarrow> Ok x))"

text \<open>The bytes of a call: the header of its only fragment, the message and the arguments.\<close>

definition call_bytes :: "rpc_msg \<Rightarrow> 'c codec \<Rightarrow> 'c \<Rightarrow> (client_error + bytes) option" where
  "call_bytes msg cc arg =
     (let total_len = packed_size rpc_msg_codec msg + packed_size cc arg in
      if total_len mod 4 \<noteq> 0 then Some (Err (Rpc WrongLength))
      else case u32_try_from total_len of
        None \<Rightarrow> None
      | Some len \<Rightarrow> (case fragment_header_new len True of
          None \<Rightarrow> None
        | Some h \<Rightarrow> (case pack fragment_header_codec h [] of
            Err e \<Rightarrow> Some (Err (XdrError e))
          | Ok (_, b0) \<Rightarrow> (case pack rpc_msg_codec msg b0 of
              Err e \<Rightarrow> Some (Err (XdrError e))
            | Ok (_, b1) \<Rightarrow> (case pack cc arg b1 of
                Err e \<Rightarrow> Some (Err (XdrError e))
              | Ok (_, buf) \<Rightarrow>
                  if length buf - 4 \<noteq> total_len then Some (Err (Rpc WrongLength)) else Some (Ok buf))))))"

definition send_call ::
  "'io async_io \<Rightarrow> rpc_msg \<Rightarrow> 'c codec \<Rightarrow> 'c \<Rightarrow> ('io, client_error + unit) prog" where
  "send_call ops msg cc arg =
     (case call_bytes msg cc arg of
        None \<Rightarrow> panic
      | Some (Err e) \<Rightarrow> ret (Err e)
      | Some (Ok buf) \<Rightarrow> io_result (async_write_all ops buf))"

text \<open>What \<^verbatim>\<open>recv_reply\<close> makes of the bytes of the fragment.\<close>

definition decode_reply :: "'r codec \<Rightarrow> u32 \<Rightarrow> bytes \<Rightarrow> client_error + 'r" where
  "decode_reply cr i buf =
     (case unpack rpc_msg_codec buf of
        Err e \<Rightarrow> Err (XdrError e)
      | Ok (resp_msg, _, cursor) \<Rightarrow>
          if rpc_msg.xid resp_msg \<noteq> i then Err (Rpc UnexpectedXid)
          else (case rpc_msg.body resp_msg of
            CALL _ \<Rightarrow> Err (Rpc UnexpectedCall)
          | REPLY (MSG_DENIED r) \<Rightarrow> Err (Rpc (RpcError_from_rejected r))
          | REPLY (MSG_ACCEPTED acc) \<Rightarrow>
              (case RpcError_try_from (accepted_reply.reply_data acc) of
                 Ok e \<Rightarrow> Err (Rpc e)
               | Err _ \<Rightarrow>
                   (case unpack cr cursor of
                      Err e \<Rightarrow> Err (XdrError e)
                    | Ok (final_value, _, left) \<Rightarrow>
                        if left \<noteq> [] then Err (Rpc (NotFullyParsed buf (length buf - length left)))
                        else Ok final_value))))"

definition recv_reply :: "'io async_io \<Rightarrow> 'r codec \<Rightarrow> u32 \<Rightarrow> ('io, client_error + 'r) prog" where
  "recv_reply ops cr i =
     await_ok (io_result (async_read_exact ops 4)) (\<lambda>hb.
       let h = fragment_header_from hb in
       if \<not> fragment_header_eof h then panic
       else await_ok (io_result (async_read_exact ops (unat (fragment_length h)))) (\<lambda>buf.
         ret (decode_reply cr i buf)))"

definition on_io :: "('io, 'a) prog \<Rightarrow> ('io RpcClient, 'a) prog" where
  "on_io m c = (case m (rpc_io c) of None \<Rightarrow> None | Some (x, io) \<Rightarrow> Some (x, c\<lparr> rpc_io := io \<rparr>))"

definition rpc_call ::
  "'io async_io \<Rightarrow> 'c codec \<Rightarrow> 'r codec \<Rightarrow> u32 \<Rightarrow> u32 \<Rightarrow> u32 \<Rightarrow> 'c \<Rightarrow> ('io RpcClient, client_error + 'r) prog" where
  "rpc_call ops cc cr prg vs prc arg c =
     (let call = \<lparr> call_body.rpcvers = RPC_VERSION_2, call_body.prog = prg, call_body.vers = vs, call_body.proc = prc,
                   call_body.cred = rpc_credential c, call_body.verf = rpc_verifier c \<rparr>;
          msg = \<lparr> rpc_msg.xid = rpc_xid c, rpc_msg.body = CALL call \<rparr>
      in await_ok (on_io (send_call ops msg cc arg)) (\<lambda>_. on_io (recv_reply ops cr (rpc_msg.xid msg)))
           (c\<lparr> rpc_xid := rpc_xid c + 1 \<rparr>))"

end
