(* ===== verification/Client_Programs.thy ===== *)
theory Client_Programs
  imports Client_Rpc
begin

text \<open>
  The clients of the three programs (\<^verbatim>\<open>nfs3_client/src/portmapper.rs\<close>, \<^verbatim>\<open>mount.rs\<close> and
  \<^verbatim>\<open>nfs.rs\<close>) and the builder of a connection (\<^verbatim>\<open>connect.rs\<close>).

  Connecting is the business of a \<^verbatim>\<open>Connector\<close>, a record of operations on the state of the
  network; whether a host name is an address is for the standard library to say.  Both are
  parameters, like the random numbers the xids start from.
\<close>

section \<open>Port mapper (portmapper.rs)\<close>

definition portmapper_call ::
  "'io async_io \<Rightarrow> 'c codec \<Rightarrow> 'r codec \<Rightarrow> PMAP_PROG \<Rightarrow> 'c \<Rightarrow> ('io RpcClient, client_error + 'r) prog" where
  "portmapper_call ops cc cr prc arg =
     rpc_call ops cc cr Portmap_Types.PROGRAM Portmap_Types.VERSION (PMAP_PROG_as_u32 prc) arg"

definition portmapper_null :: "'io async_io \<Rightarrow> ('io RpcClient, client_error + unit) prog" where
  "portmapper_null ops = await_ok (portmapper_call ops void_codec void_codec PMAPPROC_NULL ()) (\<lambda>_. ret (Ok ()))"

definition portmapper_getport :: "'io async_io \<Rightarrow> u32 \<Rightarrow> u32 \<Rightarrow> ('io RpcClient, client_error + u16) prog" where
  "portmapper_getport ops prg vs =
     await_ok (portmapper_call ops mapping_codec u32_codec PMAPPROC_GETPORT
       \<lparr> mapping.prog = prg, mapping.vers = vs, mapping.prot = IPPROTO_TCP, mapping.port = 0 \<rparr>) (\<lambda>p.
       ret (if unat p \<ge> 2 ^ 16 then Err (Portmap (InvalidPortValue p))
            else if ucast p = (0 :: u16) then Err (Portmap ProgramUnavailable)
            else Ok (ucast p)))"

definition portmapper_dump :: "'io async_io \<Rightarrow> ('io RpcClient, client_error + mapping list) prog" where
  "portmapper_dump ops = portmapper_call ops void_codec (list_codec mapping_codec) PMAPPROC_DUMP ()"

section \<open>MOUNT (mount.rs)\<close>

definition mount_call ::
  "'io async_io \<Rightarrow> 'c codec \<Rightarrow> 'r codec \<Rightarrow> MOUNT_PROGRAM \<Rightarrow> 'c \<Rightarrow> ('io RpcClient, client_error + 'r) prog" where
  "mount_call ops cc cr prc arg =
     rpc_call ops cc cr Mount_Types.PROGRAM Mount_Types.VERSION (MOUNT_PROGRAM_as_u32 prc) arg"

definition mount_null :: "'io async_io \<Rightarrow> ('io RpcClient, client_error + unit) prog" where
  "mount_null ops = await_ok (mount_call ops void_codec void_codec MOUNTPROC3_NULL ()) (\<lambda>_. ret (Ok ()))"

definition mount_mnt :: "'io async_io \<Rightarrow> dirpath \<Rightarrow> ('io RpcClient, client_error + mountres3_ok) prog" where
  "mount_mnt ops path =
     await_ok (mount_call ops dirpath_codec mountres3_codec MOUNTPROC3_MNT path) (\<lambda>r. case r of
       MntOk ok \<Rightarrow> ret (Ok ok)
     | MntErr err \<Rightarrow> ret (Err (MountError err)))"

definition mount_dump :: "'io async_io \<Rightarrow> ('io RpcClient, client_error + mountlist) prog" where
  "mount_dump ops = mount_call ops void_codec (list_codec mountbody_codec) MOUNTPROC3_DUMP ()"

definition mount_umnt :: "'io async_io \<Rightarrow> dirpath \<Rightarrow> ('io RpcClient, client_error + unit) prog" where
  "mount_umnt ops path = await_ok (mount_call ops dirpath_codec void_codec MOUNTPROC3_UMNT path) (\<lambda>_. ret (Ok ()))"

definition mount_umntall :: "'io async_io \<Rightarrow> ('io RpcClient, client_error + unit) prog" where
  "mount_umntall ops = await_ok (mount_call ops void_codec void_codec MOUNTPROC3_UMNTALL ()) (\<lambda>_. ret (Ok ()))"

definition mount_export :: "'io async_io \<Rightarrow> ('io RpcClient, client_error + exports) prog" where
  "mount_export ops = mount_call ops void_codec (list_codec export_node_codec) MOUNTPROC3_EXPORT ()"

section \<open>NFS (nfs.rs)\<close>

definition nfs_call ::
  "'io async_io \<Rightarrow> 'c codec \<Rightarrow> 'r codec \<Rightarrow> NFS_PROGRAM \<Rightarrow> 'c \<Rightarrow> ('io RpcClient, client_error + 'r) prog" where
  "nfs_call ops cc cr prc arg =
     rpc_call ops cc cr Nfs3_Types.PROGRAM Nfs3_Types.VERSION (NFS_PROGRAM_as_u32 prc) arg"

definition nfs_null :: "'io async_io \<Rightarrow> ('io RpcClient, client_error + unit) prog" where
  "nfs_null ops = await_ok (nfs_call ops void_codec void_codec NFSPROC3_NULL ()) (\<lambda>_. ret (Ok ()))"

definition nfs_getattr :: "'io async_io \<Rightarrow> GETATTR3args \<Rightarrow> ('io RpcClient, client_error + GETATTR3res) prog" where
  "nfs_getattr ops arg = nfs_call ops GETATTR3args_codec GETATTR3res_codec NFSPROC3_GETATTR arg"

definition nfs_setattr :: "'io async_io \<Rightarrow> SETATTR3args \<Rightarrow> ('io RpcClient, client_error + SETATTR3res) prog" where
  "nfs_setattr ops arg = nfs_call ops SETATTR3args_codec SETATTR3res_codec NFSPROC3_SETATTR arg"

definition nfs_lookup :: "'io async_io \<Rightarrow> LOOKUP3args \<Rightarrow> ('io RpcClient, client_error + LOOKUP3res) prog" where
  "nfs_lookup ops arg = nfs_call ops LOOKUP3args_codec LOOKUP3res_codec NFSPROC3_LOOKUP arg"

definition nfs_access :: "'io async_io \<Rightarrow> ACCESS3args \<Rightarrow> ('io RpcClient, client_error + ACCESS3res) prog" where
  "nfs_access ops arg = nfs_call ops ACCESS3args_codec ACCESS3res_codec NFSPROC3_ACCESS arg"

definition nfs_readlink :: "'io async_io \<Rightarrow> READLINK3args \<Rightarrow> ('io RpcClient, client_error + READLINK3res) prog" where
  "nfs_readlink ops arg = nfs_call ops READLINK3args_codec READLINK3res_codec NFSPROC3_READLINK arg"

definition nfs_read :: "'io async_io \<Rightarrow> READ3args \<Rightarrow> ('io RpcClient, client_error + READ3res) prog" where
  "nfs_read ops arg = nfs_call ops READ3args_codec READ3res_codec NFSPROC3_READ arg"

definition nfs_write :: "'io async_io \<Rightarrow> WRITE3args \<Rightarrow> ('io RpcClient, client_error + WRITE3res) prog" where
  "nfs_write ops arg = nfs_call ops WRITE3args_codec WRITE3res_codec NFSPROC3_WRITE arg"

definition nfs_create :: "'io async_io \<Rightarrow> CREATE3args \<Rightarrow> ('io RpcClient, client_error + CREATE3res) prog" where
  "nfs_create ops arg = nfs_call ops CREATE3args_codec CREATE3res_codec NFSPROC3_CREATE arg"

definition nfs_mkdir :: "'io async_io \<Rightarrow> MKDIR3args \<Rightarrow> ('io RpcClient, client_error + MKDIR3res) prog" where
  "nfs_mkdir ops arg = nfs_call ops MKDIR3args_codec MKDIR3res_codec NFSPROC3_MKDIR arg"

definition nfs_symlink :: "'io async_io \<Rightarrow> SYMLINK3args \<Rightarrow> ('io RpcClient, client_error + SYMLINK3res) prog" where
  "nfs_symlink ops arg = nfs_call ops SYMLINK3args_codec SYMLINK3res_codec NFSPROC3_SYMLINK arg"

definition nfs_mknod :: "'io async_io \<Rightarrow> MKNOD3args \<Rightarrow> ('io RpcClient, client_error + MKNOD3res) prog" where
  "nfs_mknod ops arg = nfs_call ops MKNOD3args_codec MKNOD3res_codec NFSPROC3_MKNOD arg"

definition nfs_remove :: "'io async_io \<Rightarrow> REMOVE3args \<Rightarrow> ('io RpcClient, client_error + REMOVE3res) prog" where
  "nfs_remove ops arg = nfs_call ops REMOVE3args_codec REMOVE3res_codec NFSPROC3_REMOVE arg"

definition nfs_rmdir :: "'io async_io \<Rightarrow> RMDIR3args \<Rightarrow> ('io RpcClient, client_error + RMDIR3res) prog" where
  "nfs_rmdir ops arg = nfs_call ops RMDIR3args_codec RMDIR3res_codec NFSPROC3_RMDIR arg"

definition nfs_rename :: "'io async_io \<Rightarrow> RENAME3args \<Rightarrow> ('io RpcClient, client_error + RENAME3res) prog" where
  "nfs_rename ops arg = nfs_call ops RENAME3args_codec RENAME3res_codec NFSPROC3_RENAME arg"

definition nfs_link :: "'io async_io \<Rightarrow> LINK3args \<Rightarrow> ('io RpcClient, client_error + LINK3res) prog" where
  "nfs_link ops arg = nfs_call ops LINK3args_codec LINK3res_codec NFSPROC3_LINK arg"

definition nfs_readdir :: "'io async_io \<Rightarrow> READDIR3args \<Rightarrow> ('io RpcClient, client_error + READDIR3res) prog" where
  "nfs_readdir ops arg = nfs_call ops READDIR3args_codec READDIR3res_codec NFSPROC3_READDIR arg"

definition nfs_readdirplus :: "'io async_io \<Rightarrow> READDIRPLUS3args \<Rightarrow> ('io RpcClient, client_error + READDIRPLUS3res) prog" where
  "nfs_readdirplus ops arg = nfs_call ops READDIRPLUS3args_codec READDIRPLUS3res_codec NFSPROC3_READDIRPLUS arg"

definition nfs_fsstat :: "'io async_io \<Rightarrow> FSSTAT3args \<Rightarrow> ('io RpcClient, client_error + FSSTAT3res) prog" where
  "nfs_fsstat ops arg = nfs_call ops FSSTAT3args_codec FSSTAT3res_codec NFSPROC3_FSSTAT arg"

definition nfs_fsinfo :: "'io async_io \<Rightarrow> FSINFO3args \<Rightarrow> ('io RpcClient, client_error + FSINFO3res) prog" where
  "nfs_fsinfo ops arg = nfs_call ops FSINFO3args_codec FSINFO3res_codec NFSPROC3_FSINFO arg"

definition nfs_pathconf :: "'io async_io \<Rightarrow> PATHCONF3args \<Rightarrow> ('io RpcClient, client_error + PATHCONF3res) prog" where
  "nfs_pathconf ops arg = nfs_call ops PATHCONF3args_codec PATHCONF3res_codec NFSPROC3_PATHCONF arg"

definition nfs_commit :: "'io async_io \<Rightarrow> COMMIT3args \<Rightarrow> ('io RpcClient, client_error + COMMIT3res) prog" where
  "nfs_commit ops arg = nfs_call ops COMMIT3args_codec COMMIT3res_codec NFSPROC3_COMMIT arg"

section \<open>Connecting (connect.rs)\<close>

type_synonym 'addr SocketAddr = "'addr \<times> u16"

record ('addr, 'io, 'w) Connector =
  parse_host :: "string \<Rightarrow> 'addr option"
  connect :: "'addr SocketAddr \<Rightarrow> 'w \<Rightarrow> (client_io_error + 'io) \<times> 'w"
  connect_with_port :: "'addr SocketAddr \<Rightarrow> u16 \<Rightarrow> 'w \<Rightarrow> (client_io_error + 'io) \<times> 'w"

text \<open>The network with the static \<^verbatim>\<open>PORT_INDEX\<close>.\<close>

record 'w net =
  net_state :: 'w
  port_index :: u16

definition MIN_PORT :: u16 where
  "MIN_PORT = 300"

definition MAX_PORT :: u16 where
  "MAX_PORT = 1023"

text \<open>The loop over the ports, for the given number of rounds.\<close>

fun privileged_port_loop ::
  "('addr, 'io, 'w) Connector \<Rightarrow> 'addr SocketAddr \<Rightarrow> nat \<Rightarrow> ('w net, client_io_error + 'io) prog" where
  "privileged_port_loop conn addr 0 s = Some (Err (OtherIoError 0), s)"
| "privileged_port_loop conn addr (Suc n) s =
     (let index = port_index s;
          local = MIN_PORT + index mod (MAX_PORT - MIN_PORT);
          (result, w) = connect_with_port conn addr local (net_state s);
          s' = s\<lparr> net_state := w, port_index := index + 1 \<rparr>
      in case result of
           Err AddrInUse \<Rightarrow> privileged_port_loop conn addr n s'
         | _ \<Rightarrow> Some (result, s'))"

definition connect_from_privileged_port ::
  "('addr, 'io, 'w) Connector \<Rightarrow> 'addr SocketAddr \<Rightarrow> ('w net, client_io_error + 'io) prog" where
  "connect_from_privileged_port conn addr =
     privileged_port_loop conn addr (unat MAX_PORT - unat MIN_PORT + 1)"

record Nfs3ConnectionBuilder =
  builder_host :: string
  builder_privileged :: bool
  portmapper_port :: u16
  builder_mount_port :: "u16 option"
  builder_nfs3_port :: "u16 option"
  builder_mount_path :: dirpath
  builder_credential :: opaque_auth
  builder_verifier :: opaque_auth

definition builder_new :: "string \<Rightarrow> bytes \<Rightarrow> Nfs3ConnectionBuilder" where
  "builder_new h path = \<lparr> builder_host = h, builder_privileged = True, portmapper_port = PMAP_PORT,
     builder_mount_port = None, builder_nfs3_port = None, builder_mount_path = path,
     builder_credential = opaque_auth_default, builder_verifier = opaque_auth_default \<rparr>"

record 'io Nfs3Connection =
  conn_host :: string
  conn_mount_port :: u16
  conn_mount_path :: dirpath
  conn_mount_client :: "'io RpcClient"
  conn_mount_resok :: mountres3_ok
  conn_nfs3_port :: u16
  conn_nfs3_client :: "'io RpcClient"

definition root_nfs_fh3 :: "'io Nfs3Connection \<Rightarrow> nfs_fh3" where
  "root_nfs_fh3 c = \<lparr> nfs_fh3.data = mountres3_ok.fhandle (conn_mount_resok c) \<rparr>"

definition unmount :: "'io async_io \<Rightarrow> 'io Nfs3Connection \<Rightarrow> (client_error + unit) option" where
  "unmount ops c = map_option fst (mount_umnt ops (conn_mount_path c) (conn_mount_client c))"

definition plain_connect :: "('addr, 'io, 'w) Connector \<Rightarrow> 'addr SocketAddr \<Rightarrow> ('w net, client_io_error + 'io) prog" where
  "plain_connect conn addr s =
     (let (r, w) = connect conn addr (net_state s) in Some (r, s\<lparr> net_state := w \<rparr>))"

definition builder_connect ::
  "('addr, 'io, 'w) Connector \<Rightarrow> Nfs3ConnectionBuilder \<Rightarrow> u16 \<Rightarrow> ('w net, client_io_error + 'io) prog" where
  "builder_connect conn b p =
     (case parse_host conn (builder_host b) of
        None \<Rightarrow> ret (Err InvalidInput)
      | Some addr \<Rightarrow>
          if builder_privileged b then connect_from_privileged_port conn (addr, p)
          else plain_connect conn (addr, p))"

text \<open>
  A client on a connection of its own: its operations leave the network alone, and its result
  comes with the client.
\<close>

definition local_client :: "('io RpcClient, 'e + 'a) prog \<Rightarrow> 'io RpcClient \<Rightarrow> ('w, 'e + 'a \<times> 'io RpcClient) prog" where
  "local_client m c s = (case m c of
     None \<Rightarrow> None
   | Some (Err e, _) \<Rightarrow> Some (Err e, s)
   | Some (Ok x, c') \<Rightarrow> Some (Ok (x, c'), s))"

definition resolve_ports ::
  "'io async_io \<Rightarrow> ('addr, 'io, 'w) Connector \<Rightarrow> u32 \<Rightarrow> Nfs3ConnectionBuilder \<Rightarrow> ('w net, client_error + u16 \<times> u16) prog" where
  "resolve_ports ops conn random b =
     (case (builder_mount_port b, builder_nfs3_port b) of
        (Some mp, Some np) \<Rightarrow> ret (Ok (mp, np))
      | _ \<Rightarrow>
          (case parse_host conn (builder_host b) of
             None \<Rightarrow> ret (Err (IoError InvalidInput))
           | Some addr \<Rightarrow>
               await_ok (io_result (plain_connect conn (addr, portmapper_port b))) (\<lambda>io.
               await_ok (case builder_mount_port b of
                   Some p \<Rightarrow> ret (Ok (p, rpc_client_new random io opaque_auth_default opaque_auth_default))
                 | None \<Rightarrow> local_client (portmapper_getport ops Mount_Types.PROGRAM Mount_Types.VERSION)
                     (rpc_client_new random io opaque_auth_default opaque_auth_default)) (\<lambda>(mp, c).
               await_ok (case builder_nfs3_port b of
                   Some p \<Rightarrow> ret (Ok (p, c))
                 | None \<Rightarrow> local_client (portmapper_getport ops Nfs3_Types.PROGRAM Nfs3_Types.VERSION) c) (\<lambda>(np, _).
               ret (Ok (mp, np)))))))"

definition builder_mount ::
  "'io async_io \<Rightarrow> ('addr, 'io, 'w) Connector \<Rightarrow> u32 \<Rightarrow> u32 \<Rightarrow> u32 \<Rightarrow> Nfs3ConnectionBuilder \<Rightarrow>
     ('w net, client_error + 'io Nfs3Connection) prog" where
  "builder_mount ops conn random1 random2 random3 b =
     await_ok (resolve_ports ops conn random1 b) (\<lambda>(mp, np).
     await_ok (io_result (builder_connect conn b mp)) (\<lambda>io.
     await_ok (local_client (mount_mnt ops (builder_mount_path b))
         (rpc_client_new random2 io (builder_credential b) (builder_verifier b))) (\<lambda>(resok, mc).
     await_ok (io_result (builder_connect conn b np)) (\<lambda>io.
     ret (Ok \<lparr> conn_host = builder_host b, conn_mount_port = mp, conn_mount_path = builder_mount_path b,
       conn_mount_client = mc, conn_mount_resok = resok, conn_nfs3_port = np,
       conn_nfs3_client = rpc_client_new random3 io (builder_credential b) (builder_verifier b) \<rparr>)))))"

end
