(* ===== verification/Threshold_Logger.thy ===== *)
theory Threshold_Logger
  imports Prelude
begin

text \<open>
  The logger of the server binary that reports the size of a growing collection
  (\<^verbatim>\<open>cargo_nfs3_server/src/threshold_logger.rs\<close>).  Sizes are \<^verbatim>\<open>usize\<close> values, kept as natural
  numbers below \<open>2 ^ 64\<close>; whether a message is written is a result of the operation.
  The text of the message is in \<open>Format_Number\<close>.
\<close>

section \<open>Ranges and the logger\<close>

type_synonym usize_range = "nat \<times> nat"

definition USIZE_MAX :: nat where
  "USIZE_MAX = 2 ^ 64 - 1"

definition BILLION :: nat where
  "BILLION = 1000000000"

definition PREDEFINED_RANGES :: "usize_range list" where
  "PREDEFINED_RANGES =
     [(0, 10000), (10000, 20000), (20000, 50000), (50000, 100000), (100000, 200000), (200000, 500000),
      (500000, 1000000), (1000000, 2000000), (2000000, 5000000), (5000000, 10000000),
      (10000000, 20000000), (20000000, 50000000), (50000000, 100000000), (100000000, 200000000),
      (200000000, 500000000), (500000000, 750000000), (750000000, 1000000000)]"

record ThresholdLogger =
  logger_name :: string
  next_threshold :: nat

definition threshold_logger_new :: "string \<Rightarrow> ThresholdLogger" where
  "threshold_logger_new nm = \<lparr> logger_name = nm, next_threshold = snd (hd PREDEFINED_RANGES) \<rparr>"

text \<open>\<^verbatim>\<open>saturating_add\<close> on \<^verbatim>\<open>usize\<close>.\<close>

definition saturating_add :: "nat \<Rightarrow> nat \<Rightarrow> nat" where
  "saturating_add a b = min (a + b) USIZE_MAX"

definition billion_bounds :: "nat \<Rightarrow> usize_range" where
  "billion_bounds sz =
     (if sz < BILLION then (0, BILLION)
      else
        (let current = (sz div BILLION) * BILLION; nxt = saturating_add current BILLION
         in (current, nxt)))"

definition in_range :: "nat \<Rightarrow> usize_range \<Rightarrow> bool" where
  "in_range sz r \<longleftrightarrow> fst r \<le> sz \<and> sz < snd r"

definition calculate_threshold :: "nat \<Rightarrow> usize_range" where
  "calculate_threshold sz =
     (case find (in_range sz) PREDEFINED_RANGES of
        Some entry \<Rightarrow> entry
      | None \<Rightarrow> billion_bounds sz)"

text \<open>
  The result says whether the message is logged.  The loggers of the program are used under the
  lock of the cache they belong to, so the \<^verbatim>\<open>compare_exchange\<close> succeeds.
\<close>

definition check_and_log :: "nat \<Rightarrow> ThresholdLogger \<Rightarrow> bool \<times> ThresholdLogger" where
  "check_and_log current_size l =
     (if current_size < next_threshold l then (False, l)
      else (True, l\<lparr> next_threshold := snd (calculate_threshold current_size) \<rparr>))"

section \<open>Thresholds\<close>

lemma billion_bounds_in_range:
  assumes "BILLION \<le> sz" "sz < USIZE_MAX"
  shows "in_range sz (billion_bounds sz)"
proof -
  have "sz < sz div BILLION * BILLION + BILLION"
    using div_mult_mod_eq [of sz BILLION] mod_less_divisor [of BILLION sz] by (simp add: BILLION_def)
  then show ?thesis
    using assms by (simp add: in_range_def billion_bounds_def saturating_add_def Let_def)
qed

lemma predefined_cover: "sz < BILLION \<Longrightarrow> find (in_range sz) PREDEFINED_RANGES \<noteq> None"
  by (simp add: PREDEFINED_RANGES_def in_range_def BILLION_def)

lemma predefined_sorted: "sorted_wrt (\<lambda>r r'. snd r \<le> fst r') PREDEFINED_RANGES"
  by (simp add: PREDEFINED_RANGES_def)

lemma predefined_below: "r \<in> set PREDEFINED_RANGES \<Longrightarrow> snd r \<le> BILLION"
  by (auto simp: PREDEFINED_RANGES_def BILLION_def)

text \<open>Of ranges in ascending order, the one that holds a number is unique.\<close>

lemma find_range:
  assumes "sorted_wrt (\<lambda>r r'. snd r \<le> fst r') rs" "r \<in> set rs" "in_range k r"
  shows "find (in_range k) rs = Some r"
  using assms by (induction rs) (auto simp: in_range_def)

lemma calculate_threshold_range:
  assumes "sz < USIZE_MAX"
  shows "in_range sz (calculate_threshold sz)"
proof (cases "find (in_range sz) PREDEFINED_RANGES")
  case None
  then have "BILLION \<le> sz" using predefined_cover [of sz] by (meson not_le)
  then show ?thesis using billion_bounds_in_range assms by (simp add: calculate_threshold_def None)
next
  case (Some r)
  moreover from this have "in_range sz r" by (auto simp: find_Some_iff)
  ultimately show ?thesis by (simp add: calculate_threshold_def)
qed

lemma calculate_threshold_same:
  assumes "in_range k (calculate_threshold sz)"
  shows "calculate_threshold k = calculate_threshold sz"
proof (cases "find (in_range sz) PREDEFINED_RANGES")
  case None
  then have sz: "BILLION \<le> sz" using predefined_cover [of sz] by (meson not_le)
  define q where "q = sz div BILLION"
  have q: "1 \<le> q" using sz by (simp add: q_def BILLION_def div_greater_zero_iff Suc_le_eq)
  have sz_eq: "calculate_threshold sz = (q * BILLION, saturating_add (q * BILLION) BILLION)"
    using sz by (simp add: calculate_threshold_def None billion_bounds_def Let_def q_def)
  then have k: "q * BILLION \<le> k" "k < q * BILLION + BILLION"
    using assms by (simp_all add: in_range_def saturating_add_def)
  then have "k div BILLION = q" by (intro div_nat_eqI) (simp_all add: algebra_simps)
  moreover have "BILLION \<le> k" using mult_le_mono1 [OF q, of BILLION] k(1) by (simp only: mult_1 order_trans)
  moreover from this have "find (in_range k) PREDEFINED_RANGES = None"
    using predefined_below by (fastforce simp: find_None_iff in_range_def)
  ultimately show ?thesis by (simp add: sz_eq) (simp add: calculate_threshold_def billion_bounds_def Let_def)
next
  case (Some r)
  then have "r \<in> set PREDEFINED_RANGES" by (auto simp: find_Some_iff)
  moreover have "calculate_threshold sz = r" by (simp add: calculate_threshold_def Some)
  ultimately show ?thesis
    using find_range [OF predefined_sorted] assms by (simp add: calculate_threshold_def)
qed

text \<open>A size is the first of its range exactly when the range of its predecessor ends there.\<close>

lemma range_starts:
  assumes "Suc k < USIZE_MAX"
  shows "snd (calculate_threshold k) \<le> Suc k \<longleftrightarrow> fst (calculate_threshold (Suc k)) = Suc k"
proof
  have k: "in_range k (calculate_threshold k)" and s: "in_range (Suc k) (calculate_threshold (Suc k))"
    using assms by (simp_all add: calculate_threshold_range)
  {
    assume le: "snd (calculate_threshold k) \<le> Suc k"
    show "fst (calculate_threshold (Suc k)) = Suc k"
    proof (rule ccontr)
      assume "fst (calculate_threshold (Suc k)) \<noteq> Suc k"
      with s have "in_range k (calculate_threshold (Suc k))" by (simp add: in_range_def)
      from calculate_threshold_same [OF this] le s show False by (simp add: in_range_def)
    qed
  next
    assume eq: "fst (calculate_threshold (Suc k)) = Suc k"
    show "snd (calculate_threshold k) \<le> Suc k"
    proof (rule ccontr)
      assume "\<not> snd (calculate_threshold k) \<le> Suc k"
      with k have "in_range (Suc k) (calculate_threshold k)" by (simp add: in_range_def)
      from calculate_threshold_same [OF this] eq k show False by (simp add: in_range_def)
    qed
  }
qed

text \<open>Which of the sizes that a collection reports are logged.\<close>

fun logged_sizes :: "nat list \<Rightarrow> ThresholdLogger \<Rightarrow> nat list" where
  "logged_sizes [] l = []"
| "logged_sizes (n # ns) l =
     (if fst (check_and_log n l) then n # logged_sizes ns (snd (check_and_log n l))
      else logged_sizes ns (snd (check_and_log n l)))"

lemma logged_sizes_starts:
  assumes "k + d < USIZE_MAX" "next_threshold l = snd (calculate_threshold k)"
  shows "logged_sizes [Suc k..<Suc (k + d)] l = filter (\<lambda>n. fst (calculate_threshold n) = n) [Suc k..<Suc (k + d)]"
  using assms
proof (induction d arbitrary: k l)
  case (Suc d)
  have split: "[Suc k..<Suc (k + Suc d)] = Suc k # [Suc (Suc k)..<Suc (Suc k + d)]" by (simp add: upt_conv_Cons)
  let ?l = "snd (check_and_log (Suc k) l)"
  have starts: "snd (calculate_threshold k) \<le> Suc k \<longleftrightarrow> fst (calculate_threshold (Suc k)) = Suc k"
    using range_starts Suc.prems(1) by simp
  have "next_threshold ?l = snd (calculate_threshold (Suc k))"
  proof (cases "snd (calculate_threshold k) \<le> Suc k")
    case False
    then have "in_range (Suc k) (calculate_threshold k)"
      using calculate_threshold_range [of k] Suc.prems(1) by (simp add: in_range_def)
    from calculate_threshold_same [OF this] False show ?thesis by (simp add: check_and_log_def Suc.prems(2))
  qed (simp add: check_and_log_def Suc.prems(2))
  from Suc.IH [OF _ this] Suc.prems(1) starts show ?case
    unfolding split by (auto simp: check_and_log_def Suc.prems(2) simp del: upt_Suc)
qed simp

text \<open>
  A collection that grows element by element is reported exactly when it reaches the first
  size of a range: once at 10000, 20000, 50000 and so on, and at every billion.
\<close>

theorem thresholds_logged_once:
  assumes "n \<le> USIZE_MAX"
  shows "logged_sizes [1..<n] (threshold_logger_new nm) = filter (\<lambda>k. fst (calculate_threshold k) = k) [1..<n]"
proof (cases "n \<le> 1")
  case False
  then have "[1..<n] = [Suc 0..<Suc (0 + (n - 1))]" by simp
  moreover have "next_threshold (threshold_logger_new nm) = snd (calculate_threshold 0)"
    by (simp add: threshold_logger_new_def calculate_threshold_def PREDEFINED_RANGES_def in_range_def)
  ultimately show ?thesis using logged_sizes_starts [of 0 "n - 1"] assms False by (simp add: USIZE_MAX_def)
qed simp

theorem thresholds_logged_once_witness:
  "20000 \<in> set (logged_sizes [1..<20001] (threshold_logger_new ''symbols_table''))"
proof -
  have "fst (calculate_threshold 20000) = 20000"
    by (simp add: calculate_threshold_def PREDEFINED_RANGES_def in_range_def)
  then show ?thesis
    using thresholds_logged_once [of 20001 "''symbols_table''"] by (simp add: USIZE_MAX_def del: upt_Suc upt.simps)
qed

end
