(* ===== verification/Symbols_Cache.thy ===== *)
theory Symbols_Cache
  imports Vfs Threshold_Logger "HOL-Library.AList"
begin

text \<open>
  The cache of the mirror file system that gives every path a handle
  (\<^verbatim>\<open>cargo_nfs3_server/src/mirror/symbols_cache\<close>).  Names are interned in a table of the crate
  \<^verbatim>\<open>intaglio\<close>, a path is the list of the symbols of its components.

  The table is a parameter, a record of operations; the locale \<open>interner\<close> states what its
  documentation promises.  The operating system is a parameter too: the cache only asks it
  whether a path exists.  Paths are the bytes of a Unix \<^verbatim>\<open>OsStr\<close>.
\<close>

section \<open>Paths of the operating system\<close>

text \<open>\<^verbatim>\<open>PathBuf::push\<close>: an absolute path replaces the old one.\<close>

definition path_push :: "bytes \<Rightarrow> bytes \<Rightarrow> bytes" where
  "path_push buf p =
     (if p \<noteq> [] \<and> hd p = 47 then p
      else if buf \<noteq> [] \<and> last buf \<noteq> 47 then buf @ 47 # p
      else buf @ p)"

section \<open>Symbols (path.rs, table.rs)\<close>

type_synonym Symbol = u32

record 't symbol_table =
  table_new :: 't
  table_intern :: "bytes \<Rightarrow> 't \<Rightarrow> (Symbol \<times> 't) option"
  table_get :: "Symbol \<Rightarrow> 't \<Rightarrow> bytes option"
  table_len :: "'t \<Rightarrow> nat"

type_synonym SymbolsPath = "Symbol list"

definition symbols_path_join :: "SymbolsPath \<Rightarrow> Symbol \<Rightarrow> SymbolsPath" where
  "symbols_path_join p s = p @ [s]"

text \<open>A full table makes \<^verbatim>\<open>insert_or_resolve\<close> panic.\<close>

definition insert_or_resolve :: "'t symbol_table \<Rightarrow> bytes \<Rightarrow> 't \<Rightarrow> (Symbol \<times> 't) option" where
  "insert_or_resolve tbl nm t = table_intern tbl nm t"

text \<open>The loop of \<^verbatim>\<open>resolve_path\<close> from a path that has been built; an unknown symbol is a panic.\<close>

fun resolve_symbols :: "'t symbol_table \<Rightarrow> 't \<Rightarrow> bytes \<Rightarrow> SymbolsPath \<Rightarrow> bytes option" where
  "resolve_symbols tbl t buf [] = Some buf"
| "resolve_symbols tbl t buf (s # ss) =
     (case table_get tbl s t of
        None \<Rightarrow> None
      | Some node \<Rightarrow> resolve_symbols tbl t (path_push buf node) ss)"

definition resolve_path :: "'t symbol_table \<Rightarrow> 't \<Rightarrow> SymbolsPath \<Rightarrow> bytes option" where
  "resolve_path tbl t p = resolve_symbols tbl t [] p"

section \<open>The cache (mod.rs)\<close>

text \<open>
  The two maps are association lists, so that their number of entries is their length.
\<close>

record 't SymbolsCacheInner =
  symbols :: 't
  path_to_id :: "(SymbolsPath \<times> FileHandleU64) list"
  id_to_path :: "(FileHandleU64 \<times> SymbolsPath) list"
  next_id :: u64
  symbols_logger :: ThresholdLogger
  path_to_id_logger :: ThresholdLogger

definition ROOT_ID :: FileHandleU64 where
  "ROOT_ID = 1"

definition symbols_cache_new :: "'t symbol_table \<Rightarrow> 't SymbolsCacheInner" where
  "symbols_cache_new tbl =
     \<lparr> symbols = table_new tbl, path_to_id = [([], ROOT_ID)], id_to_path = [(ROOT_ID, [])],
       next_id = ROOT_ID + 1, symbols_logger = threshold_logger_new ''symbols_table'',
       path_to_id_logger = threshold_logger_new ''path_to_id_map'' \<rparr>"

text \<open>
  The state of the world outside, and the cache.  \<^verbatim>\<open>Path::exists\<close> is an operation on the world,
  which others change too.
\<close>

record ('w, 't) symbols_state =
  world :: 'w
  inner :: "'t SymbolsCacheInner"

type_synonym 'w path_exists = "bytes \<Rightarrow> 'w \<Rightarrow> bool \<times> 'w"

definition ask_exists :: "'w path_exists \<Rightarrow> bytes \<Rightarrow> (('w, 't, 'z) symbols_state_scheme, bool) prog" where
  "ask_exists ex p s = (let (b, w) = ex p (world s) in Some (b, s\<lparr> world := w \<rparr>))"

text \<open>The check that parent and object exist, before a new entry is made.\<close>

definition check_paths ::
  "'t symbol_table \<Rightarrow> 'w path_exists \<Rightarrow> bytes \<Rightarrow> SymbolsPath \<Rightarrow> bytes \<Rightarrow>
     (('w, 't, 'z) symbols_state_scheme, nfsstat3 + unit) prog" where
  "check_paths tbl ex root parent nm s =
     (case resolve_path tbl (symbols (inner s)) parent of
        None \<Rightarrow> None
      | Some test_path_parent \<Rightarrow>
          (let test_path = path_push root test_path_parent in
           await (ask_exists ex test_path) (\<lambda>there.
             if \<not> there then ret (Err NFS3ERR_BADHANDLE)
             else await (ask_exists ex (path_push test_path nm)) (\<lambda>there.
               if \<not> there then ret (Err NFS3ERR_NOENT) else ret (Ok ()))) s))"

definition insert_entry :: "SymbolsPath \<Rightarrow> Symbol \<Rightarrow> 't SymbolsCacheInner \<Rightarrow> FileHandleU64 \<times> 't SymbolsCacheInner" where
  "insert_entry parent symbol c =
     (let i = next_id c;
          c = c\<lparr> next_id := i + 1,
                 path_to_id := (symbols_path_join parent symbol, i) # path_to_id c,
                 id_to_path := AList.update i (symbols_path_join parent symbol) (id_to_path c) \<rparr>
      in (i, c\<lparr> path_to_id_logger := snd (check_and_log (length (path_to_id c)) (path_to_id_logger c)) \<rparr>))"

definition inner_lookup ::
  "'t symbol_table \<Rightarrow> 'w path_exists \<Rightarrow> bytes \<Rightarrow> SymbolsPath \<Rightarrow> bytes \<Rightarrow> bool \<Rightarrow>
     (('w, 't, 'z) symbols_state_scheme, nfsstat3 + FileHandleU64) prog" where
  "inner_lookup tbl ex root parent nm check_path s =
     (case insert_or_resolve tbl nm (symbols (inner s)) of
        None \<Rightarrow> None
      | Some (symbol, t) \<Rightarrow>
          (let c = (inner s)\<lparr> symbols := t,
                 symbols_logger := snd (check_and_log (table_len tbl t) (symbols_logger (inner s))) \<rparr>;
               s = s\<lparr> inner := c \<rparr>
           in case map_of (path_to_id c) (symbols_path_join parent symbol) of
                Some i \<Rightarrow> Some (Ok i, s)
              | None \<Rightarrow>
                  await (if check_path then check_paths tbl ex root parent nm else ret (Ok ())) (\<lambda>r s. case r of
                    Err stat \<Rightarrow> Some (Err stat, s)
                  | Ok _ \<Rightarrow>
                      (let (i, c) = insert_entry parent symbol (inner s) in Some (Ok i, s\<lparr> inner := c \<rparr>))) s))"

definition symbols_path :: "FileHandleU64 \<Rightarrow> 't SymbolsCacheInner \<Rightarrow> nfsstat3 + SymbolsPath" where
  "symbols_path i c = ok_or NFS3ERR_BADHANDLE (map_of (id_to_path c) i)"

definition handle_to_path :: "'t symbol_table \<Rightarrow> FileHandleU64 \<Rightarrow> 't SymbolsCacheInner \<Rightarrow> (nfsstat3 + bytes) option" where
  "handle_to_path tbl i c =
     (case ok_or NFS3ERR_BADHANDLE (map_of (id_to_path c) i) of
        Err stat \<Rightarrow> Some (Err stat)
      | Ok p \<Rightarrow> (case resolve_path tbl (symbols c) p of None \<Rightarrow> None | Some b \<Rightarrow> Some (Ok b)))"

definition lookup_by_id ::
  "'t symbol_table \<Rightarrow> 'w path_exists \<Rightarrow> bytes \<Rightarrow> FileHandleU64 \<Rightarrow> bytes \<Rightarrow> bool \<Rightarrow>
     (('w, 't, 'z) symbols_state_scheme, nfsstat3 + FileHandleU64) prog" where
  "lookup_by_id tbl ex root parent_id nm check_path s =
     (case symbols_path parent_id (inner s) of
        Err stat \<Rightarrow> Some (Err stat, s)
      | Ok parent \<Rightarrow> inner_lookup tbl ex root parent nm check_path s)"


section \<open>What the table of symbols promises\<close>

text \<open>
  The documentation of \<^verbatim>\<open>intaglio\<close>: \<^verbatim>\<open>intern\<close> gives a symbol that resolves to the name, equal names
  have the same symbol, and symbols stay valid.
\<close>

locale interner =
  fixes tbl :: "'t symbol_table" and table_ok :: "'t \<Rightarrow> bool"
  assumes new_ok: "table_ok (table_new tbl)"
    and intern_ok: "table_ok t \<Longrightarrow> table_intern tbl nm t = Some (y, t') \<Longrightarrow> table_ok t'"
    and intern_get: "table_ok t \<Longrightarrow> table_intern tbl nm t = Some (y, t') \<Longrightarrow> table_get tbl y t' = Some nm"
    and intern_keeps: "table_ok t \<Longrightarrow> table_intern tbl nm t = Some (y, t') \<Longrightarrow>
      table_get tbl y' t = Some nm' \<Longrightarrow> table_get tbl y' t' = Some nm'"
    and get_inject: "table_ok t \<Longrightarrow> table_get tbl y t = Some nm \<Longrightarrow> table_get tbl y' t = Some nm \<Longrightarrow> y = y'"

text \<open>A table that lists the names.\<close>

definition list_table :: "bytes list symbol_table" where
  "list_table = \<lparr> table_new = [],
     table_intern = (\<lambda>nm t. case find (\<lambda>i. t ! i = nm) [0..<length t] of
       Some i \<Rightarrow> Some (of_nat i, t)
     | None \<Rightarrow> if length t < 2 ^ 32 then Some (of_nat (length t), t @ [nm]) else None),
     table_get = (\<lambda>y t. if unat y < length t then Some (t ! unat y) else None),
     table_len = length \<rparr>"

definition list_table_ok :: "bytes list \<Rightarrow> bool" where
  "list_table_ok t \<longleftrightarrow> distinct t \<and> length t \<le> 2 ^ 32"

lemma unat_symbol: "i < 2 ^ 32 \<Longrightarrow> unat (of_nat i :: Symbol) = i"
  by (simp add: unat_of_nat)

lemma list_table_intern:
  assumes "list_table_ok t" "table_intern list_table nm t = Some (y, t')"
  shows "t' = t \<and> unat y < length t \<and> t ! unat y = nm \<or>
    nm \<notin> set t \<and> t' = t @ [nm] \<and> unat y = length t \<and> length t < 2 ^ 32"
proof (cases "find (\<lambda>i. t ! i = nm) [0..<length t]")
  case None
  then have "nm \<notin> set t" by (auto simp: find_None_iff in_set_conv_nth)
  then show ?thesis using assms None by (auto simp: list_table_def unat_symbol split: if_splits)
next
  case (Some i)
  moreover from this have "i < length t" "t ! i = nm" by (auto simp: find_Some_iff)
  ultimately show ?thesis using assms by (auto simp: list_table_def list_table_ok_def unat_symbol)
qed

interpretation list_table: interner list_table list_table_ok
proof unfold_locales
  show "list_table_ok (table_new list_table)" by (simp add: list_table_def list_table_ok_def)
next
  fix t nm y t'
  assume t: "list_table_ok t" "table_intern list_table nm t = Some (y, t')"
  note step = list_table_intern [OF t]
  from step t(1) show "list_table_ok t'" by (auto simp: list_table_ok_def)
  from step show "table_get list_table y t' = Some nm" by (auto simp: list_table_def)
  fix y' nm' assume "table_get list_table y' t = Some nm'"
  with step show "table_get list_table y' t' = Some nm'"
    by (auto simp: list_table_def nth_append split: if_splits)
next
  fix t y nm y' assume "list_table_ok t" "table_get list_table y t = Some nm" "table_get list_table y' t = Some nm"
  then have "unat y = unat y'"
    by (auto simp: list_table_def list_table_ok_def nth_eq_iff_index_eq split: if_splits)
  then show "y = y'" by (simp add: word_unat_eq_iff)
qed

section \<open>The invariant\<close>

text \<open>
  Handles and paths correspond one to one, every symbol of a path is known, and the handles
  handed out so far are below the next one.
\<close>

definition cache_ok :: "'t symbol_table \<Rightarrow> ('t \<Rightarrow> bool) \<Rightarrow> 't SymbolsCacheInner \<Rightarrow> bool" where
  "cache_ok tbl table_ok c \<longleftrightarrow> table_ok (symbols c) \<and>
     (\<forall>i p. map_of (id_to_path c) i = Some p \<longleftrightarrow> map_of (path_to_id c) p = Some i) \<and>
     (\<forall>i p. map_of (id_to_path c) i = Some p \<longrightarrow> (\<forall>y \<in> set p. table_get tbl y (symbols c) \<noteq> None)) \<and>
     unat (next_id c) = Suc (length (path_to_id c)) \<and>
     (\<forall>i p. map_of (id_to_path c) i = Some p \<longrightarrow> i < next_id c) \<and>
     map_of (id_to_path c) ROOT_ID = Some []"

text \<open>The names of the components that a handle stands for.\<close>

definition handle_names :: "'t symbol_table \<Rightarrow> 't SymbolsCacheInner \<Rightarrow> FileHandleU64 \<Rightarrow> bytes list option" where
  "handle_names tbl c i =
     (case map_of (id_to_path c) i of
        None \<Rightarrow> None
      | Some p \<Rightarrow> Some (map (\<lambda>y. the (table_get tbl y (symbols c))) p))"

lemma resolve_symbols_eq:
  "(\<forall>y \<in> set p. table_get tbl y t \<noteq> None) \<Longrightarrow>
   resolve_symbols tbl t buf p = Some (foldl path_push buf (map (\<lambda>y. the (table_get tbl y t)) p))"
  by (induction p arbitrary: buf) auto

lemma cache_okD:
  assumes "cache_ok tbl table_ok c"
  shows "table_ok (symbols c)"
    and "map_of (id_to_path c) i = Some p \<longleftrightarrow> map_of (path_to_id c) p = Some i"
    and "map_of (id_to_path c) i = Some p \<Longrightarrow> y \<in> set p \<Longrightarrow> table_get tbl y (symbols c) \<noteq> None"
    and "unat (next_id c) = Suc (length (path_to_id c))"
    and "map_of (id_to_path c) i = Some p \<Longrightarrow> i < next_id c"
    and "map_of (id_to_path c) ROOT_ID = Some []"
  using assms unfolding cache_ok_def by blast+

lemma cache_new_ok: "table_ok (table_new tbl) \<Longrightarrow> cache_ok tbl table_ok (symbols_cache_new tbl)"
  by (auto simp: cache_ok_def symbols_cache_new_def ROOT_ID_def)

lemma handle_to_path_names:
  assumes "cache_ok tbl table_ok c"
  shows "handle_to_path tbl i c =
    (case handle_names tbl c i of None \<Rightarrow> Some (Err NFS3ERR_BADHANDLE) | Some ns \<Rightarrow> Some (Ok (foldl path_push [] ns)))"
proof (cases "map_of (id_to_path c) i")
  case (Some p)
  then have "resolve_symbols tbl (symbols c) [] p =
      Some (foldl path_push [] (map (\<lambda>y. the (table_get tbl y (symbols c))) p))"
    using cache_okD(3) [OF assms] by (intro resolve_symbols_eq) blast
  with Some show ?thesis by (simp add: handle_to_path_def handle_names_def resolve_path_def ok_or_def)
qed (simp add: handle_to_path_def handle_names_def ok_or_def)

lemma handle_names_Some:
  "handle_names tbl c i = Some ns \<longleftrightarrow>
   (\<exists>p. map_of (id_to_path c) i = Some p \<and> ns = map (\<lambda>y. the (table_get tbl y (symbols c))) p)"
  by (auto simp: handle_names_def split: option.splits)

section \<open>Lookups\<close>

text \<open>A cache that knows everything another one knows.\<close>

definition cache_extends :: "'t symbol_table \<Rightarrow> 't SymbolsCacheInner \<Rightarrow> 't SymbolsCacheInner \<Rightarrow> bool" where
  "cache_extends tbl c c' \<longleftrightarrow> (\<forall>i p. map_of (id_to_path c) i = Some p \<longrightarrow> map_of (id_to_path c') i = Some p) \<and>
     (\<forall>y nm. table_get tbl y (symbols c) = Some nm \<longrightarrow> table_get tbl y (symbols c') = Some nm)"

lemma cache_extends_refl [simp]: "cache_extends tbl c c"
  by (simp add: cache_extends_def)

lemma cache_extends_trans: "cache_extends tbl c c' \<Longrightarrow> cache_extends tbl c' c'' \<Longrightarrow> cache_extends tbl c c''"
  by (simp add: cache_extends_def)

lemma cache_extends_names:
  assumes "cache_extends tbl c c'" "cache_ok tbl table_ok c" "handle_names tbl c i = Some ns"
  shows "handle_names tbl c' i = Some ns"
proof -
  from assms(3) obtain p where p: "map_of (id_to_path c) i = Some p" "ns = map (\<lambda>y. the (table_get tbl y (symbols c))) p"
    by (auto simp: handle_names_Some)
  have "the (table_get tbl y (symbols c)) = the (table_get tbl y (symbols c'))" if "y \<in> set p" for y
    using cache_okD(3) [OF assms(2) p(1) that] assms(1) by (auto simp: cache_extends_def)
  then have "ns = map (\<lambda>y. the (table_get tbl y (symbols c'))) p" using p(2) by simp
  moreover have "map_of (id_to_path c') i = Some p" using assms(1) p(1) by (simp add: cache_extends_def)
  ultimately show ?thesis by (simp add: handle_names_Some)
qed

text \<open>There are handles left; they are numbers of 64 bits.\<close>

definition cache_room :: "'t SymbolsCacheInner \<Rightarrow> bool" where
  "cache_room c \<longleftrightarrow> length (path_to_id c) + 2 < 2 ^ 64"

lemma insert_entry_ok:
  assumes ok: "cache_ok tbl table_ok c" and room: "cache_room c"
    and parent: "map_of (id_to_path c) pid = Some parent" and y: "table_get tbl y (symbols c) = Some nm"
    and new: "map_of (path_to_id c) (parent @ [y]) = None" and ins: "insert_entry parent y c = (i, c')"
  shows "cache_ok tbl table_ok c'" "cache_extends tbl c c'" "map_of (id_to_path c') i = Some (parent @ [y])"
    "symbols c' = symbols c"
proof -
  note c = cache_okD [OF ok]
  have fresh: "map_of (id_to_path c) (next_id c) = None"
    using c(5) [of "next_id c"] by (cases "map_of (id_to_path c) (next_id c)") auto
  have i: "i = next_id c" and sym: "symbols c' = symbols c" and nxt: "next_id c' = next_id c + 1"
    and p2i: "path_to_id c' = (parent @ [y], next_id c) # path_to_id c"
    and i2p: "map_of (id_to_path c') = (map_of (id_to_path c))(next_id c \<mapsto> parent @ [y])"
    using ins by (auto simp: insert_entry_def Let_def symbols_path_join_def update_conv')
  have n: "unat (next_id c + 1) = Suc (unat (next_id c))"
    using room c(4) by (simp add: unat_word_ariths cache_room_def)
  then have below: "next_id c < next_id c + 1" "\<And>j. j < next_id c \<Longrightarrow> j < next_id c + 1"
    by (simp_all add: word_less_nat_alt)
  have "map_of (id_to_path c') j = Some p \<longleftrightarrow> map_of (path_to_id c') p = Some j" for j p
    using c(2) [of j p] c(2) [of "next_id c" p] fresh new by (auto simp: i2p p2i)
  moreover have "table_get tbl z (symbols c) \<noteq> None" if "map_of (id_to_path c') j = Some p" "z \<in> set p" for j p z
    using that c(3) [of j p] c(3) [OF parent] y by (auto simp: i2p split: if_splits)
  moreover have "j < next_id c + 1" if "map_of (id_to_path c') j = Some p" for j p
    using that below c(5) [of j p] by (auto simp: i2p split: if_splits)
  moreover have "map_of (id_to_path c') ROOT_ID = Some []"
    using c(6) fresh by (auto simp: i2p)
  ultimately show "cache_ok tbl table_ok c'"
    using c(1,4) n by (simp add: cache_ok_def sym nxt p2i)
  show "cache_extends tbl c c'" using fresh by (auto simp: cache_extends_def i2p sym)
  show "map_of (id_to_path c') i = Some (parent @ [y])" "symbols c' = symbols c" by (simp_all add: i2p i sym)
qed

lemma check_paths_inner: "check_paths tbl ex root parent nm s = Some (r, s') \<Longrightarrow> inner s' = inner s"
  by (auto simp: check_paths_def ask_exists_def await_def ret_def Let_def split: option.splits prod.splits if_splits)

context interner
begin

lemma intern_extends:
  assumes ok: "cache_ok tbl table_ok c" and t: "table_intern tbl nm (symbols c) = Some (y, t)"
  shows "cache_ok tbl table_ok (c\<lparr> symbols := t, symbols_logger := l \<rparr>)"
    "cache_extends tbl c (c\<lparr> symbols := t, symbols_logger := l \<rparr>)"
proof -
  note c = cache_okD [OF ok]
  have keeps: "table_get tbl z (symbols c) = Some n \<Longrightarrow> table_get tbl z t = Some n" for z n
    using intern_keeps [OF c(1) t] .
  have "table_get tbl z t \<noteq> None" if "map_of (id_to_path c) i = Some p" "z \<in> set p" for i p z
    using c(3) [OF that] keeps by blast
  then show "cache_ok tbl table_ok (c\<lparr> symbols := t, symbols_logger := l \<rparr>)"
    using ok intern_ok [OF c(1) t] unfolding cache_ok_def by simp
  show "cache_extends tbl c (c\<lparr> symbols := t, symbols_logger := l \<rparr>)"
    using keeps by (simp add: cache_extends_def)
qed

lemma inner_lookup_ok:
  assumes ok: "cache_ok tbl table_ok (inner s)" and room: "cache_room (inner s)"
    and parent: "map_of (id_to_path (inner s)) pid = Some parent"
    and run: "inner_lookup tbl ex root parent nm chk s = Some (r, s')"
  shows "cache_ok tbl table_ok (inner s')" and "cache_extends tbl (inner s) (inner s')"
    and "r = Ok i \<Longrightarrow> \<exists>y. map_of (id_to_path (inner s')) i = Some (parent @ [y]) \<and> table_get tbl y (symbols (inner s')) = Some nm"
    and "r = Err e \<Longrightarrow> path_to_id (inner s') = path_to_id (inner s) \<and> id_to_path (inner s') = id_to_path (inner s) \<and>
      (\<exists>y. map_of (path_to_id (inner s')) (parent @ [y]) = None \<and> table_get tbl y (symbols (inner s')) = Some nm)"
proof -
  from run obtain y t where t: "table_intern tbl nm (symbols (inner s)) = Some (y, t)"
    by (auto simp: inner_lookup_def insert_or_resolve_def split: option.splits)
  define c where "c = (inner s)\<lparr> symbols := t,
    symbols_logger := snd (check_and_log (table_len tbl t) (symbols_logger (inner s))) \<rparr>"
  have c: "cache_ok tbl table_ok c" "cache_extends tbl (inner s) c"
    unfolding c_def by (rule intern_extends [OF ok t])+
  have y: "table_get tbl y (symbols c) = Some nm"
    using intern_get [OF cache_okD(1) [OF ok] t] by (simp add: c_def)
  have same: "path_to_id c = path_to_id (inner s)" "id_to_path c = id_to_path (inner s)" by (simp_all add: c_def)
  let ?r = "await (if chk then check_paths tbl ex root parent nm else ret (Ok ())) (\<lambda>r s. case r of
      Err stat \<Rightarrow> Some (Err stat, s)
    | Ok _ \<Rightarrow> (let (i, c) = insert_entry parent y (inner s) in Some (Ok i, s\<lparr> inner := c \<rparr>))) (s\<lparr> inner := c \<rparr>)"
  have run': "(case map_of (path_to_id c) (parent @ [y]) of Some i \<Rightarrow> Some (Ok i, s\<lparr> inner := c \<rparr>) | None \<Rightarrow> ?r) = Some (r, s')"
    using run unfolding c_def by (simp add: inner_lookup_def insert_or_resolve_def t symbols_path_join_def Let_def)
  have "cache_ok tbl table_ok (inner s') \<and> cache_extends tbl (inner s) (inner s') \<and>
    (\<forall>i. r = Ok i \<longrightarrow> (\<exists>y. map_of (id_to_path (inner s')) i = Some (parent @ [y]) \<and> table_get tbl y (symbols (inner s')) = Some nm)) \<and>
    (\<forall>e. r = Err e \<longrightarrow> path_to_id (inner s') = path_to_id (inner s) \<and> id_to_path (inner s') = id_to_path (inner s) \<and>
      (\<exists>y. map_of (path_to_id (inner s')) (parent @ [y]) = None \<and> table_get tbl y (symbols (inner s')) = Some nm))"
  proof (cases "map_of (path_to_id c) (parent @ [y])")
    case (Some i)
    then have "r = Ok i" "inner s' = c" using run' by auto
    moreover have "map_of (id_to_path c) i = Some (parent @ [y])" using Some cache_okD(2) [OF c(1)] by simp
    ultimately show ?thesis using c y by auto
  next
    case None
    with run' obtain q s1 where
      "(if chk then check_paths tbl ex root parent nm else ret (Ok ())) (s\<lparr> inner := c \<rparr>) = Some (q, s1)"
      and rest: "(case q of Err stat \<Rightarrow> Some (Err stat, s1)
        | Ok _ \<Rightarrow> (let (i, c) = insert_entry parent y (inner s1) in Some (Ok i, s1\<lparr> inner := c \<rparr>))) = Some (r, s')"
      by (auto simp: await_eq_Some)
    then have s1: "inner s1 = c" using check_paths_inner by (fastforce split: if_splits)
    show ?thesis
    proof (cases q)
      case (Inl stat)
      then have "r = Err stat" "s' = s1" using rest by auto
      then show ?thesis using c s1 same None y by auto
    next
      case (Inr u)
      obtain i c' where ins: "insert_entry parent y c = (i, c')" by (cases "insert_entry parent y c")
      then have r: "r = Ok i" "inner s' = c'" using rest Inr s1 by auto
      have "cache_room c" using room by (simp add: cache_room_def same)
      from insert_entry_ok [OF c(1) this _ y None ins] parent
      have "cache_ok tbl table_ok c'" "cache_extends tbl c c'" "map_of (id_to_path c') i = Some (parent @ [y])"
        "symbols c' = symbols c" by (simp_all add: same)
      then show ?thesis using r y cache_extends_trans [OF c(2)] by auto
    qed
  qed
  then show "cache_ok tbl table_ok (inner s')" "cache_extends tbl (inner s) (inner s')"
    "r = Ok i \<Longrightarrow> \<exists>y. map_of (id_to_path (inner s')) i = Some (parent @ [y]) \<and> table_get tbl y (symbols (inner s')) = Some nm"
    "r = Err e \<Longrightarrow> path_to_id (inner s') = path_to_id (inner s) \<and> id_to_path (inner s') = id_to_path (inner s) \<and>
      (\<exists>y. map_of (path_to_id (inner s')) (parent @ [y]) = None \<and> table_get tbl y (symbols (inner s')) = Some nm)"
    by blast+
qed

lemma names_inj:
  assumes "table_ok t" "\<And>y. y \<in> A \<Longrightarrow> table_get tbl y t \<noteq> None"
  shows "inj_on (\<lambda>y. the (table_get tbl y t)) A"
  by (rule inj_onI) (metis assms get_inject option.collapse)

lemma handle_names_inject:
  assumes ok: "cache_ok tbl table_ok c" and i: "handle_names tbl c i = Some ns" and j: "handle_names tbl c j = Some ns"
  shows "i = j"
proof -
  let ?nm = "\<lambda>y. the (table_get tbl y (symbols c))"
  from i j obtain p q where p: "map_of (id_to_path c) i = Some p" and q: "map_of (id_to_path c) j = Some q"
    and eq: "map ?nm p = map ?nm q" by (auto simp: handle_names_Some)
  have "inj_on ?nm (set p \<union> set q)"
    using cache_okD(3) [OF ok p] cache_okD(3) [OF ok q] by (intro names_inj cache_okD(1) [OF ok]) blast
  from map_inj_on [OF eq this] have "p = q" .
  then show ?thesis using p q cache_okD(2) [OF ok] by simp
qed

lemma lookup_by_id_ok:
  assumes ok: "cache_ok tbl table_ok (inner s)" and room: "cache_room (inner s)"
    and run: "lookup_by_id tbl ex root pid nm chk s = Some (r, s')"
  shows "cache_ok tbl table_ok (inner s') \<and> cache_extends tbl (inner s) (inner s')"
  using inner_lookup_ok(1,2) [OF ok room] run ok
  by (fastforce simp: lookup_by_id_def symbols_path_def ok_or_def split: option.splits)

lemma lookup_by_id_names:
  assumes ok: "cache_ok tbl table_ok (inner s)" and room: "cache_room (inner s)"
    and run: "lookup_by_id tbl ex root pid nm chk s = Some (r, s')" and ns: "handle_names tbl (inner s) pid = Some ns"
  shows "case r of
      Ok i \<Rightarrow> handle_names tbl (inner s') i = Some (ns @ [nm])
    | Err e \<Rightarrow> path_to_id (inner s') = path_to_id (inner s) \<and> id_to_path (inner s') = id_to_path (inner s) \<and>
        (\<forall>j. handle_names tbl (inner s') j \<noteq> Some (ns @ [nm]))"
proof -
  from ns obtain parent where parent: "map_of (id_to_path (inner s)) pid = Some parent" by (auto simp: handle_names_Some)
  with run have "inner_lookup tbl ex root parent nm chk s = Some (r, s')"
    by (simp add: lookup_by_id_def symbols_path_def ok_or_def)
  note looked = inner_lookup_ok [OF ok room parent this]
  have ok': "cache_ok tbl table_ok (inner s')" and ext: "cache_extends tbl (inner s) (inner s')" by (rule looked)+
  let ?nm = "\<lambda>y. the (table_get tbl y (symbols (inner s')))"
  have parent': "map_of (id_to_path (inner s')) pid = Some parent" using ext parent by (simp add: cache_extends_def)
  have ns': "ns = map ?nm parent"
    using cache_extends_names [OF ext ok ns] parent' by (auto simp: handle_names_Some)
  show ?thesis
  proof (cases r)
    case (Inr i)
    then show ?thesis using looked(3) [of i] ns' by (auto simp: handle_names_Some)
  next
    case (Inl e)
    with looked(4) obtain y where y: "map_of (path_to_id (inner s')) (parent @ [y]) = None"
      "table_get tbl y (symbols (inner s')) = Some nm" by blast
    have "handle_names tbl (inner s') j \<noteq> Some (ns @ [nm])" for j
    proof
      assume "handle_names tbl (inner s') j = Some (ns @ [nm])"
      then obtain p where p: "map_of (id_to_path (inner s')) j = Some p" and eq: "map ?nm p = map ?nm (parent @ [y])"
        using ns' y(2) by (auto simp: handle_names_Some)
      have "inj_on ?nm (set p \<union> set (parent @ [y]))"
        using cache_okD(3) [OF ok' p] cache_okD(3) [OF ok' parent'] y(2) by (intro names_inj cache_okD(1) [OF ok']) auto
      from map_inj_on [OF eq this] p y(1) show False using cache_okD(2) [OF ok'] by simp
    qed
    then show ?thesis using looked(4) Inl by simp
  qed
qed

end

section \<open>The cache as a map from handles to paths\<close>

text \<open>
  C28: the cache gives handles to paths, seen as lists of names.  A lookup under a known handle
  returns the handle of the parent's path with the name behind it, the same one as before if
  there was one, and this is the path the operating system gets to see; a lookup that fails
  leaves all handles as they are.  No handle ever changes its meaning, and no two stand for the
  same path.
\<close>

theorem symbols_cache_spec:
  assumes "interner tbl table_ok" "cache_ok tbl table_ok (inner s)" "cache_room (inner s)"
    and "lookup_by_id tbl ex root pid nm chk s = Some (r, s')"
  shows "cache_ok tbl table_ok (inner s') \<and>
    (\<forall>i ns. handle_names tbl (inner s) i = Some ns \<longrightarrow> handle_names tbl (inner s') i = Some ns) \<and>
    (\<forall>i j ns. handle_names tbl (inner s') i = Some ns \<and> handle_names tbl (inner s') j = Some ns \<longrightarrow> i = j) \<and>
    (case handle_names tbl (inner s) pid of
       None \<Rightarrow> r = Err NFS3ERR_BADHANDLE \<and> s' = s
     | Some ns \<Rightarrow>
         (\<forall>i. handle_names tbl (inner s) i = Some (ns @ [nm]) \<longrightarrow> r = Ok i) \<and>
         (\<forall>i. r = Ok i \<longrightarrow> handle_names tbl (inner s') i = Some (ns @ [nm]) \<and>
            handle_to_path tbl i (inner s') = Some (Ok (path_push (foldl path_push [] ns) nm))) \<and>
         (\<forall>e. r = Err e \<longrightarrow> handle_names tbl (inner s') = handle_names tbl (inner s)))"
proof -
  note laws = interner.lookup_by_id_ok [OF assms] interner.handle_names_inject [OF assms(1)]
  have ok': "cache_ok tbl table_ok (inner s')" and ext: "cache_extends tbl (inner s) (inner s')" using laws(1) by blast+
  note inject = laws(2) [OF ok'] and keep = cache_extends_names [OF ext assms(2)]
  show ?thesis
  proof (cases "handle_names tbl (inner s) pid")
    case None
    then have "r = Err NFS3ERR_BADHANDLE \<and> s' = s"
      using assms(4) by (auto simp: handle_names_def lookup_by_id_def symbols_path_def ok_or_def split: option.splits)
    with None ok' inject keep show ?thesis by fastforce
  next
    case (Some ns)
    note names = interner.lookup_by_id_names [OF assms(1-4) Some]
    have known: "r = Ok i" if "handle_names tbl (inner s) i = Some (ns @ [nm])" for i
      using names keep [OF that] inject by (cases r) auto
    have good: "handle_names tbl (inner s') i = Some (ns @ [nm])" if "r = Ok i" for i using names that by simp
    have same: "handle_names tbl (inner s') = handle_names tbl (inner s)" if "r = Err e" for e
    proof
      fix i
      show "handle_names tbl (inner s') i = handle_names tbl (inner s) i"
        using names that keep [of i] by (cases "handle_names tbl (inner s) i") (auto simp: handle_names_def split: option.splits)
    qed
    from good have "handle_to_path tbl i (inner s') = Some (Ok (path_push (foldl path_push [] ns) nm))" if "r = Ok i" for i
      using that by (simp add: handle_to_path_names [OF ok'])
    with Some ok' inject keep known good same show ?thesis by (auto 0 3)
  qed
qed

theorem symbols_cache_spec_witness:
  "\<exists>s'. lookup_by_id list_table (\<lambda>p w. (p = [47, 120, 47] \<or> p = [47, 120, 47, 97], w)) [47, 120] ROOT_ID [97] True
      \<lparr> world = (), inner = symbols_cache_new list_table \<rparr> = Some (Ok 2, s') \<and>
    handle_to_path list_table 2 (inner s') = Some (Ok [97])"
proof -
  define s :: "(unit, bytes list) symbols_state" where "s = \<lparr> world = (), inner = symbols_cache_new list_table \<rparr>"
  define ex :: "unit path_exists" where "ex = (\<lambda>p w. (p = [47, 120, 47] \<or> p = [47, 120, 47, 97], w))"
  have "\<exists>s'. lookup_by_id list_table ex [47, 120] ROOT_ID [97] True s = Some (Ok 2, s')"
    by (simp add: s_def ex_def lookup_by_id_def inner_lookup_def symbols_cache_new_def symbols_path_def ok_or_def
        insert_or_resolve_def list_table_def symbols_path_join_def check_paths_def resolve_path_def path_push_def
        ask_exists_def await_def ret_def insert_entry_def Let_def ROOT_ID_def)
  then obtain s' where run: "lookup_by_id list_table ex [47, 120] ROOT_ID [97] True s = Some (Ok 2, s')" ..
  have "cache_ok list_table list_table_ok (inner s)" "cache_room (inner s)"
    by (simp_all add: s_def cache_new_ok list_table.new_ok) (simp add: cache_room_def symbols_cache_new_def)
  moreover have "handle_names list_table (inner s) ROOT_ID = Some []"
    by (simp add: s_def handle_names_def symbols_cache_new_def)
  ultimately have "handle_to_path list_table 2 (inner s') = Some (Ok [97])"
    using symbols_cache_spec [OF list_table.interner_axioms _ _ run] by (simp add: path_push_def)
  with run show ?thesis unfolding s_def ex_def by blast
qed

end
