(* ===== verification/Client_Download.thy ===== *)
theory Client_Download
  imports Client_Programs Symbols_Cache
begin

text \<open>
  The client program that copies a folder of a server to the local disk
  (\<^verbatim>\<open>nfs3_client/examples/download_folder.rs\<close>), on Unix.  The local file system is a record of
  operations on its state.  Calls of \<^verbatim>\<open>unwrap\<close> on a reply that is an error panic.
\<close>

section \<open>Strings and paths\<close>

text \<open>
  \<^verbatim>\<open>String::from_utf8_lossy\<close>: whether the bytes begin with the encoding of a character, and the
  length of that encoding or of the longest beginning of one.
\<close>

definition is_cont :: "u8 \<Rightarrow> bool" where
  "is_cont b \<longleftrightarrow> 0x80 \<le> b \<and> b \<le> 0xBF"

definition utf8_width :: "u8 \<Rightarrow> nat" where
  "utf8_width b =
     (if b < 0x80 then 1 else if 0xC2 \<le> b \<and> b \<le> 0xDF then 2
      else if 0xE0 \<le> b \<and> b \<le> 0xEF then 3 else if 0xF0 \<le> b \<and> b \<le> 0xF4 then 4 else 0)"

definition utf8_second :: "u8 \<Rightarrow> u8 \<Rightarrow> bool" where
  "utf8_second b c \<longleftrightarrow> is_cont c \<and> (b = 0xE0 \<longrightarrow> 0xA0 \<le> c) \<and> (b = 0xED \<longrightarrow> c \<le> 0x9F) \<and>
     (b = 0xF0 \<longrightarrow> 0x90 \<le> c) \<and> (b = 0xF4 \<longrightarrow> c \<le> 0x8F)"

definition utf8_chunk :: "u8 \<Rightarrow> bytes \<Rightarrow> bool \<times> nat" where
  "utf8_chunk b bs =
     (let w = utf8_width b;
          n = (if w \<le> 1 \<or> bs = [] \<or> \<not> utf8_second b (hd bs) then 1
               else min w (2 + length (takeWhile is_cont (tl bs))))
      in (n = w, n))"

function from_utf8_lossy :: "bytes \<Rightarrow> bytes" where
  "from_utf8_lossy [] = []"
| "from_utf8_lossy (b # bs) =
     (let (valid, n) = utf8_chunk b bs in
      (if valid then take n (b # bs) else [0xEF, 0xBF, 0xBD]) @ from_utf8_lossy (drop n (b # bs)))"
  by pat_completeness auto

termination
  by (relation "measure length") (auto simp: utf8_chunk_def Let_def)

text \<open>\<^verbatim>\<open>Path::components\<close> on Unix.\<close>

datatype Component = RootDir | CurDir | ParentDir | Normal bytes

definition path_component :: "bytes \<Rightarrow> Component" where
  "path_component nm = (if nm = [46, 46] then ParentDir else Normal nm)"

definition path_components_of :: "bytes \<Rightarrow> Component list" where
  "path_components_of path =
     (let parts = split_delimiter DELIMITER path;
          start = (if path \<noteq> [] \<and> hd path = DELIMITER then [RootDir]
                   else if parts \<noteq> [] \<and> hd parts = [46] then [CurDir] else [])
      in start @ map path_component (filter (\<lambda>p. p \<noteq> [] \<and> p \<noteq> [46]) parts))"

section \<open>The local file system and the connection\<close>

text \<open>\<^verbatim>\<open>Box<dyn Error>\<close>; the errors of the local file system are numbered.\<close>

datatype download_error = ClientError client_error | LocalError nat

record 'w local_fs =
  local_create_dir_all :: "bytes \<Rightarrow> 'w \<Rightarrow> (nat + unit) \<times> 'w"
  local_file_create :: "bytes \<Rightarrow> 'w \<Rightarrow> (nat + nat) \<times> 'w"
  local_write_all :: "nat \<Rightarrow> bytes \<Rightarrow> 'w \<Rightarrow> (nat + unit) \<times> 'w"

record ('io, 'w) download_state =
  dl_client :: "'io RpcClient"
  dl_local :: 'w

definition on_client ::
  "('io RpcClient, client_error + 'a) prog \<Rightarrow> (('io, 'w) download_state, download_error + 'a) prog" where
  "on_client m s = (case m (dl_client s) of
     None \<Rightarrow> None
   | Some (Err e, c) \<Rightarrow> Some (Err (ClientError e), s\<lparr> dl_client := c \<rparr>)
   | Some (Ok x, c) \<Rightarrow> Some (Ok x, s\<lparr> dl_client := c \<rparr>))"

definition on_local :: "('w \<Rightarrow> (nat + 'a) \<times> 'w) \<Rightarrow> (('io, 'w) download_state, download_error + 'a) prog" where
  "on_local m s = (case m (dl_local s) of
     (Err e, w) \<Rightarrow> Some (Err (LocalError e), s\<lparr> dl_local := w \<rparr>)
   | (Ok x, w) \<Rightarrow> Some (Ok x, s\<lparr> dl_local := w \<rparr>))"

text \<open>\<^verbatim>\<open>Nfs3Result::unwrap\<close>.\<close>

fun unwrap :: "('t, 'e) nfs3_result \<Rightarrow> ('s, 'x + 't) prog" where
  "unwrap (Nfs3Ok v) = ret (Ok v)"
| "unwrap (Nfs3Err code e) = panic"

lemma await_ok_mono [partial_function_mono]:
  assumes "\<And>s. mono_option (\<lambda>f. B f s)" "\<And>y s. mono_option (\<lambda>f. C y f s)"
  shows "mono_option (\<lambda>f. await_ok (B f) (\<lambda>y. C y f) s)"
proof -
  have "await_ok (B f) (\<lambda>y. C y f) s = Option.bind (B f s) (\<lambda>(r, s'). case r of Err e \<Rightarrow> Some (Err e, s') | Ok x \<Rightarrow> C x f s')" for f
    by (auto simp: await_ok_def await_def ret_def split: option.splits sum.splits)
  moreover have "mono_option (\<lambda>f. case r of Err e \<Rightarrow> Some (Err e, s') | Ok x \<Rightarrow> C x f s')" for r s'
    by (cases r) (simp_all add: assms(2) option.const_mono)
  then have "mono_option (\<lambda>f. Option.bind (B f s) (\<lambda>(r, s'). case r of Err e \<Rightarrow> Some (Err e, s') | Ok x \<Rightarrow> C x f s'))"
    by (intro bind_mono [OF assms(1)]) (auto split: prod.splits)
  ultimately show ?thesis by simp
qed

section \<open>Files\<close>

definition CHUNK :: u32 where
  "CHUNK = 128 * 1024"

definition read_chunk ::
  "'io async_io \<Rightarrow> nfs_fh3 \<Rightarrow> u64 \<Rightarrow> (('io, 'w) download_state, download_error + READ3resok) prog" where
  "read_chunk ops fh off =
     await_ok (on_client (nfs_read ops \<lparr> READ3args.file' = fh, READ3args.offset = off, READ3args.count = CHUNK \<rparr>)) unwrap"

text \<open>The loop ends when the server says so.  An offset past the end of \<^verbatim>\<open>u64\<close> panics.\<close>

partial_function (option) download_loop ::
  "'io async_io \<Rightarrow> 'w local_fs \<Rightarrow> nat \<Rightarrow> nfs_fh3 \<Rightarrow> u64 \<Rightarrow> ('io, 'w) download_state \<Rightarrow>
     ((download_error + unit) \<times> ('io, 'w) download_state) option" where
  "download_loop ops lfs file fh off s =
     await_ok (read_chunk ops fh off) (\<lambda>r.
     await_ok (on_local (local_write_all lfs file (READ3resok.data r))) (\<lambda>_ s.
       if unat off + length (READ3resok.data r) \<ge> 2 ^ 64 then None
       else if READ3resok.eof r then Some (Ok (), s)
       else download_loop ops lfs file fh (off + of_nat (length (READ3resok.data r))) s)) s"

definition download_file ::
  "'io async_io \<Rightarrow> 'w local_fs \<Rightarrow> nfs_fh3 \<Rightarrow> bytes \<Rightarrow> (('io, 'w) download_state, download_error + unit) prog" where
  "download_file ops lfs fh path =
     await_ok (on_local (local_file_create lfs path)) (\<lambda>file. download_loop ops lfs file fh 0)"

section \<open>Folders\<close>

text \<open>An entry without a handle or attributes is looked up; without attributes still, it is skipped.\<close>

definition entry_handle ::
  "'io async_io \<Rightarrow> nfs_fh3 \<Rightarrow> entryplus3 \<Rightarrow> (('io, 'w) download_state, download_error + (nfs_fh3 \<times> fattr3) option) prog" where
  "entry_handle ops folder_fh e =
     (case (entryplus3.name_handle e, entryplus3.name_attributes e) of
        (Some fh, Some attr) \<Rightarrow> ret (Ok (Some (fh, attr)))
      | _ \<Rightarrow>
          await_ok (on_client (nfs_lookup ops \<lparr> LOOKUP3args.what =
            \<lparr> diropargs3.dir = folder_fh, diropargs3.name = entryplus3.name e \<rparr> \<rparr>)) (\<lambda>res.
          await_ok (unwrap res) (\<lambda>lookup.
            ret (Ok (map_option (\<lambda>attr. (LOOKUP3resok.object lookup, attr)) (LOOKUP3resok.obj_attributes lookup))))))"

text \<open>The queue is a \<^verbatim>\<open>Vec\<close> used as a stack; its top is the head of the list.\<close>

type_synonym download_queue = "(bytes \<times> nfs_fh3) list"

definition download_entry ::
  "'io async_io \<Rightarrow> 'w local_fs \<Rightarrow> bytes \<Rightarrow> nfs_fh3 \<Rightarrow> entryplus3 \<Rightarrow> download_queue \<Rightarrow>
     (('io, 'w) download_state, download_error + download_queue) prog" where
  "download_entry ops lfs local_path folder_fh e queue =
     (let nm = from_utf8_lossy (entryplus3.name e) in
      if nm = [46] \<or> nm = [46, 46] then ret (Ok queue)
      else await_ok (entry_handle ops folder_fh e) (\<lambda>found. case found of
          None \<Rightarrow> ret (Ok queue)
        | Some (fh, attrs) \<Rightarrow>
            (let local_entry_path = path_push local_path nm in
             if fattr3.type' attrs = NF3DIR
             then await_ok (on_local (local_create_dir_all lfs local_entry_path)) (\<lambda>_. ret (Ok ((local_entry_path, fh) # queue)))
             else await_ok (download_file ops lfs fh (from_utf8_lossy local_entry_path)) (\<lambda>_. ret (Ok queue)))))"

fun download_entries ::
  "'io async_io \<Rightarrow> 'w local_fs \<Rightarrow> bytes \<Rightarrow> nfs_fh3 \<Rightarrow> entryplus3 list \<Rightarrow> download_queue \<Rightarrow>
     (('io, 'w) download_state, download_error + download_queue) prog" where
  "download_entries ops lfs local_path folder_fh [] queue = ret (Ok queue)"
| "download_entries ops lfs local_path folder_fh (e # es) queue =
     await_ok (download_entry ops lfs local_path folder_fh e queue) (download_entries ops lfs local_path folder_fh es)"

definition readdirplus_page ::
  "'io async_io \<Rightarrow> nfs_fh3 \<Rightarrow> cookie3 \<Rightarrow> cookieverf3 \<Rightarrow> (('io, 'w) download_state, download_error + READDIRPLUS3resok) prog" where
  "readdirplus_page ops fh c v =
     await_ok (on_client (nfs_readdirplus ops \<lparr> READDIRPLUS3args.dir = fh, READDIRPLUS3args.cookie = c,
       READDIRPLUS3args.cookieverf = v, READDIRPLUS3args.dircount = CHUNK, READDIRPLUS3args.maxcount = CHUNK \<rparr>)) unwrap"

definition next_cookie :: "entryplus3 list \<Rightarrow> cookie3" where
  "next_cookie es = (if es = [] then 0 else entryplus3.cookie (last es))"

partial_function (option) download_pages ::
  "'io async_io \<Rightarrow> 'w local_fs \<Rightarrow> bytes \<Rightarrow> nfs_fh3 \<Rightarrow> cookie3 \<Rightarrow> cookieverf3 \<Rightarrow> download_queue \<Rightarrow>
     ('io, 'w) download_state \<Rightarrow> ((download_error + download_queue) \<times> ('io, 'w) download_state) option" where
  "download_pages ops lfs local_path folder_fh c v queue s =
     await_ok (readdirplus_page ops folder_fh c v) (\<lambda>r.
     await_ok (download_entries ops lfs local_path folder_fh (dirlistplus3.entries (READDIRPLUS3resok.reply r)) queue) (\<lambda>queue s.
       if dirlistplus3.eof (READDIRPLUS3resok.reply r) then Some (Ok queue, s)
       else download_pages ops lfs local_path folder_fh (next_cookie (dirlistplus3.entries (READDIRPLUS3resok.reply r)))
         (READDIRPLUS3resok.cookieverf r) queue s)) s"

partial_function (option) download_queue_loop ::
  "'io async_io \<Rightarrow> 'w local_fs \<Rightarrow> download_queue \<Rightarrow> ('io, 'w) download_state \<Rightarrow>
     ((download_error + unit) \<times> ('io, 'w) download_state) option" where
  "download_queue_loop ops lfs queue s =
     (case queue of
        [] \<Rightarrow> Some (Ok (), s)
      | d # queue \<Rightarrow>
          await_ok (download_pages ops lfs (fst d) (snd d) 0 (Array (replicate 8 0)) queue)
            (\<lambda>queue. download_queue_loop ops lfs queue) s)"

definition download_folder ::
  "'io async_io \<Rightarrow> 'w local_fs \<Rightarrow> nfs_fh3 \<Rightarrow> bytes \<Rightarrow> (('io, 'w) download_state, download_error + unit) prog" where
  "download_folder ops lfs folder_fh local_path =
     await_ok (on_local (local_create_dir_all lfs local_path)) (\<lambda>_. download_queue_loop ops lfs [(local_path, folder_fh)])"

section \<open>The program\<close>

text \<open>The handle of the remote folder, one component of its path after the other.\<close>

fun remote_folder_handle ::
  "'io async_io \<Rightarrow> nfs_fh3 \<Rightarrow> Component list \<Rightarrow> (('io, 'w) download_state, download_error + nfs_fh3) prog" where
  "remote_folder_handle ops fh [] = ret (Ok fh)"
| "remote_folder_handle ops fh (Normal nm # cs) =
     await_ok (on_client (nfs_lookup ops \<lparr> LOOKUP3args.what = \<lparr> diropargs3.dir = fh, diropargs3.name = nm \<rparr> \<rparr>)) (\<lambda>res.
     await_ok (unwrap res) (\<lambda>lookup. remote_folder_handle ops (LOOKUP3resok.object lookup) cs))"
| "remote_folder_handle ops fh (_ # cs) = panic"

text \<open>\<^verbatim>\<open>main\<close> from the mounted connection on; the mount client of the connection is used for unmounting.\<close>

definition download_main ::
  "'io async_io \<Rightarrow> 'w local_fs \<Rightarrow> bytes \<Rightarrow> bytes \<Rightarrow> 'io Nfs3Connection \<Rightarrow> 'w \<Rightarrow> ((download_error + unit) \<times> 'w) option" where
  "download_main ops lfs remote_folder local_folder connection w =
     (case await_ok (remote_folder_handle ops (root_nfs_fh3 connection) (path_components_of remote_folder))
         (\<lambda>fh. download_folder ops lfs fh local_folder) \<lparr> dl_client = conn_nfs3_client connection, dl_local = w \<rparr> of
        None \<Rightarrow> None
      | Some (Err e, s) \<Rightarrow> Some (Err e, dl_local s)
      | Some (Ok (), s) \<Rightarrow>
          (case unmount ops (connection\<lparr> conn_nfs3_client := dl_client s \<rparr>) of
             None \<Rightarrow> None
           | Some (Err e) \<Rightarrow> Some (Err (ClientError e), dl_local s)
           | Some (Ok ()) \<Rightarrow> Some (Ok (), dl_local s)))"

text \<open>The credential of the programs and the connection that they ask for; the port is the argument that may be missing.\<close>

definition client_auth :: auth_unix where
  "client_auth = \<lparr> auth_unix.stamp = 0xAAAAAAAA, auth_unix.machinename = string_bytes ''unknown'',
     auth_unix.uid = 0xFFFFFFFE, auth_unix.gid = 0xFFFFFFFE, auth_unix.gids = [] \<rparr>"

definition args_get :: "string list \<Rightarrow> nat \<Rightarrow> string option" where
  "args_get as k = (if k < length as then Some (as ! k) else None)"

definition client_builder :: "string \<Rightarrow> string \<Rightarrow> string option \<Rightarrow> Nfs3ConnectionBuilder option" where
  "client_builder ip mount_path port_arg =
     map_option (\<lambda>credential. (builder_new ip (string_bytes mount_path))\<lparr>
         portmapper_port := (case Option.bind port_arg parse_u16 of Some p \<Rightarrow> p | None \<Rightarrow> PMAP_PORT),
         builder_credential := credential \<rparr>)
       (opaque_auth_auth_unix client_auth)"

text \<open>The whole program.  The connector, the state of the network and the random numbers of the three clients are parameters.\<close>

definition download_program ::
  "'io async_io \<Rightarrow> ('addr, 'io, 'n) Connector \<Rightarrow> u32 \<times> u32 \<times> u32 \<Rightarrow> 'w local_fs \<Rightarrow> string list \<Rightarrow> 'n net \<Rightarrow> 'w \<Rightarrow>
     ((download_error + unit) \<times> 'w) option" where
  "download_program ops conn random lfs as n w =
     (if length as < 5 then Some (Ok (), w)
      else
        (case client_builder (as ! 1) (as ! 2) (args_get as 5) of
           None \<Rightarrow> None
         | Some b \<Rightarrow>
             (case builder_mount ops conn (fst random) (fst (snd random)) (snd (snd random)) b n of
                None \<Rightarrow> None
              | Some (Err e, n') \<Rightarrow> Some (Err (ClientError e), w)
              | Some (Ok connection, n') \<Rightarrow>
                  download_main ops lfs (string_bytes (as ! 3)) (string_bytes (as ! 4)) connection w)))"

end
