(* ===== verification/Binary_Search.thy ===== *)
theory Binary_Search
  imports Prelude
begin

text \<open>
  The binary search of the Rust library, which the transaction tracker and the map of the example file
  system rely on, and what it returns.
\<close>

text \<open>
  \<^verbatim>\<open>binary_search\<close> and \<^verbatim>\<open>binary_search_by_key\<close> between the positions \<open>lo\<close> and \<open>hi\<close>.  On a list with
  strictly increasing keys its documentation leaves one possible result only.
\<close>

function binary_search :: "'k :: linorder \<Rightarrow> 'k list \<Rightarrow> nat \<Rightarrow> nat \<Rightarrow> nat + nat" where
  "binary_search k ks lo hi =
     (if lo < hi then
        (let mid = lo + (hi - lo) div 2 in
         if ks ! mid = k then Ok mid
         else if ks ! mid < k then binary_search k ks (mid + 1) hi
         else binary_search k ks lo mid)
      else Err lo)"
  by pat_completeness auto
termination
  by (relation "measure (\<lambda>(k, ks, lo, hi). hi - lo)") auto

declare binary_search.simps [simp del]

section \<open>Its result\<close>

text \<open>What the documentation of \<^verbatim>\<open>binary_search\<close> promises, on increasing keys.\<close>

definition below :: "'k :: linorder \<Rightarrow> 'k list \<Rightarrow> nat \<Rightarrow> bool" where
  "below k ks p \<longleftrightarrow> p \<le> length ks \<and> (\<forall>j < p. ks ! j < k)"

definition above :: "'k :: linorder \<Rightarrow> 'k list \<Rightarrow> nat \<Rightarrow> bool" where
  "above k ks p \<longleftrightarrow> (\<forall>j. p \<le> j \<and> j < length ks \<longrightarrow> k < ks ! j)"

definition search_result :: "'k :: linorder \<Rightarrow> 'k list \<Rightarrow> nat + nat \<Rightarrow> bool" where
  "search_result k ks r \<longleftrightarrow>
     (case r of Ok p \<Rightarrow> p < length ks \<and> ks ! p = k | Err p \<Rightarrow> below k ks p \<and> above k ks p)"

lemma below_Suc:
  assumes "sorted ks" "p < length ks" "ks ! p < k"
  shows "below k ks (p + 1)"
proof -
  have "ks ! j < k" if "j < p + 1" for j
    using sorted_nth_mono [OF assms(1), of j p] that assms(2,3) by simp
  then show ?thesis using assms(2) by (simp add: below_def)
qed

lemma above_at:
  assumes "sorted ks" "k < ks ! p"
  shows "above k ks p"
  unfolding above_def
  using sorted_nth_mono [OF assms(1)] assms(2) by fastforce

lemma binary_search_result:
  assumes "sorted ks"
  shows "lo \<le> hi \<Longrightarrow> hi \<le> length ks \<Longrightarrow> below k ks lo \<Longrightarrow> above k ks hi \<Longrightarrow>
    search_result k ks (binary_search k ks lo hi)"
proof (induction "hi - lo" arbitrary: lo hi rule: less_induct)
  case less
  show ?case
  proof (cases "lo < hi")
    case False
    then have "binary_search k ks lo hi = Err lo" by (subst binary_search.simps) simp
    with False less.prems show ?thesis by (simp add: search_result_def)
  next
    case True
    define mid where "mid = lo + (hi - lo) div 2"
    have mid: "lo \<le> mid" "mid < hi" "mid < length ks" using True less.prems by (auto simp: mid_def)
    have step: "binary_search k ks lo hi = (if ks ! mid = k then Ok mid
        else if ks ! mid < k then binary_search k ks (mid + 1) hi else binary_search k ks lo mid)"
      using True by (subst binary_search.simps) (simp add: mid_def Let_def)
    consider "ks ! mid = k" | "ks ! mid < k" | "k < ks ! mid" using linorder_less_linear by blast
    then show ?thesis
    proof cases
      case 1
      then show ?thesis using mid by (simp add: step search_result_def)
    next
      case 2
      then have "search_result k ks (binary_search k ks (mid + 1) hi)"
        using mid less.prems by (intro less.hyps) (auto intro: below_Suc [OF assms, simplified])
      with 2 show ?thesis by (auto simp: step)
    next
      case 3
      then have "search_result k ks (binary_search k ks lo mid)"
        using mid less.prems by (intro less.hyps) (auto intro: above_at [OF assms])
      with 3 show ?thesis by (auto simp: step)
    qed
  qed
qed

end
