(* ===== verification/Transaction_Tracker.thy ===== *)
theory Transaction_Tracker
  imports Binary_Search
begin

text \<open>
  Retransmission detection (\<^verbatim>\<open>nfs3_server/src/transaction_tracker.rs\<close>).

  An \<^verbatim>\<open>Instant\<close> and a \<^verbatim>\<open>Duration\<close> are numbers of ticks; the difference of two instants
  saturates at zero, as in the standard library.  A \<^verbatim>\<open>VecDeque\<close> is a list.  An
  \<^verbatim>\<open>Arc<Mutex<ClientTransactions>>\<close> is an address of a store, so that a
  \<^verbatim>\<open>TransactionLock\<close> and the tracker's map share the client's record; whatever is done
  under one mutex is one step.  A panic is \<^const>\<open>None\<close>.

  The last sections let any number of requests run concurrently: \<open>tracker_step\<close> has the
  read-locked and the write-locked half of \<^verbatim>\<open>start_transaction\<close> as separate steps, so
  another request, a dropped lock or the cleaner may come between them.
\<close>

section \<open>Transactions of one client\<close>

datatype TransactionError = AlreadyExists | TooManyRequests

datatype TransactionState = InProgress | Completed nat

record Transaction =
  xid :: u32
  state :: TransactionState

definition in_progress :: "u32 \<Rightarrow> Transaction" where
  "in_progress i = \<lparr> Transaction.xid = i, Transaction.state = InProgress \<rparr>"

definition transaction_complete :: "nat \<Rightarrow> Transaction \<Rightarrow> Transaction option" where
  "transaction_complete now tx =
     (case Transaction.state tx of
        InProgress \<Rightarrow> Some (tx\<lparr> Transaction.state := Completed now \<rparr>)
      | Completed _ \<Rightarrow> None)"

definition is_stale :: "nat \<Rightarrow> nat \<Rightarrow> Transaction \<Rightarrow> bool" where
  "is_stale now max_age tx \<longleftrightarrow>
     (case Transaction.state tx of InProgress \<Rightarrow> False | Completed tx_time \<Rightarrow> now - tx_time > max_age)"

record ClientTransactions =
  transactions :: "Transaction list"
  last_active :: nat
  active_transactions :: u16
  max_active_transactions :: u16
  trim_limit :: nat

text \<open>\<^verbatim>\<open>ClientTransactions::new\<close> asserts that the number of active transactions is below the limit.\<close>

definition client_transactions_new :: "nat \<Rightarrow> u16 \<Rightarrow> nat \<Rightarrow> ClientTransactions option" where
  "client_transactions_new now max_active trim =
     (if unat max_active < trim
      then Some \<lparr> transactions = [], last_active = now, active_transactions = 0,
                  max_active_transactions = max_active, trim_limit = trim \<rparr>
      else None)"

definition find_transaction :: "u32 \<Rightarrow> ClientTransactions \<Rightarrow> nat + nat" where
  "find_transaction i c =
     (let txs = transactions c in
      if txs = [] then Err 0
      else if Transaction.xid (last txs) = i then Ok (length txs - 1)
      else if Transaction.xid (last txs) < i then Err (length txs)
      else binary_search i (map Transaction.xid txs) 0 (length txs))"

fun trim_loop :: "nat \<Rightarrow> Transaction list \<Rightarrow> Transaction list" where
  "trim_loop limit [] = []"
| "trim_loop limit (tx # txs) =
     (if length (tx # txs) > limit \<and> Transaction.state tx \<noteq> InProgress
      then trim_loop limit txs else tx # txs)"

definition trim_if_needed :: "ClientTransactions \<Rightarrow> ClientTransactions" where
  "trim_if_needed c = c\<lparr> transactions := trim_loop (trim_limit c) (transactions c) \<rparr>"

definition add_transaction ::
  "u32 \<Rightarrow> nat \<Rightarrow> ClientTransactions \<Rightarrow> (TransactionError + unit) \<times> ClientTransactions" where
  "add_transaction i now c =
     (let c = c\<lparr> last_active := now \<rparr> in
      case find_transaction i c of
        Ok _ \<Rightarrow> (Err AlreadyExists, c)
      | Err p \<Rightarrow>
          if active_transactions c \<ge> max_active_transactions c then (Err TooManyRequests, c)
          else
            (let c = c\<lparr> active_transactions := active_transactions c + 1,
                        transactions := take p (transactions c) @ in_progress i # drop p (transactions c) \<rparr>
             in (Ok (), trim_if_needed c)))"

definition complete_transaction :: "u32 \<Rightarrow> nat \<Rightarrow> ClientTransactions \<Rightarrow> ClientTransactions option" where
  "complete_transaction i now c =
     (let c = c\<lparr> last_active := now \<rparr> in
      case find_transaction i c of
        Ok p \<Rightarrow>
          (case transaction_complete now (transactions c ! p) of
             None \<Rightarrow> None
           | Some tx \<Rightarrow>
               if active_transactions c = 0 then None
               else Some (c\<lparr> transactions := (transactions c)[p := tx],
                            active_transactions := active_transactions c - 1 \<rparr>))
      | Err _ \<Rightarrow> Some c)"

fun remove_old_loop :: "nat \<Rightarrow> nat \<Rightarrow> Transaction list \<Rightarrow> Transaction list" where
  "remove_old_loop now max_age [] = []"
| "remove_old_loop now max_age (tx # txs) =
     (if is_stale now max_age tx then remove_old_loop now max_age txs else tx # txs)"

definition remove_old_transactions :: "nat \<Rightarrow> nat \<Rightarrow> ClientTransactions \<Rightarrow> ClientTransactions" where
  "remove_old_transactions now max_age c =
     c\<lparr> transactions := remove_old_loop now max_age (transactions c) \<rparr>"

definition has_active_transactions :: "nat \<Rightarrow> nat \<Rightarrow> ClientTransactions \<Rightarrow> bool" where
  "has_active_transactions now max_age c \<longleftrightarrow>
     (\<exists>tx \<in> set (transactions c). \<not> is_stale now max_age tx)"

definition is_active :: "nat \<Rightarrow> nat \<Rightarrow> ClientTransactions \<Rightarrow> bool" where
  "is_active now max_age c \<longleftrightarrow>
     now - last_active c < max_age \<or> has_active_transactions now max_age c"

section \<open>The tracker and its locks\<close>

text \<open>
  The map from client addresses to shared records, the store holding the records, and the
  settings.  \<open>next_addr\<close> is the address of the next \<^verbatim>\<open>Arc::new\<close>.
\<close>

record TransactionTracker =
  retention_period :: nat
  clients :: "(string \<times> nat) list"
  tracker_max_active :: u16
  tracker_trim_limit :: nat
  store :: "nat \<Rightarrow> ClientTransactions option"
  next_addr :: nat

record TransactionLock =
  lock_addr :: nat
  lock_xid :: u32
  lock_retention :: nat

definition tracker_new :: "nat \<Rightarrow> u16 \<Rightarrow> nat \<Rightarrow> TransactionTracker" where
  "tracker_new retention max_active trim =
     \<lparr> retention_period = retention, clients = [], tracker_max_active = max_active,
       tracker_trim_limit = trim, store = Map.empty, next_addr = 0 \<rparr>"

text \<open>The common tail of both halves: add the transaction under the client's mutex.\<close>

definition lock_client ::
  "nat \<Rightarrow> u32 \<Rightarrow> nat \<Rightarrow> TransactionTracker \<Rightarrow>
     ((TransactionError + TransactionLock) \<times> TransactionTracker) option" where
  "lock_client addr i now t =
     (case store t addr of
        None \<Rightarrow> None
      | Some c \<Rightarrow>
          (let (r, c') = add_transaction i now c;
               t' = t\<lparr> store := (store t)(addr \<mapsto> c') \<rparr>
           in Some (map_ok (\<lambda>_. \<lparr> lock_addr = addr, lock_xid = i,
                                   lock_retention = retention_period t \<rparr>) r, t')))"

text \<open>\<^verbatim>\<open>start_transaction\<close> under the read lock: the outer \<^const>\<open>None\<close> is a miss.\<close>

definition start_read ::
  "string \<Rightarrow> u32 \<Rightarrow> nat \<Rightarrow> TransactionTracker \<Rightarrow>
     ((TransactionError + TransactionLock) \<times> TransactionTracker) option option" where
  "start_read client i now t =
     (case map_of (clients t) client of
        None \<Rightarrow> None
      | Some addr \<Rightarrow> Some (lock_client addr i now t))"

text \<open>\<^verbatim>\<open>start_transaction\<close> under the write lock: the client's record is made if it is still missing.\<close>

definition start_write ::
  "string \<Rightarrow> u32 \<Rightarrow> nat \<Rightarrow> TransactionTracker \<Rightarrow>
     ((TransactionError + TransactionLock) \<times> TransactionTracker) option" where
  "start_write client i now t =
     (case map_of (clients t) client of
        Some addr \<Rightarrow> lock_client addr i now t
      | None \<Rightarrow>
          (case client_transactions_new now (tracker_max_active t) (tracker_trim_limit t) of
             None \<Rightarrow> None
           | Some c \<Rightarrow>
               lock_client (next_addr t) i now
                 (t\<lparr> clients := (client, next_addr t) # clients t,
                     store := (store t)(next_addr t \<mapsto> c),
                     next_addr := next_addr t + 1 \<rparr>)))"

definition start_transaction ::
  "string \<Rightarrow> u32 \<Rightarrow> nat \<Rightarrow> TransactionTracker \<Rightarrow>
     ((TransactionError + TransactionLock) \<times> TransactionTracker) option" where
  "start_transaction client i now t =
     (case start_read client i now t of
        Some r \<Rightarrow> r
      | None \<Rightarrow> start_write client i now t)"

text \<open>\<^verbatim>\<open>Drop for TransactionLock\<close>.\<close>

definition drop_lock :: "nat \<Rightarrow> TransactionLock \<Rightarrow> TransactionTracker \<Rightarrow> TransactionTracker option" where
  "drop_lock now l t =
     (case store t (lock_addr l) of
        None \<Rightarrow> None
      | Some c \<Rightarrow>
          (case complete_transaction (lock_xid l) now c of
             None \<Rightarrow> None
           | Some c1 \<Rightarrow>
               Some (t\<lparr> store := (store t)(lock_addr l \<mapsto>
                          remove_old_transactions now (lock_retention l) c1) \<rparr>)))"

text \<open>\<^verbatim>\<open>cleanup\<close>: \<^verbatim>\<open>retain\<close> visits every client once.\<close>

fun retain_clients ::
  "nat \<Rightarrow> nat \<Rightarrow> (string \<times> nat) list \<Rightarrow> (nat \<Rightarrow> ClientTransactions option) \<Rightarrow>
     (string \<times> nat) list \<times> (nat \<Rightarrow> ClientTransactions option)" where
  "retain_clients now max_age [] st = ([], st)"
| "retain_clients now max_age ((client, addr) # cs) st =
     (case st addr of
        None \<Rightarrow> retain_clients now max_age cs st
      | Some c \<Rightarrow>
          if is_active now max_age c then
            (let (cs', st') = retain_clients now max_age cs
                   (st(addr \<mapsto> remove_old_transactions now max_age c))
             in ((client, addr) # cs', st'))
          else retain_clients now max_age cs st)"

definition cleanup :: "nat \<Rightarrow> TransactionTracker \<Rightarrow> TransactionTracker" where
  "cleanup now t =
     (let (cs, st) = retain_clients now (retention_period t) (clients t) (store t)
      in t\<lparr> clients := cs, store := st \<rparr>)"

section \<open>Searching\<close>

abbreviation xids :: "ClientTransactions \<Rightarrow> u32 list" where
  "xids c \<equiv> map Transaction.xid (transactions c)"

lemma find_transaction_result:
  assumes "sorted_wrt (<) (xids c)"
  shows "search_result i (xids c) (find_transaction i c)"
proof (cases "transactions c = []")
  case True
  then show ?thesis by (simp add: find_transaction_def search_result_def below_def above_def)
next
  case False
  define p where "p = length (transactions c) - 1"
  have p: "p < length (xids c)" "Suc p = length (xids c)" "xids c ! p = Transaction.xid (last (transactions c))"
    using False by (auto simp: p_def last_conv_nth)
  have "below i (xids c) (length (xids c))" if "xids c ! p < i"
    using below_Suc [OF strict_sorted_imp_sorted [OF assms] p(1) that] p(2) by simp
  moreover have "search_result i (xids c) (binary_search i (xids c) 0 (length (xids c)))"
    by (rule binary_search_result [OF strict_sorted_imp_sorted [OF assms]]) (auto simp: below_def above_def)
  ultimately show ?thesis using False p
    by (auto simp: find_transaction_def Let_def search_result_def p_def above_def)
qed

lemma find_transaction_Ok:
  assumes "sorted_wrt (<) (xids c)"
  shows "find_transaction i c = Ok p \<longleftrightarrow> p < length (transactions c) \<and> Transaction.xid (transactions c ! p) = i"
proof
  assume "find_transaction i c = Ok p"
  then show "p < length (transactions c) \<and> Transaction.xid (transactions c ! p) = i"
    using find_transaction_result [OF assms, of i] by (auto simp: search_result_def)
next
  assume p: "p < length (transactions c) \<and> Transaction.xid (transactions c ! p) = i"
  have distinct: "distinct (xids c)" using assms by (simp add: strict_sorted_iff)
  consider q where "find_transaction i c = Ok q" | q where "find_transaction i c = Err q"
    by (cases "find_transaction i c") auto
  then show "find_transaction i c = Ok p"
  proof cases
    case 1
    then show ?thesis using find_transaction_result [OF assms, of i] p
        nth_eq_iff_index_eq [OF distinct, of p q] by (auto simp: search_result_def)
  next
    case 2
    then show ?thesis using find_transaction_result [OF assms, of i] p
      by (cases "p < q") (auto simp: search_result_def below_def above_def dest!: spec [of _ p])
  qed
qed

lemma find_transaction_Err:
  assumes "sorted_wrt (<) (xids c)"
  shows "(\<exists>p. find_transaction i c = Err p) \<longleftrightarrow> i \<notin> set (xids c)"
proof -
  have "(\<exists>p. find_transaction i c = Err p) \<longleftrightarrow> \<not> (\<exists>p. find_transaction i c = Ok p)"
    by (cases "find_transaction i c") auto
  also have "(\<exists>p. find_transaction i c = Ok p) \<longleftrightarrow> i \<in> set (xids c)"
    by (simp only: find_transaction_Ok [OF assms] in_set_conv_nth length_map) auto
  finally show ?thesis .
qed

section \<open>The invariant of a client's record\<close>

lemma unat_plus_one:
  assumes "a < (b :: 'w::len word)"
  shows "unat (a + 1) = Suc (unat a)"
proof -
  have "unat a < unat b" using assms by (simp add: word_less_nat_alt)
  then have "Suc (unat a) < 2 ^ LENGTH('w)"
    using unsigned_less [of b, where ?'a = nat] by linarith
  then show ?thesis by (cases "LENGTH('w) = 1") (auto simp: unat_word_ariths)
qed

abbreviation is_in_progress :: "Transaction \<Rightarrow> bool" where
  "is_in_progress tx \<equiv> Transaction.state tx = InProgress"

definition live_of :: "Transaction list \<Rightarrow> u32 set" where
  "live_of txs = Transaction.xid ` {tx \<in> set txs. is_in_progress tx}"

abbreviation live :: "ClientTransactions \<Rightarrow> u32 set" where
  "live c \<equiv> live_of (transactions c)"

definition client_ok :: "ClientTransactions \<Rightarrow> bool" where
  "client_ok c \<longleftrightarrow> sorted_wrt (<) (xids c) \<and> unat (active_transactions c) = card (live c) \<and>
     active_transactions c \<le> max_active_transactions c"

lemma live_of_simps [simp]:
  "live_of [] = {}"
  "live_of (tx # txs) = (if is_in_progress tx then insert (Transaction.xid tx) (live_of txs) else live_of txs)"
  "live_of (txs @ txs') = live_of txs \<union> live_of txs'"
  by (auto simp: live_of_def)

lemma live_of_subset: "live_of txs \<subseteq> Transaction.xid ` set txs"
  by (auto simp: live_of_def)

lemma finite_live_of [simp]: "finite (live_of txs)"
  by (simp add: live_of_def)

lemma live_of_insert_at:
  "live_of (take p txs @ tx # drop p txs) = live_of (tx # txs)"
proof -
  have "live_of txs = live_of (take p txs) \<union> live_of (drop p txs)"
    by (metis append_take_drop_id live_of_simps(3))
  then show ?thesis by auto
qed

text \<open>Trimming and expiry drop a prefix of finished transactions.\<close>

lemma trim_loop_suffix: "\<exists>ys. txs = ys @ trim_loop n txs \<and> live_of ys = {}"
proof (induction txs)
  case (Cons tx txs)
  then obtain ys where "txs = ys @ trim_loop n txs" "live_of ys = {}" by blast
  then show ?case
    by (cases "length (tx # txs) > n \<and> \<not> is_in_progress tx")
       (auto intro: exI [of _ "tx # ys"] exI [of _ "[]"])
qed simp

lemma remove_old_loop_suffix:
  "\<exists>ys. txs = ys @ remove_old_loop now age txs \<and> live_of ys = {} \<and> (\<forall>tx \<in> set ys. is_stale now age tx)"
proof (induction txs)
  case (Cons tx txs)
  then obtain ys where "txs = ys @ remove_old_loop now age txs" "live_of ys = {}"
    "\<forall>tx \<in> set ys. is_stale now age tx" by blast
  note ys = this
  show ?case
  proof (cases "is_stale now age tx")
    case True
    then have "\<not> is_in_progress tx" by (auto simp: is_stale_def)
    then show ?thesis using ys True by (intro exI [of _ "tx # ys"]) auto
  qed simp
qed simp

lemma suffix_client_ok:
  assumes "client_ok c" "transactions c = ys @ txs" "live_of ys = {}"
  shows "client_ok (c\<lparr> transactions := txs \<rparr>)" "live_of txs = live c"
  using assms by (auto simp: client_ok_def sorted_wrt_append)

lemma trim_if_needed_ok:
  assumes "client_ok c"
  shows "client_ok (trim_if_needed c)" "live (trim_if_needed c) = live c"
proof -
  obtain ys where ys: "transactions c = ys @ trim_loop (trim_limit c) (transactions c)" "live_of ys = {}"
    using trim_loop_suffix by blast
  show "client_ok (trim_if_needed c)" "live (trim_if_needed c) = live c"
    using suffix_client_ok [OF assms ys] by (simp_all add: trim_if_needed_def)
qed

lemma remove_old_transactions_ok:
  assumes "client_ok c"
  shows "client_ok (remove_old_transactions now age c)"
    "live (remove_old_transactions now age c) = live c"
proof -
  obtain ys where ys: "transactions c = ys @ remove_old_loop now age (transactions c)" "live_of ys = {}"
    using remove_old_loop_suffix by blast
  show "client_ok (remove_old_transactions now age c)"
    "live (remove_old_transactions now age c) = live c"
    using suffix_client_ok [OF assms ys] by (simp_all add: remove_old_transactions_def)
qed

lemma client_ok_last_active [simp]: "client_ok (c\<lparr> last_active := n \<rparr>) = client_ok c"
  by (simp add: client_ok_def)

lemma find_transaction_last_active [simp]:
  "find_transaction i (c\<lparr> last_active := n \<rparr>) = find_transaction i c"
  by (simp add: find_transaction_def)

lemma client_okD: "client_ok c \<Longrightarrow> sorted_wrt (<) (xids c)"
  by (simp add: client_ok_def)

lemma new_client_ok:
  "client_transactions_new now m n = Some c \<Longrightarrow> client_ok c \<and> live c = {} \<and> transactions c = []"
  by (auto simp: client_transactions_new_def client_ok_def split: if_splits)

text \<open>The three outcomes of adding a transaction.\<close>

lemma add_transaction_known:
  assumes "client_ok c" "i \<in> set (xids c)"
  shows "add_transaction i now c = (Err AlreadyExists, c\<lparr> last_active := now \<rparr>)"
proof -
  obtain p where "find_transaction i c = Ok p"
    using find_transaction_Err [OF client_okD [OF assms(1)], of i] assms(2)
    by (cases "find_transaction i c") auto
  then show ?thesis by (simp add: add_transaction_def Let_def)
qed

lemma add_transaction_full:
  assumes "client_ok c" "i \<notin> set (xids c)" "max_active_transactions c \<le> active_transactions c"
  shows "add_transaction i now c = (Err TooManyRequests, c\<lparr> last_active := now \<rparr>)"
  using find_transaction_Err [OF client_okD [OF assms(1)], of i] assms
  by (auto simp: add_transaction_def Let_def)

lemma insert_sorted:
  assumes "sorted_wrt (<) ks" "below k ks p" "above k ks p"
  shows "sorted_wrt (<) (take p ks @ k # drop p ks)"
proof -
  have "\<forall>x \<in> set (take p ks). x < k" using assms(2)
    by (auto simp: below_def in_set_conv_nth)
  moreover have "\<forall>x \<in> set (drop p ks). k < x" using assms(3)
    by (auto simp: above_def in_set_conv_nth)
  ultimately show ?thesis using sorted_wrt_append [of "(<)" "take p ks" "drop p ks"] assms(1)
    by (auto simp: sorted_wrt_append intro: less_trans)
qed

lemma add_transaction_new:
  assumes ok: "client_ok c" and new: "i \<notin> set (xids c)"
    and room: "active_transactions c < max_active_transactions c"
  obtains c' where "add_transaction i now c = (Ok (), c')" "client_ok c'" "live c' = insert i (live c)"
    "max_active_transactions c' = max_active_transactions c"
proof -
  obtain p where p: "find_transaction i c = Err p"
    using find_transaction_Err [OF client_okD [OF ok], of i] new by auto
  define c1 where "c1 = c\<lparr> last_active := now, active_transactions := active_transactions c + 1,
     transactions := take p (transactions c) @ in_progress i # drop p (transactions c) \<rparr>"
  have "below i (xids c) p" "above i (xids c) p"
    using find_transaction_result [OF client_okD [OF ok], of i] p by (auto simp: search_result_def)
  from insert_sorted [OF client_okD [OF ok] this]
  have sorted: "sorted_wrt (<) (xids c1)" by (simp add: c1_def in_progress_def take_map drop_map)
  have live: "live c1 = insert i (live c)"
    using live_of_insert_at [of p "transactions c" "in_progress i"] by (simp add: c1_def in_progress_def)
  have "i \<notin> live c" using new live_of_subset [of "transactions c"] by auto
  then have card: "card (live c1) = Suc (card (live c))" by (simp add: live)
  have "unat (active_transactions c + 1) = Suc (unat (active_transactions c))"
    using room by (rule unat_plus_one)
  then have "client_ok c1" using ok sorted card room
    by (auto simp: client_ok_def c1_def word_le_nat_alt word_less_nat_alt)
  moreover have "add_transaction i now c = (Ok (), trim_if_needed c1)"
    using room by (simp add: add_transaction_def Let_def p c1_def)
  moreover have "max_active_transactions (trim_if_needed c1) = max_active_transactions c"
    by (simp add: trim_if_needed_def c1_def)
  ultimately show ?thesis using that live trim_if_needed_ok [of c1] by simp
qed

text \<open>Completing a transaction that is in progress cannot fail.\<close>

lemma live_of_update:
  assumes "distinct (map Transaction.xid txs)" "p < length txs" "\<not> is_in_progress tx"
    "Transaction.xid tx = Transaction.xid (txs ! p)"
  shows "live_of (txs[p := tx]) = live_of txs - {Transaction.xid (txs ! p)}"
  using assms
proof (induction txs arbitrary: p)
  case (Cons t ts)
  show ?case
  proof (cases p)
    case 0
    then show ?thesis using Cons.prems live_of_subset [of ts] by auto
  next
    case (Suc q)
    then have "Transaction.xid t \<noteq> Transaction.xid (ts ! q)" using Cons.prems by auto
    then show ?thesis using Cons.IH [of q] Cons.prems Suc by auto
  qed
qed simp

lemma xids_update:
  "p < length txs \<Longrightarrow> Transaction.xid tx = Transaction.xid (txs ! p) \<Longrightarrow>
   map Transaction.xid (txs[p := tx]) = map Transaction.xid txs"
  by (simp add: map_update list_update_same_conv)

lemma complete_transaction_live:
  assumes ok: "client_ok c" and live: "i \<in> live c"
  obtains c' where "complete_transaction i now c = Some c'" "client_ok c'" "live c' = live c - {i}"
    "max_active_transactions c' = max_active_transactions c"
proof -
  obtain p where p: "p < length (transactions c)" "Transaction.xid (transactions c ! p) = i"
    "is_in_progress (transactions c ! p)"
    using live by (auto simp: live_of_def in_set_conv_nth)
  then have find: "find_transaction i c = Ok p" by (simp add: find_transaction_Ok [OF client_okD [OF ok]])
  define tx where "tx = (transactions c ! p)\<lparr> Transaction.state := Completed now \<rparr>"
  define c' where "c' = c\<lparr> last_active := now, transactions := (transactions c)[p := tx],
     active_transactions := active_transactions c - 1 \<rparr>"
  have "distinct (xids c)" using client_okD [OF ok] by (simp add: strict_sorted_iff)
  from live_of_update [OF this p(1), of tx]
  have live': "live c' = live c - {i}" using p by (simp add: c'_def tx_def)
  have "xids c' = xids c" using xids_update [OF p(1), of tx] by (simp add: c'_def tx_def)
  then have sorted: "sorted_wrt (<) (xids c')" using client_okD [OF ok] by simp
  have active: "unat (active_transactions c) = card (live c)"
    and le: "active_transactions c \<le> max_active_transactions c" using ok by (simp_all add: client_ok_def)
  have "card (live c) > 0" using live by (auto simp: card_gt_0_iff)
  then have pos: "active_transactions c \<noteq> 0" using active by auto
  then have "unat (active_transactions c') = unat (active_transactions c) - 1"
    by (simp add: c'_def unat_minus_one)
  moreover have "card (live c') = card (live c) - 1" by (simp only: live') (simp add: live)
  moreover have "max_active_transactions c' = max_active_transactions c" by (simp add: c'_def)
  ultimately have "unat (active_transactions c') = card (live c')"
    "active_transactions c' \<le> max_active_transactions c'"
    using active le by (simp_all only: word_le_nat_alt)
  then have "client_ok c'" using sorted by (simp only: client_ok_def simp_thms)
  moreover have "complete_transaction i now c = Some c'"
    using p(3) pos by (simp add: complete_transaction_def Let_def find transaction_complete_def c'_def tx_def)
  ultimately show ?thesis using that live' by (simp add: c'_def)
qed

section \<open>Concurrent requests\<close>

text \<open>
  The tracker, the requests that missed under the read lock and wait for the write lock, and
  the locks that are alive.
\<close>

record tracker_system =
  tracker :: TransactionTracker
  waiting :: "(string \<times> u32 \<times> nat) list"
  locks :: "TransactionLock list"

definition hold :: "TransactionError + TransactionLock \<Rightarrow> TransactionLock list \<Rightarrow> TransactionLock list" where
  "hold r ls = (case r of Ok l \<Rightarrow> l # ls | Err _ \<Rightarrow> ls)"

inductive tracker_step :: "tracker_system \<Rightarrow> tracker_system \<Rightarrow> bool" where
  start_hit: "start_read client i now (tracker s) = Some (Some (r, t)) \<Longrightarrow>
    tracker_step s (s\<lparr> tracker := t, locks := hold r (locks s) \<rparr>)"
| start_miss: "start_read client i now (tracker s) = None \<Longrightarrow>
    tracker_step s (s\<lparr> waiting := (client, i, now) # waiting s \<rparr>)"
| start_insert: "(client, i, now) \<in> set (waiting s) \<Longrightarrow>
    start_write client i now (tracker s) = Some (r, t) \<Longrightarrow>
    tracker_step s (s\<lparr> tracker := t, waiting := remove1 (client, i, now) (waiting s),
                      locks := hold r (locks s) \<rparr>)"
| lock_dropped: "l \<in> set (locks s) \<Longrightarrow> drop_lock now l (tracker s) = Some t \<Longrightarrow>
    tracker_step s (s\<lparr> tracker := t, locks := remove1 l (locks s) \<rparr>)"
| cleaned: "tracker_step s (s\<lparr> tracker := cleanup now (tracker s) \<rparr>)"

definition tracker_init :: "nat \<Rightarrow> u16 \<Rightarrow> nat \<Rightarrow> tracker_system" where
  "tracker_init retention max_active trim =
     \<lparr> tracker = tracker_new retention max_active trim, waiting = [], locks = [] \<rparr>"

definition locks_at :: "nat \<Rightarrow> TransactionLock list \<Rightarrow> u32 set" where
  "locks_at a ls = lock_xid ` {l \<in> set ls. lock_addr l = a}"

definition lock_key :: "TransactionLock \<Rightarrow> nat \<times> u32" where
  "lock_key l = (lock_addr l, lock_xid l)"

text \<open>
  The invariant: the records are well formed, different clients have different records, and
  the transactions in progress in a record are exactly those of the locks alive on it.
\<close>

definition record_ok :: "TransactionTracker \<Rightarrow> TransactionLock list \<Rightarrow> nat \<Rightarrow> bool" where
  "record_ok t ls a \<longleftrightarrow> a < next_addr t \<and>
     (\<exists>c. store t a = Some c \<and> client_ok c \<and> live c = locks_at a ls \<and>
        max_active_transactions c = tracker_max_active t)"

definition tracker_ok :: "TransactionTracker \<Rightarrow> TransactionLock list \<Rightarrow> bool" where
  "tracker_ok t ls \<longleftrightarrow>
     unat (tracker_max_active t) < tracker_trim_limit t \<and>
     distinct (map fst (clients t)) \<and> distinct (map snd (clients t)) \<and>
     (\<forall>a \<in> snd ` set (clients t). record_ok t ls a) \<and>
     distinct (map lock_key ls) \<and> lock_addr ` set ls \<subseteq> snd ` set (clients t)"


lemma tracker_init_ok:
  "unat m < n \<Longrightarrow> tracker_ok (tracker (tracker_init r m n)) (locks (tracker_init r m n))"
  by (simp add: tracker_ok_def tracker_init_def tracker_new_def)

lemma map_of_client_addr: "map_of (clients t) client = Some a \<Longrightarrow> a \<in> snd ` set (clients t)"
  by (force dest: map_of_SomeD)

lemma tracker_ok_record:
  assumes "tracker_ok t ls" "a \<in> snd ` set (clients t)"
  obtains c where "store t a = Some c" "client_ok c" "live c = locks_at a ls"
    "max_active_transactions c = tracker_max_active t"
  using assms by (auto simp: tracker_ok_def record_ok_def)

text \<open>Replacing one record, with the locks that go with it, keeps the invariant.\<close>

lemma tracker_ok_update:
  assumes t: "tracker_ok t ls" and a: "a \<in> snd ` set (clients t)"
    and c: "client_ok c" "live c = locks_at a ls'" "max_active_transactions c = tracker_max_active t"
    and others: "\<And>b. b \<noteq> a \<Longrightarrow> locks_at b ls' = locks_at b ls"
    and ls': "distinct (map lock_key ls')" "lock_addr ` set ls' \<subseteq> snd ` set (clients t)"
  shows "tracker_ok (t\<lparr> store := (store t)(a \<mapsto> c) \<rparr>) ls'"
proof -
  have "record_ok (t\<lparr> store := (store t)(a \<mapsto> c) \<rparr>) ls' b" if "b \<in> snd ` set (clients t)" for b
    using t that c others [of b] by (cases "b = a") (auto simp: tracker_ok_def record_ok_def)
  then show ?thesis using t ls' by (auto simp: tracker_ok_def)
qed

lemma locks_at_Cons:
  "locks_at a (l # ls) = (if lock_addr l = a then insert (lock_xid l) (locks_at a ls) else locks_at a ls)"
  by (auto simp: locks_at_def)

lemma locks_at_iff: "i \<in> locks_at a ls \<longleftrightarrow> (a, i) \<in> lock_key ` set ls"
  by (force simp: locks_at_def lock_key_def)

lemma locks_at_remove1:
  assumes "distinct (map lock_key ls)" "l \<in> set ls"
  shows "locks_at a (remove1 l ls) = (if lock_addr l = a then locks_at a ls - {lock_xid l} else locks_at a ls)"
proof -
  have "distinct ls" using assms(1) by (simp add: distinct_map)
  moreover have "k = l" if "k \<in> set ls" "lock_addr k = lock_addr l" "lock_xid k = lock_xid l" for k
    using that assms by (auto simp: distinct_map lock_key_def inj_on_def)
  ultimately show ?thesis by (auto simp: locks_at_def)
qed

lemma lock_client_ok:
  assumes t: "tracker_ok t ls" and a: "a \<in> snd ` set (clients t)"
  obtains r t' where "lock_client a i now t = Some (r, t')" "tracker_ok t' (hold r ls)"
proof -
  obtain c where c: "store t a = Some c" "client_ok c" "live c = locks_at a ls"
    "max_active_transactions c = tracker_max_active t"
    by (rule tracker_ok_record [OF t a])
  have same: "tracker_ok (t\<lparr> store := (store t)(a \<mapsto> c\<lparr> last_active := now \<rparr>) \<rparr>) ls"
    using t c by (intro tracker_ok_update [OF t a]) (auto simp: tracker_ok_def)
  consider "i \<in> set (xids c)"
    | "i \<notin> set (xids c)" "max_active_transactions c \<le> active_transactions c"
    | "i \<notin> set (xids c)" "active_transactions c < max_active_transactions c" by fastforce
  then show ?thesis
  proof cases
    case 1
    have "lock_client a i now t =
        Some (Err AlreadyExists, t\<lparr> store := (store t)(a \<mapsto> c\<lparr> last_active := now \<rparr>) \<rparr>)"
      by (simp add: lock_client_def c(1) add_transaction_known [OF c(2) 1])
    then show ?thesis using that same by (simp add: hold_def)
  next
    case 2
    have "lock_client a i now t =
        Some (Err TooManyRequests, t\<lparr> store := (store t)(a \<mapsto> c\<lparr> last_active := now \<rparr>) \<rparr>)"
      by (simp add: lock_client_def c(1) add_transaction_full [OF c(2) 2])
    then show ?thesis using that same by (simp add: hold_def)
  next
    case 3
    obtain c' where c': "add_transaction i now c = (Ok (), c')" "client_ok c'"
      "live c' = insert i (live c)" "max_active_transactions c' = max_active_transactions c"
      by (rule add_transaction_new [OF c(2) 3])
    define l where "l = \<lparr> lock_addr = a, lock_xid = i, lock_retention = retention_period t \<rparr>"
    have "i \<notin> locks_at a ls" using 3 c(3) live_of_subset [of "transactions c"] by auto
    then have fresh: "lock_key l \<notin> lock_key ` set ls" by (simp add: locks_at_iff l_def lock_key_def)
    have "tracker_ok (t\<lparr> store := (store t)(a \<mapsto> c') \<rparr>) (l # ls)"
      using t a c c' fresh by (intro tracker_ok_update [OF t a]) (auto simp: locks_at_Cons l_def tracker_ok_def)
    moreover have "lock_client a i now t = Some (Ok l, t\<lparr> store := (store t)(a \<mapsto> c') \<rparr>)"
      by (simp add: lock_client_def c(1) c'(1) l_def)
    ultimately show ?thesis using that by (simp add: hold_def)
  qed
qed

lemma start_read_ok:
  assumes "tracker_ok t ls"
  shows "start_read client i now t = None \<or>
    (\<exists>r t'. start_read client i now t = Some (Some (r, t')) \<and> tracker_ok t' (hold r ls))"
proof (cases "map_of (clients t) client")
  case (Some a)
  obtain r t' where "lock_client a i now t = Some (r, t')" "tracker_ok t' (hold r ls)"
    by (rule lock_client_ok [OF assms map_of_client_addr [OF Some]])
  then show ?thesis by (simp add: start_read_def Some)
qed (simp add: start_read_def)

lemma tracker_ok_insert:
  assumes t: "tracker_ok t ls" and miss: "map_of (clients t) client = None"
    and c: "client_transactions_new now (tracker_max_active t) (tracker_trim_limit t) = Some c"
  shows "tracker_ok (t\<lparr> clients := (client, next_addr t) # clients t,
     store := (store t)(next_addr t \<mapsto> c), next_addr := next_addr t + 1 \<rparr>) ls"
proof -
  have fresh: "next_addr t \<notin> snd ` set (clients t)"
    using t by (force simp: tracker_ok_def record_ok_def)
  then have "locks_at (next_addr t) ls = {}" using t by (force simp: tracker_ok_def locks_at_def)
  moreover have "max_active_transactions c = tracker_max_active t"
    using c by (auto simp: client_transactions_new_def split: if_splits)
  ultimately show ?thesis using t fresh new_client_ok [OF c] miss
    by (auto simp: tracker_ok_def record_ok_def map_of_eq_None_iff less_Suc_eq)
qed

lemma start_write_ok:
  assumes "tracker_ok t ls"
  shows "\<exists>r t'. start_write client i now t = Some (r, t') \<and> tracker_ok t' (hold r ls)"
proof (cases "map_of (clients t) client")
  case (Some a)
  obtain r t' where "lock_client a i now t = Some (r, t')" "tracker_ok t' (hold r ls)"
    by (rule lock_client_ok [OF assms map_of_client_addr [OF Some]])
  then show ?thesis by (simp add: start_write_def Some)
next
  case None
  obtain c where c: "client_transactions_new now (tracker_max_active t) (tracker_trim_limit t) = Some c"
    using assms by (auto simp: client_transactions_new_def tracker_ok_def)
  obtain r t' where "lock_client (next_addr t) i now (t\<lparr> clients := (client, next_addr t) # clients t,
       store := (store t)(next_addr t \<mapsto> c), next_addr := next_addr t + 1 \<rparr>) = Some (r, t')"
    "tracker_ok t' (hold r ls)"
    by (rule lock_client_ok [OF tracker_ok_insert [OF assms None c], of "next_addr t" i now]) auto
  then show ?thesis by (simp add: start_write_def None c)
qed

lemma drop_lock_ok:
  assumes t: "tracker_ok t ls" and l: "l \<in> set ls"
  shows "\<exists>t'. drop_lock now l t = Some t' \<and> tracker_ok t' (remove1 l ls)"
proof -
  have a: "lock_addr l \<in> snd ` set (clients t)" and d: "distinct (map lock_key ls)"
    using t l by (auto simp: tracker_ok_def)
  obtain c where c: "store t (lock_addr l) = Some c" "client_ok c" "live c = locks_at (lock_addr l) ls"
    "max_active_transactions c = tracker_max_active t"
    by (rule tracker_ok_record [OF t a])
  have "lock_xid l \<in> live c" using l c(3) by (auto simp: locks_at_def)
  then obtain c1 where c1: "complete_transaction (lock_xid l) now c = Some c1" "client_ok c1"
    "live c1 = live c - {lock_xid l}" "max_active_transactions c1 = max_active_transactions c"
    by (rule complete_transaction_live [OF c(2)])
  let ?c2 = "remove_old_transactions now (lock_retention l) c1"
  have c2: "client_ok ?c2" "live ?c2 = locks_at (lock_addr l) (remove1 l ls)"
    "max_active_transactions ?c2 = tracker_max_active t"
    using remove_old_transactions_ok [OF c1(2)] c1(3,4) c(3,4) locks_at_remove1 [OF d l]
    by (simp_all add: remove_old_transactions_def)
  have "tracker_ok (t\<lparr> store := (store t)(lock_addr l \<mapsto> ?c2) \<rparr>) (remove1 l ls)"
    using t by (intro tracker_ok_update [OF t a c2])
      (auto simp: locks_at_remove1 [OF d l] tracker_ok_def distinct_map intro: inj_on_subset
        dest: notin_set_remove1 [THEN contrapos_nn])
  then show ?thesis by (simp add: drop_lock_def c(1) c1(1))
qed


definition client_active :: "nat \<Rightarrow> nat \<Rightarrow> (nat \<Rightarrow> ClientTransactions option) \<Rightarrow> string \<times> nat \<Rightarrow> bool" where
  "client_active now age st ca \<longleftrightarrow>
     (case st (snd ca) of None \<Rightarrow> False | Some c \<Rightarrow> is_active now age c)"

lemma retain_clients_result:
  "distinct (map snd cs) \<Longrightarrow> retain_clients now age cs st = (cs', st') \<Longrightarrow>
     cs' = filter (client_active now age st) cs \<and>
     st' = (\<lambda>a. if a \<in> snd ` set cs' then map_option (remove_old_transactions now age) (st a) else st a)"
proof (induction cs arbitrary: st cs' st')
  case (Cons ca cs)
  obtain client a where ca: "ca = (client, a)" by fastforce
  show ?case
  proof (cases "client_active now age st ca")
    case False
    then have "retain_clients now age (ca # cs) st = retain_clients now age cs st"
      by (auto simp: ca client_active_def split: option.splits)
    with False Cons show ?thesis by simp
  next
    case True
    then obtain c where c: "st a = Some c" "is_active now age c"
      by (auto simp: ca client_active_def split: option.splits)
    let ?st = "st(a \<mapsto> remove_old_transactions now age c)"
    obtain cs1 st1 where r: "retain_clients now age cs ?st = (cs1, st1)" by fastforce
    have fresh: "a \<notin> snd ` set cs" using Cons.prems(1) by (simp add: ca)
    have same: "filter (client_active now age ?st) cs = filter (client_active now age st) cs"
      using fresh by (intro filter_cong) (auto simp: client_active_def)
    have "distinct (map snd cs)" using Cons.prems(1) by simp
    note step = Cons.IH [OF this r, unfolded same]
    have IH: "cs1 = filter (client_active now age st) cs"
      "st1 = (\<lambda>b. if b \<in> snd ` set cs1 then map_option (remove_old_transactions now age) (?st b) else ?st b)"
      using step by blast+
    have "a \<notin> snd ` set cs1" using fresh IH(1) by auto
    then have "st1 = (\<lambda>b. if b \<in> snd ` set (ca # cs1)
        then map_option (remove_old_transactions now age) (st b) else st b)"
      using c(1) by (auto simp: fun_eq_iff IH(2) ca)
    then show ?thesis using True Cons.prems(2) c r IH(1) by (auto simp: ca)
  qed
qed auto

lemma cleanup_eq:
  assumes "distinct (map snd (clients t))"
  shows "clients (cleanup now t) = filter (client_active now (retention_period t) (store t)) (clients t)"
    "store (cleanup now t) = (\<lambda>a. if a \<in> snd ` set (clients (cleanup now t))
       then map_option (remove_old_transactions now (retention_period t)) (store t a) else store t a)"
    "tracker_max_active (cleanup now t) = tracker_max_active t"
    "tracker_trim_limit (cleanup now t) = tracker_trim_limit t" "next_addr (cleanup now t) = next_addr t"
    "retention_period (cleanup now t) = retention_period t"
  using retain_clients_result [OF assms, of now "retention_period t" "store t"]
  by (auto simp: cleanup_def split: prod.splits)

lemma in_progress_not_stale: "is_in_progress tx \<Longrightarrow> \<not> is_stale now age tx"
  by (simp add: is_stale_def)

lemma live_is_active: "i \<in> live c \<Longrightarrow> is_active now age c"
  by (auto simp: live_of_def is_active_def has_active_transactions_def dest: in_progress_not_stale)

lemma cleanup_ok:
  assumes t: "tracker_ok t ls"
  shows "tracker_ok (cleanup now t) ls"
proof -
  have d: "distinct (map snd (clients t))" using t by (simp add: tracker_ok_def)
  note eq = cleanup_eq [OF d, of now]
  have sub: "set (clients (cleanup now t)) \<subseteq> set (clients t)" by (auto simp: eq(1))
  have rec: "record_ok (cleanup now t) ls a" if a: "a \<in> snd ` set (clients (cleanup now t))" for a
  proof -
    have "a \<in> snd ` set (clients t)" using a sub by auto
    then obtain c where c: "store t a = Some c" "client_ok c" "live c = locks_at a ls"
      "max_active_transactions c = tracker_max_active t" "a < next_addr t"
      using t by (auto simp: tracker_ok_def record_ok_def)
    have "store (cleanup now t) a = Some (remove_old_transactions now (retention_period t) c)"
      using a c(1) by (simp add: eq(2))
    then show ?thesis
      using remove_old_transactions_ok [OF c(2)] c
      by (simp add: record_ok_def eq remove_old_transactions_def)
  qed
  have "lock_addr l \<in> snd ` set (clients (cleanup now t))" if l: "l \<in> set ls" for l
  proof -
    from t l have a: "lock_addr l \<in> snd ` set (clients t)" by (auto simp: tracker_ok_def)
    obtain c where c: "store t (lock_addr l) = Some c" "live c = locks_at (lock_addr l) ls"
      by (rule tracker_ok_record [OF t a])
    then have "lock_xid l \<in> live c" using l by (auto simp: locks_at_def)
    then have "is_active now (retention_period t) c" by (rule live_is_active)
    then show ?thesis using a c(1) by (force simp: eq(1) client_active_def)
  qed
  then show ?thesis using t rec
    by (auto simp: tracker_ok_def eq distinct_map_filter)
qed

lemma tracker_step_ok:
  assumes "tracker_step s s'" "tracker_ok (tracker s) (locks s)"
  shows "tracker_ok (tracker s') (locks s')"
  using assms
proof cases
  case (start_hit client i now r t)
  then show ?thesis using start_read_ok [OF assms(2), of client i now] by auto
next
  case (start_insert client i now r t)
  then show ?thesis using start_write_ok [OF assms(2), of client i now] by auto
next
  case (lock_dropped l now t)
  then show ?thesis using drop_lock_ok [OF assms(2), of l now] by auto
qed (simp_all add: assms(2) cleanup_ok)

definition tracker_reachable :: "nat \<Rightarrow> u16 \<Rightarrow> nat \<Rightarrow> tracker_system \<Rightarrow> bool" where
  "tracker_reachable retention max_active trim s \<longleftrightarrow>
     tracker_step\<^sup>*\<^sup>* (tracker_init retention max_active trim) s"

lemma tracker_reachable_ok:
  assumes "unat m < n" "tracker_reachable r m n s"
  shows "tracker_ok (tracker s) (locks s)"
  using assms(2) unfolding tracker_reachable_def
  by (induction rule: rtranclp_induct) (simp_all add: tracker_init_ok assms(1) tracker_step_ok)

lemma client_of_addr:
  assumes "tracker_ok t ls" "a \<in> snd ` set (clients t)"
  obtains client where "map_of (clients t) client = Some a"
proof -
  from assms(2) obtain client where "(client, a) \<in> set (clients t)" by auto
  then show ?thesis using assms(1) that by (auto simp: tracker_ok_def)
qed

lemma start_transaction_known:
  assumes "tracker_ok t ls" "map_of (clients t) client = Some a" "store t a = Some c" "i \<in> set (xids c)"
  shows "\<exists>t'. start_transaction client i now t = Some (Err AlreadyExists, t')"
proof -
  have "client_ok c"
    using tracker_ok_record [OF assms(1) map_of_client_addr [OF assms(2)]] assms(3) by auto
  from add_transaction_known [OF this assms(4), of now]
  show ?thesis by (simp add: start_transaction_def start_read_def lock_client_def assms(2,3))
qed

lemma remove_old_loop_keeps:
  "tx \<in> set txs \<Longrightarrow> \<not> is_stale now age tx \<Longrightarrow> tx \<in> set (remove_old_loop now age txs)"
  by (induction txs) auto

lemma complete_transaction_completes:
  assumes "client_ok c" "i \<in> live c" "complete_transaction i now c = Some c'"
  shows "\<exists>tx \<in> set (transactions c'). Transaction.xid tx = i \<and> Transaction.state tx = Completed now"
proof -
  obtain p where p: "p < length (transactions c)" "Transaction.xid (transactions c ! p) = i"
    "is_in_progress (transactions c ! p)"
    using assms(2) by (auto simp: live_of_def in_set_conv_nth)
  then have "find_transaction i c = Ok p"
    by (simp add: find_transaction_Ok [OF client_okD [OF assms(1)]])
  then have "transactions c' = (transactions c)[p := (transactions c ! p)\<lparr> Transaction.state := Completed now \<rparr>]"
    using assms(3) p(3) by (auto simp: complete_transaction_def Let_def transaction_complete_def split: if_splits)
  then show ?thesis using p set_update_memI [OF p(1)]
    by (intro bexI [of _ "(transactions c ! p)\<lparr> Transaction.state := Completed now \<rparr>"]) simp_all
qed

lemma drop_lock_completed:
  assumes s: "tracker_ok t ls" and l: "l \<in> set ls" and drop: "drop_lock now l t = Some t'"
  obtains c tx where "store t' (lock_addr l) = Some c" "tx \<in> set (transactions c)"
    "Transaction.xid tx = lock_xid l" "Transaction.state tx = Completed now" "clients t' = clients t"
proof -
  have "lock_addr l \<in> snd ` set (clients t)" using s l by (auto simp: tracker_ok_def)
  then obtain c where c: "store t (lock_addr l) = Some c" "client_ok c" "live c = locks_at (lock_addr l) ls"
    by (rule tracker_ok_record [OF s])
  then have live: "lock_xid l \<in> live c" using l by (auto simp: locks_at_def)
  from drop c(1) obtain c1 where c1: "complete_transaction (lock_xid l) now c = Some c1"
    and t': "t' = t\<lparr> store := (store t)(lock_addr l \<mapsto> remove_old_transactions now (lock_retention l) c1) \<rparr>"
    by (auto simp: drop_lock_def split: option.splits)
  obtain tx where tx: "tx \<in> set (transactions c1)" "Transaction.xid tx = lock_xid l"
    "Transaction.state tx = Completed now"
    using complete_transaction_completes [OF c(2) live c1] by blast
  have "\<not> is_stale now (lock_retention l) tx" using tx(3) by (simp add: is_stale_def)
  from remove_old_loop_keeps [OF tx(1) this] tx show ?thesis
    by (intro that [of "remove_old_transactions now (lock_retention l) c1" tx])
       (simp_all add: t' remove_old_transactions_def)
qed

text \<open>A finished request is known, also after a clean-up within the retention period.\<close>

lemma drop_lock_known:
  assumes s: "tracker_ok t0 ls" and l: "l \<in> set ls"
    and client: "map_of (clients t0) client = Some (lock_addr l)"
    and drop: "drop_lock now l t0 = Some t"
    and soon: "cleaned - now \<le> retention_period t"
  shows "(\<exists>t'. start_transaction client (lock_xid l) later t = Some (Err AlreadyExists, t')) \<and>
    (\<exists>t'. start_transaction client (lock_xid l) later (cleanup cleaned t) = Some (Err AlreadyExists, t'))"
proof -
  obtain c tx where c: "store t (lock_addr l) = Some c" and tx: "tx \<in> set (transactions c)"
    "Transaction.xid tx = lock_xid l" "Transaction.state tx = Completed now" and t: "clients t = clients t0"
    by (rule drop_lock_completed [OF s l drop])
  have ok: "tracker_ok t (remove1 l ls)" using drop_lock_ok [OF s l, of now] drop by auto
  have fresh: "\<not> is_stale cleaned (retention_period t) tx" using soon tx(3) by (simp add: is_stale_def)
  have d: "distinct (map snd (clients t))" "distinct (map fst (clients t))" using ok by (simp_all add: tracker_ok_def)
  have "client_active cleaned (retention_period t) (store t) (client, lock_addr l)"
    using fresh tx(1) c by (auto simp: client_active_def is_active_def has_active_transactions_def)
  then have mem: "(client, lock_addr l) \<in> set (clients (cleanup cleaned t))"
    using map_of_SomeD [OF client] t by (simp add: cleanup_eq(1) [OF d(1)])
  have ok': "tracker_ok (cleanup cleaned t) (remove1 l ls)" by (rule cleanup_ok [OF ok])
  then have client': "map_of (clients (cleanup cleaned t)) client = Some (lock_addr l)"
    using mem by (simp add: tracker_ok_def)
  have c': "store (cleanup cleaned t) (lock_addr l) =
      Some (remove_old_transactions cleaned (retention_period t) c)"
    using mem c by (subst cleanup_eq(2) [OF d(1)]) force
  have "lock_xid l \<in> set (xids (remove_old_transactions cleaned (retention_period t) c))"
    using remove_old_loop_keeps [OF tx(1) fresh] tx(2) by (force simp: remove_old_transactions_def)
  then have "\<exists>t'. start_transaction client (lock_xid l) later (cleanup cleaned t) = Some (Err AlreadyExists, t')"
    by (rule start_transaction_known [OF ok' client' c'])
  moreover have "\<exists>t'. start_transaction client (lock_xid l) later t = Some (Err AlreadyExists, t')"
    by (rule start_transaction_known [OF ok _ c]) (use client t tx in \<open>auto intro: rev_image_eqI\<close>)
  ultimately show ?thesis by blast
qed

lemma start_transaction_ok:
  assumes "tracker_ok t ls"
  shows "\<exists>r t'. start_transaction client i now t = Some (r, t') \<and> tracker_ok t' (hold r ls)"
  using start_read_ok [OF assms, of client i now] start_write_ok [OF assms, of client i now]
  by (auto simp: start_transaction_def)

lemma start_transaction_lock:
  assumes "start_transaction client i now t = Some (Ok l, t')"
  shows "lock_xid l = i \<and> map_of (clients t') client = Some (lock_addr l)"
  using assms
  by (auto simp: start_transaction_def start_read_def start_write_def lock_client_def Let_def result_simps
      split: option.splits prod.splits)

section \<open>Properties\<close>

text \<open>
  C38: the tracker's search.  On a record whose transactions are sorted by their xid, the search
  finds the position of the transaction with the given xid, and otherwise the position that
  keeps the list sorted.
\<close>

theorem find_transaction_correct:
  assumes "sorted_wrt (<) (map Transaction.xid (transactions c))"
  shows "(find_transaction i c = Ok p \<longleftrightarrow>
      p < length (transactions c) \<and> Transaction.xid (transactions c ! p) = i) \<and>
    (find_transaction i c = Err q \<longrightarrow>
      sorted_wrt (<) (take q (map Transaction.xid (transactions c)) @ i #
                      drop q (map Transaction.xid (transactions c))))"
  using find_transaction_Ok [OF assms] find_transaction_result [OF assms, of i]
    insert_sorted [OF assms, of i q]
  by (auto simp: search_result_def)

theorem find_transaction_correct_witness:
  "let c = \<lparr> transactions = [in_progress 3, in_progress 7, in_progress 9], last_active = 0,
             active_transactions = 3, max_active_transactions = 8, trim_limit = 10 \<rparr>
   in find_transaction 7 c = Ok 1"
  unfolding Let_def
  by (rule find_transaction_correct [THEN conjunct1, THEN iffD2]) (simp_all add: in_progress_def)

text \<open>
  C4: whatever the interleaving of requests, dropped locks and clean-ups, no request is executed
  twice at a time: the live locks are for different transactions, each is for a known client,
  and a retransmission of its request by that client is refused.
\<close>

theorem request_in_progress_not_restarted:
  assumes "unat m < n" "tracker_reachable r m n s"
    and l: "l \<in> set (locks s)"
  shows "distinct (map lock_key (locks s)) \<and>
    (\<exists>client. map_of (clients (tracker s)) client = Some (lock_addr l) \<and>
      (\<forall>now. \<exists>t. start_transaction client (lock_xid l) now (tracker s) = Some (Err AlreadyExists, t)))"
proof -
  note t = tracker_reachable_ok [OF assms(1,2)]
  from l have a: "lock_addr l \<in> snd ` set (clients (tracker s))" using t by (auto simp: tracker_ok_def)
  obtain client where client: "map_of (clients (tracker s)) client = Some (lock_addr l)"
    by (rule client_of_addr [OF t a])
  obtain c where c: "store (tracker s) (lock_addr l) = Some c" "live c = locks_at (lock_addr l) (locks s)"
    by (rule tracker_ok_record [OF t a])
  have "lock_xid l \<in> set (xids c)"
    using l c(2) live_of_subset [of "transactions c"] by (auto simp: locks_at_def)
  then show ?thesis
    using t client start_transaction_known [OF t client c(1)] by (auto simp: tracker_ok_def)
qed

text \<open>One client, one request in progress, in a system that allows two of four.\<close>

definition one_request :: tracker_system where
  "one_request =
     (let c = \<lparr> transactions = [in_progress 5], last_active = 1, active_transactions = 1,
                max_active_transactions = 2, trim_limit = 4 \<rparr>
      in \<lparr> tracker = \<lparr> retention_period = 60, clients = [(''host'', 0)], tracker_max_active = 2,
                        tracker_trim_limit = 4, store = [0 \<mapsto> c], next_addr = 1 \<rparr>,
           waiting = [],
           locks = [\<lparr> lock_addr = 0, lock_xid = 5, lock_retention = 60 \<rparr>] \<rparr>)"

lemma one_request_reachable: "tracker_reachable 60 2 4 one_request"
proof -
  define s where "s = (tracker_init 60 2 4)\<lparr> waiting := [(''host'', 5, 1)] \<rparr>"
  have "start_read ''host'' 5 1 (tracker (tracker_init 60 2 4)) = None"
    by (simp add: tracker_init_def tracker_new_def start_read_def)
  from start_miss [OF this] have 1: "tracker_step (tracker_init 60 2 4) s"
    by (simp add: s_def tracker_init_def)
  have w: "start_write ''host'' 5 1 (tracker s) = Some (Ok \<lparr> lock_addr = 0, lock_xid = 5, lock_retention = 60 \<rparr>,
      tracker one_request)"
    by (simp add: s_def tracker_init_def tracker_new_def start_write_def client_transactions_new_def
        lock_client_def add_transaction_def find_transaction_def trim_if_needed_def one_request_def
        in_progress_def Let_def)
  from start_insert [OF _ w] have "tracker_step s one_request"
    by (simp add: s_def tracker_init_def hold_def one_request_def Let_def)
  with 1 show ?thesis unfolding tracker_reachable_def by (meson converse_rtranclp_into_rtranclp r_into_rtranclp)
qed

theorem request_in_progress_not_restarted_witness:
  "\<exists>l \<in> set (locks one_request). \<exists>client. map_of (clients (tracker one_request)) client = Some (lock_addr l) \<and>
      (\<forall>now. \<exists>t. start_transaction client (lock_xid l) now (tracker one_request) = Some (Err AlreadyExists, t))"
proof -
  have l: "\<lparr> lock_addr = 0, lock_xid = 5, lock_retention = 60 \<rparr> \<in> set (locks one_request)"
    by (simp add: one_request_def Let_def)
  from request_in_progress_not_restarted [OF _ one_request_reachable l]
  show ?thesis by (intro bexI [OF _ l]) simp
qed

text \<open>
  C14: no sequence of steps leads to a state in which the tracker panics: starting a transaction,
  under either lock, dropping a live lock, and with it the assertion that a transaction is
  completed once and the counter of active transactions.
\<close>

theorem tracker_never_panics:
  assumes "unat m < n" "tracker_reachable r m n s"
  shows "start_transaction client i now (tracker s) \<noteq> None \<and>
    start_write client i now (tracker s) \<noteq> None \<and>
    (\<forall>l \<in> set (locks s). drop_lock now l (tracker s) \<noteq> None)"
proof -
  note t = tracker_reachable_ok [OF assms]
  have "start_transaction client i now (tracker s) \<noteq> None"
    using start_read_ok [OF t, of client i now] start_write_ok [OF t, of client i now]
    by (auto simp: start_transaction_def)
  then show ?thesis
    using start_write_ok [OF t, of client i now] drop_lock_ok [OF t] by fastforce
qed

theorem tracker_never_panics_witness:
  "start_transaction ''other'' 9 3 (tracker one_request) \<noteq> None"
  using tracker_never_panics [OF _ one_request_reachable, of "''other''" 9 3] by simp

text \<open>
  A request is turned away for lack of room exactly when its transaction is not known and
  the client has as many live locks as allowed; the client never has more.
\<close>

theorem too_many_requests_iff:
  assumes "unat m < n" "tracker_reachable r m n s"
    and "map_of (clients (tracker s)) client = Some a" "store (tracker s) a = Some c"
  shows "((\<exists>t. start_transaction client i now (tracker s) = Some (Err TooManyRequests, t)) \<longleftrightarrow>
      i \<notin> Transaction.xid ` set (transactions c) \<and>
      card (locks_at a (locks s)) = unat (tracker_max_active (tracker s))) \<and>
    card (locks_at a (locks s)) \<le> unat (tracker_max_active (tracker s))"
proof -
  note t = tracker_reachable_ok [OF assms(1,2)]
  have c: "client_ok c" "live c = locks_at a (locks s)"
      "max_active_transactions c = tracker_max_active (tracker s)"
    using tracker_ok_record [OF t map_of_client_addr [OF assms(3)]] assms(4) by auto
  have count: "unat (active_transactions c) = card (locks_at a (locks s))"
    "active_transactions c \<le> max_active_transactions c" using c by (simp_all add: client_ok_def)
  then have le: "card (locks_at a (locks s)) \<le> unat (tracker_max_active (tracker s))"
    using c(3) by (simp add: word_le_nat_alt)
  have full: "max_active_transactions c \<le> active_transactions c \<longleftrightarrow>
      card (locks_at a (locks s)) = unat (tracker_max_active (tracker s))"
    using count c(3) by (auto simp: word_le_nat_alt)
  have start: "start_transaction client i now (tracker s) = lock_client a i now (tracker s)"
    by (simp add: start_transaction_def start_read_def assms(3))
  consider "i \<in> set (xids c)"
    | "i \<notin> set (xids c)" "max_active_transactions c \<le> active_transactions c"
    | "i \<notin> set (xids c)" "active_transactions c < max_active_transactions c" by fastforce
  then have "(\<exists>t. lock_client a i now (tracker s) = Some (Err TooManyRequests, t)) \<longleftrightarrow>
      i \<notin> Transaction.xid ` set (transactions c) \<and> max_active_transactions c \<le> active_transactions c"
  proof cases
    case 3
    obtain c' where "add_transaction i now c = (Ok (), c')" by (rule add_transaction_new [OF c(1) 3])
    then show ?thesis using 3 by (simp add: lock_client_def assms(4) not_le)
  qed (simp_all add: lock_client_def assms(4) add_transaction_known [OF c(1)] add_transaction_full [OF c(1)])
  with le show ?thesis by (simp only: start full simp_thms)
qed

theorem too_many_requests_iff_witness:
  "\<not> (\<exists>t. start_transaction ''host'' 6 2 (tracker one_request) = Some (Err TooManyRequests, t))"
proof -
  have l: "locks_at 0 (locks one_request) = {5}" "tracker_max_active (tracker one_request) = 2"
    by (auto simp: locks_at_def one_request_def Let_def)
  have "map_of (clients (tracker one_request)) ''host'' = Some 0" by (simp add: one_request_def Let_def)
  moreover have "store (tracker one_request) 0 = Some \<lparr> transactions = [in_progress 5], last_active = 1,
      active_transactions = 1, max_active_transactions = 2, trim_limit = 4 \<rparr>"
    by (simp add: one_request_def Let_def)
  ultimately show ?thesis
    using too_many_requests_iff [OF _ one_request_reachable, of "''host''" 0 _ 6 2] by (simp add: l)
qed

text \<open>
  A finished request is remembered.  After its lock is dropped, a retransmission by its
  client is refused, also after a clean-up within the retention period.
\<close>

theorem completed_request_remembered:
  assumes "unat m < n" "tracker_reachable r m n s" and l: "l \<in> set (locks s)"
    and client: "map_of (clients (tracker s)) client = Some (lock_addr l)"
    and drop: "drop_lock now l (tracker s) = Some t"
    and soon: "cleaned - now \<le> retention_period t"
  shows "(\<exists>t'. start_transaction client (lock_xid l) later t = Some (Err AlreadyExists, t')) \<and>
    (\<exists>t'. start_transaction client (lock_xid l) later (cleanup cleaned t) = Some (Err AlreadyExists, t'))"
  by (rule drop_lock_known [OF tracker_reachable_ok [OF assms(1,2)] l client drop soon])

theorem completed_request_remembered_witness:
  "let l = \<lparr> lock_addr = 0, lock_xid = 5, lock_retention = 60 \<rparr> in
   \<exists>t t'. drop_lock 10 l (tracker one_request) = Some t \<and>
     start_transaction ''host'' 5 80 (cleanup 70 t) = Some (Err AlreadyExists, t')"
proof -
  let ?l = "\<lparr> lock_addr = 0, lock_xid = 5, lock_retention = 60 \<rparr>"
  have l: "?l \<in> set (locks one_request)" "map_of (clients (tracker one_request)) ''host'' = Some (lock_addr ?l)"
    "store (tracker one_request) 0 \<noteq> None"
    by (simp_all add: one_request_def Let_def)
  obtain t where t: "drop_lock 10 ?l (tracker one_request) = Some t"
    using drop_lock_ok [OF tracker_reachable_ok [OF _ one_request_reachable] l(1), of 10] by auto
  then have "retention_period t = 60"
    by (auto simp: drop_lock_def one_request_def Let_def split: option.splits)
  then show ?thesis
    using completed_request_remembered [OF _ one_request_reachable l(1,2) t, of 70 80] t by simp
qed

end
