(* ===== verification/Nfs_Handlers.thy ===== *)
theory Nfs_Handlers
  imports Rpc_Messages
begin

text \<open>
  The NFSv3 procedures of the server (\<^verbatim>\<open>nfs3_server/src/nfs_handlers.rs\<close>), one definition
  per handler, over any file system \<open>vfs ctx\<close>, and the dispatcher \<^verbatim>\<open>handle_nfs\<close>.  Log
  output is left out.
\<close>

unbundle bit_operations_syntax

section \<open>Shared pieces\<close>

definition wcc_none :: wcc_data where
  "wcc_none = \<lparr> wcc_data.before = None, wcc_data.after = None \<rparr>"

definition to_fh :: "('s, 'h, 'i, 'p) RPCContext \<Rightarrow> 'h \<Rightarrow> nfs_fh3" where
  "to_fh ctx h = fh_to_nfs (vfs_handle (vfs ctx)) (file_handle_converter ctx) h"

text \<open>The macro \<^verbatim>\<open>fh_to_id!\<close>: an early return with the status and the default failure value.\<close>

definition fh_to_id ::
  "('s, 'h, 'i, 'p) RPCContext \<Rightarrow> nfs_fh3 \<Rightarrow> 'e \<Rightarrow> ('h \<Rightarrow> ('s, ('t, 'e) nfs3_result) prog) \<Rightarrow>
     ('s, ('t, 'e) nfs3_result) prog" where
  "fh_to_id ctx fh dflt k =
     (case fh_from_nfs (vfs_handle (vfs ctx)) (file_handle_converter ctx) fh of
        Err stat \<Rightarrow> ret (Nfs3Err stat dflt)
      | Ok h \<Rightarrow> k h)"

definition nfs_option_from_result :: "'e + 'a \<Rightarrow> 'a option" where
  "nfs_option_from_result r = (case r of Err _ \<Rightarrow> None | Ok x \<Rightarrow> Some x)"

definition get_wcc_attr ::
  "('s, 'h, 'i, 'p) RPCContext \<Rightarrow> 'h \<Rightarrow> ('s, nfsstat3 + wcc_attr) prog" where
  "get_wcc_attr ctx h = await (vfs_getattr (vfs ctx) h) (\<lambda>r.
     ret (map_ok (\<lambda>a. \<lparr> wcc_attr.size = fattr3.size a, wcc_attr.mtime = fattr3.mtime a,
                        wcc_attr.ctime = fattr3.ctime a \<rparr>) r))"

text \<open>
  The guard at the start of every modifying procedure:
  \<^verbatim>\<open>if !matches!(context.vfs.capabilities(), VFSCapabilities::ReadWrite)\<close>.
\<close>

definition require_write ::
  "('s, 'h, 'i, 'p) RPCContext \<Rightarrow> 'e \<Rightarrow> ('s, ('t, 'e) nfs3_result) prog \<Rightarrow> ('s, ('t, 'e) nfs3_result) prog" where
  "require_write ctx dflt m s =
     (if vfs_capabilities (vfs ctx) s \<noteq> ReadWrite then Some (Nfs3Err NFS3ERR_ROFS dflt, s) else m s)"

section \<open>Reading procedures\<close>

definition nfsproc3_null :: "('s, 'h, 'i, 'p) RPCContext \<Rightarrow> u32 \<Rightarrow> unit \<Rightarrow> ('s, unit) prog" where
  "nfsproc3_null ctx x args = ret ()"

definition nfsproc3_getattr ::
  "('s, 'h, 'i, 'p) RPCContext \<Rightarrow> u32 \<Rightarrow> GETATTR3args \<Rightarrow> ('s, GETATTR3res) prog" where
  "nfsproc3_getattr ctx x args =
     fh_to_id ctx (GETATTR3args.object args) () (\<lambda>h.
       await (vfs_getattr (vfs ctx) h) (\<lambda>r. case r of
         Ok a \<Rightarrow> ret (Nfs3Ok \<lparr> GETATTR3resok.obj_attributes = a \<rparr>)
       | Err stat \<Rightarrow> ret (Nfs3Err stat ())))"

definition nfsproc3_lookup ::
  "('s, 'h, 'i, 'p) RPCContext \<Rightarrow> u32 \<Rightarrow> LOOKUP3args \<Rightarrow> ('s, LOOKUP3res) prog" where
  "nfsproc3_lookup ctx x args =
     (let dirops = LOOKUP3args.what args in
      fh_to_id ctx (diropargs3.dir dirops) \<lparr> LOOKUP3resfail.dir_attributes = None \<rparr> (\<lambda>dirid.
        await (vfs_getattr (vfs ctx) dirid) (\<lambda>da.
        let dir_attr = nfs_option_from_result da in
        await (vfs_lookup (vfs ctx) dirid (diropargs3.name dirops)) (\<lambda>r. case r of
          Ok fid \<Rightarrow> await (vfs_getattr (vfs ctx) fid) (\<lambda>oa.
            ret (Nfs3Ok \<lparr> LOOKUP3resok.object = to_fh ctx fid,
                          LOOKUP3resok.obj_attributes = nfs_option_from_result oa,
                          LOOKUP3resok.dir_attributes = dir_attr \<rparr>))
        | Err stat \<Rightarrow> ret (Nfs3Err stat \<lparr> LOOKUP3resfail.dir_attributes = dir_attr \<rparr>)))))"

text \<open>\<^verbatim>\<open>u32::try_from(bytes.len()).expect(..)\<close> panics when more than \<open>2 ^ 32\<close> bytes come back.\<close>

definition nfsproc3_read ::
  "('s, 'h, 'i, 'p) RPCContext \<Rightarrow> u32 \<Rightarrow> READ3args \<Rightarrow> ('s, READ3res) prog" where
  "nfsproc3_read ctx x args =
     fh_to_id ctx (READ3args.file' args) \<lparr> READ3resfail.file_attributes = None \<rparr> (\<lambda>h.
       await (vfs_getattr (vfs ctx) h) (\<lambda>fa.
       let file_attr = nfs_option_from_result fa in
       await (vfs_read (vfs ctx) h (READ3args.offset args) (READ3args.count args)) (\<lambda>r. case r of
         Ok (bs, is_eof) \<Rightarrow>
           (case u32_try_from (length bs) of
              None \<Rightarrow> panic
            | Some n \<Rightarrow> ret (Nfs3Ok \<lparr> READ3resok.file_attributes = file_attr, READ3resok.count = n,
                                       READ3resok.eof = is_eof, READ3resok.data = bs \<rparr>))
       | Err stat \<Rightarrow> ret (Nfs3Err stat \<lparr> READ3resfail.file_attributes = file_attr \<rparr>))))"

definition nfsproc3_fsinfo ::
  "('s, 'h, 'i, 'p) RPCContext \<Rightarrow> u32 \<Rightarrow> FSINFO3args \<Rightarrow> ('s, FSINFO3res) prog" where
  "nfsproc3_fsinfo ctx x args =
     fh_to_id ctx (FSINFO3args.fsroot args) \<lparr> FSINFO3resfail.obj_attributes = None \<rparr> (\<lambda>h.
       await (vfs_fsinfo (vfs ctx) h) (\<lambda>r. case r of
         Ok fsinfo \<Rightarrow> ret (Nfs3Ok fsinfo)
       | Err stat \<Rightarrow> ret (Nfs3Err stat \<lparr> FSINFO3resfail.obj_attributes = None \<rparr>)))"

definition nfsproc3_access ::
  "('s, 'h, 'i, 'p) RPCContext \<Rightarrow> u32 \<Rightarrow> ACCESS3args \<Rightarrow> ('s, ACCESS3res) prog" where
  "nfsproc3_access ctx x args =
     fh_to_id ctx (ACCESS3args.object args) \<lparr> ACCESS3resfail.obj_attributes = None \<rparr> (\<lambda>h.
       await (vfs_getattr (vfs ctx) h) (\<lambda>oa s.
         let acc = ACCESS3args.access args;
             acc = (if vfs_capabilities (vfs ctx) s \<noteq> ReadWrite
                    then acc AND (ACCESS3_READ OR ACCESS3_LOOKUP) else acc) in
         Some (Nfs3Ok \<lparr> ACCESS3resok.obj_attributes = nfs_option_from_result oa,
                        ACCESS3resok.access = acc \<rparr>, s)))"

definition nfsproc3_pathconf ::
  "('s, 'h, 'i, 'p) RPCContext \<Rightarrow> u32 \<Rightarrow> PATHCONF3args \<Rightarrow> ('s, PATHCONF3res) prog" where
  "nfsproc3_pathconf ctx x args =
     fh_to_id ctx (PATHCONF3args.object args) \<lparr> PATHCONF3resfail.obj_attributes = None \<rparr> (\<lambda>h.
       await (vfs_getattr (vfs ctx) h) (\<lambda>oa.
         ret (Nfs3Ok \<lparr> PATHCONF3resok.obj_attributes = nfs_option_from_result oa,
           PATHCONF3resok.linkmax = 0, PATHCONF3resok.name_max = 32768, PATHCONF3resok.no_trunc = True,
           PATHCONF3resok.chown_restricted = True, PATHCONF3resok.case_insensitive = False,
           PATHCONF3resok.case_preserving = True \<rparr>)))"

definition nfsproc3_fsstat ::
  "('s, 'h, 'i, 'p) RPCContext \<Rightarrow> u32 \<Rightarrow> FSSTAT3args \<Rightarrow> ('s, FSSTAT3res) prog" where
  "nfsproc3_fsstat ctx x args =
     fh_to_id ctx (FSSTAT3args.fsroot args) \<lparr> FSSTAT3resfail.obj_attributes = None \<rparr> (\<lambda>h.
       await (vfs_getattr (vfs ctx) h) (\<lambda>oa.
         ret (Nfs3Ok \<lparr> FSSTAT3resok.obj_attributes = nfs_option_from_result oa,
           FSSTAT3resok.tbytes = TEBIBYTE, FSSTAT3resok.fbytes = TEBIBYTE, FSSTAT3resok.abytes = TEBIBYTE,
           FSSTAT3resok.tfiles = GIBIBYTE, FSSTAT3resok.ffiles = GIBIBYTE, FSSTAT3resok.afiles = GIBIBYTE,
           FSSTAT3resok.invarsec = - 1 \<rparr>)))"

definition nfsproc3_readlink ::
  "('s, 'h, 'i, 'p) RPCContext \<Rightarrow> u32 \<Rightarrow> READLINK3args \<Rightarrow> ('s, READLINK3res) prog" where
  "nfsproc3_readlink ctx x args =
     fh_to_id ctx (READLINK3args.symlink args) \<lparr> READLINK3resfail.symlink_attributes = None \<rparr> (\<lambda>h.
       await (vfs_getattr (vfs ctx) h) (\<lambda>sa.
       await (vfs_readlink (vfs ctx) h) (\<lambda>r. case r of
         Ok path \<Rightarrow> ret (Nfs3Ok \<lparr> READLINK3resok.symlink_attributes = nfs_option_from_result sa,
                                   READLINK3resok.data = path \<rparr>)
       | Err stat \<Rightarrow> ret (Nfs3Err stat
           \<lparr> READLINK3resfail.symlink_attributes = nfs_option_from_result sa \<rparr>))))"

section \<open>Directory listings\<close>

text \<open>
  The loop of READDIRPLUS: the entries collected and the end-of-directory flag, or the error
  of the iterator.  It ends because every round adds at least four bytes to a list that may not
  exceed its limit.  The iterator goes out of scope behind the loop, after the result has been
  put together from what the loop collected.
\<close>

function readdirplus_loop ::
  "('s, 'h, 'i, 'p) RPCContext \<Rightarrow> BoundedEntryPlusList \<Rightarrow> 'p \<Rightarrow>
     's \<Rightarrow> ((nfsstat3 + BoundedEntryPlusList \<times> bool) \<times> 's) option" where
  "readdirplus_loop ctx l it s =
     (case vfs_readdirplus_next (vfs ctx) it s of
        None \<Rightarrow> None
      | Some ((r, it'), s') \<Rightarrow>
          (case r of
             NextOk e \<Rightarrow>
               (let entry = into_entry (vfs_handle (vfs ctx)) (file_handle_converter ctx) e;
                    l' = snd (entry_plus_try_push entry l) in
                if is_ok (fst (entry_plus_try_push entry l)) then readdirplus_loop ctx l' it' s'
                else drop_then (vfs_readdirplus_drop (vfs ctx) it') (Ok (l', False)) s')
           | NextEof \<Rightarrow> drop_then (vfs_readdirplus_drop (vfs ctx) it') (Ok (l, True)) s'
           | NextErr stat \<Rightarrow> drop_then (vfs_readdirplus_drop (vfs ctx) it') (Err stat) s'))"
  by pat_completeness auto
termination
  by (relation "measure (\<lambda>(ctx, l, it, s). max_size (bounded_entries l) - current_size (bounded_entries l))")
     (simp_all add: entry_plus_try_push_size)

declare readdirplus_loop.simps [simp del]

definition nfsproc3_readdirplus ::
  "('s, 'h, 'i, 'p) RPCContext \<Rightarrow> u32 \<Rightarrow> READDIRPLUS3args \<Rightarrow> ('s, READDIRPLUS3res) prog" where
  "nfsproc3_readdirplus ctx x args =
     fh_to_id ctx (READDIRPLUS3args.dir args) \<lparr> READDIRPLUS3resfail.dir_attributes = None \<rparr> (\<lambda>dirid.
       await (vfs_getattr (vfs ctx) dirid) (\<lambda>da.
       let dir_attr = nfs_option_from_result da;
           dirversion = cookieverf_from_attr dir_attr;
           fail = \<lparr> READDIRPLUS3resfail.dir_attributes = dir_attr \<rparr> in
       if READDIRPLUS3args.maxcount args < 128 then ret (Nfs3Err NFS3ERR_TOOSMALL fail)
       else
         let max_bytes_allowed = unat (READDIRPLUS3args.maxcount args) - 128 in
         await (vfs_readdirplus (vfs ctx) dirid (READDIRPLUS3args.cookie args)) (\<lambda>r. case r of
           Err stat \<Rightarrow> ret (Nfs3Err stat fail)
         | Ok it \<Rightarrow>
             await (readdirplus_loop ctx
                 (bounded_entry_plus_new (unat (READDIRPLUS3args.dircount args)) max_bytes_allowed) it)
               (\<lambda>res. case res of
                  Err stat \<Rightarrow> ret (Nfs3Err stat fail)
                | Ok (l, is_eof) \<Rightarrow>
                    let es = bounded_list_into_inner (bounded_entries l) in
                    if es = [] \<and> \<not> is_eof then ret (Nfs3Err NFS3ERR_TOOSMALL fail)
                    else ret (Nfs3Ok \<lparr> READDIRPLUS3resok.dir_attributes = dir_attr,
                           READDIRPLUS3resok.cookieverf = dirversion,
                           READDIRPLUS3resok.reply =
                             \<lparr> dirlistplus3.entries = es, dirlistplus3.eof = is_eof \<rparr> \<rparr>)))))"

function readdir_loop ::
  "('s, 'h, 'i, 'p) RPCContext \<Rightarrow> entry3 bounded_list \<Rightarrow> 'i \<Rightarrow>
     's \<Rightarrow> ((nfsstat3 + entry3 bounded_list \<times> bool) \<times> 's) option" where
  "readdir_loop ctx l it s =
     (case vfs_readdir_next (vfs ctx) it s of
        None \<Rightarrow> None
      | Some ((r, it'), s') \<Rightarrow>
          (case r of
             NextOk entry \<Rightarrow>
               (let l' = snd (try_push entry3_codec entry l) in
                if is_ok (fst (try_push entry3_codec entry l)) then readdir_loop ctx l' it' s'
                else drop_then (vfs_readdir_drop (vfs ctx) it') (Ok (l', False)) s')
           | NextEof \<Rightarrow> drop_then (vfs_readdir_drop (vfs ctx) it') (Ok (l, True)) s'
           | NextErr stat \<Rightarrow> drop_then (vfs_readdir_drop (vfs ctx) it') (Err stat) s'))"
  by pat_completeness auto
termination
  by (relation "measure (\<lambda>(ctx, l, it, s). max_size l - current_size l)")
     (auto simp: try_push_def Let_def split: if_splits)

declare readdir_loop.simps [simp del]

definition nfsproc3_readdir ::
  "('s, 'h, 'i, 'p) RPCContext \<Rightarrow> u32 \<Rightarrow> READDIR3args \<Rightarrow> ('s, READDIR3res) prog" where
  "nfsproc3_readdir ctx x args =
     fh_to_id ctx (READDIR3args.dir args) \<lparr> READDIR3resfail.dir_attributes = None \<rparr> (\<lambda>dirid.
       await (vfs_getattr (vfs ctx) dirid) (\<lambda>da.
       let dir_attr = nfs_option_from_result da;
           cverf = cookieverf_from_attr dir_attr;
           bad_cookie = ret (Nfs3Err NFS3ERR_BAD_COOKIE \<lparr> READDIR3resfail.dir_attributes = None \<rparr>) in
       if cookieverf_is_none (READDIR3args.cookieverf args) \<and> READDIR3args.cookie args \<noteq> 0
       then bad_cookie
       else if \<not> cookieverf_is_none (READDIR3args.cookieverf args) \<and> READDIR3args.cookieverf args \<noteq> cverf
       then bad_cookie
       else
         let resok = \<lparr> READDIR3resok.dir_attributes = dir_attr, READDIR3resok.cookieverf = cverf,
                       READDIR3resok.reply = \<lparr> dirlist3.entries = [], dirlist3.eof = False \<rparr> \<rparr>;
             fail = \<lparr> READDIR3resfail.dir_attributes = dir_attr \<rparr>;
             empty_len = packed_size u32_codec x + packed_size READDIR3resok_codec resok in
         if empty_len > unat (READDIR3args.count args) then ret (Nfs3Err NFS3ERR_TOOSMALL fail)
         else
           let max_bytes_allowed = unat (READDIR3args.count args) - empty_len in
           await (vfs_readdir (vfs ctx) dirid (READDIR3args.cookie args)) (\<lambda>r. case r of
             Err stat \<Rightarrow> ret (Nfs3Err stat fail)
           | Ok it \<Rightarrow>
               await (readdir_loop ctx (bounded_list_new entry3_codec max_bytes_allowed) it) (\<lambda>res. case res of
                 Err stat \<Rightarrow> ret (Nfs3Err stat fail)
               | Ok (l, is_eof) \<Rightarrow>
                   let es = bounded_list_into_inner l in
                   if es = [] \<and> \<not> is_eof then ret (Nfs3Err NFS3ERR_TOOSMALL fail)
                   else ret (Nfs3Ok (resok\<lparr> READDIR3resok.reply :=
                          \<lparr> dirlist3.entries = es, dirlist3.eof = is_eof \<rparr> \<rparr>))))))"

section \<open>Modifying procedures\<close>

definition nfsproc3_write ::
  "('s, 'h, 'i, 'p) RPCContext \<Rightarrow> u32 \<Rightarrow> WRITE3args \<Rightarrow> ('s, WRITE3res) prog" where
  "nfsproc3_write ctx x args =
     require_write ctx \<lparr> WRITE3resfail.file_wcc = wcc_none \<rparr>
       (if length (WRITE3args.data args) \<noteq> unat (WRITE3args.count args)
        then ret (Nfs3Err NFS3ERR_INVAL \<lparr> WRITE3resfail.file_wcc = wcc_none \<rparr>)
        else fh_to_id ctx (WRITE3args.file' args) \<lparr> WRITE3resfail.file_wcc = wcc_none \<rparr> (\<lambda>h.
          await (get_wcc_attr ctx h) (\<lambda>w.
          let pre = nfs_option_from_result w in
          await (vfs_write (vfs ctx) h (WRITE3args.offset args) (WRITE3args.data args)) (\<lambda>r. case r of
            Ok a \<Rightarrow> ret (Nfs3Ok
              \<lparr> WRITE3resok.file_wcc = \<lparr> wcc_data.before = pre, wcc_data.after = Some a \<rparr>,
                WRITE3resok.count = WRITE3args.count args, WRITE3resok.committed = FILE_SYNC,
                WRITE3resok.verf = converter_verf (file_handle_converter ctx) \<rparr>)
          | Err stat \<Rightarrow> ret (Nfs3Err stat
              \<lparr> WRITE3resfail.file_wcc = \<lparr> wcc_data.before = pre, wcc_data.after = None \<rparr> \<rparr>)))))"

text \<open>The object of CREATE: made exclusively with a verifier, or with attributes.\<close>

definition create_object ::
  "('s, 'h, 'i, 'p) RPCContext \<Rightarrow> 'h \<Rightarrow> filename3 \<Rightarrow> createhow3 \<Rightarrow>
     ('s, (nfsstat3 + 'h) \<times> fattr3 option) prog" where
  "create_object ctx dirid nm ch =
     (case ch of
        EXCLUSIVE cv \<Rightarrow> await (vfs_create_exclusive (vfs ctx) dirid nm cv) (\<lambda>fid. ret (fid, None))
      | UNCHECKED attrs \<Rightarrow> await (vfs_create (vfs ctx) dirid nm attrs) (\<lambda>r. case r of
          Ok (fid, a) \<Rightarrow> ret (Ok fid, Some a)
        | Err e \<Rightarrow> ret (Err e, None))
      | GUARDED attrs \<Rightarrow> await (vfs_create (vfs ctx) dirid nm attrs) (\<lambda>r. case r of
          Ok (fid, a) \<Rightarrow> ret (Ok fid, Some a)
        | Err e \<Rightarrow> ret (Err e, None)))"

definition finish_create ::
  "('s, 'h, 'i, 'p) RPCContext \<Rightarrow> 'h \<Rightarrow> filename3 \<Rightarrow> createhow3 \<Rightarrow> wcc_attr option \<Rightarrow>
     ('s, CREATE3res) prog" where
  "finish_create ctx dirid nm ch pre =
     await (create_object ctx dirid nm ch) (\<lambda>(fid, postopattr).
     await (vfs_getattr (vfs ctx) dirid) (\<lambda>da.
     let wcc = \<lparr> wcc_data.before = pre, wcc_data.after = nfs_option_from_result da \<rparr> in
     case fid of
       Ok h \<Rightarrow> ret (Nfs3Ok \<lparr> CREATE3resok.obj = Some (to_fh ctx h),
         CREATE3resok.obj_attributes = postopattr, CREATE3resok.dir_wcc = wcc \<rparr>)
     | Err stat \<Rightarrow> ret (Nfs3Err stat \<lparr> CREATE3resfail.dir_wcc = wcc \<rparr>)))"

definition nfsproc3_create ::
  "('s, 'h, 'i, 'p) RPCContext \<Rightarrow> u32 \<Rightarrow> CREATE3args \<Rightarrow> ('s, CREATE3res) prog" where
  "nfsproc3_create ctx x args =
     require_write ctx \<lparr> CREATE3resfail.dir_wcc = wcc_none \<rparr>
       (let dirops = CREATE3args.where' args; createhow = CREATE3args.how args in
        fh_to_id ctx (diropargs3.dir dirops) \<lparr> CREATE3resfail.dir_wcc = wcc_none \<rparr> (\<lambda>dirid.
          await (get_wcc_attr ctx dirid) (\<lambda>w. case w of
            Err stat \<Rightarrow> ret (Nfs3Err stat \<lparr> CREATE3resfail.dir_wcc = wcc_none \<rparr>)
          | Ok wccattr \<Rightarrow>
              (case createhow of
                 GUARDED _ \<Rightarrow>
                   await (vfs_lookup (vfs ctx) dirid (diropargs3.name dirops)) (\<lambda>found.
                     if is_ok found then
                       await (vfs_getattr (vfs ctx) dirid) (\<lambda>da.
                         ret (Nfs3Err NFS3ERR_EXIST \<lparr> CREATE3resfail.dir_wcc =
                           \<lparr> wcc_data.before = Some wccattr,
                             wcc_data.after = nfs_option_from_result da \<rparr> \<rparr>))
                     else finish_create ctx dirid (diropargs3.name dirops) createhow (Some wccattr))
               | _ \<Rightarrow> finish_create ctx dirid (diropargs3.name dirops) createhow (Some wccattr)))))"

definition nfsproc3_setattr ::
  "('s, 'h, 'i, 'p) RPCContext \<Rightarrow> u32 \<Rightarrow> SETATTR3args \<Rightarrow> ('s, SETATTR3res) prog" where
  "nfsproc3_setattr ctx x args =
     require_write ctx \<lparr> SETATTR3resfail.obj_wcc = wcc_none \<rparr>
       (fh_to_id ctx (SETATTR3args.object args) \<lparr> SETATTR3resfail.obj_wcc = wcc_none \<rparr> (\<lambda>h.
          await (get_wcc_attr ctx h) (\<lambda>w. case w of
            Err stat \<Rightarrow> ret (Nfs3Err stat \<lparr> SETATTR3resfail.obj_wcc = wcc_none \<rparr>)
          | Ok wccattr \<Rightarrow>
              (let failed = \<lparr> SETATTR3resfail.obj_wcc =
                     \<lparr> wcc_data.before = Some wccattr, wcc_data.after = None \<rparr> \<rparr> in
               if (case SETATTR3args.guard args of
                     Some g \<Rightarrow> g \<noteq> wcc_attr.ctime wccattr | None \<Rightarrow> False)
               then ret (Nfs3Err NFS3ERR_NOT_SYNC failed)
               else await (vfs_setattr (vfs ctx) h (SETATTR3args.new_attributes args)) (\<lambda>r. case r of
                 Ok a \<Rightarrow> ret (Nfs3Ok \<lparr> SETATTR3resok.obj_wcc =
                   \<lparr> wcc_data.before = Some wccattr, wcc_data.after = Some a \<rparr> \<rparr>)
               | Err stat \<Rightarrow> ret (Nfs3Err stat failed))))))"

definition nfsproc3_remove ::
  "('s, 'h, 'i, 'p) RPCContext \<Rightarrow> u32 \<Rightarrow> REMOVE3args \<Rightarrow> ('s, REMOVE3res) prog" where
  "nfsproc3_remove ctx x args =
     require_write ctx \<lparr> REMOVE3resfail.dir_wcc = wcc_none \<rparr>
       (fh_to_id ctx (diropargs3.dir (REMOVE3args.object args)) \<lparr> REMOVE3resfail.dir_wcc = wcc_none \<rparr> (\<lambda>dirid.
          await (get_wcc_attr ctx dirid) (\<lambda>w. case w of
            Err stat \<Rightarrow> ret (Nfs3Err stat \<lparr> REMOVE3resfail.dir_wcc = wcc_none \<rparr>)
          | Ok v \<Rightarrow>
              await (vfs_remove (vfs ctx) dirid (diropargs3.name (REMOVE3args.object args))) (\<lambda>r.
              await (vfs_getattr (vfs ctx) dirid) (\<lambda>da.
              let wcc = \<lparr> wcc_data.before = Some v, wcc_data.after = nfs_option_from_result da \<rparr> in
              case r of
                Ok _ \<Rightarrow> ret (Nfs3Ok \<lparr> REMOVE3resok.dir_wcc = wcc \<rparr>)
              | Err stat \<Rightarrow> ret (Nfs3Err stat \<lparr> REMOVE3resfail.dir_wcc = wcc \<rparr>))))))"

definition nfsproc3_rename ::
  "('s, 'h, 'i, 'p) RPCContext \<Rightarrow> u32 \<Rightarrow> RENAME3args \<Rightarrow> ('s, RENAME3res) prog" where
  "nfsproc3_rename ctx x args =
     (let none = \<lparr> RENAME3resfail.fromdir_wcc = wcc_none, RENAME3resfail.todir_wcc = wcc_none \<rparr> in
      require_write ctx none
       (fh_to_id ctx (diropargs3.dir (RENAME3args.from' args)) none (\<lambda>from_dirid.
        fh_to_id ctx (diropargs3.dir (RENAME3args.to' args)) none (\<lambda>to_dirid.
          await (get_wcc_attr ctx from_dirid) (\<lambda>w1. case w1 of
            Err stat \<Rightarrow> ret (Nfs3Err stat none)
          | Ok pre_from \<Rightarrow>
          await (get_wcc_attr ctx to_dirid) (\<lambda>w2. case w2 of
            Err stat \<Rightarrow> ret (Nfs3Err stat none)
          | Ok pre_to \<Rightarrow>
              await (vfs_rename (vfs ctx) from_dirid (diropargs3.name (RENAME3args.from' args))
                       to_dirid (diropargs3.name (RENAME3args.to' args))) (\<lambda>r.
              await (vfs_getattr (vfs ctx) from_dirid) (\<lambda>fa.
              await (vfs_getattr (vfs ctx) to_dirid) (\<lambda>ta.
              let fw = \<lparr> wcc_data.before = Some pre_from, wcc_data.after = nfs_option_from_result fa \<rparr>;
                  tw = \<lparr> wcc_data.before = Some pre_to, wcc_data.after = nfs_option_from_result ta \<rparr> in
              case r of
                Ok _ \<Rightarrow> ret (Nfs3Ok \<lparr> RENAME3resok.fromdir_wcc = fw, RENAME3resok.todir_wcc = tw \<rparr>)
              | Err stat \<Rightarrow> ret (Nfs3Err stat
                  \<lparr> RENAME3resfail.fromdir_wcc = fw, RENAME3resfail.todir_wcc = tw \<rparr>))))))))))"

definition nfsproc3_mkdir ::
  "('s, 'h, 'i, 'p) RPCContext \<Rightarrow> u32 \<Rightarrow> MKDIR3args \<Rightarrow> ('s, MKDIR3res) prog" where
  "nfsproc3_mkdir ctx x args =
     require_write ctx \<lparr> MKDIR3resfail.dir_wcc = wcc_none \<rparr>
       (fh_to_id ctx (diropargs3.dir (MKDIR3args.where' args)) \<lparr> MKDIR3resfail.dir_wcc = wcc_none \<rparr> (\<lambda>dirid.
          await (get_wcc_attr ctx dirid) (\<lambda>w. case w of
            Err stat \<Rightarrow> ret (Nfs3Err stat \<lparr> MKDIR3resfail.dir_wcc = wcc_none \<rparr>)
          | Ok v \<Rightarrow>
              await (vfs_mkdir (vfs ctx) dirid (diropargs3.name (MKDIR3args.where' args))) (\<lambda>r.
              await (vfs_getattr (vfs ctx) dirid) (\<lambda>da.
              let wcc = \<lparr> wcc_data.before = Some v, wcc_data.after = nfs_option_from_result da \<rparr> in
              case r of
                Ok (fid, a) \<Rightarrow> ret (Nfs3Ok \<lparr> MKDIR3resok.obj = Some (to_fh ctx fid),
                  MKDIR3resok.obj_attributes = Some a, MKDIR3resok.dir_wcc = wcc \<rparr>)
              | Err stat \<Rightarrow> ret (Nfs3Err stat \<lparr> MKDIR3resfail.dir_wcc = wcc \<rparr>))))))"

definition nfsproc3_symlink ::
  "('s, 'h, 'i, 'p) RPCContext \<Rightarrow> u32 \<Rightarrow> SYMLINK3args \<Rightarrow> ('s, SYMLINK3res) prog" where
  "nfsproc3_symlink ctx x args =
     require_write ctx \<lparr> SYMLINK3resfail.dir_wcc = wcc_none \<rparr>
       (fh_to_id ctx (diropargs3.dir (SYMLINK3args.where' args)) \<lparr> SYMLINK3resfail.dir_wcc = wcc_none \<rparr> (\<lambda>dirid.
          await (get_wcc_attr ctx dirid) (\<lambda>w. case w of
            Err stat \<Rightarrow> ret (Nfs3Err stat \<lparr> SYMLINK3resfail.dir_wcc = wcc_none \<rparr>)
          | Ok v \<Rightarrow>
              await (vfs_symlink (vfs ctx) dirid (diropargs3.name (SYMLINK3args.where' args))
                       (symlinkdata3.symlink_data (SYMLINK3args.symlink args))
                       (symlinkdata3.symlink_attributes (SYMLINK3args.symlink args))) (\<lambda>r.
              await (vfs_getattr (vfs ctx) dirid) (\<lambda>da.
              let wcc = \<lparr> wcc_data.before = Some v, wcc_data.after = nfs_option_from_result da \<rparr> in
              case r of
                Ok (fid, a) \<Rightarrow> ret (Nfs3Ok \<lparr> SYMLINK3resok.obj = Some (to_fh ctx fid),
                  SYMLINK3resok.obj_attributes = Some a, SYMLINK3resok.dir_wcc = wcc \<rparr>)
              | Err stat \<Rightarrow> ret (Nfs3Err stat \<lparr> SYMLINK3resfail.dir_wcc = wcc \<rparr>))))))"

section \<open>The dispatcher\<close>

definition handle_nfs ::
  "('s, 'h, 'i, 'p) RPCContext \<Rightarrow> IncomingRpcMessage \<Rightarrow> ('s, rpc_error + HandleResult) prog" where
  "handle_nfs ctx m =
     (let call = incoming_body m in
      if call_body.vers call \<noteq> Nfs3_Types.VERSION
      then ret (into_error_reply (PROG_MISMATCH Nfs3_Types.VERSION Nfs3_Types.VERSION) m)
      else case NFS_PROGRAM_try_from (call_body.proc call) of
        Err _ \<Rightarrow> ret (into_error_reply PROC_UNAVAIL m)
      | Ok p \<Rightarrow> (case p of
          NFSPROC3_NULL \<Rightarrow> handle void_codec void_codec ctx m nfsproc3_null
        | NFSPROC3_GETATTR \<Rightarrow> handle GETATTR3args_codec GETATTR3res_codec ctx m nfsproc3_getattr
        | NFSPROC3_LOOKUP \<Rightarrow> handle LOOKUP3args_codec LOOKUP3res_codec ctx m nfsproc3_lookup
        | NFSPROC3_READ \<Rightarrow> handle READ3args_codec READ3res_codec ctx m nfsproc3_read
        | NFSPROC3_FSINFO \<Rightarrow> handle FSINFO3args_codec FSINFO3res_codec ctx m nfsproc3_fsinfo
        | NFSPROC3_ACCESS \<Rightarrow> handle ACCESS3args_codec ACCESS3res_codec ctx m nfsproc3_access
        | NFSPROC3_PATHCONF \<Rightarrow> handle PATHCONF3args_codec PATHCONF3res_codec ctx m nfsproc3_pathconf
        | NFSPROC3_FSSTAT \<Rightarrow> handle FSSTAT3args_codec FSSTAT3res_codec ctx m nfsproc3_fsstat
        | NFSPROC3_READDIR \<Rightarrow> handle READDIR3args_codec READDIR3res_codec ctx m nfsproc3_readdir
        | NFSPROC3_READDIRPLUS \<Rightarrow>
            handle READDIRPLUS3args_codec READDIRPLUS3res_codec ctx m nfsproc3_readdirplus
        | NFSPROC3_WRITE \<Rightarrow> handle WRITE3args_codec WRITE3res_codec ctx m nfsproc3_write
        | NFSPROC3_CREATE \<Rightarrow> handle CREATE3args_codec CREATE3res_codec ctx m nfsproc3_create
        | NFSPROC3_SETATTR \<Rightarrow> handle SETATTR3args_codec SETATTR3res_codec ctx m nfsproc3_setattr
        | NFSPROC3_REMOVE \<Rightarrow> handle REMOVE3args_codec REMOVE3res_codec ctx m nfsproc3_remove
        | NFSPROC3_RMDIR \<Rightarrow> handle REMOVE3args_codec REMOVE3res_codec ctx m nfsproc3_remove
        | NFSPROC3_RENAME \<Rightarrow> handle RENAME3args_codec RENAME3res_codec ctx m nfsproc3_rename
        | NFSPROC3_MKDIR \<Rightarrow> handle MKDIR3args_codec MKDIR3res_codec ctx m nfsproc3_mkdir
        | NFSPROC3_SYMLINK \<Rightarrow> handle SYMLINK3args_codec SYMLINK3res_codec ctx m nfsproc3_symlink
        | NFSPROC3_READLINK \<Rightarrow> handle READLINK3args_codec READLINK3res_codec ctx m nfsproc3_readlink
        | NFSPROC3_MKNOD \<Rightarrow> ret (into_error_reply PROC_UNAVAIL m)
        | NFSPROC3_LINK \<Rightarrow> ret (into_error_reply PROC_UNAVAIL m)
        | NFSPROC3_COMMIT \<Rightarrow> ret (into_error_reply PROC_UNAVAIL m)))"

end
