(* ===== verification/Mount_Handlers.thy ===== *)
theory Mount_Handlers
  imports Rpc_Messages Mount_Types
begin

text \<open>
  The MOUNT protocol (\<^verbatim>\<open>nfs3_server/src/mount_handlers.rs\<close>), with what it uses of \<^verbatim>\<open>str\<close>: the
  validation of UTF-8, \<^verbatim>\<open>strip_prefix\<close> and the trimming functions, on the bytes of a string.

  The handlers' state is the file system's state with the values that were sent on the mount
  signal channel, the latest first.
\<close>

section \<open>Strings\<close>

definition continuation :: "u8 \<Rightarrow> bool" where
  "continuation b \<longleftrightarrow> 0x80 \<le> b \<and> b \<le> 0xBF"

text \<open>\<^verbatim>\<open>std::str::from_utf8\<close>: the well-formed byte sequences of the Unicode standard.\<close>

fun from_utf8_valid :: "bytes \<Rightarrow> bool" where
  "from_utf8_valid [] = True"
| "from_utf8_valid (b # bs) =
     (if b < 0x80 then from_utf8_valid bs
      else case bs of
        [] \<Rightarrow> False
      | c # cs \<Rightarrow>
          if 0xC2 \<le> b \<and> b \<le> 0xDF then continuation c \<and> from_utf8_valid cs
          else case cs of
            [] \<Rightarrow> False
          | d # ds \<Rightarrow>
              if b = 0xE0 then 0xA0 \<le> c \<and> c \<le> 0xBF \<and> continuation d \<and> from_utf8_valid ds
              else if (0xE1 \<le> b \<and> b \<le> 0xEC) \<or> b = 0xEE \<or> b = 0xEF
              then continuation c \<and> continuation d \<and> from_utf8_valid ds
              else if b = 0xED then 0x80 \<le> c \<and> c \<le> 0x9F \<and> continuation d \<and> from_utf8_valid ds
              else case ds of
                [] \<Rightarrow> False
              | e # es \<Rightarrow>
                  if b = 0xF0 then 0x90 \<le> c \<and> c \<le> 0xBF \<and> continuation d \<and> continuation e \<and> from_utf8_valid es
                  else if 0xF1 \<le> b \<and> b \<le> 0xF3
                  then continuation c \<and> continuation d \<and> continuation e \<and> from_utf8_valid es
                  else if b = 0xF4 then 0x80 \<le> c \<and> c \<le> 0x8F \<and> continuation d \<and> continuation e \<and> from_utf8_valid es
                  else False)"

definition strip_prefix :: "bytes \<Rightarrow> bytes \<Rightarrow> bytes option" where
  "strip_prefix p s = (if take (length p) s = p then Some (drop (length p) s) else None)"

definition SLASH :: u8 where
  "SLASH = 47"

definition trim_start_matches_slash :: "bytes \<Rightarrow> bytes" where
  "trim_start_matches_slash s = dropWhile (\<lambda>b. b = SLASH) s"

definition trim_end_matches_slash :: "bytes \<Rightarrow> bytes" where
  "trim_end_matches_slash s = rev (dropWhile (\<lambda>b. b = SLASH) (rev s))"

text \<open>The encodings of the characters with the property White_Space.\<close>

definition whitespace :: "bytes list" where
  "whitespace =
     [[0x09], [0x0A], [0x0B], [0x0C], [0x0D], [0x20], [0xC2, 0x85], [0xC2, 0xA0], [0xE1, 0x9A, 0x80],
      [0xE2, 0x80, 0x80], [0xE2, 0x80, 0x81], [0xE2, 0x80, 0x82], [0xE2, 0x80, 0x83], [0xE2, 0x80, 0x84],
      [0xE2, 0x80, 0x85], [0xE2, 0x80, 0x86], [0xE2, 0x80, 0x87], [0xE2, 0x80, 0x88], [0xE2, 0x80, 0x89],
      [0xE2, 0x80, 0x8A], [0xE2, 0x80, 0xA8], [0xE2, 0x80, 0xA9], [0xE2, 0x80, 0xAF], [0xE2, 0x81, 0x9F],
      [0xE3, 0x80, 0x80]]"

function strip_all :: "bytes list \<Rightarrow> bytes \<Rightarrow> bytes" where
  "strip_all ws s =
     (case find (\<lambda>w. w \<noteq> [] \<and> take (length w) s = w) ws of
        None \<Rightarrow> s
      | Some w \<Rightarrow> strip_all ws (drop (length w) s))"
  by pat_completeness auto
termination
proof (relation "measure (\<lambda>(ws, s). length s)")
  fix ws s w assume "find (\<lambda>w. w \<noteq> [] \<and> take (length w) s = w) ws = Some w"
  then have "w \<noteq> []" "take (length w) s = w" by (auto simp: find_Some_iff)
  then have "s \<noteq> []" by auto
  then show "((ws, drop (length w) s), ws, s) \<in> measure (\<lambda>(ws, s). length s)" using \<open>w \<noteq> []\<close> by simp
qed simp

declare strip_all.simps [simp del]

text \<open>\<^verbatim>\<open>str::trim\<close>.\<close>

definition trim :: "bytes \<Rightarrow> bytes" where
  "trim s = rev (strip_all (map rev whitespace) (rev (strip_all whitespace s)))"

section \<open>Procedures\<close>

type_synonym 's mount_state = "'s \<times> bool list"

definition on_vfs :: "('s, 'a) prog \<Rightarrow> ('s mount_state, 'a) prog" where
  "on_vfs p st = (case p (fst st) of None \<Rightarrow> None | Some (x, s') \<Rightarrow> Some (x, (s', snd st)))"

text \<open>\<^verbatim>\<open>if let Some(ref chan) = context.mount_signal { chan.send(..) }\<close>.\<close>

definition send_signal :: "('s, 'h, 'i, 'p) RPCContext \<Rightarrow> bool \<Rightarrow> ('s mount_state, unit) prog" where
  "send_signal ctx b st = Some ((), if mount_signal ctx then (fst st, b # snd st) else st)"

definition mountproc3_null :: "('s, 'h, 'i, 'p) RPCContext \<Rightarrow> u32 \<Rightarrow> unit \<Rightarrow> ('s mount_state, unit) prog" where
  "mountproc3_null ctx x args = ret ()"

definition mountproc3_mnt ::
  "('s, 'h, 'i, 'p) RPCContext \<Rightarrow> u32 \<Rightarrow> dirpath \<Rightarrow> ('s mount_state, mountres3) prog" where
  "mountproc3_mnt ctx x path =
     (if \<not> from_utf8_valid path then ret (MntErr MNT3ERR_INVAL)
      else case strip_prefix (export_name ctx) path of
        None \<Rightarrow> ret (MntErr MNT3ERR_NOENT)
      | Some rel \<Rightarrow>
          await (on_vfs (vfs_lookup_by_path (vfs ctx)
                   (trim (trim_end_matches_slash (trim_start_matches_slash rel))))) (\<lambda>r. case r of
            Ok fid \<Rightarrow>
              (let root = fh_to_nfs (vfs_handle (vfs ctx)) (file_handle_converter ctx) fid;
                   response = \<lparr> mountres3_ok.fhandle = nfs_fh3.data root,
                                mountres3_ok.auth_flavors =
                                  [auth_flavor_as_u32 AUTH_NULL, auth_flavor_as_u32 AUTH_UNIX] \<rparr>
               in await (send_signal ctx True) (\<lambda>_. ret (MntOk response)))
          | Err e \<Rightarrow> ret (MntErr MNT3ERR_NOENT)))"

definition mountproc3_export :: "('s, 'h, 'i, 'p) RPCContext \<Rightarrow> u32 \<Rightarrow> unit \<Rightarrow> ('s mount_state, exports) prog" where
  "mountproc3_export ctx x args =
     ret [\<lparr> export_node.ex_dir = export_name ctx, export_node.ex_groups = [] \<rparr>]"

definition mountproc3_umnt ::
  "('s, 'h, 'i, 'p) RPCContext \<Rightarrow> u32 \<Rightarrow> dirpath \<Rightarrow> ('s mount_state, unit) prog" where
  "mountproc3_umnt ctx x path =
     (if \<not> from_utf8_valid path then ret () else await (send_signal ctx False) (\<lambda>_. ret ()))"

definition mountproc3_umnt_all :: "('s, 'h, 'i, 'p) RPCContext \<Rightarrow> u32 \<Rightarrow> unit \<Rightarrow> ('s mount_state, unit) prog" where
  "mountproc3_umnt_all ctx x args = await (send_signal ctx False) (\<lambda>_. ret ())"

definition handle_mount ::
  "('s, 'h, 'i, 'p) RPCContext \<Rightarrow> IncomingRpcMessage \<Rightarrow> ('s mount_state, rpc_error + HandleResult) prog" where
  "handle_mount ctx m =
     (let call = incoming_body m in
      if call_body.vers call \<noteq> Mount_Types.VERSION
      then ret (into_error_reply (PROG_MISMATCH Mount_Types.VERSION Mount_Types.VERSION) m)
      else case MOUNT_PROGRAM_try_from (call_body.proc call) of
        Err _ \<Rightarrow> ret (into_error_reply PROC_UNAVAIL m)
      | Ok p \<Rightarrow> (case p of
          MOUNTPROC3_NULL \<Rightarrow> handle void_codec void_codec ctx m mountproc3_null
        | MOUNTPROC3_MNT \<Rightarrow> handle dirpath_codec mountres3_codec ctx m mountproc3_mnt
        | MOUNTPROC3_UMNT \<Rightarrow> handle dirpath_codec void_codec ctx m mountproc3_umnt
        | MOUNTPROC3_UMNTALL \<Rightarrow> handle void_codec void_codec ctx m mountproc3_umnt_all
        | MOUNTPROC3_EXPORT \<Rightarrow> handle void_codec (list_codec export_node_codec) ctx m mountproc3_export
        | MOUNTPROC3_DUMP \<Rightarrow> ret (into_error_reply PROC_UNAVAIL m)))"

section \<open>Slashes in paths\<close>

lemma split_delimiter_nonempty [simp]: "split_delimiter d s \<noteq> []"
  by (cases s) (auto split: list.splits)

lemma split_delimiter_append: "split_delimiter d (s @ d # t) = split_delimiter d s @ split_delimiter d t"
proof (induction s)
  case (Cons c s)
  then show ?case by (cases "split_delimiter d s") auto
qed simp

text \<open>The components that a path look-up visits.\<close>

definition components :: "bytes \<Rightarrow> bytes list" where
  "components path = filter (\<lambda>c. c \<noteq> []) (split_delimiter DELIMITER path)"

lemma components_start: "components (trim_start_matches_slash s) = components s"
proof (induction s)
  case (Cons b s)
  then show ?case by (simp add: components_def trim_start_matches_slash_def SLASH_def DELIMITER_def)
qed (simp add: trim_start_matches_slash_def)

lemma components_snoc: "components (s @ [DELIMITER]) = components s"
  using split_delimiter_append [of DELIMITER s "[]"] by (simp add: components_def)

lemma components_end: "components (trim_end_matches_slash s) = components s"
proof (induction s rule: rev_induct)
  case (snoc b s)
  then show ?case
    using components_snoc [of s] by (auto simp: trim_end_matches_slash_def SLASH_def DELIMITER_def)
qed (simp add: trim_end_matches_slash_def)

lemma lookup_components_filter:
  "lookup_components look fid cs = lookup_components look fid (filter (\<lambda>c. c \<noteq> []) cs)"
  by (induction look fid cs rule: lookup_components.induct)
     (auto simp: fun_eq_iff await_def split: option.splits sum.splits)

lemma default_lookup_by_path_components:
  "default_lookup_by_path root look path s = lookup_components look (root s) (components path) s"
  unfolding default_lookup_by_path_def components_def by (subst lookup_components_filter) simp

lemma mount_path_components: "components (trim_end_matches_slash (trim_start_matches_slash s)) = components s"
  by (simp add: components_start components_end)

section \<open>Effects\<close>

lemma on_vfs_preserves [preserves_intros]: "preserves p \<Longrightarrow> preserves (on_vfs p)"
  by (auto simp: preserves_def on_vfs_def split: option.splits)

text \<open>The MOUNT program leaves the file system as it is when path look-ups do.\<close>

definition same_vfs :: "('s mount_state, 'a) prog \<Rightarrow> bool" where
  "same_vfs p \<longleftrightarrow> (\<forall>st x st'. p st = Some (x, st') \<longrightarrow> fst st' = fst st)"

lemma same_vfs_preserves: "preserves p \<Longrightarrow> same_vfs p"
  by (auto simp: preserves_def same_vfs_def)

lemma same_vfs_await: "same_vfs p \<Longrightarrow> (\<And>x. same_vfs (f x)) \<Longrightarrow> same_vfs (await p f)"
  unfolding same_vfs_def await_eq_Some by (metis fst_conv)

lemma same_vfs_signal: "same_vfs (send_signal ctx b)"
  by (simp add: same_vfs_def send_signal_def)

lemma same_vfs_ret: "same_vfs (ret x)"
  by (simp add: same_vfs_def)

lemma same_vfs_on_vfs: "preserves p \<Longrightarrow> same_vfs (on_vfs p)"
  by (intro same_vfs_preserves on_vfs_preserves)

lemma same_vfs_handle:
  "(\<And>a. same_vfs (handler ctx (incoming_xid m) a)) \<Longrightarrow> same_vfs (handle ci co ctx m handler)"
  unfolding handle_def Let_def
  by (auto intro!: same_vfs_await same_vfs_ret simp: same_vfs_preserves preserves_intros
      split: option.split sum.split prod.split)

lemma handle_mount_same_vfs:
  assumes "\<And>path. preserves (vfs_lookup_by_path (vfs ctx) path)"
  shows "same_vfs (handle_mount ctx m)"
proof -
  have "same_vfs (mountproc3_mnt ctx x path)" for x path
    unfolding mountproc3_mnt_def Let_def
    by (auto intro!: same_vfs_await same_vfs_ret same_vfs_signal same_vfs_on_vfs assms split: option.split sum.split)
  moreover have "same_vfs (mountproc3_umnt ctx x path)" "same_vfs (mountproc3_umnt_all ctx x a)" for x path a
    unfolding mountproc3_umnt_def mountproc3_umnt_all_def
    by (auto intro!: same_vfs_await same_vfs_ret same_vfs_signal)
  ultimately show ?thesis
    unfolding handle_mount_def Let_def
    by (auto intro!: same_vfs_ret same_vfs_handle simp: mountproc3_null_def mountproc3_export_def
        split: sum.split MOUNT_PROGRAM.split)
qed

end
