(* ===== verification/Portmap_Handlers.thy ===== *)
theory Portmap_Handlers
  imports Rpc_Messages Portmap_Types
begin

text \<open>
  The port mapper that the server fakes (\<^verbatim>\<open>nfs3_server/src/portmap_handlers.rs\<close>).
\<close>

definition pmapproc_null :: "('s, 'h, 'i, 'p) RPCContext \<Rightarrow> u32 \<Rightarrow> unit \<Rightarrow> ('st, unit) prog" where
  "pmapproc_null ctx x a = ret ()"

definition pmapproc_getport :: "('s, 'h, 'i, 'p) RPCContext \<Rightarrow> u32 \<Rightarrow> mapping \<Rightarrow> ('st, u32) prog" where
  "pmapproc_getport ctx x m = ret (ucast (local_port ctx))"

definition handle_portmap ::
  "('s, 'h, 'i, 'p) RPCContext \<Rightarrow> IncomingRpcMessage \<Rightarrow> ('st, rpc_error + HandleResult) prog" where
  "handle_portmap ctx m =
     (let call = incoming_body m in
      if call_body.vers call \<noteq> Portmap_Types.VERSION
      then ret (into_error_reply (PROG_MISMATCH Portmap_Types.VERSION Portmap_Types.VERSION) m)
      else case PMAP_PROG_try_from (call_body.proc call) of
        Err _ \<Rightarrow> ret (into_error_reply PROC_UNAVAIL m)
      | Ok p \<Rightarrow> (case p of
          PMAPPROC_NULL \<Rightarrow> handle void_codec void_codec ctx m pmapproc_null
        | PMAPPROC_GETPORT \<Rightarrow> handle mapping_codec u32_codec ctx m pmapproc_getport
        | _ \<Rightarrow> ret (into_error_reply PROC_UNAVAIL m)))"

lemma handle_preserves:
  "(\<And>a. preserves (handler ctx (incoming_xid m) a)) \<Longrightarrow> preserves (handle ci co ctx m handler)"
  unfolding handle_def Let_def
  by (auto intro!: preserves_intros split: option.split sum.split prod.split)

lemma handle_portmap_preserves: "preserves (handle_portmap ctx m)"
  unfolding handle_portmap_def Let_def pmapproc_null_def [abs_def] pmapproc_getport_def [abs_def]
  by (auto intro!: preserves_intros handle_preserves split: PMAP_PROG.split sum.split)

end
