(* ===== verification/Rpc_Wire.thy ===== *)
theory Rpc_Wire
  imports Transaction_Tracker Nfs_Handlers Mount_Handlers Portmap_Handlers
begin

text \<open>
  The RPC layer of the server (\<^verbatim>\<open>nfs3_server/src/rpcwire.rs\<close>): the reassembly of fragments in
  \<^verbatim>\<open>SocketMessageHandler::read\<close>, \<^verbatim>\<open>handle_rpc_message\<close> with its retransmission check, and
  \<^verbatim>\<open>write_fragment\<close>.

  The server's state is the file system's, the mount signals that were sent and the
  transaction tracker.  A message is handled from beginning to end; the two instants are those
  at which its transaction starts and at which its lock is dropped.
\<close>

section \<open>State\<close>

record 's server_state =
  vfs_state :: 's
  signals :: "bool list"
  transaction_tracker :: TransactionTracker

definition with_vfs :: "('s, 'a) prog \<Rightarrow> ('s server_state, 'a) prog" where
  "with_vfs p st = (case p (vfs_state st) of None \<Rightarrow> None | Some (x, s) \<Rightarrow> Some (x, st\<lparr> vfs_state := s \<rparr>))"

definition with_mount :: "('s mount_state, 'a) prog \<Rightarrow> ('s server_state, 'a) prog" where
  "with_mount p st =
     (case p (vfs_state st, signals st) of
        None \<Rightarrow> None
      | Some (x, s, sig) \<Rightarrow> Some (x, st\<lparr> vfs_state := s, signals := sig \<rparr>))"

section \<open>Handling a message\<close>

definition NFS_ACL_PROGRAM :: u32 where
  "NFS_ACL_PROGRAM = 100227"

definition NFS_ID_MAP_PROGRAM :: u32 where
  "NFS_ID_MAP_PROGRAM = 100270"

definition NFS_METADATA_PROGRAM :: u32 where
  "NFS_METADATA_PROGRAM = 200024"

text \<open>\<^verbatim>\<open>lock_transaction\<close>: the error is what to reply, if anything.\<close>

definition lock_transaction ::
  "nat \<Rightarrow> string \<Rightarrow> u32 \<Rightarrow> ('s server_state, accept_stat_data option + TransactionLock) prog" where
  "lock_transaction now client i st =
     (case start_transaction client i now (transaction_tracker st) of
        None \<Rightarrow> None
      | Some (r, t) \<Rightarrow>
          Some (case r of
                  Ok lock \<Rightarrow> Ok lock
                | Err AlreadyExists \<Rightarrow> Err None
                | Err TooManyRequests \<Rightarrow> Err (Some SYSTEM_ERR),
                st\<lparr> transaction_tracker := t \<rparr>))"

definition release :: "nat \<Rightarrow> TransactionLock \<Rightarrow> ('s server_state, unit) prog" where
  "release later lock st =
     (case drop_lock later lock (transaction_tracker st) of
        None \<Rightarrow> None
      | Some t \<Rightarrow> Some ((), st\<lparr> transaction_tracker := t \<rparr>))"

definition dispatch ::
  "('s, 'h, 'i, 'p) RPCContext \<Rightarrow> IncomingRpcMessage \<Rightarrow> ('s server_state, rpc_error + HandleResult) prog" where
  "dispatch ctx m =
     (let p = call_body.prog (incoming_body m) in
      if p = Portmap_Types.PROGRAM then handle_portmap ctx m
      else if p = Mount_Types.PROGRAM then with_mount (handle_mount ctx m)
      else if p = Nfs3_Types.PROGRAM then with_vfs (handle_nfs ctx m)
      else if p = NFS_ACL_PROGRAM \<or> p = NFS_ID_MAP_PROGRAM \<or> p = NFS_METADATA_PROGRAM
      then ret (into_error_reply PROG_UNAVAIL m)
      else ret (into_error_reply PROG_UNAVAIL m))"

definition handle_rpc_message ::
  "nat \<Rightarrow> nat \<Rightarrow> ('s, 'h, 'i, 'p) RPCContext \<Rightarrow> CompleteRpcMessage \<Rightarrow>
     ('s server_state, rpc_error + HandleResult) prog" where
  "handle_rpc_message now later ctx packed =
     (case incoming_try_from packed of
        Err e \<Rightarrow> ret (Err e)
      | Ok m \<Rightarrow>
          (let call = incoming_body m in
           if call_body.rpcvers call \<noteq> RPC_VERSION_2 then ret (into_rpc_mismatch m)
           else
             case (if opaque_auth.flavor (call_body.cred call) = AUTH_UNIX
                   then (case unpack auth_unix_codec (opaque_auth.body (call_body.cred call)) of
                           Err e \<Rightarrow> Err e
                         | Ok (a, _) \<Rightarrow> Ok (ctx\<lparr> auth := a \<rparr>))
                   else Ok ctx) of
               Err e \<Rightarrow> ret (Err (AuthFailed e))
             | Ok ctx \<Rightarrow>
                 await (lock_transaction now (client_addr ctx) (incoming_xid m)) (\<lambda>transaction.
                   case transaction of
                     Err (Some err) \<Rightarrow> ret (into_error_reply err m)
                   | Err None \<Rightarrow> ret (Ok NoReply)
                   | Ok lock \<Rightarrow>
                       await (dispatch ctx m) (\<lambda>result.
                       await (release later lock) (\<lambda>_. ret result)))))"

section \<open>Fragments\<close>

text \<open>\<^verbatim>\<open>write_fragment\<close>: the bytes that go to the socket; the assertion fails for a message of \<open>2 ^ 31\<close> bytes.\<close>

definition write_fragment :: "CompleteRpcMessage \<Rightarrow> bytes option" where
  "write_fragment buf =
     (if length buf < 2 ^ 31
      then map_option (\<lambda>h. into_xdr_buf h @ buf) (fragment_header_new (of_nat (length buf)) True)
      else None)"

text \<open>
  One call of \<^verbatim>\<open>SocketMessageHandler::read\<close> on the bytes received so far: the message whose
  handling is started, if it is complete, the fragment to go on with and the bytes that are left.
\<close>

definition socket_read ::
  "PackedRpcMessage \<Rightarrow> bytes \<Rightarrow> rpc_error + CompleteRpcMessage option \<times> PackedRpcMessage \<times> bytes" where
  "socket_read cur i =
     and_then (packed_recv cur i) (\<lambda>(is_last, cur', i').
       Ok (case cur' of
             Complete msg \<Rightarrow> (Some msg, packed_rpc_message_new, i')
           | Incomplete _ \<Rightarrow> (None, cur', i')))"

text \<open>
  The code looks at the flag and declares the incomplete case unreachable; the flag is set
  exactly for a complete message.
\<close>

lemma packed_recv_flag: "packed_recv cur i = Ok (is_last, cur', i') \<Longrightarrow> is_last \<longleftrightarrow> (\<exists>msg. cur' = Complete msg)"
  by (cases cur) (auto simp: result_simps split: if_splits)

text \<open>What the spawned task sends to the writer; an error is replaced by a generic one.\<close>

definition task_output :: "rpc_error + HandleResult \<Rightarrow> (unit + CompleteRpcMessage) option" where
  "task_output result =
     (case result of
        Ok (Reply buf) \<Rightarrow> Some (Ok buf)
      | Ok NoReply \<Rightarrow> None
      | Err err \<Rightarrow> Some (Err ()))"

text \<open>The calls of \<^verbatim>\<open>read\<close> up to the next complete message, at most \<open>n\<close> of them.\<close>

fun read_message :: "nat \<Rightarrow> PackedRpcMessage \<Rightarrow> bytes \<Rightarrow> rpc_error + (CompleteRpcMessage \<times> bytes) option" where
  "read_message 0 cur i = Ok None"
| "read_message (Suc n) cur i =
     and_then (socket_read cur i) (\<lambda>(m, cur', i').
       case m of Some msg \<Rightarrow> Ok (Some (msg, i')) | None \<Rightarrow> read_message n cur' i')"

section \<open>Facts on fragments\<close>

lemma fragment_recv:
  assumes "length buf < 2 ^ 31" "fragment_header_new (of_nat (length buf)) lst = Some h"
  shows "incomplete_recv msg (into_xdr_buf h @ buf @ rest) = Ok (lst, msg @ buf, rest)"
proof -
  have "fragment_length h = of_nat (length buf)" "fragment_header_eof h = lst"
    "fragment_header_from (into_xdr_buf h) = h" "length (into_xdr_buf h) = 4"
    using assms fragment_header_new_fields [of "of_nat (length buf)" lst h]
    by (simp_all only: fragment_header_from_into simp_thms) (simp_all add: into_xdr_buf_def)
  then show ?thesis using assms(1) by (simp add: incomplete_recv_def)
qed

lemma fragment_header_new_Some:
  "length buf < 2 ^ 31 \<Longrightarrow> \<exists>h. fragment_header_new (of_nat (length buf)) lst = Some h"
  by (simp add: fragment_header_new_def MASK_def word_le_nat_alt)

text \<open>A message in several fragments, the last one marked.\<close>

definition frame :: "bool \<Rightarrow> bytes \<Rightarrow> bytes" where
  "frame lst buf = (case fragment_header_new (of_nat (length buf)) lst of
     Some h \<Rightarrow> into_xdr_buf h @ buf | None \<Rightarrow> [])"

fun frames :: "bytes list \<Rightarrow> bytes" where
  "frames [] = []"
| "frames [p] = frame True p"
| "frames (p # ps) = frame False p @ frames ps"

lemma socket_read_frame:
  assumes "length buf < 2 ^ 31"
  shows "socket_read (Incomplete msg) (frame lst buf @ rest) =
    Ok (if lst then (Some (msg @ buf), packed_rpc_message_new, rest) else (None, Incomplete (msg @ buf), rest))"
proof -
  obtain h where h: "fragment_header_new (of_nat (length buf)) lst = Some h"
    using fragment_header_new_Some [OF assms] by blast
  from fragment_recv [OF assms h, of msg rest] h show ?thesis by (simp add: socket_read_def frame_def)
qed

lemma read_message_frames:
  "ps \<noteq> [] \<Longrightarrow> \<forall>p \<in> set ps. length p < 2 ^ 31 \<Longrightarrow> length ps \<le> n \<Longrightarrow>
   read_message n (Incomplete msg) (frames ps @ rest) = Ok (Some (msg @ concat ps, rest))"
proof (induction ps arbitrary: msg n rule: frames.induct)
  case (2 p)
  then obtain n' where "n = Suc n'" by (cases n) auto
  then show ?case using 2 socket_read_frame [of p msg True rest] by simp
next
  case (3 p p' ps)
  then obtain n' where n: "n = Suc n'" by (cases n) auto
  have "read_message n' (Incomplete (msg @ p)) (frames (p' # ps) @ rest) =
      Ok (Some ((msg @ p) @ concat (p' # ps), rest))"
    using 3 n by (intro "3.IH") auto
  then show ?case using 3 n socket_read_frame [of p msg False "frames (p' # ps) @ rest"] by simp
qed simp

end
