(* ===== verification/Rpc_Wire_Props.thy ===== *)
theory Rpc_Wire_Props
  imports Rpc_Wire
begin

text \<open>
  Properties of the RPC layer: fragments are put together again, every reply carries the xid of
  its call, what a call is answered with, and retransmissions.
\<close>

section \<open>Replies\<close>

text \<open>A codec that only adds bytes to the end of the buffer, whatever else it does.\<close>

locale appender =
  fixes co :: "'o codec"
  assumes appends: "pack co x out = map_ok (\<lambda>(n, bs). (n, out @ bs)) (pack co x [])"
begin

text \<open>The header of a reply reads back, and what follows it is the result.\<close>

lemma pack_reply_header:
  assumes "pack_reply rpc co result = Ok buf"
  obtains h n bs where "pack rpc_msg_codec rpc [] = Ok (length h, h)" "pack co result [] = Ok (n, bs)"
    "buf = h @ bs" "unpack rpc_msg_codec buf = Ok (rpc, length h, bs)"
proof -
  from assms obtain k h out' m where h: "pack rpc_msg_codec rpc [] = Ok (k, h)"
    "pack co result h = Ok (m, buf)"
    by (auto simp: pack_reply_def split: sum.splits)
  from h(2) obtain bs where bs: "pack co result [] = Ok (m, bs)" "buf = h @ bs"
    by (subst (asm) appends) (auto simp: result_simps)
  have "k = length h" using rpc_msg.pack_size [OF h(1)] by simp
  then show ?thesis using that h(1) bs rpc_msg.unpack_pack [OF h(1), of bs] by simp
qed

lemma pack_reply_eq:
  assumes "pack rpc_msg_codec rpc [] = Ok (k, h)" "pack co result [] = Ok (n, bs)"
  shows "pack_reply rpc co result = Ok (h @ bs)"
  using assms appends [of result h] by (simp add: pack_reply_def)

end

lemma codec_on_appender: "xdr_codec_on c R \<Longrightarrow> appender c"
  by (auto simp: appender_def intro: xdr_codec_on.pack_appends)

lemma codec_total_appender: "xdr_codec_total c \<Longrightarrow> appender c"
  by (auto simp: appender_def dest: total_codec_xdr intro: xdr_codec.pack_appends)

interpretation void_reply: appender void_codec
  by (rule codec_total_appender, rule void_codec_lawful)

text \<open>A result that, if it is a reply, is one to the call with the given xid.\<close>

definition replies_to :: "u32 \<Rightarrow> rpc_error + HandleResult \<Rightarrow> bool" where
  "replies_to i r \<longleftrightarrow> (\<forall>buf. r = Ok (Reply buf) \<longrightarrow>
     (\<exists>rb n rest. unpack rpc_msg_codec buf = Ok (\<lparr> rpc_msg.xid = i, rpc_msg.body = REPLY rb \<rparr>, n, rest)))"

named_theorems replies_intros \<open>operations whose reply carries the xid of the call\<close>

definition answers :: "u32 \<Rightarrow> ('st, rpc_error + HandleResult) prog \<Rightarrow> bool" where
  "answers i p \<longleftrightarrow> (\<forall>s r s'. p s = Some (r, s') \<longrightarrow> replies_to i r)"

lemma answersD: "answers i p \<Longrightarrow> p s = Some (r, s') \<Longrightarrow> replies_to i r"
  unfolding answers_def by blast

lemma replies_to_pack_reply:
  assumes "appender co"
  shows "replies_to i (map_ok Reply (pack_reply \<lparr> rpc_msg.xid = i, rpc_msg.body = REPLY rb \<rparr> co result))"
  by (auto simp: replies_to_def result_simps elim!: appender.pack_reply_header [OF assms])

lemma answers_ret [replies_intros]: "replies_to i r \<Longrightarrow> answers i (ret r)"
  by (simp add: answers_def)

lemma error_reply_replies [replies_intros]: "replies_to (incoming_xid m) (into_error_reply err m)"
  unfolding into_error_reply_def accepted_def
  by (rule replies_to_pack_reply) (rule void_reply.appender_axioms)

lemma rpc_mismatch_replies: "replies_to (incoming_xid m) (into_rpc_mismatch m)"
  unfolding into_rpc_mismatch_def by (rule replies_to_pack_reply) (rule void_reply.appender_axioms)

lemma answers_handle [replies_intros]:
  assumes "appender co"
  shows "answers (incoming_xid m) (handle ci co ctx m handler)"
  using replies_to_pack_reply [OF assms, of "incoming_xid m"] error_reply_replies [of "m\<lparr> incoming_data := None \<rparr>" GARBAGE_ARGS]
  by (auto simp: answers_def handle_def Let_def panic_def into_success_reply_def accepted_def await_eq_Some
      split: option.splits sum.splits if_splits)

lemmas nfs_appenders [replies_intros] =
  codec_total_appender [OF void_codec_lawful]
  GETATTR3res.xdr_codec_on_axioms [THEN codec_on_appender]
  LOOKUP3res.xdr_codec_on_axioms [THEN codec_on_appender]
  READ3res.xdr_codec_on_axioms [THEN codec_on_appender]
  FSINFO3res.xdr_codec_on_axioms [THEN codec_on_appender]
  ACCESS3res.xdr_codec_on_axioms [THEN codec_on_appender]
  PATHCONF3res.xdr_codec_on_axioms [THEN codec_on_appender]
  FSSTAT3res.xdr_codec_on_axioms [THEN codec_on_appender]
  READDIR3res.xdr_codec_on_axioms [THEN codec_on_appender]
  READDIRPLUS3res.xdr_codec_on_axioms [THEN codec_on_appender]
  WRITE3res.xdr_codec_on_axioms [THEN codec_on_appender]
  CREATE3res.xdr_codec_on_axioms [THEN codec_on_appender]
  SETATTR3res.xdr_codec_on_axioms [THEN codec_on_appender]
  REMOVE3res.xdr_codec_on_axioms [THEN codec_on_appender]
  RENAME3res.xdr_codec_on_axioms [THEN codec_on_appender]
  MKDIR3res.xdr_codec_on_axioms [THEN codec_on_appender]
  SYMLINK3res.xdr_codec_on_axioms [THEN codec_on_appender]
  READLINK3res.xdr_codec_on_axioms [THEN codec_on_appender]
  mountres3.xdr_codec_on_axioms [THEN codec_on_appender]
  codec_total_appender [OF u32_codec_lawful]
  codec_total_appender [OF list_codec_lawful [OF export_node_codec_lawful]]

lemma handle_nfs_answers: "answers (incoming_xid m) (handle_nfs ctx m)"
  unfolding handle_nfs_def Let_def by (auto intro!: replies_intros split: sum.split NFS_PROGRAM.split)

lemma handle_mount_answers: "answers (incoming_xid m) (handle_mount ctx m)"
  unfolding handle_mount_def Let_def by (auto intro!: replies_intros split: sum.split MOUNT_PROGRAM.split)

lemma handle_portmap_answers: "answers (incoming_xid m) (handle_portmap ctx m)"
  unfolding handle_portmap_def Let_def by (auto intro!: replies_intros split: sum.split PMAP_PROG.split)

lemma dispatch_answers: "answers (incoming_xid m) (dispatch ctx m)"
proof -
  have "answers i p \<Longrightarrow> answers i (with_vfs p)" "answers i q \<Longrightarrow> answers i (with_mount q)"
    for i and p :: "('a, rpc_error + HandleResult) prog" and q :: "('a mount_state, rpc_error + HandleResult) prog"
    by (auto simp: answers_def with_vfs_def with_mount_def split: option.splits prod.splits)
  then show ?thesis
    unfolding dispatch_def Let_def
    by (auto intro!: replies_intros handle_nfs_answers handle_mount_answers handle_portmap_answers)
qed

section \<open>Calls\<close>

lemma incoming_try_from_Ok:
  "incoming_try_from packed = Ok m \<longleftrightarrow>
     (\<exists>call n rest. unpack rpc_msg_codec packed = Ok (\<lparr> rpc_msg.xid = incoming_xid m, rpc_msg.body = CALL call \<rparr>, n, rest) \<and>
        m = \<lparr> incoming_xid = incoming_xid m, incoming_body = call, incoming_data = Some packed, message_start = n \<rparr>)"
proof
  assume "incoming_try_from packed = Ok m"
  then obtain rpc n rest call where u: "unpack rpc_msg_codec packed = Ok (rpc, n, rest)" "rpc_msg.body rpc = CALL call"
    and m: "m = \<lparr> incoming_xid = rpc_msg.xid rpc, incoming_body = call, incoming_data = Some packed, message_start = n \<rparr>"
    by (auto simp: incoming_try_from_def split: sum.splits msg_body.splits)
  then have "rpc = \<lparr> rpc_msg.xid = incoming_xid m, rpc_msg.body = CALL call \<rparr>" by simp
  then show "\<exists>call n rest. unpack rpc_msg_codec packed = Ok (\<lparr> rpc_msg.xid = incoming_xid m, rpc_msg.body = CALL call \<rparr>, n, rest) \<and>
      m = \<lparr> incoming_xid = incoming_xid m, incoming_body = call, incoming_data = Some packed, message_start = n \<rparr>"
    using u(1) m by auto
qed (auto simp: incoming_try_from_def)

lemma handle_rpc_message_answers:
  fixes ctx :: "('s, 'h, 'i, 'p) RPCContext"
  assumes "incoming_try_from packed = Ok m"
  shows "answers (incoming_xid m) (handle_rpc_message now later ctx packed)"
proof -
  have *: "answers i p \<Longrightarrow> answers i (await p (\<lambda>r. await (release later lock) (\<lambda>_. ret r)))"
    for i lock and p :: "('s server_state, rpc_error + HandleResult) prog"
    by (auto simp: answers_def await_eq_Some)
  have "replies_to i (Err e)" "replies_to i (Ok NoReply)" for i e by (simp_all add: replies_to_def)
  then have "answers (incoming_xid m) (case t of Err None \<Rightarrow> ret (Ok NoReply) | Err (Some err) \<Rightarrow> ret (into_error_reply err m)
      | Ok lock \<Rightarrow> await (dispatch ctx m) (\<lambda>r. await (release later lock) (\<lambda>_. ret r)))" for t and ctx :: "('s, 'h, 'i, 'p) RPCContext"
    by (auto intro!: replies_intros * dispatch_answers split: sum.split option.split)
  then have "answers (incoming_xid m) (await p (\<lambda>t. case t of Err None \<Rightarrow> ret (Ok NoReply) | Err (Some err) \<Rightarrow> ret (into_error_reply err m)
      | Ok lock \<Rightarrow> await (dispatch ctx m) (\<lambda>r. await (release later lock) (\<lambda>_. ret r))))"
    for p :: "('s server_state, accept_stat_data option + TransactionLock) prog" and ctx :: "('s, 'h, 'i, 'p) RPCContext"
    by (fastforce simp: answers_def await_eq_Some)
  then show ?thesis
    using rpc_mismatch_replies [of m]
    by (auto simp: handle_rpc_message_def assms Let_def replies_to_def
        intro!: answers_ret split: sum.split)
qed

text \<open>
  Every reply is a well-formed RPC reply message with the xid of the call it answers; what is
  not a call gets no reply.
\<close>

theorem reply_carries_xid:
  assumes "handle_rpc_message now later ctx packed st = Some (Ok (Reply buf), st')"
  shows "\<exists>i call n rest rb k out.
    unpack rpc_msg_codec packed = Ok (\<lparr> rpc_msg.xid = i, rpc_msg.body = CALL call \<rparr>, n, rest) \<and>
    unpack rpc_msg_codec buf = Ok (\<lparr> rpc_msg.xid = i, rpc_msg.body = REPLY rb \<rparr>, k, out)"
proof -
  obtain m where m: "incoming_try_from packed = Ok m"
    using assms by (cases "incoming_try_from packed") (auto simp: handle_rpc_message_def)
  from answersD [OF handle_rpc_message_answers [OF m] assms] m
  show ?thesis by (fastforce simp: replies_to_def incoming_try_from_Ok)
qed

section \<open>Procedure calls\<close>

lemma incoming_try_from_call:
  assumes "pack rpc_msg_codec \<lparr> rpc_msg.xid = i, rpc_msg.body = CALL call \<rparr> [] = Ok (k, h)"
  shows "incoming_try_from (h @ bs) =
    Ok \<lparr> incoming_xid = i, incoming_body = call, incoming_data = Some (h @ bs), message_start = length h \<rparr>"
  using rpc_msg.unpack_pack [OF assms, of bs] rpc_msg.pack_size [OF assms] by (simp add: incoming_try_from_def)

text \<open>
  C20: the handler of a procedure gets the arguments that the client encoded, once, and its result
  is sent back, encoded, behind an accepted reply header with the call's xid.
\<close>

theorem procedure_called:
  assumes "xdr_codec ci" "appender co"
    and "pack rpc_msg_codec \<lparr> rpc_msg.xid = i, rpc_msg.body = CALL call \<rparr> [] = Ok (k, h)"
    and "pack ci a [] = Ok (n, bs)"
    and "handler ctx i a s = Some (r, s')" "pack co r [] = Ok (n', out)"
  shows "\<exists>m hdr. incoming_try_from (h @ bs) = Ok m \<and> incoming_xid m = i \<and> incoming_body m = call \<and>
    handle ci co ctx m handler s = Some (Ok (Reply (hdr @ out)), s') \<and>
    unpack rpc_msg_codec (hdr @ out) = Ok (accepted i SUCCESS, length hdr, out)"
proof -
  obtain k' hdr where hdr: "pack rpc_msg_codec (accepted i SUCCESS) [] = Ok (k', hdr)"
    using accepted_pack [of i SUCCESS] by blast
  have u: "unpack ci bs = Ok (a, n, [])" using xdr_codec.unpack_pack [OF assms(1,4), of "[]"] by simp
  have n: "n = length bs" using xdr_codec.pack_size [OF assms(1,4)] by simp
  have "pack_reply (accepted i SUCCESS) co r = Ok (hdr @ out)"
    by (rule appender.pack_reply_eq [OF assms(2) hdr assms(6)])
  then have "handle ci co ctx \<lparr> incoming_xid = i, incoming_body = call, incoming_data = Some (h @ bs), message_start = length h \<rparr>
      handler s = Some (Ok (Reply (hdr @ out)), s')"
    using assms(5) u n by (simp add: handle_def Let_def into_success_reply_def await_def ret_def)
  moreover have "unpack rpc_msg_codec (hdr @ out) = Ok (accepted i SUCCESS, length hdr, out)"
    using rpc_msg.unpack_pack [OF hdr, of out] rpc_msg.pack_size [OF hdr] by simp
  ultimately show ?thesis using incoming_try_from_call [OF assms(3), of bs] by auto
qed

text \<open>A reply without a result, as the client decodes it.\<close>

definition refusal :: "u32 \<Rightarrow> accept_stat_data \<Rightarrow> rpc_error + HandleResult \<Rightarrow> bool" where
  "refusal i stat r \<longleftrightarrow> (\<exists>buf. r = Ok (Reply buf) \<and> unpack rpc_msg_codec buf = Ok (accepted i stat, length buf, []))"

lemma into_error_reply_refusal: "refusal (incoming_xid m) stat (into_error_reply stat m)"
proof -
  obtain k h where h: "pack rpc_msg_codec (accepted (incoming_xid m) stat) [] = Ok (k, h)"
    using accepted_pack [of "incoming_xid m" stat] by blast
  have "pack void_codec () [] = Ok (0, [])" by (simp add: void_codec_def)
  from void_reply.pack_reply_eq [OF h this] rpc_msg.unpack_pack [OF h, of "[]"] rpc_msg.pack_size [OF h]
  show ?thesis by (simp add: into_error_reply_def refusal_def)
qed

text \<open>
  A call whose arguments are cut short or followed by more bytes is answered with
  \<^verbatim>\<open>GARBAGE_ARGS\<close>, and the procedure is not run.
\<close>

theorem garbage_args_refused:
  assumes "xdr_codec ci"
    and "pack rpc_msg_codec \<lparr> rpc_msg.xid = i, rpc_msg.body = CALL call \<rparr> [] = Ok (k, h)"
    and "pack ci a [] = Ok (n, bs)"
    and "(\<exists>j < n. argbytes = take j bs) \<or> (\<exists>more. more \<noteq> [] \<and> argbytes = bs @ more)"
  shows "\<exists>m r. incoming_try_from (h @ argbytes) = Ok m \<and> incoming_body m = call \<and>
    handle ci co ctx m handler s = Some (r, s) \<and> refusal i GARBAGE_ARGS r"
proof -
  let ?m = "\<lparr> incoming_xid = i, incoming_body = call, incoming_data = Some (h @ argbytes), message_start = length h \<rparr>"
  have "handle ci co ctx ?m handler s = Some (into_error_reply GARBAGE_ARGS (?m\<lparr> incoming_data := None \<rparr>), s)"
    using assms(4)
  proof (elim disjE exE conjE)
    fix j assume "j < n" "argbytes = take j bs"
    then show ?thesis
      using xdr_codec.unpack_truncated [OF assms(1,3)] by (simp add: handle_def Let_def ret_def)
  next
    fix more assume "more \<noteq> []" "argbytes = bs @ more"
    then show ?thesis
      using xdr_codec.unpack_pack [OF assms(1,3), of more] by (simp add: handle_def Let_def ret_def)
  qed
  then show ?thesis
    using incoming_try_from_call [OF assms(2), of argbytes] into_error_reply_refusal [of "?m\<lparr> incoming_data := None \<rparr>" GARBAGE_ARGS] by auto
qed

lemma rpc_mismatch_reply:
  "\<exists>buf. into_rpc_mismatch m = Ok (Reply buf) \<and> unpack rpc_msg_codec buf =
     Ok (\<lparr> rpc_msg.xid = incoming_xid m, rpc_msg.body = REPLY (MSG_DENIED (RPC_MISMATCH 2 2)) \<rparr>, length buf, [])"
proof -
  let ?rpc = "\<lparr> rpc_msg.xid = incoming_xid m, rpc_msg.body = REPLY (MSG_DENIED (RPC_MISMATCH 2 2)) \<rparr>"
  have "\<exists>k h. pack rpc_msg_codec ?rpc [] = Ok (k, h)"
    by (simp add: rpc_msg_codec_def struct_codec_def fields_codec_def msg_body_codec_def
        reply_body_codec_def rejected_reply_codec_def complex_enum_codec_def field_payload_def Let_def)
  then obtain k h where h: "pack rpc_msg_codec ?rpc [] = Ok (k, h)" by blast
  have "pack void_codec () [] = Ok (0, [])" by (simp add: void_codec_def)
  from void_reply.pack_reply_eq [OF h this] rpc_msg.unpack_pack [OF h, of "[]"] rpc_msg.pack_size [OF h]
  show ?thesis by (simp add: into_rpc_mismatch_def RPC_VERSION_2_def)
qed

lemmas program_numbers = Portmap_Types.PROGRAM_def Mount_Types.PROGRAM_def Nfs3_Types.PROGRAM_def
  Portmap_Types.VERSION_def Mount_Types.VERSION_def Nfs3_Types.VERSION_def
  NFS_ACL_PROGRAM_def NFS_ID_MAP_PROGRAM_def NFS_METADATA_PROGRAM_def

lemma proc_errors:
  "w > 21 \<Longrightarrow> NFS_PROGRAM_try_from w = Err (InvalidEnumValue w)"
  "w > 5 \<Longrightarrow> MOUNT_PROGRAM_try_from w = Err (InvalidEnumValue w)"
  "NFS_PROGRAM_try_from 11 = Ok NFSPROC3_MKNOD" "NFS_PROGRAM_try_from 15 = Ok NFSPROC3_LINK"
  "NFS_PROGRAM_try_from 21 = Ok NFSPROC3_COMMIT" "MOUNT_PROGRAM_try_from 2 = Ok MOUNTPROC3_DUMP"
  by (auto simp: NFS_PROGRAM_try_from_def MOUNT_PROGRAM_try_from_def)

lemma handle_portmap_unavailable:
  assumes "call_body.vers (incoming_body m) = 2" "call_body.proc (incoming_body m) \<noteq> 0"
    "call_body.proc (incoming_body m) \<noteq> 3"
  shows "handle_portmap ctx m = ret (into_error_reply PROC_UNAVAIL m)"
  using assms by (auto simp: handle_portmap_def Let_def Portmap_Types.VERSION_def PMAP_PROG_try_from_def)

lemma handle_portmap_mismatch:
  "call_body.vers (incoming_body m) \<noteq> 2 \<Longrightarrow> handle_portmap ctx m = ret (into_error_reply (PROG_MISMATCH 2 2) m)"
  by (simp add: handle_portmap_def Let_def Portmap_Types.VERSION_def)

text \<open>
  C40: a call of another RPC version is denied with the supported range; calls of unknown programs,
  versions and procedures are refused with the code that says which, and nothing changes.
\<close>

theorem unsupported_calls_refused:
  assumes "incoming_try_from packed = Ok m"
  defines "call \<equiv> incoming_body m" and "i \<equiv> incoming_xid m"
  shows "(call_body.rpcvers call \<noteq> 2 \<longrightarrow>
      (\<exists>buf. handle_rpc_message now later ctx packed st = Some (Ok (Reply buf), st) \<and>
        unpack rpc_msg_codec buf = Ok (\<lparr> rpc_msg.xid = i, rpc_msg.body = REPLY (MSG_DENIED (RPC_MISMATCH 2 2)) \<rparr>, length buf, []))) \<and>
    (call_body.prog call \<notin> {100000, 100003, 100005} \<longrightarrow>
      (\<exists>r. dispatch ctx m st = Some (r, st) \<and> refusal i PROG_UNAVAIL r)) \<and>
    (call_body.prog call = 100003 \<and> call_body.vers call \<noteq> 3 \<longrightarrow>
      (\<exists>r. dispatch ctx m st = Some (r, st) \<and> refusal i (PROG_MISMATCH 3 3) r)) \<and>
    (call_body.prog call = 100005 \<and> call_body.vers call \<noteq> 3 \<longrightarrow>
      (\<exists>r. dispatch ctx m st = Some (r, st) \<and> refusal i (PROG_MISMATCH 3 3) r)) \<and>
    (call_body.prog call = 100000 \<and> call_body.vers call \<noteq> 2 \<longrightarrow>
      (\<exists>r. dispatch ctx m st = Some (r, st) \<and> refusal i (PROG_MISMATCH 2 2) r)) \<and>
    (call_body.prog call = 100003 \<and> call_body.vers call = 3 \<and> (call_body.proc call > 21 \<or> call_body.proc call \<in> {11, 15, 21}) \<or>
     call_body.prog call = 100005 \<and> call_body.vers call = 3 \<and> (call_body.proc call > 5 \<or> call_body.proc call = 2) \<or>
     call_body.prog call = 100000 \<and> call_body.vers call = 2 \<and> call_body.proc call \<notin> {0, 3} \<longrightarrow>
      (\<exists>r. dispatch ctx m st = Some (r, st) \<and> refusal i PROC_UNAVAIL r))"
proof (intro conjI impI)
  assume "call_body.rpcvers call \<noteq> 2"
  then show "\<exists>buf. handle_rpc_message now later ctx packed st = Some (Ok (Reply buf), st) \<and>
      unpack rpc_msg_codec buf = Ok (\<lparr> rpc_msg.xid = i, rpc_msg.body = REPLY (MSG_DENIED (RPC_MISMATCH 2 2)) \<rparr>, length buf, [])"
    using rpc_mismatch_reply [of m]
    by (auto simp: handle_rpc_message_def assms(1) Let_def call_def i_def RPC_VERSION_2_def ret_def)
qed (use into_error_reply_refusal [of m] in
  \<open>auto simp: dispatch_def Let_def call_def i_def program_numbers ret_def with_vfs_def with_mount_def
     handle_nfs_def handle_mount_def handle_portmap_unavailable handle_portmap_mismatch proc_errors
     split del: if_split\<close>)

section \<open>The transaction of a call\<close>

text \<open>A message that reaches the retransmission check, with its credentials decoded.\<close>

definition admitted :: "CompleteRpcMessage \<Rightarrow> IncomingRpcMessage \<Rightarrow> bool" where
  "admitted packed m \<longleftrightarrow> incoming_try_from packed = Ok m \<and> call_body.rpcvers (incoming_body m) = RPC_VERSION_2 \<and>
     (opaque_auth.flavor (call_body.cred (incoming_body m)) = AUTH_UNIX \<longrightarrow>
        is_ok (unpack auth_unix_codec (opaque_auth.body (call_body.cred (incoming_body m)))))"

text \<open>The rest of \<^verbatim>\<open>handle_rpc_message\<close> from there on.\<close>

definition transacted ::
  "nat \<Rightarrow> nat \<Rightarrow> ('s, 'h, 'i, 'p) RPCContext \<Rightarrow> IncomingRpcMessage \<Rightarrow> ('s server_state, rpc_error + HandleResult) prog" where
  "transacted now later ctx m =
     await (lock_transaction now (client_addr ctx) (incoming_xid m)) (\<lambda>transaction. case transaction of
       Err (Some err) \<Rightarrow> ret (into_error_reply err m)
     | Err None \<Rightarrow> ret (Ok NoReply)
     | Ok lock \<Rightarrow> await (dispatch ctx m) (\<lambda>result. await (release later lock) (\<lambda>_. ret result)))"

lemma admitted_handle:
  assumes "admitted packed m"
  obtains au where "handle_rpc_message now later ctx packed = transacted now later (ctx\<lparr> auth := au \<rparr>) m"
proof (cases "opaque_auth.flavor (call_body.cred (incoming_body m)) = AUTH_UNIX")
  case True
  with assms obtain au rest where "unpack auth_unix_codec (opaque_auth.body (call_body.cred (incoming_body m))) = Ok (au, rest)"
    by (auto simp: admitted_def is_ok_def split: sum.splits)
  then show ?thesis using assms True that [of au]
    by (simp add: admitted_def handle_rpc_message_def transacted_def Let_def)
next
  case False
  have "ctx\<lparr> auth := auth ctx \<rparr> = ctx" by simp
  then show ?thesis using assms False that [of "auth ctx"]
    by (simp only: admitted_def handle_rpc_message_def transacted_def Let_def) simp
qed

lemma dispatch_tracker:
  "dispatch ctx m st = Some (r, st') \<Longrightarrow> transaction_tracker st' = transaction_tracker st"
  using handle_portmap_preserves [of ctx m, THEN preservesD, of st r st']
  by (auto simp: dispatch_def Let_def with_vfs_def with_mount_def ret_def split: if_splits option.splits)

text \<open>What a handled call leaves in the tracker.\<close>

lemma handled_call_tracker:
  assumes ok: "tracker_ok (transaction_tracker st) ls"
    and lock: "start_transaction (client_addr ctx) (incoming_xid m) now (transaction_tracker st) = Some (Ok lock, t)"
    and run: "transacted now later ctx m st = Some (r, st')"
  shows "\<exists>st1. dispatch ctx m (st\<lparr> transaction_tracker := t \<rparr>) = Some (r, st1) \<and>
    tracker_ok t (lock # ls) \<and> drop_lock later lock t = Some (transaction_tracker st') \<and>
    vfs_state st' = vfs_state st1 \<and> signals st' = signals st1"
proof -
  from run lock obtain st1 where st1: "dispatch ctx m (st\<lparr> transaction_tracker := t \<rparr>) = Some (r, st1)"
    and rel: "release later lock st1 = Some ((), st')"
    by (auto simp: transacted_def lock_transaction_def await_eq_Some)
  have "tracker_ok t (lock # ls)"
    using start_transaction_ok [OF ok, of "client_addr ctx" "incoming_xid m" now] lock by (auto simp: hold_def)
  moreover have "transaction_tracker st1 = t" using dispatch_tracker [OF st1] by simp
  ultimately show ?thesis using st1 rel by (auto simp: release_def split: option.splits)
qed

text \<open>The three ways through the retransmission check.\<close>

lemma transacted_cases:
  assumes "tracker_ok (transaction_tracker st) ls" "transacted now later ctx m st = Some (r, st')"
  obtains (done_before) t where "r = Ok NoReply" "st' = st\<lparr> transaction_tracker := t \<rparr>" "tracker_ok t ls"
  | (too_many) t where "r = into_error_reply SYSTEM_ERR m" "st' = st\<lparr> transaction_tracker := t \<rparr>" "tracker_ok t ls"
  | (executed) lock t st1 where
      "start_transaction (client_addr ctx) (incoming_xid m) now (transaction_tracker st) = Some (Ok lock, t)"
      "tracker_ok t (lock # ls)" "dispatch ctx m (st\<lparr> transaction_tracker := t \<rparr>) = Some (r, st1)"
      "drop_lock later lock t = Some (transaction_tracker st')" "vfs_state st' = vfs_state st1" "signals st' = signals st1"
proof -
  obtain x t where t: "start_transaction (client_addr ctx) (incoming_xid m) now (transaction_tracker st) = Some (x, t)"
    "tracker_ok t (hold x ls)"
    using start_transaction_ok [OF assms(1)] by blast
  show ?thesis
  proof (cases x)
    case (Inl e)
    with t assms(2) show ?thesis
      by (cases e) (auto simp: transacted_def lock_transaction_def await_def hold_def ret_def
          intro: done_before too_many)
  next
    case (Inr lock)
    from handled_call_tracker [OF assms(1) t(1) [unfolded Inr] assms(2)] t(1) Inr show ?thesis
      using executed by blast
  qed
qed


section \<open>Fragments\<close>

lemma read_exact_more: "read_exact n i = Ok (bs, i') \<Longrightarrow> read_exact n (i @ j) = Ok (bs, i' @ j)"
  by (auto simp: read_exact_def split: if_splits)

lemma incomplete_recv_more:
  assumes "incomplete_recv msg i = Ok (l, msg', i')"
  shows "incomplete_recv msg (i @ j) = Ok (l, msg', i' @ j)"
proof -
  from assms obtain hb i1 bs where r: "read_exact 4 i = Ok (hb, i1)"
    "read_exact (unat (fragment_length (fragment_header_from hb))) i1 = Ok (bs, i')"
    and l: "l = fragment_header_eof (fragment_header_from hb)" "msg' = msg @ bs"
    by (auto simp: incomplete_recv_def Let_def split: sum.splits)
  from r [THEN read_exact_more, of j] l show ?thesis by (simp add: incomplete_recv_def Let_def)
qed

lemma socket_read_more:
  assumes "socket_read cur i = Ok (m, cur', i')"
  shows "socket_read cur (i @ j) = Ok (m, cur', i' @ j)"
proof (cases cur)
  case (Incomplete msg)
  with assms obtain l msg' where "incomplete_recv msg i = Ok (l, msg', i')"
    "(m, cur') = (if l then (Some msg', packed_rpc_message_new) else (None, Incomplete msg'))"
    by (cases "incomplete_recv msg i") (auto simp: socket_read_def split: if_splits)
  then show ?thesis using incomplete_recv_more [of msg i l msg' i' j] Incomplete
    by (auto simp: socket_read_def split: if_splits)
next
  case (Complete msg)
  then show ?thesis using assms by (simp add: socket_read_def)
qed

lemma read_message_more:
  "read_message n cur i = Ok (Some (m, i')) \<Longrightarrow> read_message (n + k) cur (i @ j) = Ok (Some (m, i' @ j))"
proof (induction n arbitrary: cur i)
  case (Suc n)
  then obtain x cur1 i1 where x: "socket_read cur i = Ok (x, cur1, i1)"
    by (cases "socket_read cur i") auto
  with Suc.prems Suc.IH [of cur1 i1] socket_read_more [OF x, of j] show ?case by (cases x) auto
qed simp

text \<open>
  C19: however a message is cut into fragments, the server puts it together again and leaves what
  follows on the connection; from a beginning of the fragments it never takes a message.  A
  reply goes out as one such fragment.
\<close>

theorem fragments_reassembled:
  assumes "ps \<noteq> []" "\<forall>p \<in> set ps. length p < 2 ^ 31"
  shows "read_message (length ps) packed_rpc_message_new (frames ps @ rest) = Ok (Some (concat ps, rest)) \<and>
    (\<forall>k < length (frames ps). \<forall>n m i. read_message n packed_rpc_message_new (take k (frames ps)) \<noteq> Ok (Some (m, i))) \<and>
    (length buf < 2 ^ 31 \<longrightarrow> write_fragment buf = Some (frames [buf]))"
proof (intro conjI allI impI notI)
  show "read_message (length ps) packed_rpc_message_new (frames ps @ rest) = Ok (Some (concat ps, rest))"
    using read_message_frames [OF assms order.refl, of "[]" rest] by (simp add: packed_rpc_message_new_def)
next
  fix k n m i assume k: "k < length (frames ps)"
    and r: "read_message n packed_rpc_message_new (take k (frames ps)) = Ok (Some (m, i))"
  have "read_message (n + length ps) packed_rpc_message_new (frames ps) = Ok (Some (concat ps, []))"
    using read_message_frames [OF assms, of "n + length ps" "[]" "[]"] by (simp add: packed_rpc_message_new_def)
  then have "i @ drop k (frames ps) = []"
    using read_message_more [OF r, of "length ps" "drop k (frames ps)"] by simp
  then show False using k by simp
next
  assume "length buf < 2 ^ 31"
  then show "write_fragment buf = Some (frames [buf])"
    using fragment_header_new_Some [of buf True] by (auto simp: write_fragment_def frame_def)
qed

end
