(* ===== verification/Client_Props.thy ===== *)
theory Client_Props
  imports Client_Programs Rpc_Wire_Props
begin

text \<open>
  Properties of the client: transfers over a connection that delivers, what becomes of replies,
  and the choice of local ports.  The locale \<open>stream_io\<close> is what the client needs of a
  connection.
\<close>

section \<open>Connections\<close>

text \<open>
  A connection that delivers: a read takes some of the bytes that are to come in, a write some of
  those it is given, if only a few.  Once all of the incoming bytes are read, more may follow.
  \<open>peer\<close> is what a write leaves as it is; \<open>cur\<close> is a view of the other end, \<open>aft\<close> the view that
  reading the incoming bytes leads to, and \<open>drained\<close> says that all of them have been read.
\<close>

locale stream_io =
  fixes ops :: "'io async_io" and inc :: "'io \<Rightarrow> bytes" and out :: "'io \<Rightarrow> bytes" and peer :: "'io \<Rightarrow> 'x"
    and cur :: "'io \<Rightarrow> 'y" and aft :: "'io \<Rightarrow> 'y" and drained :: "'io \<Rightarrow> bool"
  assumes read_some: "0 < n \<Longrightarrow> inc s \<noteq> [] \<Longrightarrow>
      \<exists>bs rest s'. async_read ops n s = (Ok bs, s') \<and> bs \<noteq> [] \<and> length bs \<le> n \<and>
        inc s = bs @ rest \<and> cur s' = aft s \<and> (if rest = [] then drained s' else inc s' = rest \<and> aft s' = aft s)"
    and write_some: "bs \<noteq> [] \<Longrightarrow>
      \<exists>k s'. async_write ops bs s = (Ok k, s') \<and> 0 < k \<and> k \<le> length bs \<and> out s' = out s @ take k bs \<and> peer s' = peer s"
begin

lemma read_exact_delivers:
  "n \<le> length (inc s) \<Longrightarrow> \<exists>s'. async_read_exact ops n s = Some (Ok (take n (inc s)), s') \<and>
     (n > 0 \<longrightarrow> cur s' = aft s \<and> (n = length (inc s) \<longrightarrow> drained s')) \<and>
     (n < length (inc s) \<longrightarrow> inc s' = drop n (inc s) \<and> aft s' = aft s)"
proof (induction n arbitrary: s rule: less_induct)
  case (less n)
  show ?case
  proof (cases "n = 0")
    case False
    with less.prems have "0 < n" "inc s \<noteq> []" by auto
    then obtain bs rest s1 where r: "async_read ops n s = (Ok bs, s1)" "bs \<noteq> []" "length bs \<le> n" "inc s = bs @ rest"
      "cur s1 = aft s" "if rest = [] then drained s1 else inc s1 = rest \<and> aft s1 = aft s" using read_some by blast
    show ?thesis
    proof (cases "length bs = n")
      case True
      then show ?thesis using r False by (subst async_read_exact.simps) (auto simp: async_read_exact.simps split: if_splits)
    next
      case more: False
      then have rest: "inc s1 = rest" "n - length bs \<le> length (inc s1)" "aft s1 = aft s" "n - length bs > 0"
        using r(3,4,6) less.prems by (auto split: if_splits)
      have "n - length bs < n" using r(2) False by simp
      from less.IH [OF this rest(2)] obtain s2 where
        "async_read_exact ops (n - length bs) s1 = Some (Ok (take (n - length bs) (inc s1)), s2)"
        "cur s2 = aft s1" "n - length bs = length (inc s1) \<longrightarrow> drained s2" "n - length bs < length (inc s1) \<longrightarrow> inc s2 = drop (n - length bs) (inc s1) \<and> aft s2 = aft s1"
        using rest(4) by blast
      then show ?thesis using r False rest(1,3) by (subst async_read_exact.simps) auto
    qed
  qed (simp add: async_read_exact.simps)
qed

lemma write_all_delivers:
  "\<exists>s'. async_write_all ops bs s = Some (Ok (), s') \<and> out s' = out s @ bs \<and> peer s' = peer s"
proof (induction "length bs" arbitrary: bs s rule: less_induct)
  case less
  show ?case
  proof (cases "bs = []")
    case False
    then obtain k s1 where w: "async_write ops bs s = (Ok k, s1)" "0 < k" "k \<le> length bs"
      "out s1 = out s @ take k bs" "peer s1 = peer s" using write_some by blast
    have "length (drop k bs) < length bs" using w(2) False by simp
    from less [OF this, of s1] obtain s2 where "async_write_all ops (drop k bs) s1 = Some (Ok (), s2)"
      "out s2 = out s1 @ drop k bs" "peer s2 = peer s1" by blast
    then show ?thesis using w False by (subst async_write_all.simps) simp
  qed (simp add: async_write_all.simps)
qed

text \<open>A reply in one fragment is taken from the connection as a whole and decoded.\<close>

lemma recv_reply_delivers:
  assumes "inc s = frame True buf" "length buf < 2 ^ 31" "buf \<noteq> []"
  shows "\<exists>s'. recv_reply ops cr i s = Some (decode_reply cr i buf, s') \<and> cur s' = aft s \<and> drained s'"
proof -
  obtain h where h: "fragment_header_new (of_nat (length buf)) True = Some h"
    using fragment_header_new_Some [OF assms(2)] by blast
  have f: "fragment_length h = of_nat (length buf)" "fragment_header_eof h"
    using assms(2) h fragment_header_new_fields [of "of_nat (length buf)" True h] by simp_all
  have len: "length (into_xdr_buf h) = 4" by (simp add: into_xdr_buf_def)
  have i: "inc s = into_xdr_buf h @ buf" using assms(1) h by (simp add: frame_def)
  obtain s1 where s1: "async_read_exact ops 4 s = Some (Ok (into_xdr_buf h), s1)" "inc s1 = buf" "aft s1 = aft s"
    using read_exact_delivers [of 4 s] i len assms(3) by auto
  have "unat (fragment_length h) = length buf" using f(1) assms(2) by simp
  then obtain s2 where "async_read_exact ops (unat (fragment_length h)) s1 = Some (Ok buf, s2)" "cur s2 = aft s1" "drained s2"
    using assms(3) read_exact_delivers [of "unat (fragment_length h)" s1] s1(2) by auto
  then show ?thesis
    using s1(1,3) f(2) by (simp add: recv_reply_def await_ok_def io_result_def await_def ret_def Let_def)
qed

end

section \<open>Calls and replies as bytes\<close>

text \<open>The bytes of a call are one fragment with the encoded message and arguments.\<close>

lemma call_bytes_frame:
  assumes "xdr_codec cc" "pack rpc_msg_codec msg [] = Ok (k, h)" "pack cc a [] = Ok (n, bs)" "length (h @ bs) < 2 ^ 31"
  shows "call_bytes msg cc a = Some (Ok (frame True (h @ bs)))"
proof -
  have k: "k = length h" "packed_size rpc_msg_codec msg = length h" "4 dvd length h"
    using rpc_msg.pack_size [OF assms(2)] rpc_msg.size_aligned [of msg] by auto
  have n: "n = length bs" "packed_size cc a = length bs" "4 dvd length bs"
    using xdr_codec.pack_size [OF assms(1,3)] xdr_codec.size_aligned [OF assms(1), of a] by auto
  obtain fh where fh: "fragment_header_new (of_nat (length (h @ bs))) True = Some fh"
    using fragment_header_new_Some [OF assms(4)] by blast
  have "pack fragment_header_codec fh [] = Ok (4, into_xdr_buf fh)"
    by (simp add: fragment_header_codec_def struct_codec_def into_xdr_buf_def)
  moreover have "pack rpc_msg_codec msg (into_xdr_buf fh) = Ok (k, into_xdr_buf fh @ h)"
    by (rule rpc_msg.pack_into [OF assms(2)])
  moreover have "pack cc a (into_xdr_buf fh @ h) = Ok (n, (into_xdr_buf fh @ h) @ bs)"
    by (rule xdr_codec.pack_into [OF assms(1,3)])
  moreover have "(length h + length bs) mod 4 = 0" using k(3) n(3) by (simp add: dvd_eq_mod_eq_0 mod_add_eq [symmetric])
  moreover have "u32_try_from (length h + length bs) = Some (of_nat (length h + length bs))" using assms(4) by simp
  ultimately show ?thesis
    using fh k n by (simp add: call_bytes_def Let_def frame_def into_xdr_buf_def)
qed

text \<open>
  The client makes of a reply what the server put into it.  A reply to another call is refused;
  a call that was not executed gives the error that says why; otherwise the result is the one
  encoded, unless more bytes follow it.
\<close>

theorem client_reply_decoded:
  assumes "xdr_codec_on cr R" "R r" "pack cr r [] = Ok (n, bs)" "pack rpc_msg_codec (accepted i stat) [] = Ok (k, h)"
  shows "decode_reply cr i' (h @ bs @ extra) =
    (if i \<noteq> i' then Err (Rpc UnexpectedXid)
     else case RpcError_try_from stat of
       Ok e \<Rightarrow> Err (Rpc e)
     | Err _ \<Rightarrow> if extra \<noteq> [] then Err (Rpc (NotFullyParsed (h @ bs @ extra) (k + n))) else Ok r)"
proof -
  have u: "unpack rpc_msg_codec (h @ bs @ extra) = Ok (accepted i stat, k, bs @ extra)"
    by (rule rpc_msg.unpack_pack [OF assms(4)])
  have "unpack cr (bs @ extra) = Ok (r, n, extra)" by (rule xdr_codec_on.unpack_pack [OF assms(1-3)])
  moreover have "length h = k" "length bs = n"
    using rpc_msg.pack_size [OF assms(4)] xdr_codec_on.pack_size [OF assms(1,3)] by auto
  ultimately show ?thesis
    using u by (auto simp: decode_reply_def accepted_def split: sum.split)
qed

section \<open>Local ports (connect.rs)\<close>

lemma privileged_port_word:
  assumes "unat (index :: u16) + j < 2 ^ 16"
  shows "unat (MIN_PORT + (index + of_nat j) mod (MAX_PORT - MIN_PORT)) = 300 + (unat index + j) mod 723"
proof -
  have "unat (index + of_nat j) = unat index + j"
    using assms by (simp add: unat_word_ariths unat_of_nat)
  then have m: "unat ((index + of_nat j) mod 723) = (unat index + j) mod 723"
    by (simp add: unat_mod)
  moreover have "(unat index + j) mod 723 < 723" by simp
  ultimately have "unat ((index + of_nat j) mod 723) < 723" by simp
  then have "unat (300 + (index + of_nat j) mod 723) = 300 + unat ((index + of_nat j) mod 723)"
    by (subst unat_word_ariths) simp
  then show ?thesis using m by (simp add: MIN_PORT_def MAX_PORT_def)
qed

lemma privileged_port_loop_finds:
  assumes "\<And>q w. connect_with_port conn addr q w = (if q = p then Ok io else Err AddrInUse, w)"
    and "j < n" "MIN_PORT + (port_index s + of_nat j) mod (MAX_PORT - MIN_PORT) = p"
  shows "\<exists>s'. privileged_port_loop conn addr n s = Some (Ok io, s')"
  using assms(2,3)
proof (induction n arbitrary: j s)
  case (Suc n)
  show ?case
  proof (cases "MIN_PORT + port_index s mod (MAX_PORT - MIN_PORT) = p")
    case False
    then obtain j' where j: "j = Suc j'" using Suc.prems(2) by (cases j) auto
    let ?s = "s\<lparr> net_state := net_state s, port_index := port_index s + 1 \<rparr>"
    have "port_index ?s + of_nat j' = port_index s + of_nat j" using j by (simp add: add.assoc [symmetric])
    then have "MIN_PORT + (port_index ?s + of_nat j') mod (MAX_PORT - MIN_PORT) = p" using Suc.prems(2) by presburger
    from Suc.IH [OF _ this] Suc.prems(1) j False show ?thesis by (simp add: assms(1) Let_def)
  qed (simp add: assms(1) Let_def)
qed simp

text \<open>
  If any of the local ports 300 to 1022 is free, the client finds it: the loop goes through all
  of them, wherever it starts, unless its 16-bit counter wraps around on the way.
\<close>

theorem privileged_port_found:
  assumes "300 \<le> p" "p \<le> 1022" "unat (port_index s) + 722 < 2 ^ 16"
    and "\<forall>q w. connect_with_port conn addr q w = (if q = p then Ok io else Err AddrInUse, w)"
  shows "\<exists>s'. connect_from_privileged_port conn addr s = Some (Ok io, s')"
proof -
  let ?i = "unat (port_index s)"
  have p: "300 \<le> unat p" "unat p \<le> 1022" using assms(1,2) by (simp_all add: word_le_nat_alt)
  define j where "j = (unat p - 300 + (723 - ?i mod 723)) mod 723"
  have "(?i + j) mod 723 = (?i mod 723 + (unat p - 300 + (723 - ?i mod 723))) mod 723"
    by (simp only: j_def mod_add_right_eq mod_add_left_eq)
  also have "?i mod 723 + (unat p - 300 + (723 - ?i mod 723)) = unat p - 300 + 723"
    using mod_less_divisor [of 723 ?i] by linarith
  also have "(unat p - 300 + 723) mod 723 = unat p - 300"
    using p by (simp only: mod_add_self2) simp
  finally have m: "(?i + j) mod 723 = unat p - 300" .
  have j: "j < 723" by (simp add: j_def)
  then have "?i + j < 2 ^ 16" using assms(3) by simp
  from privileged_port_word [OF this] m p have "MIN_PORT + (port_index s + of_nat j) mod (MAX_PORT - MIN_PORT) = p"
    by (simp add: word_unat_eq_iff)
  from privileged_port_loop_finds [OF _ _ this, of conn addr io] assms(4) j show ?thesis
    by (simp add: connect_from_privileged_port_def MIN_PORT_def MAX_PORT_def)
qed

theorem privileged_port_found_witness:
  "\<exists>s'. connect_from_privileged_port
     \<lparr> parse_host = (\<lambda>_. Some ()), connect = (\<lambda>_ w. (Err InvalidInput, w)),
       connect_with_port = (\<lambda>_ q w. (if q = 777 then Ok ''connected'' else Err AddrInUse, w)) \<rparr>
     ((), 2049) \<lparr> net_state = (), port_index = 1000 \<rparr> = Some (Ok ''connected'', s')"
  by (rule privileged_port_found [where p = 777]) simp_all

lemma privileged_port_loop_range:
  assumes "\<And>q w. 300 \<le> q \<Longrightarrow> q \<le> 1022 \<Longrightarrow> connect_with_port conn addr q w = connect_with_port conn' addr q w"
  shows "privileged_port_loop conn addr n s = privileged_port_loop conn' addr n s"
proof (induction n arbitrary: s)
  case (Suc n)
  let ?q = "MIN_PORT + port_index s mod (MAX_PORT - MIN_PORT)"
  have "unat ?q = 300 + unat (port_index s) mod 723"
    using privileged_port_word [of "port_index s" 0] unsigned_less [of "port_index s", where ?'a = nat] by simp
  moreover have "unat (port_index s) mod 723 \<le> 722" using mod_less_divisor [of 723 "unat (port_index s)"] by linarith
  ultimately have "300 \<le> ?q" "?q \<le> 1022" by (simp_all add: word_le_nat_alt)
  then show ?case using assms Suc.IH
    by (auto simp: Let_def split: prod.split sum.split client_io_error.split)
qed simp

text \<open>
  No local port outside of 300 to 1022 is ever tried: connectors that agree on these give the
  same result.  In particular port 1023, the end of the documented range, is never used.
\<close>

theorem privileged_port_range:
  assumes "\<forall>q w. 300 \<le> q \<and> q \<le> 1022 \<longrightarrow> connect_with_port conn addr q w = connect_with_port conn' addr q w"
  shows "connect_from_privileged_port conn addr s = connect_from_privileged_port conn' addr s"
  unfolding connect_from_privileged_port_def by (rule privileged_port_loop_range) (use assms in blast)

theorem privileged_port_range_witness:
  "connect_from_privileged_port
     \<lparr> parse_host = (\<lambda>_. Some ()), connect = (\<lambda>_ w. (Err InvalidInput, w)),
       connect_with_port = (\<lambda>_ q w. (if q = 1023 then Ok ''connected'' else Err AddrInUse, w)) \<rparr> ((), 2049)
     \<lparr> net_state = (), port_index = 0 \<rparr> =
   connect_from_privileged_port
     \<lparr> parse_host = (\<lambda>_. Some ()), connect = (\<lambda>_ w. (Err InvalidInput, w)),
       connect_with_port = (\<lambda>_ q w. (Err AddrInUse, w)) \<rparr> ((), 2049)
     \<lparr> net_state = (), port_index = 0 \<rparr>"
  by (rule privileged_port_range) auto

end
