(* ===== verification/Mem_Fs.thy ===== *)
theory Mem_Fs
  imports Vfs
begin

text \<open>
  The in-memory file system (\<^verbatim>\<open>nfs3_server/src/memfs\<close>).

  A \<^verbatim>\<open>HashMap\<close> of entries is a map.  The \<^verbatim>\<open>HashSet\<close> of a directory is the list of its
  elements in the order in which it is iterated; that order may change whenever the set
  changes, so the operations that change it take a function \<open>ord\<close> that permutes its
  argument.  \<open>now\<close> is what \<^verbatim>\<open>current_time()\<close> returns.  Arithmetic overflow, a failed
  assertion and an allocation of more than \<open>2 ^ 63 - 1\<close> bytes panic.
\<close>

section \<open>Entries\<close>

record Dir =
  name :: filename3
  parent :: FileHandleU64
  attr :: fattr3
  content :: "FileHandleU64 list"

record File =
  name :: filename3
  attr :: fattr3
  content :: bytes
  verf :: createverf3

datatype Entry = EFile File | EDir Dir

definition new_attr :: "nfstime3 \<Rightarrow> ftype3 \<Rightarrow> mode3 \<Rightarrow> size3 \<Rightarrow> FileHandleU64 \<Rightarrow> fattr3" where
  "new_attr now ty md sz i =
     \<lparr> fattr3.type' = ty, fattr3.mode = md, fattr3.nlink = 1, fattr3.uid = 507, fattr3.gid = 507,
       fattr3.size = sz, fattr3.used = sz,
       fattr3.rdev = \<lparr> specdata3.specdata1 = 0, specdata3.specdata2 = 0 \<rparr>, fattr3.fsid = 0,
       fattr3.fileid = i, fattr3.atime = now, fattr3.mtime = now, fattr3.ctime = now \<rparr>"

definition dir_new :: "nfstime3 \<Rightarrow> filename3 \<Rightarrow> FileHandleU64 \<Rightarrow> FileHandleU64 \<Rightarrow> Dir" where
  "dir_new now nm i par =
     \<lparr> Dir.name = nm, Dir.parent = par, Dir.attr = new_attr now NF3DIR 0x1FF 0 i, Dir.content = [] \<rparr>"

definition root_dir :: "nfstime3 \<Rightarrow> Dir" where
  "root_dir now = dir_new now [47] 1 0"

definition file_new :: "nfstime3 \<Rightarrow> filename3 \<Rightarrow> FileHandleU64 \<Rightarrow> bytes \<Rightarrow> createverf3 \<Rightarrow> File" where
  "file_new now nm i bs cv =
     \<lparr> File.name = nm, File.attr = new_attr now NF3REG 0x1ED (of_nat (length bs)) i,
       File.content = bs, File.verf = cv \<rparr>"

definition file_fileid :: "File \<Rightarrow> FileHandleU64" where
  "file_fileid f = fattr3.fileid (File.attr f)"

text \<open>\<^verbatim>\<open>Vec::resize\<close> truncates or fills with zero bytes.\<close>

definition vec_resize :: "nat \<Rightarrow> bytes \<Rightarrow> bytes" where
  "vec_resize n bs = take n bs @ replicate (n - length bs) 0"

definition file_resize :: "u64 \<Rightarrow> File \<Rightarrow> File option" where
  "file_resize sz f =
     (if unat sz < 2 ^ 63
      then Some (f\<lparr> File.content := vec_resize (unat sz) (File.content f),
                    File.attr := (File.attr f)\<lparr> fattr3.size := sz, fattr3.used := sz \<rparr> \<rparr>)
      else None)"

definition file_read :: "File \<Rightarrow> u64 \<Rightarrow> u32 \<Rightarrow> (bytes \<times> bool) option" where
  "file_read f off cnt =
     (let start = unat off; stop = start + unat cnt; bs = File.content f in
      if stop \<ge> 2 ^ 64 then None
      else
        (let is_eof = stop \<ge> length bs;
             start = (if start \<ge> length bs then length bs else start);
             stop = (if stop > length bs then length bs else stop)
         in Some (take (stop - start) (drop start bs), is_eof)))"

definition file_write :: "File \<Rightarrow> u64 \<Rightarrow> bytes \<Rightarrow> ((nfsstat3 + fattr3) \<times> File) option" where
  "file_write f off bs =
     (if unat off > length (File.content f) then Some (Err NFS3ERR_INVAL, f)
      else
        (let start = unat off; stop = start + length bs in
         case (if stop > length (File.content f) then file_resize (of_nat stop) f else Some f) of
           None \<Rightarrow> None
         | Some f1 \<Rightarrow>
             (let f2 = f1\<lparr> File.content := take start (File.content f1) @ bs @ drop stop (File.content f1) \<rparr>
              in Some (Ok (File.attr f2), f2))))"

fun as_dir :: "Entry \<Rightarrow> nfsstat3 + Dir" where
  "as_dir (EDir d) = Ok d"
| "as_dir (EFile _) = Err NFS3ERR_NOTDIR"

fun as_file :: "Entry \<Rightarrow> nfsstat3 + File" where
  "as_file (EFile f) = Ok f"
| "as_file (EDir _) = Err NFS3ERR_ISDIR"

fun entry_attr :: "Entry \<Rightarrow> fattr3" where
  "entry_attr (EFile f) = File.attr f"
| "entry_attr (EDir d) = Dir.attr d"

definition entry_fileid :: "Entry \<Rightarrow> FileHandleU64" where
  "entry_fileid e = fattr3.fileid (entry_attr e)"

fun entry_name :: "Entry \<Rightarrow> filename3" where
  "entry_name (EFile f) = File.name f"
| "entry_name (EDir d) = Dir.name d"

fun set_name :: "filename3 \<Rightarrow> Entry \<Rightarrow> Entry" where
  "set_name nm (EFile f) = EFile (f\<lparr> File.name := nm \<rparr>)"
| "set_name nm (EDir d) = EDir (d\<lparr> Dir.name := nm \<rparr>)"

definition set_times :: "nfstime3 \<Rightarrow> sattr3 \<Rightarrow> fattr3 \<Rightarrow> fattr3" where
  "set_times now sa a =
     (let a = (case sattr3.atime sa of
                 set_atime.DONT_CHANGE \<Rightarrow> a
               | set_atime.SET_TO_CLIENT_TIME c \<Rightarrow> a\<lparr> fattr3.atime := c \<rparr>
               | set_atime.SET_TO_SERVER_TIME \<Rightarrow> a\<lparr> fattr3.atime := now \<rparr>);
          a = (case sattr3.mtime sa of
                 set_mtime.DONT_CHANGE \<Rightarrow> a
               | set_mtime.SET_TO_CLIENT_TIME c \<Rightarrow> a\<lparr> fattr3.mtime := c \<rparr>
               | set_mtime.SET_TO_SERVER_TIME \<Rightarrow> a\<lparr> fattr3.mtime := now \<rparr>);
          a = (case sattr3.uid sa of Some u \<Rightarrow> a\<lparr> fattr3.uid := u \<rparr> | None \<Rightarrow> a)
      in case sattr3.gid sa of Some g \<Rightarrow> a\<lparr> fattr3.gid := g \<rparr> | None \<Rightarrow> a)"

text \<open>\<^verbatim>\<open>Entry::set_attr\<close>: the times and owners, then the size of a file.\<close>

fun set_attr :: "nfstime3 \<Rightarrow> sattr3 \<Rightarrow> Entry \<Rightarrow> Entry option" where
  "set_attr now sa (EDir d) = Some (EDir (d\<lparr> Dir.attr := set_times now sa (Dir.attr d) \<rparr>))"
| "set_attr now sa (EFile f) =
     (let f = f\<lparr> File.attr := set_times now sa (File.attr f) \<rparr> in
      case sattr3.size sa of
        Some sz \<Rightarrow> map_option EFile (file_resize sz f)
      | None \<Rightarrow> Some (EFile f))"

section \<open>The tree\<close>

record Fs =
  entries :: "FileHandleU64 \<rightharpoonup> Entry"
  root :: FileHandleU64

definition fs_new :: "nfstime3 \<Rightarrow> Fs" where
  "fs_new now =
     \<lparr> Fs.entries = [entry_fileid (EDir (root_dir now)) \<mapsto> EDir (root_dir now)],
       Fs.root = entry_fileid (EDir (root_dir now)) \<rparr>"

text \<open>\<^verbatim>\<open>HashSet::insert\<close> and \<^verbatim>\<open>HashSet::remove\<close> on the elements in iteration order.\<close>

definition set_insert :: "('a list \<Rightarrow> 'a list) \<Rightarrow> 'a \<Rightarrow> 'a list \<Rightarrow> bool \<times> 'a list" where
  "set_insert ord x xs = (if x \<in> set xs then (False, xs) else (True, ord (x # xs)))"

definition set_remove :: "('a list \<Rightarrow> 'a list) \<Rightarrow> 'a \<Rightarrow> 'a list \<Rightarrow> 'a list" where
  "set_remove ord x xs = (if x \<in> set xs then ord (remove1 x xs) else xs)"

definition put :: "FileHandleU64 \<Rightarrow> Entry \<Rightarrow> Fs \<Rightarrow> Fs" where
  "put i e t = t\<lparr> Fs.entries := (Fs.entries t)(i \<mapsto> e) \<rparr>"

definition fs_push ::
  "(FileHandleU64 list \<Rightarrow> FileHandleU64 list) \<Rightarrow> FileHandleU64 \<Rightarrow> Entry \<Rightarrow> Fs \<Rightarrow>
     ((nfsstat3 + unit) \<times> Fs) option" where
  "fs_push ord par e t =
     (let i = entry_fileid e in
      if Fs.entries t i \<noteq> None then Some (Err NFS3ERR_EXIST, t)
      else
        (let t1 = put i e t in
         case Fs.entries t1 par of
           None \<Rightarrow> Some (Err NFS3ERR_NOENT, t1\<lparr> Fs.entries := (Fs.entries t1)(i := None) \<rparr>)
         | Some (EFile _) \<Rightarrow> Some (Err NFS3ERR_NOTDIR, t1\<lparr> Fs.entries := (Fs.entries t1)(i := None) \<rparr>)
         | Some (EDir d) \<Rightarrow>
             (let (added, c) = set_insert ord i (Dir.content d) in
              if added then Some (Ok (), put par (EDir (d\<lparr> Dir.content := c \<rparr>)) t1) else None)))"

definition has_name :: "Fs \<Rightarrow> filename3 \<Rightarrow> FileHandleU64 \<Rightarrow> bool" where
  "has_name t nm i \<longleftrightarrow> (case Fs.entries t i of None \<Rightarrow> False | Some e \<Rightarrow> entry_name e = nm)"

definition DOT :: filename3 where
  "DOT = [46]"

definition DOTDOT :: filename3 where
  "DOTDOT = [46, 46]"

definition fs_remove ::
  "(FileHandleU64 list \<Rightarrow> FileHandleU64 list) \<Rightarrow> FileHandleU64 \<Rightarrow> filename3 \<Rightarrow> Fs \<Rightarrow>
     ((nfsstat3 + unit) \<times> Fs) option" where
  "fs_remove ord dirid nm t =
     (if nm = DOT \<or> nm = DOTDOT then Some (Err NFS3ERR_INVAL, t)
      else case and_then (ok_or NFS3ERR_NOENT (Fs.entries t dirid)) (\<lambda>e.
                and_then (as_dir e) (\<lambda>d.
                ok_or NFS3ERR_NOENT (find (has_name t nm) (Dir.content d)))) of
        Err stat \<Rightarrow> Some (Err stat, t)
      | Ok object_id \<Rightarrow>
          (case Fs.entries t object_id of
             None \<Rightarrow> Some (Err NFS3ERR_NOENT, t)
           | Some e \<Rightarrow>
               if (case e of EDir d \<Rightarrow> Dir.content d \<noteq> [] | EFile _ \<Rightarrow> False)
               then Some (Err NFS3ERR_NOTEMPTY, t)
               else
                 (let t1 = t\<lparr> Fs.entries := (Fs.entries t)(object_id := None) \<rparr> in
                  case Fs.entries t1 dirid of
                    None \<Rightarrow> None
                  | Some (EFile _) \<Rightarrow> Some (Err NFS3ERR_NOTDIR, t1)
                  | Some (EDir d) \<Rightarrow>
                      Some (Ok (), put dirid (EDir (d\<lparr> Dir.content :=
                        set_remove ord object_id (Dir.content d) \<rparr>)) t1))))"

fun lookup_content :: "Fs \<Rightarrow> filename3 \<Rightarrow> FileHandleU64 list \<Rightarrow> nfsstat3 + Entry" where
  "lookup_content t nm [] = Err NFS3ERR_NOENT"
| "lookup_content t nm (i # is) =
     (case Fs.entries t i of
        None \<Rightarrow> Err NFS3ERR_SERVERFAULT
      | Some e \<Rightarrow> if entry_name e = nm then Ok e else lookup_content t nm is)"

definition fs_lookup :: "FileHandleU64 \<Rightarrow> filename3 \<Rightarrow> Fs \<Rightarrow> nfsstat3 + Entry" where
  "fs_lookup dirid nm t =
     (case Fs.entries t dirid of
        None \<Rightarrow> Err NFS3ERR_NOENT
      | Some (EFile _) \<Rightarrow> Err NFS3ERR_NOTDIR
      | Some (EDir d) \<Rightarrow>
          if nm = DOT then Ok (EDir d)
          else if nm = DOTDOT then ok_or NFS3ERR_SERVERFAULT (Fs.entries t (Dir.parent d))
          else lookup_content t nm (Dir.content d))"

text \<open>
  The loop of \<^verbatim>\<open>rename\<close> that walks from the target directory to the root.  Nothing in the
  code bounds it; \<^const>\<open>None\<close> would be an endless walk.
\<close>

partial_function (option) walk_to_root :: "FileHandleU64 \<Rightarrow> Fs \<Rightarrow> FileHandleU64 \<Rightarrow> (nfsstat3 + unit) option" where
  "walk_to_root from_id t current =
     (if current = from_id then Some (Err NFS3ERR_INVAL)
      else case Fs.entries t current of
        None \<Rightarrow> Some (Err NFS3ERR_NOENT)
      | Some (EDir d) \<Rightarrow>
          if current = Fs.root t then Some (Ok ()) else walk_to_root from_id t (Dir.parent d)
      | Some (EFile _) \<Rightarrow> Some (Err NFS3ERR_SERVERFAULT))"

fun is_dir_entry :: "Entry \<Rightarrow> bool" where
  "is_dir_entry (EDir _) = True"
| "is_dir_entry (EFile _) = False"

text \<open>The part of \<^verbatim>\<open>rename\<close> after the target is known not to exist.\<close>

definition rename_move ::
  "(FileHandleU64 list \<Rightarrow> FileHandleU64 list) \<Rightarrow> FileHandleU64 \<Rightarrow> FileHandleU64 \<Rightarrow> FileHandleU64 \<Rightarrow>
     filename3 \<Rightarrow> Fs \<Rightarrow> (nfsstat3 + unit) \<times> Fs" where
  "rename_move ord from_dirid from_id to_dirid to_filename t =
     (case Fs.entries t from_dirid of
        None \<Rightarrow> (Err NFS3ERR_SERVERFAULT, t)
      | Some (EFile _) \<Rightarrow> (Err NFS3ERR_NOTDIR, t)
      | Some (EDir fd) \<Rightarrow>
          (let t1 = put from_dirid (EDir (fd\<lparr> Dir.content := set_remove ord from_id (Dir.content fd) \<rparr>)) t in
           case Fs.entries t1 to_dirid of
             None \<Rightarrow> (Err NFS3ERR_SERVERFAULT, t1)
           | Some (EFile _) \<Rightarrow> (Err NFS3ERR_NOTDIR, t1)
           | Some (EDir td) \<Rightarrow>
               (let (added, c) = set_insert ord from_id (Dir.content td);
                    t2 = put to_dirid (EDir (td\<lparr> Dir.content := c \<rparr>)) t1 in
                if \<not> added then (Err NFS3ERR_SERVERFAULT, t2)
                else case Fs.entries t2 from_id of
                  None \<Rightarrow> (Err NFS3ERR_SERVERFAULT, t2)
                | Some e \<Rightarrow>
                    (let e1 = set_name to_filename e;
                         e2 = (case e1 of EDir d \<Rightarrow> EDir (d\<lparr> Dir.parent := to_dirid \<rparr>) | EFile f \<Rightarrow> EFile f)
                     in (Ok (), put from_id e2 t2)))))"

text \<open>
  The \<^verbatim>\<open>match\<close> on source and target: whether to go on, with the tree in which an existing
  target has been removed.
\<close>

definition rename_clear_target ::
  "(FileHandleU64 list \<Rightarrow> FileHandleU64 list) \<Rightarrow> Entry \<Rightarrow> FileHandleU64 \<Rightarrow> filename3 \<Rightarrow> Fs \<Rightarrow>
     ((nfsstat3 + unit) \<times> Fs) option" where
  "rename_clear_target ord from_entry to_dirid to_filename t =
     (case fs_lookup to_dirid to_filename t of
        Err stat \<Rightarrow> if stat = NFS3ERR_NOENT then Some (Ok (), t) else Some (Err stat, t)
      | Ok (EFile _) \<Rightarrow>
          (case from_entry of
             EFile _ \<Rightarrow> fs_remove ord to_dirid to_filename t
           | EDir _ \<Rightarrow> Some (Err NFS3ERR_NOTDIR, t))
      | Ok (EDir tgt_dir) \<Rightarrow>
          (case from_entry of
             EDir _ \<Rightarrow>
               if Dir.content tgt_dir \<noteq> [] then Some (Err NFS3ERR_NOTEMPTY, t)
               else fs_remove ord to_dirid to_filename t
           | EFile _ \<Rightarrow> Some (Err NFS3ERR_NOTDIR, t)))"

definition fs_rename ::
  "(FileHandleU64 list \<Rightarrow> FileHandleU64 list) \<Rightarrow> FileHandleU64 \<Rightarrow> filename3 \<Rightarrow> FileHandleU64 \<Rightarrow>
     filename3 \<Rightarrow> Fs \<Rightarrow> ((nfsstat3 + unit) \<times> Fs) option" where
  "fs_rename ord from_dirid from_filename to_dirid to_filename t =
     (case fs_lookup from_dirid from_filename t of
        Err stat \<Rightarrow> Some (Err stat, t)
      | Ok from_entry \<Rightarrow>
          (let from_id = entry_fileid from_entry in
           if from_dirid = to_dirid \<and> from_filename = to_filename then Some (Ok (), t)
           else case rename_clear_target ord from_entry to_dirid to_filename t of
             None \<Rightarrow> None
           | Some (Err stat, t1) \<Rightarrow> Some (Err stat, t1)
           | Some (Ok _, t1) \<Rightarrow>
               (case (if is_dir_entry from_entry then walk_to_root from_id t1 to_dirid else Some (Ok ())) of
                  None \<Rightarrow> None
                | Some (Err stat) \<Rightarrow> Some (Err stat, t1)
                | Some (Ok _) \<Rightarrow> Some (rename_move ord from_dirid from_id to_dirid to_filename t1))))"

section \<open>The file system\<close>

record MemFs =
  fs :: Fs
  rootdir :: FileHandleU64
  nextid :: u64

definition memfs_default :: "nfstime3 \<Rightarrow> MemFs" where
  "memfs_default now =
     \<lparr> fs = fs_new now, rootdir = Fs.root (fs_new now), nextid = Fs.root (fs_new now) + 1 \<rparr>"

text \<open>The permutation and the clock that the operations depend on.\<close>

type_synonym env = "(FileHandleU64 list \<Rightarrow> FileHandleU64 list) \<times> nfstime3"

definition with_fs :: "(Fs \<Rightarrow> ('a \<times> Fs) option) \<Rightarrow> (MemFs, 'a) prog" where
  "with_fs f m = (case f (fs m) of None \<Rightarrow> None | Some (x, t) \<Rightarrow> Some (x, m\<lparr> fs := t \<rparr>))"

definition read_fs :: "(Fs \<Rightarrow> 'a) \<Rightarrow> (MemFs, 'a) prog" where
  "read_fs f m = Some (f (fs m), m)"

definition memfs_add_dir ::
  "env \<Rightarrow> FileHandleU64 \<Rightarrow> filename3 \<Rightarrow> (MemFs, nfsstat3 + FileHandleU64 \<times> fattr3) prog" where
  "memfs_add_dir env dirid dirname m =
     (let newid = nextid m; m = m\<lparr> nextid := nextid m + 1 \<rparr>;
          d = EDir (dir_new (snd env) dirname newid dirid) in
      await (with_fs (fs_push (fst env) dirid d)) (\<lambda>r.
        ret (and_then r (\<lambda>_. Ok (newid, entry_attr d)))) m)"

text \<open>
  \<^verbatim>\<open>add_file\<close>; the look-up and the insertion are under one write lock.
\<close>

definition memfs_add_file ::
  "env \<Rightarrow> FileHandleU64 \<Rightarrow> filename3 \<Rightarrow> sattr3 \<Rightarrow> bytes \<Rightarrow> createverf3 option \<Rightarrow>
     (MemFs, nfsstat3 + FileHandleU64 \<times> fattr3) prog" where
  "memfs_add_file env dirid filename sa bs cv m =
     (let newid = nextid m; m = m\<lparr> nextid := nextid m + 1 \<rparr>;
          f0 = EFile (file_new (snd env) filename newid bs
                 (case cv of Some v \<Rightarrow> v | None \<Rightarrow> Array (replicate 8 0))) in
      case set_attr (snd env) sa f0 of
        None \<Rightarrow> None
      | Some f \<Rightarrow>
          (case fs_lookup dirid (entry_name f) (fs m) of
             Ok existing \<Rightarrow>
               (case existing of
                  EFile ef \<Rightarrow>
                    if cv = Some (File.verf ef) then Some (Ok (file_fileid ef, entry_attr f), m)
                    else Some (Err NFS3ERR_EXIST, m)
                | EDir _ \<Rightarrow> Some (Err NFS3ERR_EXIST, m))
           | Err e \<Rightarrow>
               if e = NFS3ERR_NOENT
               then await (with_fs (fs_push (fst env) dirid f)) (\<lambda>r.
                      ret (and_then r (\<lambda>_. Ok (newid, entry_attr f)))) m
               else Some (Err e, m)))"

fun path_components :: "Fs \<Rightarrow> FileHandleU64 \<Rightarrow> bytes list \<Rightarrow> nfsstat3 + FileHandleU64" where
  "path_components t fid [] = Ok fid"
| "path_components t fid (c # cs) =
     (if c = [] then path_components t fid cs
      else and_then (fs_lookup fid c t) (\<lambda>e. path_components t (entry_fileid e) cs))"

definition path_to_id_impl :: "bytes \<Rightarrow> (MemFs, nfsstat3 + FileHandleU64) prog" where
  "path_to_id_impl path m = Some (path_components (fs m) (rootdir m) (split_delimiter DELIMITER path), m)"

subsection \<open>Directory iterators\<close>

record MemFsIterator =
  iter_entries :: "FileHandleU64 list"
  iter_index :: nat

fun skip_to :: "FileHandleU64 \<Rightarrow> FileHandleU64 list \<Rightarrow> FileHandleU64 list option" where
  "skip_to c [] = None"
| "skip_to c (i # is) = (if i = c then Some is else skip_to c is)"

definition make_iter :: "FileHandleU64 \<Rightarrow> cookie3 \<Rightarrow> Fs \<Rightarrow> nfsstat3 + MemFsIterator" where
  "make_iter dirid start_after t =
     and_then (ok_or NFS3ERR_NOENT (Fs.entries t dirid)) (\<lambda>e.
     and_then (as_dir e) (\<lambda>d.
     and_then (if start_after \<noteq> 0 then ok_or NFS3ERR_BAD_COOKIE (skip_to start_after (Dir.content d))
               else Ok (Dir.content d)) (\<lambda>c.
     Ok \<lparr> iter_entries = c, iter_index = 0 \<rparr>)))"

function visit_next_entry ::
  "(FileHandleU64 \<Rightarrow> Entry \<Rightarrow> 'r) \<Rightarrow> Fs \<Rightarrow> MemFsIterator \<Rightarrow> 'r NextResult \<times> MemFsIterator" where
  "visit_next_entry f t it =
     (if iter_index it \<ge> length (iter_entries it) then (NextEof, it)
      else
        (let i = iter_entries it ! iter_index it; it' = it\<lparr> iter_index := iter_index it + 1 \<rparr> in
         case Fs.entries t i of
           None \<Rightarrow> visit_next_entry f t it'
         | Some e \<Rightarrow> (NextOk (f i e), it')))"
  by pat_completeness auto
termination
  by (relation "measure (\<lambda>(f, t, it). length (iter_entries it) - iter_index it)") auto

declare visit_next_entry.simps [simp del]

definition dir_entry :: "FileHandleU64 \<Rightarrow> Entry \<Rightarrow> DirEntry" where
  "dir_entry i e = \<lparr> entry3.fileid = i, entry3.name = entry_name e, entry3.cookie = i \<rparr>"

definition dir_entry_plus :: "FileHandleU64 \<Rightarrow> Entry \<Rightarrow> FileHandleU64 DirEntryPlus" where
  "dir_entry_plus i e =
     \<lparr> DirEntryPlus.fileid = i, DirEntryPlus.name = entry_name e, DirEntryPlus.cookie = i,
       DirEntryPlus.name_attributes = Some (entry_attr e), DirEntryPlus.name_handle = Some i \<rparr>"

subsection \<open>The trait implementations\<close>

definition memfs_getattr :: "FileHandleU64 \<Rightarrow> (MemFs, nfsstat3 + fattr3) prog" where
  "memfs_getattr i = read_fs (\<lambda>t. map_ok entry_attr (ok_or NFS3ERR_NOENT (Fs.entries t i)))"

definition memfs_read :: "FileHandleU64 \<Rightarrow> u64 \<Rightarrow> u32 \<Rightarrow> (MemFs, nfsstat3 + bytes \<times> bool) prog" where
  "memfs_read i off cnt m =
     (case and_then (ok_or NFS3ERR_NOENT (Fs.entries (fs m) i)) as_file of
        Err stat \<Rightarrow> Some (Err stat, m)
      | Ok f \<Rightarrow> (case file_read f off cnt of None \<Rightarrow> None | Some r \<Rightarrow> Some (Ok r, m)))"

definition memfs_setattr :: "env \<Rightarrow> FileHandleU64 \<Rightarrow> sattr3 \<Rightarrow> (MemFs, nfsstat3 + fattr3) prog" where
  "memfs_setattr env i sa = with_fs (\<lambda>t.
     case Fs.entries t i of
       None \<Rightarrow> Some (Err NFS3ERR_NOENT, t)
     | Some e \<Rightarrow> (case set_attr (snd env) sa e of
         None \<Rightarrow> None
       | Some e' \<Rightarrow> Some (Ok (entry_attr e'), put i e' t)))"

definition memfs_write :: "FileHandleU64 \<Rightarrow> u64 \<Rightarrow> bytes \<Rightarrow> (MemFs, nfsstat3 + fattr3) prog" where
  "memfs_write i off bs = with_fs (\<lambda>t.
     case Fs.entries t i of
       None \<Rightarrow> Some (Err NFS3ERR_NOENT, t)
     | Some (EDir _) \<Rightarrow> Some (Err NFS3ERR_INVAL, t)
     | Some (EFile f) \<Rightarrow> (case file_write f off bs of
         None \<Rightarrow> None
       | Some (r, f') \<Rightarrow> Some (r, put i (EFile f') t)))"

definition sattr3_default :: sattr3 where
  "sattr3_default = \<lparr> sattr3.mode = None, sattr3.uid = None, sattr3.gid = None, sattr3.size = None,
     sattr3.atime = set_atime.DONT_CHANGE, sattr3.mtime = set_mtime.DONT_CHANGE \<rparr>"

definition memfs_create_exclusive ::
  "env \<Rightarrow> FileHandleU64 \<Rightarrow> filename3 \<Rightarrow> createverf3 \<Rightarrow> (MemFs, nfsstat3 + FileHandleU64) prog" where
  "memfs_create_exclusive env dirid filename createverf =
     await (memfs_add_file env dirid filename sattr3_default [] (Some createverf)) (\<lambda>r. ret (map_ok fst r))"

definition memfs :: "env \<Rightarrow> (MemFs, FileHandleU64, MemFsIterator, MemFsIterator) NfsFileSystem" where
  "memfs env = \<lparr>
     vfs_handle = FileHandleU64_ops,
     vfs_root_dir = rootdir,
     vfs_lookup = (\<lambda>dirid nm. read_fs (\<lambda>t. map_ok entry_fileid (fs_lookup dirid nm t))),
     vfs_lookup_by_path = path_to_id_impl,
     vfs_getattr = memfs_getattr,
     vfs_read = memfs_read,
     vfs_readdir = (\<lambda>dirid c. read_fs (make_iter dirid c)),
     vfs_readdir_next = (\<lambda>it. read_fs (\<lambda>t. visit_next_entry dir_entry t it)),
     vfs_readdir_drop = (\<lambda>it. ret ()),
     vfs_readdirplus = (\<lambda>dirid c. read_fs (make_iter dirid c)),
     vfs_readdirplus_next = (\<lambda>it. read_fs (\<lambda>t. visit_next_entry dir_entry_plus t it)),
     vfs_readdirplus_drop = (\<lambda>it. ret ()),
     vfs_readlink = (\<lambda>_. ret (Err NFS3ERR_NOTSUPP)),
     vfs_fsinfo = default_fsinfo memfs_getattr,
     vfs_capabilities = (\<lambda>_. ReadWrite),
     vfs_setattr = memfs_setattr env,
     vfs_write = memfs_write,
     vfs_create = (\<lambda>dirid nm sa. memfs_add_file env dirid nm sa [] None),
     vfs_create_exclusive = memfs_create_exclusive env,
     vfs_mkdir = memfs_add_dir env,
     vfs_remove = (\<lambda>dirid nm. with_fs (fs_remove (fst env) dirid nm)),
     vfs_rename = (\<lambda>fd fn td tn. with_fs (fs_rename (fst env) fd fn td tn)),
     vfs_symlink = (\<lambda>_ _ _ _. ret (Err NFS3ERR_NOTSUPP)) \<rparr>"

section \<open>Initial configuration (config.rs)\<close>

record MemFsConfigEntry =
  config_parent :: bytes
  config_name :: bytes
  is_dir :: bool
  config_content :: bytes

type_synonym MemFsConfig = "MemFsConfigEntry list"

text \<open>\<^verbatim>\<open>str::trim_end_matches\<close> with a string; an empty pattern trims nothing.\<close>

function trim_end_matches :: "bytes \<Rightarrow> bytes \<Rightarrow> bytes" where
  "trim_end_matches pat path =
     (if pat \<noteq> [] \<and> length pat \<le> length path \<and> drop (length path - length pat) path = pat
      then trim_end_matches pat (take (length path - length pat) path)
      else path)"
  by pat_completeness auto
termination
  by (relation "measure (\<lambda>(pat, path). length path)") (auto simp flip: length_greater_0_conv)

declare trim_end_matches.simps [simp del]

definition config_entry :: "bytes \<Rightarrow> bool \<Rightarrow> bytes \<Rightarrow> MemFsConfigEntry" where
  "config_entry path d bs =
     (let nm = last (split_delimiter DELIMITER path) in
      \<lparr> config_parent = trim_end_matches nm path, config_name = nm, is_dir = d, config_content = bs \<rparr>)"

definition config_add_dir :: "bytes \<Rightarrow> MemFsConfig \<Rightarrow> MemFsConfig" where
  "config_add_dir path cfg = cfg @ [config_entry path True []]"

definition config_add_file :: "bytes \<Rightarrow> bytes \<Rightarrow> MemFsConfig \<Rightarrow> MemFsConfig" where
  "config_add_file path bs cfg = cfg @ [config_entry path False bs]"

text \<open>\<^verbatim>\<open>MemFs::new\<close>: the entries one after the other, up to the first error.\<close>

fun memfs_populate :: "env \<Rightarrow> MemFsConfig \<Rightarrow> (MemFs, nfsstat3 + unit) prog" where
  "memfs_populate env [] = ret (Ok ())"
| "memfs_populate env (e # es) =
     await (path_to_id_impl (config_parent e)) (\<lambda>r. case r of
       Err stat \<Rightarrow> ret (Err stat)
     | Ok i \<Rightarrow>
         await (if is_dir e then memfs_add_dir env i (config_name e)
                else memfs_add_file env i (config_name e) sattr3_default (config_content e) None)
           (\<lambda>r. case r of
              Err stat \<Rightarrow> ret (Err stat)
            | Ok _ \<Rightarrow> memfs_populate env es))"

definition memfs_new :: "env \<Rightarrow> MemFsConfig \<Rightarrow> (nfsstat3 + MemFs) option" where
  "memfs_new env cfg =
     (case memfs_populate env cfg (memfs_default (snd env)) of
        None \<Rightarrow> None
      | Some (Err stat, _) \<Rightarrow> Some (Err stat)
      | Some (Ok _, m) \<Rightarrow> Some (Ok m))"

end
