(* ===== verification/Mem_Fs_Tree.thy ===== *)
theory Mem_Fs_Tree
  imports Mem_Fs
begin

text \<open>
  The invariant of the tree of the in-memory file system, and that adding, removing and moving
  entries keeps it.
\<close>

section \<open>The invariant of the tree\<close>

definition permuting :: "('a list \<Rightarrow> 'a list) \<Rightarrow> bool" where
  "permuting ord \<longleftrightarrow> (\<forall>xs. mset (ord xs) = mset xs)"

text \<open>The directory \<open>d\<close> lists \<open>i\<close>.\<close>

definition edge :: "Fs \<Rightarrow> FileHandleU64 \<Rightarrow> FileHandleU64 \<Rightarrow> bool" where
  "edge t d i \<longleftrightarrow> (case Fs.entries t d of Some (EDir dd) \<Rightarrow> i \<in> set (Dir.content dd) | _ \<Rightarrow> False)"

inductive reaches :: "Fs \<Rightarrow> FileHandleU64 \<Rightarrow> bool" for t where
  reaches_root: "reaches t (Fs.root t)"
| reaches_child: "reaches t d \<Longrightarrow> edge t d i \<Longrightarrow> reaches t i"

fun entry_ok :: "Entry \<Rightarrow> bool" where
  "entry_ok (EFile f) \<longleftrightarrow> length (File.content f) < 2 ^ 63 \<and>
     unat (fattr3.size (File.attr f)) = length (File.content f) \<and> fattr3.type' (File.attr f) = NF3REG"
| "entry_ok (EDir d) \<longleftrightarrow> distinct (Dir.content d) \<and> fattr3.type' (Dir.attr d) = NF3DIR"

text \<open>
  The entries form a tree under the root: every entry is listed in exactly one directory, which
  is the parent a directory records, and all of them hang under the root.
\<close>

definition fs_ok :: "Fs \<Rightarrow> bool" where
  "fs_ok t \<longleftrightarrow>
     (\<exists>d. Fs.entries t (Fs.root t) = Some (EDir d)) \<and>
     (\<forall>i e. Fs.entries t i = Some e \<longrightarrow> entry_fileid e = i \<and> entry_ok e \<and> reaches t i) \<and>
     (\<forall>d i. edge t d i \<longrightarrow> i \<noteq> Fs.root t \<and> Fs.entries t i \<noteq> None) \<and>
     (\<forall>d d' i. edge t d i \<and> edge t d' i \<longrightarrow> d = d') \<and>
     (\<forall>d i cd. edge t d i \<and> Fs.entries t i = Some (EDir cd) \<longrightarrow> Dir.parent cd = d)"

lemma fs_okD:
  assumes "fs_ok t"
  shows fs_ok_root: "\<exists>d. Fs.entries t (Fs.root t) = Some (EDir d)"
    and fs_ok_id: "Fs.entries t i = Some e \<Longrightarrow> entry_fileid e = i"
    and fs_ok_entry: "Fs.entries t i = Some e \<Longrightarrow> entry_ok e"
    and fs_ok_reaches: "Fs.entries t i = Some e \<Longrightarrow> reaches t i"
    and fs_ok_edge: "edge t d i \<Longrightarrow> i \<noteq> Fs.root t \<and> Fs.entries t i \<noteq> None"
    and fs_ok_unique: "edge t d i \<Longrightarrow> edge t d' i \<Longrightarrow> d = d'"
    and fs_ok_parent: "edge t d i \<Longrightarrow> Fs.entries t i = Some (EDir cd) \<Longrightarrow> Dir.parent cd = d"
  using assms unfolding fs_ok_def by blast+

lemma edgeI: "Fs.entries t d = Some (EDir dd) \<Longrightarrow> i \<in> set (Dir.content dd) \<Longrightarrow> edge t d i"
  by (simp add: edge_def)

lemma edgeE:
  assumes "edge t d i"
  obtains dd where "Fs.entries t d = Some (EDir dd)" "i \<in> set (Dir.content dd)"
  using assms by (auto simp: edge_def split: option.splits Entry.splits)

lemma fs_new_ok: "fs_ok (fs_new now)"
proof -
  have "edge (fs_new now) d i \<longleftrightarrow> False" for d i
    by (simp add: edge_def fs_new_def root_dir_def dir_new_def split: option.splits)
  then show ?thesis
    by (auto simp: fs_ok_def fs_new_def entry_fileid_def root_dir_def dir_new_def new_attr_def
        intro: reaches_root [of "fs_new now", simplified fs_new_def entry_fileid_def root_dir_def dir_new_def new_attr_def, simplified])
qed

text \<open>A non-root entry has a directory that lists it.\<close>

lemma reaches_cases: "reaches t i \<Longrightarrow> i = Fs.root t \<or> (\<exists>d. reaches t d \<and> edge t d i)"
  by (erule reaches.cases) auto

text \<open>
  The invariant of a changed tree from its edges: the new entries are given, the edges are
  consistent with them, and everything is still reached.
\<close>

lemma fs_okI:
  assumes "\<exists>d. Fs.entries t (Fs.root t) = Some (EDir d)"
    and "\<And>i e. Fs.entries t i = Some e \<Longrightarrow> entry_fileid e = i \<and> entry_ok e"
    and "\<And>i e. Fs.entries t i = Some e \<Longrightarrow> reaches t i"
    and "\<And>d i. edge t d i \<Longrightarrow> i \<noteq> Fs.root t \<and> Fs.entries t i \<noteq> None"
    and "\<And>d d' i. edge t d i \<Longrightarrow> edge t d' i \<Longrightarrow> d = d'"
    and "\<And>d i cd. edge t d i \<Longrightarrow> Fs.entries t i = Some (EDir cd) \<Longrightarrow> Dir.parent cd = d"
  shows "fs_ok t"
  unfolding fs_ok_def using assms by blast

lemma reaches_mono:
  assumes "reaches t i" "Fs.root t' = Fs.root t" "\<And>d j. edge t d j \<Longrightarrow> edge t' d j"
  shows "reaches t' i"
  using assms(1)
proof induction
  case reaches_root
  show ?case using reaches.reaches_root [of t'] by (simp add: assms(2))
next
  case (reaches_child d i)
  then show ?case using assms(3) reaches.reaches_child by blast
qed

lemma put_simps [simp]:
  "Fs.entries (put i e t) = (Fs.entries t)(i \<mapsto> e)" "Fs.root (put i e t) = Fs.root t"
  by (simp_all add: put_def)

text \<open>Changing an entry in place, without touching the tree.\<close>

fun same_place :: "Entry \<Rightarrow> Entry \<Rightarrow> bool" where
  "same_place (EFile f) (EFile g) \<longleftrightarrow> True"
| "same_place (EDir d) (EDir e) \<longleftrightarrow> Dir.content e = Dir.content d \<and> Dir.parent e = Dir.parent d"
| "same_place _ _ \<longleftrightarrow> False"

lemma same_place_edge:
  assumes "Fs.entries t i = Some e" "same_place e e'"
  shows "edge (put i e' t) d j \<longleftrightarrow> edge t d j"
  using assms by (cases e; cases e') (auto simp: edge_def split: option.splits)

lemma put_same_place_ok:
  assumes t: "fs_ok t" and i: "Fs.entries t i = Some e" and e': "same_place e e'"
    "entry_fileid e' = entry_fileid e" "entry_ok e'"
  shows "fs_ok (put i e' t)"
proof (rule fs_okI)
  note edge = same_place_edge [OF i e'(1)]
  show "\<exists>d. Fs.entries (put i e' t) (Fs.root (put i e' t)) = Some (EDir d)"
    using fs_ok_root [OF t] i e'(1) by (cases "i = Fs.root t"; cases e; cases e') auto
  show "entry_fileid a = j \<and> entry_ok a" if "Fs.entries (put i e' t) j = Some a" for j a
    using that fs_ok_id [OF t] fs_ok_entry [OF t] i e' by (cases "j = i") auto
  show "reaches (put i e' t) j" if "Fs.entries (put i e' t) j = Some a" for j a
  proof -
    have "reaches t j" using that i fs_ok_reaches [OF t] by (cases "j = i") auto
    then show ?thesis by (rule reaches_mono) (simp_all add: edge)
  qed
  show "j \<noteq> Fs.root (put i e' t) \<and> Fs.entries (put i e' t) j \<noteq> None" if "edge (put i e' t) d j" for d j
    using that fs_ok_edge [OF t] by (auto simp: edge)
  show "d = d'" if "edge (put i e' t) d j" "edge (put i e' t) d' j" for d d' j
    using that fs_ok_unique [OF t] by (simp add: edge)
  show "Dir.parent cd = d" if "edge (put i e' t) d j" "Fs.entries (put i e' t) j = Some (EDir cd)" for d j cd
    using that fs_ok_parent [OF t, of d j] i e'(1) by (cases "j = i"; cases e) (auto simp: edge)
qed

subsection \<open>Adding an entry\<close>

lemma permuting_set [simp]: "permuting ord \<Longrightarrow> set (ord xs) = set xs"
  by (metis permuting_def set_mset_mset)

lemma permuting_distinct [simp]: "permuting ord \<Longrightarrow> distinct (ord xs) = distinct xs"
  by (metis permuting_def mset_eq_imp_distinct_iff)

lemma set_insert_new: "x \<notin> set xs \<Longrightarrow> set_insert ord x xs = (True, ord (x # xs))"
  by (simp add: set_insert_def)

lemma set_remove_set [simp]:
  "permuting ord \<Longrightarrow> distinct xs \<Longrightarrow> set (set_remove ord x xs) = set xs - {x}"
  by (auto simp: set_remove_def)

lemma set_remove_distinct [simp]: "permuting ord \<Longrightarrow> distinct xs \<Longrightarrow> distinct (set_remove ord x xs)"
  by (simp add: set_remove_def)

fun leaf :: "Entry \<Rightarrow> bool" where
  "leaf (EFile _) \<longleftrightarrow> True"
| "leaf (EDir d) \<longleftrightarrow> Dir.content d = []"

lemma no_edge_to_missing: "fs_ok t \<Longrightarrow> Fs.entries t i = None \<Longrightarrow> \<not> edge t d i"
  using fs_ok_edge by blast

lemma dir_fileid [simp]: "entry_fileid (EDir (d\<lparr> Dir.content := c \<rparr>)) = entry_fileid (EDir d)"
  by (simp add: entry_fileid_def)

text \<open>The tree after \<open>e\<close> has been added to the directory \<open>par\<close>.\<close>

lemma fs_push_new:
  assumes t: "fs_ok t" and ord: "permuting ord" and i: "entry_fileid e = i" "Fs.entries t i = None"
    and par: "Fs.entries t par = Some (EDir pd)"
    and e: "entry_ok e" "leaf e" "\<And>d. e = EDir d \<Longrightarrow> Dir.parent d = par"
  obtains t' where "fs_push ord par e t = Some (Ok (), t')" "fs_ok t'"
    "\<And>d j. edge t' d j \<longleftrightarrow> edge t d j \<or> (d = par \<and> j = i)"
    "Fs.root t' = Fs.root t" "Fs.entries t' i = Some e"
    "\<And>j. j \<noteq> i \<Longrightarrow> j \<noteq> par \<Longrightarrow> Fs.entries t' j = Fs.entries t j"
    "Fs.entries t' par = Some (EDir (pd\<lparr> Dir.content := ord (i # Dir.content pd) \<rparr>))"
proof -
  have ip: "i \<noteq> par" using i par by auto
  have new: "i \<notin> set (Dir.content pd)"
    using no_edge_to_missing [OF t i(2)] edgeI [OF par] by blast
  define t' where "t' = put par (EDir (pd\<lparr> Dir.content := ord (i # Dir.content pd) \<rparr>)) (put i e t)"
  have ent: "Fs.entries t' = (Fs.entries t)(i \<mapsto> e, par \<mapsto> EDir (pd\<lparr> Dir.content := ord (i # Dir.content pd) \<rparr>))"
    by (simp add: t'_def)
  have edge: "edge t' d j \<longleftrightarrow> edge t d j \<or> (d = par \<and> j = i)" for d j
    using ip i(2) par e(2) ord by (cases e) (auto simp: edge_def ent)
  have root: "Fs.root t' = Fs.root t" by (simp add: t'_def)
  have ok: "fs_ok t'"
  proof (rule fs_okI, unfold root)
    show "\<exists>d. Fs.entries t' (Fs.root t) = Some (EDir d)"
      using fs_ok_root [OF t] i(2) by (auto simp: ent)
    show "entry_fileid a = j \<and> entry_ok a" if "Fs.entries t' j = Some a" for j a
      using that fs_ok_id [OF t] fs_ok_entry [OF t] fs_ok_id [OF t par] fs_ok_entry [OF t par] i e(1) new ord
      by (auto simp: ent dir_fileid split: if_splits)
    show "reaches t' j" if "Fs.entries t' j = Some a" for j a
    proof (cases "j = i")
      case True
      have "reaches t' par" by (rule reaches_mono [OF fs_ok_reaches [OF t par] root]) (simp add: edge)
      then show ?thesis using reaches_child edge True by blast
    next
      case False
      then have "\<exists>a. Fs.entries t j = Some a" using that par by (auto simp: ent split: if_splits)
      then have "reaches t j" using fs_ok_reaches [OF t] by blast
      then show ?thesis by (rule reaches_mono) (simp_all add: root edge)
    qed
    show "j \<noteq> Fs.root t \<and> Fs.entries t' j \<noteq> None" if "edge t' d j" for d j
      using that fs_ok_edge [OF t] fs_ok_root [OF t] i(2) by (auto simp: edge ent)
    show "d = d'" if "edge t' d j" "edge t' d' j" for d d' j
      using that fs_ok_unique [OF t] no_edge_to_missing [OF t i(2)] by (auto simp: edge)
    show "Dir.parent cd = d" if "edge t' d j" "Fs.entries t' j = Some (EDir cd)" for d j cd
      using that fs_ok_parent [OF t, of d j] no_edge_to_missing [OF t i(2)] e(3) par ip
      by (auto simp: edge ent split: if_splits)
  qed
  have "fs_push ord par e t = Some (Ok (), t')"
    using ip i par new by (simp add: fs_push_def set_insert_new t'_def)
  then show ?thesis using that [of t'] ok edge root ip by (simp add: ent)
qed

lemma forget_missing: "Fs.entries t i = None \<Longrightarrow> t\<lparr> Fs.entries := (Fs.entries t)(i := None) \<rparr> = t"
  by (simp add: fun_upd_idem)

lemma fs_push_Err:
  assumes "Fs.entries t (entry_fileid e) = None" "fs_push ord par e t = Some (Err stat, t')"
    "par \<noteq> entry_fileid e"
  shows "t' = t"
  using assms by (auto simp: fs_push_def Let_def put_def forget_missing split: option.splits Entry.splits if_splits prod.splits)

subsection \<open>Looking up and removing\<close>

lemma lookup_content_find:
  "\<forall>i \<in> set is. Fs.entries t i \<noteq> None \<Longrightarrow>
   lookup_content t nm is =
     (case find (has_name t nm) is of None \<Rightarrow> Err NFS3ERR_NOENT | Some i \<Rightarrow> Ok (the (Fs.entries t i)))"
  by (induction "is") (auto simp: has_name_def split: option.splits)

lemma content_present:
  "fs_ok t \<Longrightarrow> Fs.entries t d = Some (EDir dd) \<Longrightarrow> \<forall>i \<in> set (Dir.content dd). Fs.entries t i \<noteq> None"
  using fs_ok_edge edgeI by blast

text \<open>A name other than the two special ones is found exactly when an entry of the directory has it.\<close>

lemma fs_lookup_Ok:
  assumes t: "fs_ok t" and d: "Fs.entries t dirid = Some (EDir dd)" and nm: "nm \<noteq> DOT" "nm \<noteq> DOTDOT"
    and e: "fs_lookup dirid nm t = Ok e"
  shows "edge t dirid (entry_fileid e) \<and> Fs.entries t (entry_fileid e) = Some e \<and> entry_name e = nm"
proof -
  from e d nm lookup_content_find [OF content_present [OF t d], of nm]
  obtain i where "find (has_name t nm) (Dir.content dd) = Some i" "e = the (Fs.entries t i)"
    by (auto simp: fs_lookup_def split: option.splits)
  moreover from this have "i \<in> set (Dir.content dd)" "has_name t nm i"
    by (auto dest: find_Some_iff_first)
  ultimately show ?thesis using fs_ok_id [OF t] edgeI [OF d]
    by (auto simp: has_name_def split: option.splits)
qed

lemma fs_lookup_cases:
  assumes t: "fs_ok t" and d: "Fs.entries t dirid = Some (EDir dd)" and nm: "nm \<noteq> DOT" "nm \<noteq> DOTDOT"
  shows "(\<exists>e. fs_lookup dirid nm t = Ok e) \<or>
    fs_lookup dirid nm t = Err NFS3ERR_NOENT \<and> (\<forall>i e. edge t dirid i \<and> Fs.entries t i = Some e \<longrightarrow> entry_name e \<noteq> nm)"
proof (cases "find (has_name t nm) (Dir.content dd)")
  case None
  then have "\<forall>i \<in> set (Dir.content dd). \<not> has_name t nm i" by (simp add: find_None_iff)
  then have "\<forall>i e. edge t dirid i \<and> Fs.entries t i = Some e \<longrightarrow> entry_name e \<noteq> nm"
    using d by (auto simp: edge_def has_name_def)
  then show ?thesis using None d nm lookup_content_find [OF content_present [OF t d], of nm]
    by (simp add: fs_lookup_def)
next
  case (Some i)
  then show ?thesis using d nm lookup_content_find [OF content_present [OF t d], of nm]
    by (simp add: fs_lookup_def)
qed

text \<open>The tree without a leaf.\<close>

lemma edge_forget:
  assumes "Fs.entries t i = Some e" "leaf e"
  shows "edge (t\<lparr> Fs.entries := (Fs.entries t)(i := None) \<rparr>) d j \<longleftrightarrow> edge t d j"
  using assms by (cases e) (auto simp: edge_def)

definition detach :: "(FileHandleU64 list \<Rightarrow> FileHandleU64 list) \<Rightarrow> FileHandleU64 \<Rightarrow> FileHandleU64 \<Rightarrow> Fs \<Rightarrow> Fs" where
  "detach ord dirid i t =
     (case Fs.entries t dirid of
        Some (EDir d) \<Rightarrow> put dirid (EDir (d\<lparr> Dir.content := set_remove ord i (Dir.content d) \<rparr>)) t
      | _ \<Rightarrow> t)"

lemma edge_detach:
  assumes "permuting ord" "Fs.entries t dirid = Some (EDir dd)" "distinct (Dir.content dd)"
  shows "edge (detach ord dirid i t) d j \<longleftrightarrow> edge t d j \<and> \<not> (d = dirid \<and> j = i)"
  using assms by (auto simp: detach_def edge_def split: option.splits)

lemma fs_remove_ok:
  assumes t: "fs_ok t" and ord: "permuting ord" and d: "Fs.entries t dirid = Some (EDir dd)"
    and i: "edge t dirid i" "Fs.entries t i = Some e" "leaf e"
  defines "t' \<equiv> detach ord dirid i (t\<lparr> Fs.entries := (Fs.entries t)(i := None) \<rparr>)"
  shows "fs_ok t'" "\<And>a b. edge t' a b \<longleftrightarrow> edge t a b \<and> b \<noteq> i" "Fs.root t' = Fs.root t"
    "Fs.entries t' i = None"
    "Fs.entries t' dirid = Some (EDir (dd\<lparr> Dir.content := set_remove ord i (Dir.content dd) \<rparr>))"
    "\<And>j. j \<noteq> i \<Longrightarrow> j \<noteq> dirid \<Longrightarrow> Fs.entries t' j = Fs.entries t j"
proof -
  let ?t1 = "t\<lparr> Fs.entries := (Fs.entries t)(i := None) \<rparr>"
  have id: "i \<noteq> dirid"
    using i d edgeI by (cases e) (auto simp: edge_def)
  have d1: "Fs.entries ?t1 dirid = Some (EDir dd)" using d id by simp
  have dist: "distinct (Dir.content dd)" using fs_ok_entry [OF t d] by simp
  show ent: "Fs.entries t' i = None"
    "Fs.entries t' dirid = Some (EDir (dd\<lparr> Dir.content := set_remove ord i (Dir.content dd) \<rparr>))"
    "\<And>j. j \<noteq> i \<Longrightarrow> j \<noteq> dirid \<Longrightarrow> Fs.entries t' j = Fs.entries t j"
    using d1 id by (simp_all add: t'_def detach_def)
  show root: "Fs.root t' = Fs.root t" using d1 by (simp add: t'_def detach_def)
  show edge: "edge t' a b \<longleftrightarrow> edge t a b \<and> b \<noteq> i" for a b
    using edge_detach [OF ord d1 dist, of i a b] edge_forget [OF i(2,3), of a b] fs_ok_unique [OF t i(1), of a]
    by (auto simp: t'_def)
  have entry: "\<exists>a. Fs.entries t j = Some a" if "Fs.entries t' j = Some b" for j b
    using that ent d by (cases "j = i"; cases "j = dirid") auto
  show "fs_ok t'"
  proof (rule fs_okI, unfold root)
    show "\<exists>d. Fs.entries t' (Fs.root t) = Some (EDir d)"
      using fs_ok_root [OF t] fs_ok_edge [OF t i(1)] ent by (cases "Fs.root t = dirid") auto
    show "entry_fileid a = j \<and> entry_ok a" if "Fs.entries t' j = Some a" for j a
      using that fs_ok_id [OF t] fs_ok_entry [OF t] fs_ok_id [OF t d] fs_ok_entry [OF t d] ent ord
      by (cases "j = i"; cases "j = dirid") auto
    show "reaches t' j" if "Fs.entries t' j = Some a" for j a
    proof -
      have "reaches t j" "j \<noteq> i" using entry [OF that] fs_ok_reaches [OF t] that ent by auto
      then show ?thesis
      proof induction
        case reaches_root
        show ?case using reaches.reaches_root [of t'] by (simp add: root)
      next
        case (reaches_child d k)
        have "d \<noteq> i" using reaches_child.hyps(2) i(2,3) by (cases e) (auto simp: edge_def)
        then show ?case using reaches_child edge reaches.reaches_child by blast
      qed
    qed
    show "j \<noteq> Fs.root t \<and> Fs.entries t' j \<noteq> None" if "edge t' a j" for a j
      using that fs_ok_edge [OF t, of a j] ent by (cases "j = dirid") (auto simp: edge)
    show "a = a'" if "edge t' a j" "edge t' a' j" for a a' j
      using that fs_ok_unique [OF t] by (auto simp: edge)
    show "Dir.parent cd = a" if "edge t' a j" "Fs.entries t' j = Some (EDir cd)" for a j cd
      using that fs_ok_parent [OF t, of a j] ent d by (cases "j = dirid") (auto simp: edge)
  qed
qed

text \<open>
  \<^verbatim>\<open>Fs::remove\<close> either fails and changes nothing, or removes a leaf of the directory that has
  the name.
\<close>

definition removed :: "(FileHandleU64 list \<Rightarrow> FileHandleU64 list) \<Rightarrow> FileHandleU64 \<Rightarrow> filename3 \<Rightarrow> Fs \<Rightarrow>
    FileHandleU64 \<Rightarrow> Fs \<Rightarrow> bool" where
  "removed ord dirid nm t i t' \<longleftrightarrow>
     (\<exists>dd e. Fs.entries t dirid = Some (EDir dd) \<and> find (has_name t nm) (Dir.content dd) = Some i \<and>
        Fs.entries t i = Some e \<and> leaf e \<and> entry_name e = nm) \<and>
     t' = detach ord dirid i (t\<lparr> Fs.entries := (Fs.entries t)(i := None) \<rparr>)"

lemma removed_ok:
  assumes t: "fs_ok t" and ord: "permuting ord" and r: "removed ord dirid nm t i t'"
  shows "fs_ok t'" "\<And>a b. edge t' a b \<longleftrightarrow> edge t a b \<and> b \<noteq> i" "edge t dirid i"
    "Fs.root t' = Fs.root t" "Fs.entries t' i = None" "has_name t nm i"
    "\<exists>dd. Fs.entries t dirid = Some (EDir dd) \<and>
       Fs.entries t' dirid = Some (EDir (dd\<lparr> Dir.content := set_remove ord i (Dir.content dd) \<rparr>))"
    "\<And>j. j \<noteq> i \<Longrightarrow> j \<noteq> dirid \<Longrightarrow> Fs.entries t' j = Fs.entries t j" "\<exists>e. Fs.entries t i = Some e \<and> leaf e"
proof -
  from r obtain dd e where d: "Fs.entries t dirid = Some (EDir dd)"
    and f: "find (has_name t nm) (Dir.content dd) = Some i" and e: "Fs.entries t i = Some e" "leaf e"
    and t': "t' = detach ord dirid i (t\<lparr> Fs.entries := (Fs.entries t)(i := None) \<rparr>)"
    by (auto simp: removed_def)
  from find_Some_iff_first [OF f] have "i \<in> set (Dir.content dd)" and n: "has_name t nm i" by auto
  with edgeI [OF d] have i: "edge t dirid i" by blast
  note ok = fs_remove_ok [OF t ord d i e, folded t']
  show "fs_ok t'" "\<And>a b. edge t' a b \<longleftrightarrow> edge t a b \<and> b \<noteq> i" "edge t dirid i"
    "Fs.root t' = Fs.root t" "Fs.entries t' i = None" "has_name t nm i"
    "\<exists>dd. Fs.entries t dirid = Some (EDir dd) \<and>
       Fs.entries t' dirid = Some (EDir (dd\<lparr> Dir.content := set_remove ord i (Dir.content dd) \<rparr>))"
    "\<And>j. j \<noteq> i \<Longrightarrow> j \<noteq> dirid \<Longrightarrow> Fs.entries t' j = Fs.entries t j" "\<exists>e. Fs.entries t i = Some e \<and> leaf e"
    using ok i n d e by blast+
qed

lemma fs_remove_cases:
  assumes t: "fs_ok t"
  obtains stat where "fs_remove ord dirid nm t = Some (Err stat, t)"
  | i t' where "fs_remove ord dirid nm t = Some (Ok (), t')" "removed ord dirid nm t i t'"
    "nm \<noteq> DOT" "nm \<noteq> DOTDOT"
proof (cases "nm = DOT \<or> nm = DOTDOT \<or> (\<forall>dd. Fs.entries t dirid \<noteq> Some (EDir dd))")
  case True
  then consider "nm = DOT \<or> nm = DOTDOT" | "Fs.entries t dirid = None" | f where "Fs.entries t dirid = Some (EFile f)"
    by (metis Entry.exhaust option.exhaust)
  then have "\<exists>stat. fs_remove ord dirid nm t = Some (Err stat, t)"
    by cases (auto simp: fs_remove_def)
  then show ?thesis using that(1) by blast
next
  case False
  then obtain dd where nm: "nm \<noteq> DOT" "nm \<noteq> DOTDOT" and d: "Fs.entries t dirid = Some (EDir dd)" by auto
  show ?thesis
  proof (cases "find (has_name t nm) (Dir.content dd)")
    case None
    then show ?thesis using that(1) nm d by (simp add: fs_remove_def)
  next
    case (Some i)
    from find_Some_iff_first [OF this] have i: "i \<in> set (Dir.content dd)" and "has_name t nm i" by auto
    then obtain e where e: "Fs.entries t i = Some e" "entry_name e = nm"
      by (auto simp: has_name_def split: option.splits)
    show ?thesis
    proof (cases "leaf e")
      case False
      then show ?thesis using that(1) nm d Some e by (cases e) (auto simp: fs_remove_def)
    next
      case True
      have "i \<noteq> dirid" using i True d e by auto
      let ?t = "detach ord dirid i (t\<lparr> Fs.entries := (Fs.entries t)(i := None) \<rparr>)"
      have "fs_remove ord dirid nm t = Some (Ok (), ?t)"
        using True nm d Some e \<open>i \<noteq> dirid\<close>
        by (cases e) (auto simp: fs_remove_def detach_def Let_def)
      moreover have "removed ord dirid nm t i ?t" using d Some e True by (auto simp: removed_def)
      ultimately show ?thesis using that(2) nm by blast
    qed
  qed
qed

subsection \<open>Renaming\<close>

lemma walk_to_root_reaches:
  assumes t: "fs_ok t" and "reaches t c"
  shows "\<exists>r. walk_to_root f t c = Some r"
  using assms(2)
proof induction
  case reaches_root
  then show ?case using fs_ok_root [OF t] by (subst walk_to_root.simps) auto
next
  case (reaches_child d i)
  then obtain r where r: "walk_to_root f t d = Some r" by blast
  show ?case
  proof (cases "Fs.entries t i")
    case (Some e)
    then show ?thesis using r fs_ok_parent [OF t reaches_child.hyps(2)]
      by (cases e) (subst walk_to_root.simps; auto)+
  qed (subst walk_to_root.simps, simp)
qed

text \<open>The walk ends on every well-formed tree.\<close>

lemma walk_to_root_terminates: "fs_ok t \<Longrightarrow> \<exists>r. walk_to_root f t c = Some r"
proof (cases "Fs.entries t c")
  case None
  then show ?thesis by (subst walk_to_root.simps) auto
next
  case (Some e)
  assume "fs_ok t"
  then show ?thesis using walk_to_root_reaches fs_ok_reaches [OF _ Some] by blast
qed

text \<open>A walk that meets the root without meeting \<open>f\<close> still leads to the root once \<open>f\<close> has moved.\<close>

lemma walk_to_root_Ok:
  assumes t: "fs_ok t" and root: "Fs.root t' = Fs.root t"
    and edges: "\<And>d j. edge t d j \<Longrightarrow> j \<noteq> f \<Longrightarrow> edge t' d j"
  shows "reaches t c \<Longrightarrow> walk_to_root f t c = Some (Ok ()) \<Longrightarrow> reaches t' c"
proof (induction rule: reaches.induct)
  case reaches_root
  show ?case using reaches.reaches_root [of t'] by (simp add: root)
next
  case (reaches_child d i)
  have "i \<noteq> Fs.root t" using fs_ok_edge [OF t reaches_child.hyps(2)] by simp
  then have "i \<noteq> f \<and> walk_to_root f t d = Some (Ok ())"
    using reaches_child.prems fs_ok_parent [OF t reaches_child.hyps(2)]
    by (subst (asm) walk_to_root.simps) (auto split: if_splits option.splits Entry.splits)
  then show ?case using reaches_child edges reaches.reaches_child by blast
qed

lemma no_self_edge:
  assumes t: "fs_ok t"
  shows "\<not> edge t i i"
proof
  assume e: "edge t i i"
  have "reaches t j \<Longrightarrow> j = i \<Longrightarrow> False" for j
  proof (induction rule: reaches.induct)
    case reaches_root
    then show ?case using fs_ok_edge [OF t e] by simp
  next
    case (reaches_child d j)
    then show ?case using fs_ok_unique [OF t e] by blast
  qed
  moreover have "reaches t i" using e fs_ok_reaches [OF t] by (auto elim: edgeE)
  ultimately show False by blast
qed

text \<open>The last part of a rename, for a source that is listed and a target directory that exists.\<close>

fun relocate :: "FileHandleU64 \<Rightarrow> filename3 \<Rightarrow> Entry \<Rightarrow> Entry" where
  "relocate par nm (EFile f) = EFile (f\<lparr> File.name := nm \<rparr>)"
| "relocate par nm (EDir d) = EDir (d\<lparr> Dir.name := nm, Dir.parent := par \<rparr>)"

lemma relocate_facts [simp]:
  "entry_fileid (relocate par nm e) = entry_fileid e" "entry_ok (relocate par nm e) = entry_ok e"
  "entry_name (relocate par nm e) = nm"
  by (cases e; simp add: entry_fileid_def)+

lemma rename_move_eq:
  assumes t: "fs_ok t" and ord: "permuting ord"
    and src: "Fs.entries t from_dirid = Some (EDir fd)" "edge t from_dirid fid" "Fs.entries t fid = Some fe"
    and tgt: "Fs.entries t to_dirid = Some (EDir td)" "fid \<noteq> to_dirid"
  obtains t' where "rename_move ord from_dirid fid to_dirid nm t = (Ok (), t')"
    "\<forall>d j. edge t' d j \<longleftrightarrow> (edge t d j \<and> j \<noteq> fid) \<or> (d = to_dirid \<and> j = fid)"
    "Fs.root t' = Fs.root t" "Fs.entries t' fid = Some (relocate to_dirid nm fe)"
    "\<forall>j. j \<noteq> fid \<longrightarrow> j \<noteq> from_dirid \<longrightarrow> j \<noteq> to_dirid \<longrightarrow> Fs.entries t' j = Fs.entries t j"
    "\<forall>j d. j \<noteq> fid \<longrightarrow> Fs.entries t j = Some (EDir d) \<longrightarrow>
       (\<exists>c. distinct c \<and> Fs.entries t' j = Some (EDir (d\<lparr> Dir.content := c \<rparr>)))"
proof -
  have fid_not_from: "fid \<noteq> from_dirid" using no_self_edge [OF t] src(2) by auto
  have df: "distinct (Dir.content fd)" and dt: "distinct (Dir.content td)"
    using fs_ok_entry [OF t src(1)] fs_ok_entry [OF t tgt(1)] by simp_all
  have in_f: "fid \<in> set (Dir.content fd)" using src(1,2) by (simp add: edge_def)
  define t1 where "t1 = put from_dirid (EDir (fd\<lparr> Dir.content := set_remove ord fid (Dir.content fd) \<rparr>)) t"
  define td1 where "td1 = (if to_dirid = from_dirid
    then fd\<lparr> Dir.content := set_remove ord fid (Dir.content fd) \<rparr> else td)"
  have t1: "Fs.entries t1 to_dirid = Some (EDir td1)" using tgt(1) by (auto simp: t1_def td1_def)
  have new: "fid \<notin> set (Dir.content td1)" "distinct (Dir.content td1)"
    using df dt ord fs_ok_unique [OF t src(2), of to_dirid] edgeI [OF tgt(1), of fid]
    by (auto simp: td1_def)
  define t2 where "t2 = put to_dirid (EDir (td1\<lparr> Dir.content := ord (fid # Dir.content td1) \<rparr>)) t1"
  have t1f: "Fs.entries t1 fid = Some fe" using src(3) fid_not_from by (simp add: t1_def)
  then have t2: "Fs.entries t2 fid = Some fe" using tgt(2) by (simp add: t2_def)
  define t' where "t' = put fid (relocate to_dirid nm fe) t2"
  have move: "rename_move ord from_dirid fid to_dirid nm t = (Ok (), t')"
    using src(1) t1 new t1f tgt(2)
    by (cases fe) (simp_all add: rename_move_def t1_def [symmetric] set_insert_new t2_def [symmetric] t'_def)
  have e1: "edge t1 d j \<longleftrightarrow> edge t d j \<and> j \<noteq> fid" for d j
    using src(1) df ord fs_ok_unique [OF t src(2), of d] by (auto simp: edge_def t1_def)
  have e2: "edge t2 d j \<longleftrightarrow> edge t1 d j \<or> (d = to_dirid \<and> j = fid)" for d j
    using t1 ord by (auto simp: edge_def t2_def)
  have e3: "edge t' d j \<longleftrightarrow> edge t2 d j" for d j
    using t2 by (cases fe) (auto simp: edge_def t'_def)
  have "\<exists>c. distinct c \<and> Fs.entries t' j = Some (EDir (d\<lparr> Dir.content := c \<rparr>))"
    if "j \<noteq> fid" "Fs.entries t j = Some (EDir d)" for j d
  proof -
    have "distinct (Dir.content d)" using fs_ok_entry [OF t that(2)] by simp
    then show ?thesis
      using that new ord src(1) tgt(1) df
      by (intro exI [of _ "if j = to_dirid then ord (fid # Dir.content td1)
            else if j = from_dirid then set_remove ord fid (Dir.content fd) else Dir.content d"])
         (auto simp: t'_def t2_def t1_def td1_def)
  qed
  moreover have "Fs.entries t' j = Fs.entries t j" if "j \<noteq> fid" "j \<noteq> from_dirid" "j \<noteq> to_dirid" for j
    using that by (simp add: t'_def t2_def t1_def)
  ultimately show ?thesis
    using that [of t'] move e1 e2 e3 by (simp add: t'_def t2_def t1_def)
qed

lemma rename_move_ok:
  assumes t: "fs_ok t" and ord: "permuting ord"
    and src: "Fs.entries t from_dirid = Some (EDir fd)" "edge t from_dirid fid" "Fs.entries t fid = Some fe"
    and tgt: "Fs.entries t to_dirid = Some (EDir td)" "fid \<noteq> to_dirid"
    and walk: "is_dir_entry fe \<Longrightarrow> walk_to_root fid t to_dirid = Some (Ok ())"
    and move: "rename_move ord from_dirid fid to_dirid nm t = (r, t')"
  shows "fs_ok t'"
proof -
  obtain t2 where "rename_move ord from_dirid fid to_dirid nm t = (Ok (), t2)"
    and edges: "\<forall>d j. edge t2 d j \<longleftrightarrow> (edge t d j \<and> j \<noteq> fid) \<or> (d = to_dirid \<and> j = fid)"
    and root: "Fs.root t2 = Fs.root t" and fid: "Fs.entries t2 fid = Some (relocate to_dirid nm fe)"
    and sames: "\<forall>j. j \<noteq> fid \<longrightarrow> j \<noteq> from_dirid \<longrightarrow> j \<noteq> to_dirid \<longrightarrow> Fs.entries t2 j = Fs.entries t j"
    and dirss: "\<forall>j d. j \<noteq> fid \<longrightarrow> Fs.entries t j = Some (EDir d) \<longrightarrow>
       (\<exists>c. distinct c \<and> Fs.entries t2 j = Some (EDir (d\<lparr> Dir.content := c \<rparr>)))"
    by (rule rename_move_eq [where nm = nm, OF t ord src tgt])
  then have t': "t2 = t'" using move by simp
  note edge = edges [rule_format] and same = sames [rule_format] and dirs = dirss [rule_format]
  have other: "Fs.entries t2 j = Fs.entries t j \<or>
      (\<exists>d c. Fs.entries t j = Some (EDir d) \<and> distinct c \<and> Fs.entries t2 j = Some (EDir (d\<lparr> Dir.content := c \<rparr>)))"
    if "j \<noteq> fid" for j
    using same [OF that] dirs [OF that] src(1) tgt(1) by (cases "j = from_dirid \<or> j = to_dirid") auto
  have to: "reaches t2 to_dirid"
  proof (cases "is_dir_entry fe")
    case True
    show ?thesis
      by (rule walk_to_root_Ok [OF t root _ fs_ok_reaches [OF t tgt(1)] walk [OF True]]) (simp add: edge)
  next
    case False
    then have leaf: "\<not> edge t fid j" for j using src(3) by (cases fe) (auto simp: edge_def)
    have "reaches t j \<Longrightarrow> j \<noteq> fid \<Longrightarrow> reaches t2 j" for j
    proof (induction rule: reaches.induct)
      case reaches_root
      show ?case using reaches.reaches_root [of t2] by (simp add: root)
    next
      case (reaches_child d i)
      then show ?case using leaf edge reaches.reaches_child by blast
    qed
    then show ?thesis using fs_ok_reaches [OF t tgt(1)] tgt(2) by blast
  qed
  have all: "reaches t j \<Longrightarrow> reaches t2 j" for j
  proof (induction rule: reaches.induct)
    case reaches_root
    show ?case using reaches.reaches_root [of t2] by (simp add: root)
  next
    case (reaches_child d i)
    then show ?case using to edge reaches.reaches_child by blast
  qed
  have "fs_ok t2"
  proof (rule fs_okI, unfold root)
    show "\<exists>d. Fs.entries t2 (Fs.root t) = Some (EDir d)"
      using fs_ok_root [OF t] fs_ok_edge [OF t src(2)] dirs [of "Fs.root t"] by auto
    show "entry_fileid a = j \<and> entry_ok a" if "Fs.entries t2 j = Some a" for j a
    proof (cases "j = fid")
      case True
      then show ?thesis using that fid fs_ok_id [OF t src(3)] fs_ok_entry [OF t src(3)] by auto
    next
      case False
      from other [OF False] show ?thesis
      proof
        assume "Fs.entries t2 j = Fs.entries t j"
        then show ?thesis using that fs_ok_id [OF t] fs_ok_entry [OF t] by simp
      next
        assume "\<exists>d c. Fs.entries t j = Some (EDir d) \<and> distinct c \<and>
          Fs.entries t2 j = Some (EDir (d\<lparr> Dir.content := c \<rparr>))"
        then obtain d c where d: "Fs.entries t j = Some (EDir d)" "distinct c"
          "Fs.entries t2 j = Some (EDir (d\<lparr> Dir.content := c \<rparr>))" by blast
        then show ?thesis using that fs_ok_id [OF t d(1)] fs_ok_entry [OF t d(1)] by auto
      qed
    qed
    show "reaches t2 j" if "Fs.entries t2 j = Some a" for j a
    proof -
      have "\<exists>b. Fs.entries t j = Some b" using that other [of j] src(3) by (cases "j = fid") (auto dest: sym)
      then show ?thesis using fs_ok_reaches [OF t] all by blast
    qed
    show "j \<noteq> Fs.root t \<and> Fs.entries t2 j \<noteq> None" if "edge t2 d j" for d j
      using that fs_ok_edge [OF t, of d j] fs_ok_edge [OF t src(2)] other [of j] fid
      by (cases "j = fid") (auto simp: edge)
    show "d = d'" if "edge t2 d j" "edge t2 d' j" for d d' j
      using that fs_ok_unique [OF t] by (auto simp: edge)
    show "Dir.parent cd = d" if "edge t2 d j" "Fs.entries t2 j = Some (EDir cd)" for d j cd
    proof (cases "j = fid")
      case True
      then show ?thesis using that fid edge by (cases fe) auto
    next
      case False
      then show ?thesis using that fs_ok_parent [OF t, of d j] other [OF False] by (auto simp: edge)
    qed
  qed
  then show ?thesis by (simp add: t')
qed

text \<open>
  Clearing the target: on success the tree is still well formed, the source is where it was and
  the target directory is there.
\<close>

lemma rename_clear_target_ok:
  assumes t: "fs_ok t" and ord: "permuting ord"
    and src: "edge t fd fid" "Fs.entries t fid = Some fe" "entry_name fe = fn"
    and diff: "fd \<noteq> td \<or> fn \<noteq> tn" and td: "Fs.entries t td = Some tde"
  shows "(\<exists>stat t1. rename_clear_target ord fe td tn t = Some (Err stat, t1) \<and> fs_ok t1) \<or>
    (\<exists>t1. rename_clear_target ord fe td tn t = Some (Ok (), t1) \<and> fs_ok t1 \<and>
      (\<exists>d. Fs.entries t1 fd = Some (EDir d)) \<and> edge t1 fd fid \<and> (\<exists>d. Fs.entries t1 td = Some (EDir d)) \<and>
      (fid \<noteq> td \<longrightarrow> Fs.entries t1 fid = Some fe))"
    (is "?err \<or> ?ok")
proof (cases "\<exists>tdd. tde = EDir tdd")
  case False
  then have "fs_lookup td tn t = Err NFS3ERR_NOTDIR" using td by (cases tde) (auto simp: fs_lookup_def)
  then have "rename_clear_target ord fe td tn t = Some (Err NFS3ERR_NOTDIR, t)"
    by (simp add: rename_clear_target_def)
  then show ?thesis using t by blast
next
  case True
  then obtain tdd where tdd: "Fs.entries t td = Some (EDir tdd)" using td by auto
  obtain fdd where fdd: "Fs.entries t fd = Some (EDir fdd)" using src(1) by (rule edgeE)
  have rem: "(\<exists>stat. fs_remove ord td tn t = Some (Err stat, t)) \<or>
      (\<exists>t1. fs_remove ord td tn t = Some (Ok (), t1) \<and> fs_ok t1 \<and>
        (\<exists>d. Fs.entries t1 fd = Some (EDir d)) \<and> edge t1 fd fid \<and> (\<exists>d. Fs.entries t1 td = Some (EDir d)) \<and>
        (fid \<noteq> td \<longrightarrow> Fs.entries t1 fid = Some fe))"
  proof (cases rule: fs_remove_cases [OF t, of ord td tn])
    case (2 i t1)
    note r = removed_ok [OF t ord 2(2)]
    have ne: "i \<noteq> fid"
      using diff src fs_ok_unique [OF t src(1), of td] r(3,6) by (auto simp: has_name_def)
    have "i \<noteq> fd" using r(9) src(1) fdd by (auto simp: edge_def)
    then have "\<exists>d. Fs.entries t1 fd = Some (EDir d)"
      using r(7) r(8) [of fd] fdd by (cases "fd = td") auto
    moreover have "fid \<noteq> td \<longrightarrow> Fs.entries t1 fid = Some fe" using r(8) [of fid] ne src(2) by auto
    ultimately show ?thesis using 2 r ne src(1) by blast
  qed auto
  have step: "rename_clear_target ord fe td tn t = fs_remove ord td tn t \<or>
      rename_clear_target ord fe td tn t = Some (Ok (), t) \<or>
      (\<exists>stat. rename_clear_target ord fe td tn t = Some (Err stat, t))"
    by (auto simp: rename_clear_target_def split: sum.splits Entry.splits)
  from step show ?thesis
  proof (elim disjE)
    assume "rename_clear_target ord fe td tn t = fs_remove ord td tn t"
    then show ?thesis using rem t by auto
  next
    assume "rename_clear_target ord fe td tn t = Some (Ok (), t)"
    then have ?ok using t src fdd tdd by simp
    then show ?thesis ..
  qed (use t in blast)
qed

text \<open>
  A rename ends and keeps the tree well formed, whether it succeeds or not, when the source is
  a proper name and the target directory exists.
\<close>

lemma fs_rename_after_clear:
  assumes "fs_lookup fd fn t = Ok fe" "\<not> (fd = td \<and> fn = tn)"
    "rename_clear_target ord fe td tn t = Some (Ok u, t1)"
    "(if is_dir_entry fe then walk_to_root (entry_fileid fe) t1 td else Some (Ok ())) = Some r"
  shows "fs_rename ord fd fn td tn t =
    (case r of Err stat \<Rightarrow> Some (Err stat, t1)
     | Ok _ \<Rightarrow> Some (rename_move ord fd (entry_fileid fe) td tn t1))"
  unfolding fs_rename_def using assms by (simp only: Let_def sum.case option.case prod.case if_False)

lemma fs_rename_ok:
  assumes t: "fs_ok t" and ord: "permuting ord" and nm: "fn \<noteq> DOT" "fn \<noteq> DOTDOT"
    and td: "Fs.entries t td = Some tde"
  shows "\<exists>r t'. fs_rename ord fd fn td tn t = Some (r, t') \<and> fs_ok t'"
proof (cases "fs_lookup fd fn t")
  case (Inl stat)
  then show ?thesis using t by (simp add: fs_rename_def)
next
  case (Inr fe)
  then obtain dd where dd: "Fs.entries t fd = Some (EDir dd)"
    by (auto simp: fs_lookup_def split: option.splits Entry.splits)
  from fs_lookup_Ok [OF t dd nm Inr]
  have src: "edge t fd (entry_fileid fe)" "Fs.entries t (entry_fileid fe) = Some fe" "entry_name fe = fn"
    by auto
  show ?thesis
  proof (cases "fd = td \<and> fn = tn")
    case True
    then show ?thesis using t Inr by (simp add: fs_rename_def)
  next
    case False
    then have diff: "fd \<noteq> td \<or> fn \<noteq> tn" by blast
    from rename_clear_target_ok [OF t ord src diff td] show ?thesis
    proof (elim disjE exE conjE)
      fix stat t1 assume "rename_clear_target ord fe td tn t = Some (Err stat, t1)" "fs_ok t1"
      then show ?thesis using Inr False by (auto simp: fs_rename_def Let_def)
    next
      fix t1 d d'
      assume clear: "rename_clear_target ord fe td tn t = Some (Ok (), t1)" and t1: "fs_ok t1"
        and fd: "Fs.entries t1 fd = Some (EDir d)" and e1: "edge t1 fd (entry_fileid fe)"
        and td1: "Fs.entries t1 td = Some (EDir d')"
        and fe1: "entry_fileid fe \<noteq> td \<longrightarrow> Fs.entries t1 (entry_fileid fe) = Some fe"
      define w where "w = (if is_dir_entry fe then walk_to_root (entry_fileid fe) t1 td else Some (Ok ()))"
      have "\<exists>r. w = Some r" using walk_to_root_terminates [OF t1] by (simp add: w_def)
      then obtain r where r: "w = Some r" ..
      note ren = fs_rename_after_clear [OF Inr False clear r [unfolded w_def]]
      show ?thesis
      proof (cases r)
        case (Inl stat)
        then show ?thesis using ren t1 by simp
      next
        case (Inr u)
        have notd: "entry_fileid fe \<noteq> td"
        proof
          assume eq: "entry_fileid fe = td"
          then have "is_dir_entry fe"
          proof (cases fe)
            case (EFile f)
            have "Fs.entries t td = Some (EFile f)" using src(2) eq EFile by simp
            then have "fs_lookup td tn t = Err NFS3ERR_NOTDIR" by (simp add: fs_lookup_def)
            then show ?thesis using clear by (simp add: rename_clear_target_def)
          qed simp
          then have "w = Some (Err NFS3ERR_INVAL)"
            using eq by (simp add: w_def) (subst walk_to_root.simps, simp)
          then show False using r Inr by simp
        qed
        have walk: "is_dir_entry fe \<Longrightarrow> walk_to_root (entry_fileid fe) t1 td = Some (Ok ())"
          using r Inr by (simp add: w_def)
        obtain r' t' where mv: "rename_move ord fd (entry_fileid fe) td tn t1 = (r', t')" by fastforce
        have "fs_ok t'"
          by (rule rename_move_ok [OF t1 ord fd e1 _ td1 notd walk mv]) (use fe1 notd in auto)
        moreover have "fs_rename ord fd fn td tn t = Some (r', t')"
          using ren Inr mv by simp
        ultimately show ?thesis by blast
      qed
    qed
  qed
qed

end
