(* ===== verification/Mem_Fs_Ops.thy ===== *)
theory Mem_Fs_Ops
  imports Mem_Fs_Tree
begin

text \<open>
  The operations of the in-memory file system on a well-formed tree: they keep it well formed
  and return, and what they do to files, names and directory listings.
\<close>

section \<open>The invariant\<close>

definition memfs_ok :: "MemFs \<Rightarrow> bool" where
  "memfs_ok m \<longleftrightarrow> fs_ok (fs m) \<and> rootdir m = Fs.root (fs m)"

lemma memfs_default_ok: "memfs_ok (memfs_default now)"
  by (simp add: memfs_ok_def memfs_default_def fs_new_ok)

text \<open>An operation that returns from every well-formed state, into a well-formed state.\<close>

definition returns_ok :: "(MemFs, 'a) prog \<Rightarrow> MemFs \<Rightarrow> bool" where
  "returns_ok p m \<longleftrightarrow> (\<exists>x m'. p m = Some (x, m') \<and> memfs_ok m')"

lemma returns_okI: "p m = Some (x, m') \<Longrightarrow> memfs_ok m' \<Longrightarrow> returns_ok p m"
  by (auto simp: returns_ok_def)

lemma returns_ok_ret: "memfs_ok m \<Longrightarrow> returns_ok (ret x) m"
  by (simp add: returns_ok_def ret_def)

lemma returns_ok_read_fs: "memfs_ok m \<Longrightarrow> returns_ok (read_fs f) m"
  by (simp add: returns_ok_def read_fs_def)

lemma returns_ok_with_fs:
  assumes "memfs_ok m" "f (fs m) = Some (x, t')" "fs_ok t'" "Fs.root t' = Fs.root (fs m)"
  shows "returns_ok (with_fs f) m"
  using assms by (auto simp: returns_ok_def with_fs_def memfs_ok_def)

lemma returns_ok_await:
  assumes "returns_ok p m" "\<And>x m'. memfs_ok m' \<Longrightarrow> returns_ok (f x) m'"
  shows "returns_ok (await p f) m"
  using assms by (fastforce simp: returns_ok_def await_def)

subsection \<open>The root stays\<close>

lemma fs_push_root: "fs_push ord par e t = Some (r, t') \<Longrightarrow> Fs.root t' = Fs.root t"
  by (auto simp: fs_push_def Let_def split: option.splits Entry.splits if_splits prod.splits)

lemma fs_remove_root: "fs_remove ord d nm t = Some (r, t') \<Longrightarrow> Fs.root t' = Fs.root t"
  by (auto simp: fs_remove_def Let_def split: option.splits Entry.splits if_splits sum.splits)

lemma rename_move_root: "rename_move ord fd i td tn t = (r, t') \<Longrightarrow> Fs.root t' = Fs.root t"
  by (auto simp: rename_move_def Let_def split: option.splits Entry.splits if_splits prod.splits)

lemma rename_clear_target_root:
  "rename_clear_target ord fe td tn t = Some (r, t') \<Longrightarrow> Fs.root t' = Fs.root t"
  by (auto simp: rename_clear_target_def dest: fs_remove_root split: sum.splits Entry.splits if_splits)

lemma fs_rename_root: "fs_rename ord fd fn td tn t = Some (r, t') \<Longrightarrow> Fs.root t' = Fs.root t"
  by (auto simp: fs_rename_def Let_def dest!: rename_clear_target_root rename_move_root
      split: sum.splits option.splits if_splits prod.splits)

subsection \<open>Changing a file\<close>

lemma set_times_facts [simp]:
  "fattr3.fileid (set_times now sa a) = fattr3.fileid a" "fattr3.size (set_times now sa a) = fattr3.size a"
  "fattr3.type' (set_times now sa a) = fattr3.type' a"
  by (simp_all add: set_times_def Let_def split: option.splits set_atime.splits set_mtime.splits)

lemma length_vec_resize [simp]: "length (vec_resize n bs) = n"
  by (simp add: vec_resize_def)

lemma file_resize_Some:
  assumes "file_resize sz f = Some g"
  shows "unat sz < 2 ^ 63" "File.content g = vec_resize (unat sz) (File.content f)"
    "fattr3.size (File.attr g) = sz" "fattr3.fileid (File.attr g) = fattr3.fileid (File.attr f)"
    "fattr3.type' (File.attr g) = fattr3.type' (File.attr f)" "File.name g = File.name f"
    "File.verf g = File.verf f"
  using assms by (auto simp: file_resize_def split: if_splits)

lemma file_resize_ok: "file_resize sz f = Some g \<Longrightarrow> fattr3.type' (File.attr f) = NF3REG \<Longrightarrow> entry_ok (EFile g)"
  using file_resize_Some [of sz f g] by auto

lemma set_attr_facts:
  assumes "set_attr now sa e = Some e'" "entry_ok e"
  shows "same_place e e'" "entry_fileid e' = entry_fileid e" "entry_ok e'" "entry_name e' = entry_name e"
    "leaf e' = leaf e" "is_dir_entry e' = is_dir_entry e"
  using assms
  by (cases e; auto simp: entry_fileid_def Let_def dest: file_resize_ok file_resize_Some split: option.splits)+

text \<open>Writing: the bytes replace those from the offset on; the file grows when they reach past its end.\<close>

definition overwrite :: "nat \<Rightarrow> bytes \<Rightarrow> bytes \<Rightarrow> bytes" where
  "overwrite off bs old = take off old @ bs @ drop (off + length bs) old"

lemma unat_add_of_nat [simp]: "unat off + n < 2 ^ 64 \<Longrightarrow> unat (off + of_nat n :: u64) = unat off + n"
  using unat_of_nat [where 'a = 64, of "unat off + n"] by simp

lemma length_overwrite [simp]:
  "off \<le> length old \<Longrightarrow> length (overwrite off bs old) = max (length old) (off + length bs)"
  by (simp add: overwrite_def max_def)

text \<open>No buffer has \<open>2 ^ 63\<close> bytes, so that the end of the write is computed without overflow.\<close>

lemma file_write_eq:
  fixes f :: File and off :: u64 and bs :: bytes
  defines "stop \<equiv> unat off + length bs"
  assumes "length (File.content f) < 2 ^ 63" "length bs < 2 ^ 63"
  shows "file_write f off bs =
    (if length (File.content f) < unat off then Some (Err NFS3ERR_INVAL, f)
     else if 2 ^ 63 \<le> stop then None
     else
       (let a = (if stop \<le> length (File.content f) then File.attr f
                 else (File.attr f)\<lparr> fattr3.size := of_nat stop, fattr3.used := of_nat stop \<rparr>)
        in Some (Ok a, f\<lparr> File.content := overwrite (unat off) bs (File.content f), File.attr := a \<rparr>)))"
proof (cases "length (File.content f) < unat off \<or> stop \<le> length (File.content f)")
  case True
  then show ?thesis using assms by (auto simp: file_write_def overwrite_def Let_def)
next
  case False
  have u: "unat (of_nat stop :: u64) = stop" using False assms by simp
  have v: "take (unat off) (vec_resize stop (File.content f)) @ bs @ drop stop (vec_resize stop (File.content f)) =
      overwrite (unat off) bs (File.content f)"
    using False by (simp add: vec_resize_def overwrite_def stop_def)
  show ?thesis
    using False u v by (simp add: file_write_def file_resize_def Let_def stop_def [symmetric])
qed

lemma file_write_facts:
  assumes "entry_ok (EFile f)" "length bs < 2 ^ 63" "file_write f off bs = Some (r, g)"
  shows "entry_ok (EFile g)" "file_fileid g = file_fileid f" "File.name g = File.name f"
    "r = Err NFS3ERR_INVAL \<and> g = f \<and> length (File.content f) < unat off \<or>
     r = Ok (File.attr g) \<and> unat off \<le> length (File.content f) \<and>
     File.content g = overwrite (unat off) bs (File.content f)"
  using assms by (auto simp: file_write_eq Let_def file_fileid_def max_def not_le split: if_splits)

section \<open>Every operation returns and keeps the invariant\<close>

lemma memfs_fs [simp]: "fs (m\<lparr> nextid := n \<rparr>) = fs m"
  by simp

lemma memfs_ok_nextid [simp]: "memfs_ok (m\<lparr> nextid := n \<rparr>) = memfs_ok m"
  by (simp add: memfs_ok_def)

lemma memfs_setattr_ok:
  assumes m: "memfs_ok m" and sz: "\<forall>sz. sattr3.size sa = Some sz \<longrightarrow> unat sz < 2 ^ 63"
  shows "returns_ok (memfs_setattr env i sa) m"
proof (cases "Fs.entries (fs m) i")
  case None
  then show ?thesis using m unfolding memfs_setattr_def
    by (intro returns_ok_with_fs [OF m, where t' = "fs m"]) (auto simp: memfs_ok_def)
next
  case (Some e)
  have t: "fs_ok (fs m)" using m by (simp add: memfs_ok_def)
  have "\<exists>e'. set_attr (snd env) sa e = Some e'"
    using sz by (cases e) (auto simp: file_resize_def Let_def split: option.splits)
  then obtain e' where e': "set_attr (snd env) sa e = Some e'" ..
  note f = set_attr_facts [OF e' fs_ok_entry [OF t Some]]
  show ?thesis unfolding memfs_setattr_def
    by (rule returns_ok_with_fs [OF m, where t' = "put i e' (fs m)"])
       (use Some e' put_same_place_ok [OF t Some f(1,2,3)] in auto)
qed

lemma memfs_write_ok:
  assumes m: "memfs_ok m" and bs: "unat off + length bs < 2 ^ 63"
  shows "returns_ok (memfs_write i off bs) m"
proof -
  have t: "fs_ok (fs m)" using m by (simp add: memfs_ok_def)
  consider f where "Fs.entries (fs m) i = Some (EFile f)" | "\<forall>f. Fs.entries (fs m) i \<noteq> Some (EFile f)" by blast
  then show ?thesis
  proof cases
    case (1 f)
    have ok: "entry_ok (EFile f)" by (rule fs_ok_entry [OF t 1])
    have "\<exists>p. file_write f off bs = Some p"
      using ok bs by (auto simp: file_write_eq Let_def)
    then obtain r g where w: "file_write f off bs = Some (r, g)" by auto
    note g = file_write_facts [OF ok _ w]
    have "fs_ok (put i (EFile g) (fs m))"
      by (rule put_same_place_ok [OF t 1]) (use g bs in \<open>auto simp: entry_fileid_def file_fileid_def\<close>)
    then show ?thesis unfolding memfs_write_def
      by (intro returns_ok_with_fs [OF m, where t' = "put i (EFile g) (fs m)"]) (use 1 w in auto)
  next
    case 2
    then have "\<exists>r. memfs_write i off bs m = Some (r, m)"
      by (auto simp: memfs_write_def with_fs_def split: option.splits Entry.splits)
    then show ?thesis using m by (auto simp: returns_ok_def)
  qed
qed

text \<open>
  A new leaf is pushed or the tree is as before, unless the parent is the new directory itself,
  which nobody has heard of yet.
\<close>

lemma fs_push_ok:
  assumes t: "fs_ok t" and ord: "permuting ord" and e: "entry_ok e" "leaf e" "\<And>d. e = EDir d \<Longrightarrow> Dir.parent d = par"
    and par: "is_dir_entry e \<Longrightarrow> par \<noteq> entry_fileid e \<or> Fs.entries t par \<noteq> None"
  shows "\<exists>r t'. fs_push ord par e t = Some (r, t') \<and> fs_ok t'"
proof (cases "Fs.entries t (entry_fileid e) = None \<and> (\<exists>pd. Fs.entries t par = Some (EDir pd))")
  case True
  then obtain pd where pd: "Fs.entries t par = Some (EDir pd)" by blast
  show ?thesis
    by (rule fs_push_new [OF t ord refl _ pd e]) (use True in auto)
next
  case False
  then have "\<exists>stat. fs_push ord par e t = Some (Err stat, t)"
    using par e(2)
    by (cases e; cases "Fs.entries t par")
       (auto simp: fs_push_def Let_def put_def forget_missing split: Entry.splits)
  then show ?thesis using t by blast
qed

lemma memfs_add_dir_ok:
  assumes m: "memfs_ok m" and ord: "permuting (fst env)"
    and d: "dirid \<noteq> nextid m \<or> Fs.entries (fs m) dirid \<noteq> None"
  shows "returns_ok (memfs_add_dir env dirid nm) m"
proof -
  have t: "fs_ok (fs m)" using m by (simp add: memfs_ok_def)
  define e where "e = EDir (dir_new (snd env) nm (nextid m) dirid)"
  have e: "entry_ok e" "leaf e" "\<And>d. e = EDir d \<Longrightarrow> Dir.parent d = dirid" "entry_fileid e = nextid m"
    by (auto simp: e_def dir_new_def new_attr_def entry_fileid_def)
  obtain r t' where p: "fs_push (fst env) dirid e (fs m) = Some (r, t')" "fs_ok t'"
    using fs_push_ok [OF t ord e(1,2,3)] d e(4) by metis
  have "returns_ok (with_fs (fs_push (fst env) dirid e)) (m\<lparr> nextid := nextid m + 1 \<rparr>)"
    by (rule returns_ok_with_fs [where t' = t']) (use m p fs_push_root [OF p(1)] in auto)
  then show ?thesis
    unfolding memfs_add_dir_def Let_def e_def returns_ok_def [of "memfs_add_dir env dirid nm"]
    by (fastforce simp: returns_ok_def await_def ret_def memfs_add_dir_def Let_def e_def)
qed

lemma memfs_add_file_ok:
  assumes m: "memfs_ok m" and ord: "permuting (fst env)" and bs: "length bs < 2 ^ 63"
    and sz: "\<forall>sz. sattr3.size sa = Some sz \<longrightarrow> unat sz < 2 ^ 63"
  shows "returns_ok (memfs_add_file env dirid nm sa bs cv) m"
proof -
  have t: "fs_ok (fs m)" using m by (simp add: memfs_ok_def)
  define e0 where "e0 = EFile (file_new (snd env) nm (nextid m) bs
    (case cv of Some v \<Rightarrow> v | None \<Rightarrow> Array (replicate 8 0)))"
  have "\<exists>e. set_attr (snd env) sa e0 = Some e"
    using sz by (auto simp: e0_def file_resize_def Let_def split: option.splits)
  then obtain e where e: "set_attr (snd env) sa e0 = Some e" ..
  have "entry_ok e0" using bs by (simp add: e0_def file_new_def new_attr_def)
  note f = set_attr_facts [OF e this]
  have e': "entry_ok e" "leaf e" "\<not> is_dir_entry e" using f by (auto simp: e0_def)
  then have "\<And>d. e = EDir d \<Longrightarrow> Dir.parent d = dirid" by auto
  then obtain r t' where p: "fs_push (fst env) dirid e (fs m) = Some (r, t')" "fs_ok t'"
    using fs_push_ok [OF t ord e'(1,2)] e'(3) by metis
  have w: "returns_ok (with_fs (fs_push (fst env) dirid e)) (m\<lparr> nextid := nextid m + 1 \<rparr>)"
    by (rule returns_ok_with_fs [where t' = t']) (use m p fs_push_root [OF p(1)] in auto)
  show ?thesis
    unfolding memfs_add_file_def returns_ok_def Let_def e0_def [symmetric] e option.case
    using m w by (auto simp: returns_ok_def await_def ret_def split: sum.splits Entry.splits)
qed

lemma memfs_remove_ok:
  assumes m: "memfs_ok m" and ord: "permuting (fst env)"
  shows "returns_ok (vfs_remove (memfs env) dirid nm) m"
proof -
  have t: "fs_ok (fs m)" using m by (simp add: memfs_ok_def)
  have "\<exists>r t'. fs_remove (fst env) dirid nm (fs m) = Some (r, t') \<and> fs_ok t'"
  proof (cases rule: fs_remove_cases [OF t, of "fst env" dirid nm])
    case (2 i t')
    then show ?thesis using removed_ok(1) [OF t ord 2(2)] by blast
  qed (use t in blast)
  then show ?thesis
    using m fs_remove_root by (fastforce simp: memfs_def intro: returns_ok_with_fs)
qed

lemma memfs_rename_ok:
  assumes m: "memfs_ok m" and ord: "permuting (fst env)" and nm: "fn \<noteq> DOT" "fn \<noteq> DOTDOT"
    and td: "Fs.entries (fs m) td \<noteq> None"
  shows "returns_ok (vfs_rename (memfs env) fd fn td tn) m"
proof -
  have t: "fs_ok (fs m)" using m by (simp add: memfs_ok_def)
  obtain tde where "Fs.entries (fs m) td = Some tde" using td by blast
  from fs_rename_ok [OF t ord nm this] show ?thesis
    using m fs_rename_root by (fastforce simp: memfs_def intro: returns_ok_with_fs)
qed

lemma memfs_read_ok:
  assumes m: "memfs_ok m" and "unat off + unat cnt < 2 ^ 64"
  shows "returns_ok (memfs_read i off cnt) m"
  using assms by (auto simp: returns_ok_def memfs_read_def file_read_def Let_def split: sum.splits)

section \<open>The initial state\<close>

lemma path_components_exists:
  assumes t: "fs_ok t"
  shows "Fs.entries t fid \<noteq> None \<Longrightarrow> path_components t fid cs = Ok i \<Longrightarrow> Fs.entries t i \<noteq> None"
proof (induction cs arbitrary: fid)
  case (Cons c cs)
  have "Fs.entries t (entry_fileid e) \<noteq> None" if e: "fs_lookup fid c t = Ok e" for e
  proof -
    obtain dd where dd: "Fs.entries t fid = Some (EDir dd)"
      using e by (auto simp: fs_lookup_def split: option.splits Entry.splits)
    consider "c = DOT" | "c = DOTDOT" "c \<noteq> DOT" | "c \<noteq> DOT" "c \<noteq> DOTDOT" by blast
    then show ?thesis
    proof cases
      case 1
      then show ?thesis using e dd fs_ok_id [OF t dd] by (auto simp: fs_lookup_def)
    next
      case 2
      then have "Fs.entries t (Dir.parent dd) = Some e" using e dd by (auto simp: fs_lookup_def result_simps)
      then show ?thesis using fs_ok_id [OF t] by fastforce
    next
      case 3
      then show ?thesis using fs_lookup_Ok [OF t dd 3 e] by auto
    qed
  qed
  then show ?case using Cons by (auto simp: result_simps split: if_splits)
qed simp

lemma returns_ok_case_result:
  "(\<And>e. r = Err e \<Longrightarrow> returns_ok (f e) m) \<Longrightarrow> (\<And>x. r = Ok x \<Longrightarrow> returns_ok (g x) m) \<Longrightarrow>
   returns_ok (case r of Err e \<Rightarrow> f e | Ok x \<Rightarrow> g x) m"
  by (cases r) auto

lemma memfs_populate_ok:
  assumes "memfs_ok m" "permuting (fst env)" "\<forall>e \<in> set cfg. length (config_content e) < 2 ^ 63"
  shows "returns_ok (memfs_populate env cfg) m"
  using assms(1,3)
proof (induction cfg arbitrary: m)
  case Nil
  then show ?case by (simp add: returns_ok_ret)
next
  case (Cons e cfg)
  show ?case
  proof (cases "path_components (fs m) (rootdir m) (split_delimiter DELIMITER (config_parent e))")
    case (Inl stat)
    then show ?thesis using Cons.prems
      by (simp add: returns_ok_def await_def path_to_id_impl_def ret_def)
  next
    case (Inr i)
    have "fs_ok (fs m)" "Fs.entries (fs m) (rootdir m) \<noteq> None"
      using Cons.prems(1) fs_ok_root by (auto simp: memfs_ok_def)
    then have i: "Fs.entries (fs m) i \<noteq> None" using path_components_exists Inr by blast
    have "returns_ok (memfs_add_dir env i (config_name e)) m"
      by (rule memfs_add_dir_ok [OF Cons.prems(1) assms(2)]) (use i in simp)
    moreover have "returns_ok (memfs_add_file env i (config_name e) sattr3_default (config_content e) None) m"
      by (rule memfs_add_file_ok [OF Cons.prems(1) assms(2)]) (use Cons.prems(2) in \<open>simp_all add: sattr3_default_def\<close>)
    ultimately have "returns_ok (if is_dir e then memfs_add_dir env i (config_name e)
        else memfs_add_file env i (config_name e) sattr3_default (config_content e) None) m" by simp
    then have "returns_ok (await (if is_dir e then memfs_add_dir env i (config_name e)
        else memfs_add_file env i (config_name e) sattr3_default (config_content e) None)
          (\<lambda>r. case r of Err stat \<Rightarrow> ret (Err stat) | Ok _ \<Rightarrow> memfs_populate env cfg)) m"
      using Cons.IH Cons.prems(2)
      by (intro returns_ok_await returns_ok_case_result) (auto intro: returns_ok_ret)
    then show ?thesis using Inr by (simp add: returns_ok_def await_def path_to_id_impl_def)
  qed
qed

lemma memfs_new_ok:
  assumes "permuting (fst env)" "\<forall>e \<in> set cfg. length (config_content e) < 2 ^ 63"
  shows "(\<exists>stat. memfs_new env cfg = Some (Err stat)) \<or> (\<exists>m. memfs_new env cfg = Some (Ok m) \<and> memfs_ok m)"
  using memfs_populate_ok [OF memfs_default_ok [of "snd env"] assms]
  by (auto simp: returns_ok_def memfs_new_def split: sum.splits)

end
