(* ===== verification/Mem_Fs_Props.thy ===== *)
theory Mem_Fs_Props
  imports Mem_Fs_Ops
begin

text \<open>
  What the operations of the in-memory file system do: the properties of the component and the
  interpretation of the file system interface.
\<close>

section \<open>The interface\<close>

lemma preserves_read_fs [preserves_intros]: "preserves (read_fs f)"
  by (simp add: preserves_def read_fs_def)

interpretation memfs: pure_reads "memfs env" for env
  by unfold_locales
    (auto simp: memfs_def memfs_getattr_def memfs_read_def preserves_def read_fs_def ret_def default_fsinfo_def
      await_def split: sum.splits option.splits)

section \<open>Names in a directory\<close>

definition names_unique :: "Fs \<Rightarrow> FileHandleU64 \<Rightarrow> bool" where
  "names_unique t d \<longleftrightarrow> (\<forall>i j. edge t d i \<and> edge t d j \<and>
     map_option entry_name (Fs.entries t i) = map_option entry_name (Fs.entries t j) \<longrightarrow> i = j)"

lemma fs_lookup_found:
  assumes t: "fs_ok t" and d: "names_unique t d" and nm: "nm \<noteq> DOT" "nm \<noteq> DOTDOT"
    and e: "edge t d i" "Fs.entries t i = Some e" "entry_name e = nm"
  shows "fs_lookup d nm t = Ok e"
proof -
  obtain dd where dd: "Fs.entries t d = Some (EDir dd)" using e(1) by (rule edgeE)
  from fs_lookup_cases [OF t dd nm] obtain e' where e': "fs_lookup d nm t = Ok e'" using e by blast
  from fs_lookup_Ok [OF t dd nm e']
  have "edge t d (entry_fileid e')" "Fs.entries t (entry_fileid e') = Some e'" "entry_name e' = nm" by auto
  with d e have "entry_fileid e' = i" by (auto simp: names_unique_def)
  with \<open>Fs.entries t (entry_fileid e') = Some e'\<close> e(2) e' show ?thesis by simp
qed

lemma fs_lookup_absent:
  assumes t: "fs_ok t" and dd: "Fs.entries t d = Some (EDir dd)" and nm: "nm \<noteq> DOT" "nm \<noteq> DOTDOT"
    and none: "\<And>i e. edge t d i \<Longrightarrow> Fs.entries t i = Some e \<Longrightarrow> entry_name e \<noteq> nm"
  shows "fs_lookup d nm t = Err NFS3ERR_NOENT"
  using fs_lookup_cases [OF t dd nm] fs_lookup_Ok [OF t dd nm] none by blast

text \<open>A look-up that reports no entry, in an existing directory, was for a proper name nobody has.\<close>

lemma fs_lookup_NOENT:
  assumes t: "fs_ok t" and dd: "Fs.entries t d = Some (EDir dd)" and l: "fs_lookup d nm t = Err NFS3ERR_NOENT"
  shows "nm \<noteq> DOT" "nm \<noteq> DOTDOT" "edge t d i \<Longrightarrow> Fs.entries t i = Some e \<Longrightarrow> entry_name e \<noteq> nm"
proof -
  show nm: "nm \<noteq> DOT" "nm \<noteq> DOTDOT"
    using l dd by (auto simp: fs_lookup_def result_simps split: if_splits)
  show "edge t d i \<Longrightarrow> Fs.entries t i = Some e \<Longrightarrow> entry_name e \<noteq> nm"
    using fs_lookup_cases [OF t dd nm] l by auto
qed

text \<open>Two trees in which the same entries of a directory have the name.\<close>

lemma fs_lookup_same:
  assumes t: "fs_ok t" and t': "fs_ok t'" and u: "names_unique t d" "names_unique t' d"
    and d: "Fs.entries t d = Some (EDir dd)" "Fs.entries t' d = Some (EDir dd')" and nm: "nm \<noteq> DOT" "nm \<noteq> DOTDOT"
    and same: "\<And>j. edge t d j \<and> has_name t nm j \<longleftrightarrow> edge t' d j \<and> has_name t' nm j"
  shows "map_ok entry_fileid (fs_lookup d nm t') = map_ok entry_fileid (fs_lookup d nm t)"
proof (cases "\<exists>j. edge t d j \<and> has_name t nm j")
  case True
  then obtain j where j: "edge t d j" "has_name t nm j" "edge t' d j" "has_name t' nm j" using same by blast
  then obtain e e' where e: "Fs.entries t j = Some e" "entry_name e = nm" "Fs.entries t' j = Some e'" "entry_name e' = nm"
    by (auto simp: has_name_def split: option.splits)
  show ?thesis
    using fs_lookup_found [OF t u(1) nm j(1) e(1,2)] fs_lookup_found [OF t' u(2) nm j(3) e(3,4)]
      fs_ok_id [OF t e(1)] fs_ok_id [OF t' e(3)] by simp
next
  case False
  then have False': "\<not> (\<exists>j. edge t' d j \<and> has_name t' nm j)" using same by blast
  have "fs_lookup d nm t = Err NFS3ERR_NOENT"
    by (rule fs_lookup_absent [OF t d(1) nm]) (use False in \<open>auto simp: has_name_def\<close>)
  moreover have "fs_lookup d nm t' = Err NFS3ERR_NOENT"
    by (rule fs_lookup_absent [OF t' d(2) nm]) (use False' in \<open>auto simp: has_name_def\<close>)
  ultimately show ?thesis by simp
qed

section \<open>Creating a file\<close>

text \<open>The directory \<open>d\<close> has got the new file \<open>f\<close>, and nothing else has changed.\<close>

definition file_added ::
  "env \<Rightarrow> Fs \<Rightarrow> FileHandleU64 \<Rightarrow> FileHandleU64 \<Rightarrow> File \<Rightarrow> Fs \<Rightarrow> bool" where
  "file_added env t d i f t' \<longleftrightarrow> Fs.entries t i = None \<and> fs_ok t' \<and> Fs.root t' = Fs.root t \<and>
     Fs.entries t' i = Some (EFile f) \<and>
     (\<forall>a b. edge t' a b \<longleftrightarrow> edge t a b \<or> (a = d \<and> b = i)) \<and>
     (\<forall>j. j \<noteq> i \<longrightarrow> j \<noteq> d \<longrightarrow> Fs.entries t' j = Fs.entries t j) \<and>
     (\<exists>pd. Fs.entries t d = Some (EDir pd) \<and>
        Fs.entries t' d = Some (EDir (pd\<lparr> Dir.content := fst env (i # Dir.content pd) \<rparr>)))"

lemma fs_push_file:
  assumes t: "fs_ok t" and ord: "permuting (fst env)" and f: "entry_ok (EFile f)"
    and p: "fs_push (fst env) d (EFile f) t = Some (Ok (), t')"
  shows "file_added env t d (file_fileid f) f t'"
proof -
  have i: "entry_fileid (EFile f) = file_fileid f" by (simp add: entry_fileid_def file_fileid_def)
  have none: "Fs.entries t (entry_fileid (EFile f)) = None"
    using p by (auto simp: fs_push_def Let_def split: if_splits)
  have "\<exists>pd. Fs.entries t d = Some (EDir pd)"
    using p by (auto simp: fs_push_def Let_def split: if_splits option.splits Entry.splits)
  then obtain pd where pd: "Fs.entries t d = Some (EDir pd)" ..
  show ?thesis
    by (rule fs_push_new [OF t ord refl none pd f]) (use p none pd in \<open>auto simp: file_added_def i\<close>)
qed

lemma memfs_add_file_Ok:
  assumes m: "memfs_ok m" and ord: "permuting (fst env)" and bs: "length bs < 2 ^ 63"
    and r: "memfs_add_file env d nm sa bs cv m = Some (Ok (i, a), m')"
  shows "(\<exists>f. i = nextid m \<and> fs_lookup d nm (fs m) = Err NFS3ERR_NOENT \<and> file_added env (fs m) d i f (fs m') \<and>
      File.name f = nm \<and> File.attr f = a \<and>
      File.verf f = (case cv of Some v \<Rightarrow> v | None \<Rightarrow> Array (replicate 8 0))) \<or>
    (\<exists>ef. cv = Some (File.verf ef) \<and> fs_lookup d nm (fs m) = Ok (EFile ef) \<and> i = file_fileid ef \<and>
      m' = m\<lparr> nextid := nextid m + 1 \<rparr>)" (is "?new \<or> ?old")
proof -
  have t: "fs_ok (fs m)" using m by (simp add: memfs_ok_def)
  define f0 where "f0 = file_new (snd env) nm (nextid m) bs
    (case cv of Some v \<Rightarrow> v | None \<Rightarrow> Array (replicate 8 0))"
  obtain e where e: "set_attr (snd env) sa (EFile f0) = Some e"
    using r by (auto simp: memfs_add_file_def Let_def f0_def split: option.splits)
  then obtain f where f: "e = EFile f" by (auto simp: Let_def split: option.splits)
  have verf: "File.verf f = File.verf f0"
    using e f by (auto simp: Let_def dest: file_resize_Some split: option.splits)
  have f0: "entry_ok (EFile f0)" using bs by (simp add: f0_def file_new_def new_attr_def)
  note facts = set_attr_facts [OF e f0, unfolded f]
  have nm: "File.name f = nm" and id: "file_fileid f = nextid m"
    using facts by (simp_all add: f0_def file_new_def new_attr_def entry_fileid_def file_fileid_def)
  note run = r [unfolded memfs_add_file_def Let_def f0_def [symmetric] e option.case f entry_name.simps nm
    entry_attr.simps memfs_fs]
  show ?thesis
  proof (cases "fs_lookup d nm (fs m)")
    case (Inl stat)
    then have stat: "stat = NFS3ERR_NOENT"
      and p: "fs_push (fst env) d (EFile f) (fs m) = Some (Ok (), fs m')" "i = nextid m" "a = File.attr f"
      using run by (auto simp: await_def with_fs_def and_then_def split: option.splits if_splits sum.splits)
    have ?new
      using fs_push_file [OF t ord facts(3) p(1)] p Inl stat nm id verf by (auto simp: f0_def file_new_def)
    then show ?thesis ..
  next
    case (Inr ex)
    then have ?old using run by (auto split: Entry.splits if_splits)
    then show ?thesis ..
  qed
qed

lemma file_added_names:
  assumes t: "fs_ok t" and a: "file_added env t d i f t'" and l: "fs_lookup d (File.name f) t = Err NFS3ERR_NOENT"
    and ord: "permuting (fst env)" and u: "names_unique t d'"
  shows "names_unique t' d'"
proof -
  obtain pd where pd: "Fs.entries t d = Some (EDir pd)" using a by (auto simp: file_added_def)
  have old: "map_option entry_name (Fs.entries t' j) = map_option entry_name (Fs.entries t j)" if "j \<noteq> i" for j
    using a that by (cases "j = d") (auto simp: file_added_def)
  have new: "map_option entry_name (Fs.entries t j) \<noteq> Some (File.name f)" if "edge t d j" for j
    using fs_lookup_NOENT(3) [OF t pd l] that by auto
  have i: "Fs.entries t' i = Some (EFile f)" "\<And>a. \<not> edge t a i"
    and edge: "\<And>a b. edge t' a b \<longleftrightarrow> edge t a b \<or> (a = d \<and> b = i)"
    using a no_edge_to_missing [OF t] by (auto simp: file_added_def)
  show ?thesis unfolding names_unique_def
  proof (intro allI impI)
    fix j k
    assume jk: "edge t' d' j \<and> edge t' d' k \<and>
      map_option entry_name (Fs.entries t' j) = map_option entry_name (Fs.entries t' k)"
    then show "j = k"
      using u old new i edge by (cases "j = i"; cases "k = i") (auto simp: names_unique_def)
  qed
qed

text \<open>The look-ups of names other than the new file's give what they gave before.\<close>

lemma file_added_lookup:
  assumes t: "fs_ok t" and a: "file_added env t d i f t'" and l: "fs_lookup d (File.name f) t = Err NFS3ERR_NOENT"
    and ord: "permuting (fst env)" and u: "names_unique t d'" and dd: "Fs.entries t d' = Some (EDir dd)"
    and nm: "nm \<noteq> DOT" "nm \<noteq> DOTDOT" "\<not> (d' = d \<and> nm = File.name f)"
  shows "map_ok entry_fileid (fs_lookup d' nm t') = map_ok entry_fileid (fs_lookup d' nm t)"
proof -
  have i: "Fs.entries t' i = Some (EFile f)" "Fs.entries t i = None" and t': "fs_ok t'"
    and edge: "edge t' a b \<longleftrightarrow> edge t a b \<or> (a = d \<and> b = i)"
    and other: "j \<noteq> i \<Longrightarrow> j \<noteq> d \<Longrightarrow> Fs.entries t' j = Fs.entries t j" for a b j
    using a by (auto simp: file_added_def)
  have d': "d' \<noteq> i" using dd i by auto
  then obtain dd' where dd': "Fs.entries t' d' = Some (EDir dd')"
    using dd a other [of d'] by (cases "d' = d") (auto simp: file_added_def)
  have "has_name t' nm j \<longleftrightarrow> has_name t nm j" if "j \<noteq> i" for j
    using that a other [of j] by (cases "j = d") (auto simp: has_name_def file_added_def)
  then have "edge t d' j \<and> has_name t nm j \<longleftrightarrow> edge t' d' j \<and> has_name t' nm j" for j
    using edge [of d' j] no_edge_to_missing [OF t i(2), of d'] i(1) nm(3)
    by (cases "j = i") (auto simp: has_name_def)
  then show ?thesis
    by (rule fs_lookup_same [OF t t' u file_added_names [OF t a l ord u] dd dd' nm(1,2)])
qed

section \<open>Removing and renaming\<close>

lemma removed_has_name:
  assumes "fs_ok t" "permuting ord" "removed ord d nm t i t'" "j \<noteq> i"
  shows "has_name t' nm' j \<longleftrightarrow> has_name t nm' j"
proof -
  note r = removed_ok [OF assms(1-3)]
  from r(7) obtain dd where "Fs.entries t d = Some (EDir dd)"
    "Fs.entries t' d = Some (EDir (dd\<lparr> Dir.content := set_remove ord i (Dir.content dd) \<rparr>))" by blast
  then show ?thesis using assms(4) r(8) [of j] by (cases "j = d") (simp_all add: has_name_def)
qed

lemma names_unique_has_name:
  assumes "fs_ok t"
  shows "names_unique t d \<longleftrightarrow> (\<forall>i j nm. edge t d i \<and> edge t d j \<and> has_name t nm i \<and> has_name t nm j \<longrightarrow> i = j)"
proof -
  have "\<exists>e. Fs.entries t i = Some e" if "edge t d i" for i
    using fs_ok_edge [OF assms that] by blast
  then show ?thesis
    unfolding names_unique_def has_name_def
    by (intro iffI allI impI; elim conjE) (fastforce split: option.splits)+
qed

lemma removed_lookup:
  assumes t: "fs_ok t" and ord: "permuting ord" and r: "removed ord d nm t i t'" and proper: "nm \<noteq> DOT" "nm \<noteq> DOTDOT"
    and u: "names_unique t d"
  shows "fs_lookup d nm t' = Err NFS3ERR_NOENT"
proof -
  note r' = removed_ok [OF t ord r]
  from r'(7) obtain dd where dd: "Fs.entries t' d = Some (EDir dd)" by blast
  show ?thesis
  proof (rule fs_lookup_absent [OF r'(1) dd proper], rule notI)
    fix j e assume j: "edge t' d j" "Fs.entries t' j = Some e" "entry_name e = nm"
    then have ne: "j \<noteq> i" and tj: "edge t d j" by (auto simp: r'(2))
    have "has_name t' nm j" using j by (simp add: has_name_def)
    then have "has_name t nm j" using removed_has_name [OF t ord r ne] by simp
    then show False using u tj r'(3,6) ne unfolding names_unique_has_name [OF t] by blast
  qed
qed

lemma removed_names:
  assumes t: "fs_ok t" and ord: "permuting ord" and r: "removed ord d nm t i t'" and u: "names_unique t d'"
  shows "names_unique t' d'"
proof -
  note r' = removed_ok [OF t ord r]
  show ?thesis
    unfolding names_unique_has_name [OF r'(1)] r'(2)
    using u [unfolded names_unique_has_name [OF t]] removed_has_name [OF t ord r] by blast
qed

lemma removed_other_lookup:
  assumes t: "fs_ok t" and ord: "permuting ord" and r: "removed ord d nm t i t'" and u: "names_unique t d'"
    and d': "Fs.entries t d' = Some (EDir dd)" "d' \<noteq> i" and nm': "nm' \<noteq> DOT" "nm' \<noteq> DOTDOT" "\<not> (d' = d \<and> nm' = nm)"
  shows "map_ok entry_fileid (fs_lookup d' nm' t') = map_ok entry_fileid (fs_lookup d' nm' t)"
proof -
  note r' = removed_ok [OF t ord r]
  have "\<exists>dd'. Fs.entries t' d' = Some (EDir dd')" using d' r'(7) r'(8) [of d'] by (cases "d' = d") auto
  then obtain dd' where dd': "Fs.entries t' d' = Some (EDir dd')" ..
  have i: "\<not> (edge t d' i \<and> has_name t nm' i)"
    using fs_ok_unique [OF t r'(3), of d'] r'(6) nm'(3) by (auto simp: has_name_def split: option.splits)
  show ?thesis
    by (rule fs_lookup_same [OF t r'(1) u removed_names [OF t ord r u] d'(1) dd' nm'(1,2)])
       (use i r'(2) removed_has_name [OF t ord r] in blast)
qed

text \<open>
  Clearing the target leaves no entry with the target name, and the rest of the tree as it was.
\<close>

lemma rename_clear_target_absent:
  assumes t: "fs_ok t" and ord: "permuting ord" and u: "names_unique t td" and dir: "Fs.entries t td = Some (EDir dd)"
    and c: "rename_clear_target ord fe td tn t = Some (Ok (), t1)"
  shows "tn \<noteq> DOT \<and> tn \<noteq> DOTDOT \<and>
    (\<forall>a b. edge t1 a b \<longleftrightarrow> edge t a b \<and> \<not> (a = td \<and> has_name t tn b)) \<and>
    (\<forall>a b nm. edge t1 a b \<longrightarrow> has_name t1 nm b = has_name t nm b)"
proof (cases "fs_lookup td tn t = Err NFS3ERR_NOENT")
  case True
  then have "t1 = t" using c by (simp add: rename_clear_target_def)
  moreover have "\<forall>j. edge t td j \<longrightarrow> \<not> has_name t tn j"
    using fs_lookup_NOENT(3) [OF t dir True] by (auto simp: has_name_def split: option.splits)
  moreover note fs_lookup_NOENT(1,2) [OF t dir True]
  ultimately show ?thesis by blast
next
  case False
  then have "fs_remove ord td tn t = Some (Ok (), t1)"
    using c by (auto simp: rename_clear_target_def split: sum.splits Entry.splits if_splits)
  then obtain i where i: "removed ord td tn t i t1" and tn: "tn \<noteq> DOT" "tn \<noteq> DOTDOT"
    by (cases rule: fs_remove_cases [OF t, of ord td tn]) auto
  note r = removed_ok [OF t ord i]
  have "edge t a b \<Longrightarrow> b = i \<longleftrightarrow> a = td \<and> has_name t tn b" for a b
    using r(3,6) u fs_ok_unique [OF t r(3)] unfolding names_unique_has_name [OF t] by blast
  then show ?thesis using tn r(2) removed_has_name [OF t ord i] by blast
qed

text \<open>The entry \<open>i\<close> is now \<open>tn\<close> in \<open>td\<close>, in the place of what had this name; nothing else has changed.\<close>

definition renamed :: "Fs \<Rightarrow> FileHandleU64 \<Rightarrow> filename3 \<Rightarrow> FileHandleU64 \<Rightarrow> Entry \<Rightarrow> Fs \<Rightarrow> bool" where
  "renamed t td tn i fe t' \<longleftrightarrow>
     fs_ok t' \<and> tn \<noteq> DOT \<and> tn \<noteq> DOTDOT \<and> Fs.entries t' i = Some (relocate td tn fe) \<and>
     (\<forall>d j. edge t' d j \<longleftrightarrow> (if j = i then d = td else edge t d j \<and> \<not> (d = td \<and> has_name t tn j))) \<and>
     (\<forall>d j nm. j \<noteq> i \<longrightarrow> edge t' d j \<longrightarrow> has_name t' nm j = has_name t nm j)"

lemma fs_rename_renamed:
  assumes t: "fs_ok t" and ord: "permuting ord" and nm: "fn \<noteq> DOT" "fn \<noteq> DOTDOT"
    and td: "Fs.entries t td = Some tde" and u: "names_unique t td" and diff: "\<not> (fd = td \<and> fn = tn)"
    and r: "fs_rename ord fd fn td tn t = Some (Ok (), t')"
  obtains fe d where "fs_lookup fd fn t = Ok fe" "renamed t td tn (entry_fileid fe) fe t'"
    "Fs.entries t' fd = Some (EDir d)"
proof -
  obtain fe t1 where fe: "fs_lookup fd fn t = Ok fe"
    and c: "rename_clear_target ord fe td tn t = Some (Ok (), t1)"
    and w: "(if is_dir_entry fe then walk_to_root (entry_fileid fe) t1 td else Some (Ok ())) = Some (Ok ())"
    and mv: "rename_move ord fd (entry_fileid fe) td tn t1 = (Ok (), t')"
    using r diff by (auto simp: fs_rename_def Let_def split: sum.splits option.splits prod.splits if_splits)
  obtain dd where dd: "Fs.entries t fd = Some (EDir dd)"
    using fe by (auto simp: fs_lookup_def split: option.splits Entry.splits)
  let ?i = "entry_fileid fe"
  have src: "edge t fd ?i" "Fs.entries t ?i = Some fe" "entry_name fe = fn"
    using fs_lookup_Ok [OF t dd nm fe] by auto
  obtain tdd where tdd: "Fs.entries t td = Some (EDir tdd)"
    using c td by (auto simp: rename_clear_target_def fs_lookup_def split: sum.splits Entry.splits if_splits)
  have diff': "fd \<noteq> td \<or> fn \<noteq> tn" using diff by blast
  from rename_clear_target_ok [OF t ord src diff' td] c
  obtain d d' where t1: "fs_ok t1" and fd1: "Fs.entries t1 fd = Some (EDir d)" and e1: "edge t1 fd ?i"
    and td1: "Fs.entries t1 td = Some (EDir d')" and fe1: "?i \<noteq> td \<longrightarrow> Fs.entries t1 ?i = Some fe" by auto
  have ntd: "?i \<noteq> td"
  proof
    assume eq: "?i = td"
    then have "is_dir_entry fe" using src(2) tdd by auto
    then show False using w eq by simp (subst (asm) walk_to_root.simps, simp)
  qed
  with fe1 have fe1: "Fs.entries t1 ?i = Some fe" by simp
  have "fs_ok t'"
    by (rule rename_move_ok [OF t1 ord fd1 e1 fe1 td1 ntd _ mv]) (use w in simp)
  moreover obtain t2 where "rename_move ord fd ?i td tn t1 = (Ok (), t2)"
    and m2: "\<forall>a j. edge t2 a j \<longleftrightarrow> (edge t1 a j \<and> j \<noteq> ?i) \<or> (a = td \<and> j = ?i)"
      "Fs.entries t2 ?i = Some (relocate td tn fe)"
      "\<forall>j. j \<noteq> ?i \<longrightarrow> j \<noteq> fd \<longrightarrow> j \<noteq> td \<longrightarrow> Fs.entries t2 j = Fs.entries t1 j"
      "\<forall>j d. j \<noteq> ?i \<longrightarrow> Fs.entries t1 j = Some (EDir d) \<longrightarrow>
       (\<exists>c. distinct c \<and> Fs.entries t2 j = Some (EDir (d\<lparr> Dir.content := c \<rparr>)))"
    by (rule rename_move_eq [OF t1 ord fd1 e1 fe1 td1 ntd, where nm = tn])
  moreover from this have t2: "t2 = t'" using mv by simp
  moreover have "has_name t2 nm j = has_name t1 nm j" if "j \<noteq> ?i" for j nm
    using that m2(3) [rule_format, of j] m2(4) [rule_format, of j] fd1 td1
    by (cases "j = fd \<or> j = td") (auto simp: has_name_def)
  ultimately have "renamed t td tn ?i fe t'"
    using rename_clear_target_absent [OF t ord u tdd c] unfolding renamed_def
    by (auto simp: if_split)
  moreover have "?i \<noteq> fd" using no_self_edge [OF t1] e1 by auto
  then have "\<exists>d. Fs.entries t' fd = Some (EDir d)" using m2(4) [rule_format, of fd d] fd1 t2 by auto
  ultimately show ?thesis using that fe by blast
qed

lemma renamed_edge:
  assumes "renamed t td tn i fe t'"
  shows "edge t' d j \<longleftrightarrow> (if j = i then d = td else edge t d j \<and> \<not> (d = td \<and> has_name t tn j))"
    "has_name t' nm i \<longleftrightarrow> nm = tn" "j \<noteq> i \<Longrightarrow> edge t' d j \<Longrightarrow> has_name t' nm j = has_name t nm j"
proof -
  show "edge t' d j \<longleftrightarrow> (if j = i then d = td else edge t d j \<and> \<not> (d = td \<and> has_name t tn j))"
    "j \<noteq> i \<Longrightarrow> edge t' d j \<Longrightarrow> has_name t' nm j = has_name t nm j"
    using assms unfolding renamed_def by blast+
  show "has_name t' nm i \<longleftrightarrow> nm = tn" using assms by (auto simp: renamed_def has_name_def)
qed

lemma renamed_names:
  assumes t: "fs_ok t" and r: "renamed t td tn i fe t'" and u: "names_unique t d"
  shows "names_unique t' d"
proof -
  have t': "fs_ok t'" using r by (simp add: renamed_def)
  show ?thesis
    unfolding names_unique_has_name [OF t']
  proof (intro allI impI)
    fix j k nm assume jk: "edge t' d j \<and> edge t' d k \<and> has_name t' nm j \<and> has_name t' nm k"
    then show "j = k"
      using u [unfolded names_unique_has_name [OF t]] renamed_edge [OF r]
      by (cases "j = i"; cases "k = i") metis+
  qed
qed

lemma renamed_other_lookup:
  assumes t: "fs_ok t" and r: "renamed t td tn i fe t'" and u: "names_unique t d" and src: "edge t fd i" "has_name t fn i"
    and d: "Fs.entries t d = Some (EDir dd)" "Fs.entries t' d = Some (EDir dd')"
    and nm: "nm \<noteq> DOT" "nm \<noteq> DOTDOT" "\<not> (d = fd \<and> nm = fn)" "\<not> (d = td \<and> nm = tn)"
  shows "map_ok entry_fileid (fs_lookup d nm t') = map_ok entry_fileid (fs_lookup d nm t)"
proof -
  have t': "fs_ok t'" using r by (simp add: renamed_def)
  have fn: "has_name t nm' i \<Longrightarrow> nm' = fn" for nm' using src(2) by (auto simp: has_name_def split: option.splits)
  have two: "has_name t nm' j \<Longrightarrow> has_name t nm'' j \<Longrightarrow> nm' = nm''" for nm' nm'' j
    by (auto simp: has_name_def split: option.splits)
  have "edge t d j \<and> has_name t nm j \<longleftrightarrow> edge t' d j \<and> has_name t' nm j" for j
  proof (cases "j = i")
    case True
    then show ?thesis using fn fs_ok_unique [OF t src(1), of d] nm(3,4) renamed_edge(1,2) [OF r] by auto
  next
    case False
    then show ?thesis using renamed_edge [OF r] two nm(4) by metis
  qed
  then show ?thesis
    by (rule fs_lookup_same [OF t t' u renamed_names [OF t r u] d nm(1,2)])
qed

lemma renamed_source:
  assumes t: "fs_ok t" and r: "renamed t td tn i fe t'" and u: "names_unique t fd" and src: "edge t fd i" "has_name t fn i"
    and diff: "\<not> (fd = td \<and> fn = tn)" and fd: "Fs.entries t' fd = Some (EDir dd)" and nm: "fn \<noteq> DOT" "fn \<noteq> DOTDOT"
  shows "fs_lookup fd fn t' = Err NFS3ERR_NOENT"
proof -
  have t': "fs_ok t'" using r by (simp add: renamed_def)
  show ?thesis
  proof (rule fs_lookup_absent [OF t' fd nm], rule notI)
    fix j e assume j: "edge t' fd j" "Fs.entries t' j = Some e" "entry_name e = fn"
    then have hn: "has_name t' fn j" by (simp add: has_name_def)
    show False
      using hn j(1) diff u [unfolded names_unique_has_name [OF t]] renamed_edge [OF r] src by metis
  qed
qed

section \<open>Reachable states\<close>

lemma returns_okD: "returns_ok p m \<Longrightarrow> p m = Some (r, m') \<Longrightarrow> memfs_ok m'"
  by (auto simp: returns_ok_def)

lemma memfs_setattr_keeps:
  assumes m: "memfs_ok m" and r: "memfs_setattr env i sa m = Some (r, m')"
  shows "memfs_ok m'"
proof (cases "Fs.entries (fs m) i")
  case None
  then show ?thesis using m r by (simp add: memfs_setattr_def with_fs_def)
next
  case (Some e)
  have t: "fs_ok (fs m)" using m by (simp add: memfs_ok_def)
  obtain e' where e': "set_attr (snd env) sa e = Some e'" "m' = m\<lparr> fs := put i e' (fs m) \<rparr>"
    using r Some by (auto simp: memfs_setattr_def with_fs_def split: option.splits)
  note f = set_attr_facts [OF e'(1) fs_ok_entry [OF t Some]]
  show ?thesis using m e' put_same_place_ok [OF t Some f(1,2,3)] by (simp add: memfs_ok_def)
qed

lemma memfs_write_keeps:
  assumes m: "memfs_ok m" and bs: "length bs < 2 ^ 63" and r: "memfs_write i off bs m = Some (r, m')"
  shows "memfs_ok m'"
proof (cases "\<exists>f. Fs.entries (fs m) i = Some (EFile f)")
  case True
  then obtain f where f: "Fs.entries (fs m) i = Some (EFile f)" ..
  have t: "fs_ok (fs m)" using m by (simp add: memfs_ok_def)
  obtain g where g: "file_write f off bs = Some (r, g)" "m' = m\<lparr> fs := put i (EFile g) (fs m) \<rparr>"
    using r f by (auto simp: memfs_write_def with_fs_def split: option.splits)
  note w = file_write_facts [OF fs_ok_entry [OF t f] bs g(1)]
  have "fs_ok (put i (EFile g) (fs m))"
    by (rule put_same_place_ok [OF t f]) (use w in \<open>auto simp: entry_fileid_def file_fileid_def\<close>)
  then show ?thesis using m g(2) by (simp add: memfs_ok_def)
next
  case False
  then show ?thesis using m r by (auto simp: memfs_write_def with_fs_def split: option.splits Entry.splits)
qed

lemma memfs_add_file_keeps:
  assumes m: "memfs_ok m" "permuting (fst env)" "length bs < 2 ^ 63"
    and r: "memfs_add_file env d nm sa bs cv m = Some (r, m')"
  shows "memfs_ok m'"
proof (cases "\<forall>sz. sattr3.size sa = Some sz \<longrightarrow> unat sz < 2 ^ 63")
  case True
  then show ?thesis using returns_okD [OF memfs_add_file_ok [OF m] r] by blast
next
  case False
  then have "memfs_add_file env d nm sa bs cv m = None"
    by (auto simp: memfs_add_file_def Let_def file_resize_def)
  then show ?thesis using r by simp
qed

lemma memfs_create_exclusive_keeps:
  assumes "memfs_ok m" "permuting (fst env)" "memfs_create_exclusive env d nm cv m = Some (r, m')"
  shows "memfs_ok m'"
  using assms(3) memfs_add_file_keeps [OF assms(1,2), where bs = "[]"]
  by (auto simp: memfs_create_exclusive_def await_eq_Some)

text \<open>
  The calls of the interface that change the state.  The server asks for the attributes of a
  directory before it adds to it or moves something into it, so the directory exists then.
\<close>

inductive memfs_step :: "MemFs \<Rightarrow> MemFs \<Rightarrow> bool" where
  step_setattr: "vfs_setattr (memfs env) i sa m = Some (r, m') \<Longrightarrow> memfs_step m m'"
| step_write: "length bs < 2 ^ 63 \<Longrightarrow> vfs_write (memfs env) i off bs m = Some (r, m') \<Longrightarrow> memfs_step m m'"
| step_create: "permuting (fst env) \<Longrightarrow> vfs_create (memfs env) d nm sa m = Some (r, m') \<Longrightarrow> memfs_step m m'"
| step_create_exclusive:
    "permuting (fst env) \<Longrightarrow> vfs_create_exclusive (memfs env) d nm cv m = Some (r', m') \<Longrightarrow> memfs_step m m'"
| step_mkdir: "permuting (fst env) \<Longrightarrow> Fs.entries (fs m) d \<noteq> None \<Longrightarrow>
    vfs_mkdir (memfs env) d nm m = Some (r, m') \<Longrightarrow> memfs_step m m'"
| step_remove: "permuting (fst env) \<Longrightarrow> vfs_remove (memfs env) d nm m = Some (r'', m') \<Longrightarrow> memfs_step m m'"
| step_rename: "permuting (fst env) \<Longrightarrow> fn \<noteq> DOT \<Longrightarrow> fn \<noteq> DOTDOT \<Longrightarrow> Fs.entries (fs m) td \<noteq> None \<Longrightarrow>
    vfs_rename (memfs env) fd fn td tn m = Some (r'', m') \<Longrightarrow> memfs_step m m'"

lemma memfs_step_ok: "memfs_step m m' \<Longrightarrow> memfs_ok m \<Longrightarrow> memfs_ok m'"
proof (induction rule: memfs_step.induct)
  case (step_setattr env i sa m r m')
  then show ?case using memfs_setattr_keeps by (simp add: memfs_def)
next
  case (step_write bs env i off m r m')
  then show ?case using memfs_write_keeps by (simp add: memfs_def)
next
  case (step_create env d nm sa m r m')
  then show ?case using memfs_add_file_keeps [where bs = "[]"] by (simp add: memfs_def)
next
  case (step_create_exclusive env d nm cv m r m')
  then show ?case using memfs_create_exclusive_keeps by (simp add: memfs_def)
next
  case (step_mkdir env m d nm r m')
  then show ?case using returns_okD [OF memfs_add_dir_ok, of m env d nm r m'] by (auto simp: memfs_def)
next
  case (step_remove env d nm m r m')
  then show ?case using returns_okD [OF memfs_remove_ok] by blast
next
  case (step_rename env fn m td fd tn r m')
  then show ?case using returns_okD [OF memfs_rename_ok] by blast
qed

inductive memfs_reachable :: "MemFs \<Rightarrow> bool" where
  reachable_new: "permuting (fst env) \<Longrightarrow> \<forall>e \<in> set cfg. length (config_content e) < 2 ^ 63 \<Longrightarrow>
    memfs_new env cfg = Some (Ok m) \<Longrightarrow> memfs_reachable m"
| reachable_step: "memfs_reachable m \<Longrightarrow> memfs_step m m' \<Longrightarrow> memfs_reachable m'"

lemma memfs_reachable_ok: "memfs_reachable m \<Longrightarrow> memfs_ok m"
proof (induction rule: memfs_reachable.induct)
  case (reachable_new env cfg m)
  then show ?case using memfs_new_ok by fastforce
qed (rule memfs_step_ok)

section \<open>An example\<close>

text \<open>A file system with one file, with which the properties are instantiated.\<close>

definition example_env :: env where
  "example_env = (\<lambda>xs. xs, \<lparr> nfstime3.seconds = 1700000000, nfstime3.nseconds = 0 \<rparr>)"

definition example_config :: MemFsConfig where
  "example_config = config_add_file [47, 97] [104, 105] []"

definition example_now :: nfstime3 where
  "example_now = snd example_env"

definition example_memfs :: MemFs where
  "example_memfs =
     \<lparr> fs = \<lparr> Fs.entries = [1 \<mapsto> EDir ((root_dir example_now)\<lparr> Dir.content := [2] \<rparr>),
                 2 \<mapsto> EFile (file_new example_now [97] 2 [104, 105] (Array (replicate 8 0)))],
              Fs.root = 1 \<rparr>,
       rootdir = 1, nextid = 3 \<rparr>"

lemma permuting_id [simp]: "permuting (fst example_env)"
  by (simp add: permuting_def example_env_def)

lemma example_config_eq: "example_config =
  [\<lparr> config_parent = [47], config_name = [97], is_dir = False, config_content = [104, 105] \<rparr>]"
  by (simp add: example_config_def config_add_file_def config_entry_def DELIMITER_def Let_def
      trim_end_matches.simps)

lemmas memfs_eval = memfs_new_def memfs_default_def fs_new_def path_to_id_impl_def DELIMITER_def await_def ret_def
  memfs_add_file_def memfs_add_dir_def with_fs_def read_fs_def fs_push_def fs_lookup_def fs_remove_def Let_def
  root_dir_def dir_new_def file_new_def new_attr_def entry_fileid_def file_fileid_def set_insert_def set_times_def
  sattr3_default_def DOT_def DOTDOT_def put_def has_name_def

lemma example_memfs_new: "memfs_new example_env example_config = Some (Ok example_memfs)"
  by (simp add: example_memfs_def example_config_eq example_env_def example_now_def memfs_eval fun_upd_twist)

lemma example_reachable: "memfs_reachable example_memfs"
  by (rule reachable_new [OF permuting_id _ example_memfs_new]) (simp add: example_config_eq)

lemma example_memfs_ok: "memfs_ok example_memfs"
  by (rule memfs_reachable_ok [OF example_reachable])

section \<open>Properties\<close>

text \<open>
  C1: after a successful write, a read of any range of the file returns the bytes of the old
  content with the written ones in their place, and reports the end of the file exactly when
  the range reaches it; the reported size is the new length and no other entry has changed.
\<close>

theorem memfs_write_read:
  assumes "memfs_ok m" "length bs < 2 ^ 63" "vfs_write (memfs env) i off bs m = Some (Ok a, m')"
    "unat off' + unat cnt < 2 ^ 64"
  shows "\<exists>f. Fs.entries (fs m) i = Some (EFile f) \<and> unat off \<le> length (File.content f) \<and>
    (let new = overwrite (unat off) bs (File.content f) in
      vfs_read (memfs env') i off' cnt m' =
        Some (Ok (take (unat cnt) (drop (unat off') new), length new \<le> unat off' + unat cnt), m') \<and>
      unat (fattr3.size a) = length new) \<and>
    (\<forall>j. j \<noteq> i \<longrightarrow> Fs.entries (fs m') j = Fs.entries (fs m) j)"
proof -
  have t: "fs_ok (fs m)" using assms(1) by (simp add: memfs_ok_def)
  from assms(3) obtain f g where f: "Fs.entries (fs m) i = Some (EFile f)" "file_write f off bs = Some (Ok a, g)"
    "m' = m\<lparr> fs := put i (EFile g) (fs m) \<rparr>"
    by (auto simp: memfs_def memfs_write_def with_fs_def split: option.splits Entry.splits)
  note w = file_write_facts [OF fs_ok_entry [OF t f(1)] assms(2) f(2)]
  have g: "a = File.attr g" "unat off \<le> length (File.content f)"
    "File.content g = overwrite (unat off) bs (File.content f)" "unat (fattr3.size (File.attr g)) = length (File.content g)"
    using w by auto
  have "file_read g off' cnt = Some (take (unat cnt) (drop (unat off') (File.content g)),
      length (File.content g) \<le> unat off' + unat cnt)"
    using assms(4) by (auto simp: file_read_def Let_def)
  then show ?thesis using f g by (auto simp: memfs_def memfs_read_def Let_def)
qed

theorem memfs_write_read_witness:
  "\<exists>a m'. vfs_write (memfs example_env) 2 1 [120, 121] example_memfs = Some (Ok a, m') \<and>
     vfs_read (memfs example_env) 2 0 10 m' = Some (Ok ([104, 120, 121], True), m')"
proof -
  have "\<exists>a m'. vfs_write (memfs example_env) 2 1 [120, 121] example_memfs = Some (Ok a, m')"
    by (simp add: memfs_def memfs_write_def example_memfs_def memfs_eval file_write_def file_resize_def)
  then obtain a m' where w: "vfs_write (memfs example_env) 2 1 [120, 121] example_memfs = Some (Ok a, m')" by blast
  have f: "Fs.entries (fs example_memfs) 2 = Some (EFile (file_new example_now [97] 2 [104, 105] (Array (replicate 8 0))))"
    by (simp add: example_memfs_def)
  show ?thesis
    using memfs_write_read [OF example_memfs_ok _ w, of 0 10 example_env] w f
    by (auto simp: overwrite_def file_new_def Let_def)
qed






lemma example_names: "names_unique (fs example_memfs) d"
  by (auto simp: names_unique_def edge_def example_memfs_def)

lemma example_lookup: "vfs_lookup (memfs env) 1 [97] example_memfs = Some (Ok 2, example_memfs)"
  by (simp add: memfs_def example_memfs_def memfs_eval)

lemma memfs_lookup_state:
  "map_option fst (vfs_lookup (memfs env) d nm m) = Some r \<longleftrightarrow> vfs_lookup (memfs env) d nm m = Some (r, m)"
  by (auto simp: memfs_def read_fs_def)


text \<open>
  An exclusive CREATE may be repeated with the same verifier: it returns the same file and
  leaves the tree as it is, whereas another verifier is refused.
\<close>

theorem memfs_create_exclusive_idempotent:
  assumes "memfs_ok m" "permuting (fst env)" "names_unique (fs m) d"
    "vfs_create_exclusive (memfs env) d nm cv m = Some (Ok i, m')"
  shows "(\<exists>m''. vfs_create_exclusive (memfs env') d nm cv m' = Some (Ok i, m'') \<and> fs m'' = fs m') \<and>
    (cv' \<noteq> cv \<longrightarrow> (\<exists>m''. vfs_create_exclusive (memfs env') d nm cv' m' = Some (Err NFS3ERR_EXIST, m'') \<and> fs m'' = fs m'))"
proof -
  have t: "fs_ok (fs m)" using assms(1) by (simp add: memfs_ok_def)
  obtain x where x: "memfs_add_file env d nm sattr3_default [] (Some cv) m = Some (x, m')" "map_ok fst x = Ok i"
    using assms(4) by (auto simp: memfs_def memfs_create_exclusive_def await_eq_Some)
  then obtain a where r: "memfs_add_file env d nm sattr3_default [] (Some cv) m = Some (Ok (i, a), m')"
    by (auto simp: result_simps)
  have "\<exists>f. fs_lookup d nm (fs m') = Ok (EFile f) \<and> File.verf f = cv \<and> file_fileid f = i"
    using memfs_add_file_Ok [OF assms(1,2) _ r, simplified]
  proof (elim disjE exE conjE)
    fix f assume l: "fs_lookup d nm (fs m) = Err NFS3ERR_NOENT" and f: "file_added env (fs m) d i f (fs m')"
      "File.name f = nm" "File.verf f = cv"
    then obtain pd where pd: "Fs.entries (fs m) d = Some (EDir pd)" and t': "fs_ok (fs m')"
      and i: "Fs.entries (fs m') i = Some (EFile f)" "edge (fs m') d i" by (auto simp: file_added_def)
    have l': "fs_lookup d (File.name f) (fs m) = Err NFS3ERR_NOENT" using l f(2) by simp
    have "fs_lookup d nm (fs m') = Ok (EFile f)"
      by (rule fs_lookup_found [OF t' file_added_names [OF t f(1) l' assms(2,3)] fs_lookup_NOENT(1,2) [OF t pd l] i(2,1)])
         (simp add: f(2))
    then show ?thesis using f(3) fs_ok_id [OF t' i(1)] by (simp add: entry_fileid_def file_fileid_def)
  qed simp_all
  then obtain f where f: "fs_lookup d nm (fs m') = Ok (EFile f)" "File.verf f = cv" "file_fileid f = i" by blast
  then show ?thesis
    by (auto simp: memfs_def memfs_create_exclusive_def await_def ret_def memfs_add_file_def Let_def
        sattr3_default_def file_new_def)
qed

theorem memfs_create_exclusive_idempotent_witness:
  "\<exists>m' m''. vfs_create_exclusive (memfs example_env) 1 [98] (Array (replicate 8 7)) example_memfs = Some (Ok 3, m') \<and>
     vfs_create_exclusive (memfs example_env) 1 [98] (Array (replicate 8 7)) m' = Some (Ok 3, m'') \<and> fs m'' = fs m'"
proof -
  have "\<exists>m'. vfs_create_exclusive (memfs example_env) 1 [98] (Array (replicate 8 7)) example_memfs = Some (Ok 3, m')"
    by (simp add: memfs_def memfs_create_exclusive_def example_memfs_def memfs_eval example_env_def)
  then obtain m' where w:
    "vfs_create_exclusive (memfs example_env) 1 [98] (Array (replicate 8 7)) example_memfs = Some (Ok 3, m')" by blast
  from memfs_create_exclusive_idempotent [OF example_memfs_ok permuting_id example_names w, of example_env] w
  show ?thesis by blast
qed







end
