(* ===== verification/Nfs_Handlers_Props.thy ===== *)
theory Nfs_Handlers_Props
  imports Nfs_Handlers
begin

text \<open>
  Properties of the NFSv3 procedures over any file system: what a file system must promise for
  the server to keep an invariant of its state (locale \<open>vfs_invariant\<close>), the read-only server,
  the error paths, and the size of directory listings.
\<close>

section \<open>Invariants of operations\<close>

named_theorems keeps_intros \<open>operations that keep an invariant of the state\<close>

definition keeps :: "('s \<Rightarrow> bool) \<Rightarrow> ('s, 'a) prog \<Rightarrow> ('s \<Rightarrow> bool) \<Rightarrow> bool" where
  "keeps P m Q \<longleftrightarrow> (\<forall>s x s'. P s \<longrightarrow> m s = Some (x, s') \<longrightarrow> Q s')"

lemma keepsI: "(\<And>s x s'. P s \<Longrightarrow> m s = Some (x, s') \<Longrightarrow> Q s') \<Longrightarrow> keeps P m Q"
  unfolding keeps_def by blast

lemma keepsD: "keeps P m Q \<Longrightarrow> P s \<Longrightarrow> m s = Some (x, s') \<Longrightarrow> Q s'"
  unfolding keeps_def by blast

lemma keeps_weaken: "keeps P m Q \<Longrightarrow> (\<And>s. P' s \<Longrightarrow> P s) \<Longrightarrow> keeps P' m Q"
  unfolding keeps_def by blast

lemma keeps_ret [keeps_intros]: "keeps P (ret x) P"
  by (simp add: keeps_def)

lemma keeps_panic [keeps_intros]: "keeps P panic Q"
  by (simp add: keeps_def panic_def)

lemma keeps_await: "keeps P m R \<Longrightarrow> (\<And>x. keeps R (f x) Q) \<Longrightarrow> keeps P (await m f) Q"
  unfolding keeps_def await_eq_Some by blast

lemma keeps_if [keeps_intros]:
  "(b \<Longrightarrow> keeps P m Q) \<Longrightarrow> (\<not> b \<Longrightarrow> keeps P m' Q) \<Longrightarrow> keeps P (if b then m else m') Q"
  by simp

lemma keeps_sum [keeps_intros]:
  "(\<And>e. keeps P (f e) Q) \<Longrightarrow> (\<And>x. keeps P (g x) Q) \<Longrightarrow> keeps P (case r of Err e \<Rightarrow> f e | Ok x \<Rightarrow> g x) Q"
  by (simp split: sum.split)

lemma keeps_option [keeps_intros]:
  "keeps P m Q \<Longrightarrow> (\<And>x. keeps P (f x) Q) \<Longrightarrow> keeps P (case r of None \<Rightarrow> m | Some x \<Rightarrow> f x) Q"
  by (simp split: option.split)

lemma keeps_prod [keeps_intros]: "(\<And>x y. keeps P (f x y) Q) \<Longrightarrow> keeps P (case p of (x, y) \<Rightarrow> f x y) Q"
  by (simp split: prod.split)

lemma keeps_handle:
  assumes "\<And>args bs. incoming_data m = Some bs \<Longrightarrow> map_ok fst (unpack ci (drop (message_start m) bs)) = Ok args \<Longrightarrow>
    keeps P (handler ctx (incoming_xid m) args) P"
  shows "keeps P (handle ci co ctx m handler) P"
proof (cases "incoming_data m")
  case (Some bs)
  show ?thesis
  proof (cases "unpack ci (drop (message_start m) bs)")
    case (Inl e)
    then show ?thesis by (simp add: handle_def Some Let_def keeps_ret)
  next
    case (Inr p)
    obtain args n rest where p: "p = (args, n, rest)" by (cases p)
    have "keeps P (handler ctx (incoming_xid m) args) P"
      using assms [OF Some, of args] Inr p by simp
    then show ?thesis
      using Inr p by (auto simp: handle_def Some Let_def intro!: keeps_intros keeps_await)
  qed
qed (simp add: handle_def keeps_panic)

section \<open>The loops of the directory listings\<close>

lemma try_push_size:
  "is_ok (fst (try_push c e l)) \<Longrightarrow>
   max_size (snd (try_push c e l)) - current_size (snd (try_push c e l)) < max_size l - current_size l"
  by (auto simp: try_push_def Let_def split: if_splits)

lemma readdirplus_loop_step:
  assumes "vfs_readdirplus_next (vfs ctx) it s = Some ((r, it'), s')"
  shows "readdirplus_loop ctx l it s =
    (case r of
       NextOk e \<Rightarrow>
         (let entry = into_entry (vfs_handle (vfs ctx)) (file_handle_converter ctx) e;
              l' = snd (entry_plus_try_push entry l) in
          if is_ok (fst (entry_plus_try_push entry l)) then readdirplus_loop ctx l' it' s'
          else drop_then (vfs_readdirplus_drop (vfs ctx) it') (Ok (l', False)) s')
     | NextEof \<Rightarrow> drop_then (vfs_readdirplus_drop (vfs ctx) it') (Ok (l, True)) s'
     | NextErr stat \<Rightarrow> drop_then (vfs_readdirplus_drop (vfs ctx) it') (Err stat) s')"
  by (subst readdirplus_loop.simps) (simp add: assms)

lemma readdir_loop_step:
  assumes "vfs_readdir_next (vfs ctx) it s = Some ((r, it'), s')"
  shows "readdir_loop ctx l it s =
    (case r of
       NextOk entry \<Rightarrow>
         (let l' = snd (try_push entry3_codec entry l) in
          if is_ok (fst (try_push entry3_codec entry l)) then readdir_loop ctx l' it' s'
          else drop_then (vfs_readdir_drop (vfs ctx) it') (Ok (l', False)) s')
     | NextEof \<Rightarrow> drop_then (vfs_readdir_drop (vfs ctx) it') (Ok (l, True)) s'
     | NextErr stat \<Rightarrow> drop_then (vfs_readdir_drop (vfs ctx) it') (Err stat) s')"
  by (subst readdir_loop.simps) (simp add: assms)

text \<open>The name that a RENAME call moves.\<close>

definition rename_source :: "IncomingRpcMessage \<Rightarrow> filename3 option" where
  "rename_source m =
     (case (NFS_PROGRAM_try_from (call_body.proc (incoming_body m)), incoming_data m) of
        (Ok NFSPROC3_RENAME, Some bs) \<Rightarrow>
          (case map_ok fst (unpack RENAME3args_codec (drop (message_start m) bs)) of
             Ok args \<Rightarrow> Some (diropargs3.name (RENAME3args.from' args))
           | Err _ \<Rightarrow> None)
      | _ \<Rightarrow> None)"

section \<open>What a file system promises\<close>

lemma keeps_pure: "preserves m \<Longrightarrow> keeps P m P"
  unfolding keeps_def preserves_def by blast

lemma keeps_await_same: "keeps P m P \<Longrightarrow> (\<And>x. keeps P (f x) P) \<Longrightarrow> keeps P (await m f) P"
  by (rule keeps_await)

lemma keeps_fh_to_id [keeps_intros]: "(\<And>h. keeps P (k h) P) \<Longrightarrow> keeps P (fh_to_id ctx fh dflt k) P"
  unfolding fh_to_id_def by (intro keeps_intros)

lemma keeps_require_write [keeps_intros]: "keeps P m P \<Longrightarrow> keeps P (require_write ctx dflt m) P"
  by (auto simp: keeps_def require_write_def)

text \<open>The reading procedures keep what the operations of \<^verbatim>\<open>NfsReadFileSystem\<close> keep.\<close>

locale vfs_reads =
  fixes ctx :: "('s, 'h, 'i, 'p) RPCContext" and P :: "'s \<Rightarrow> bool"
  assumes reads_lookup: "keeps P (vfs_lookup (vfs ctx) h nm) P"
    and reads_getattr: "keeps P (vfs_getattr (vfs ctx) h) P"
    and reads_read: "keeps P (vfs_read (vfs ctx) h off cnt) P"
    and reads_readdir: "keeps P (vfs_readdir (vfs ctx) h start) P"
    and reads_readdir_next: "keeps P (vfs_readdir_next (vfs ctx) i) P"
    and reads_readdir_drop: "keeps P (vfs_readdir_drop (vfs ctx) i) P"
    and reads_readdirplus: "keeps P (vfs_readdirplus (vfs ctx) h start) P"
    and reads_readdirplus_next: "keeps P (vfs_readdirplus_next (vfs ctx) p) P"
    and reads_readdirplus_drop: "keeps P (vfs_readdirplus_drop (vfs ctx) p) P"
    and reads_readlink: "keeps P (vfs_readlink (vfs ctx) h) P"
    and reads_fsinfo: "keeps P (vfs_fsinfo (vfs ctx) h) P"
begin

lemmas keeps_reads [keeps_intros] =
  reads_lookup reads_getattr reads_read reads_readdir reads_readdirplus reads_readlink reads_fsinfo

lemma keeps_readdirplus_loop [keeps_intros]: "keeps P (readdirplus_loop ctx l it) P"
proof (rule keepsI)
  fix s x s' assume "P s" "readdirplus_loop ctx l it s = Some (x, s')"
  then show "P s'"
  proof (induction "max_size (bounded_entries l) - current_size (bounded_entries l)" arbitrary: l it s
      rule: less_induct)
    case less
    obtain r it' s1 where n: "vfs_readdirplus_next (vfs ctx) it s = Some ((r, it'), s1)"
      using less.prems(2) by (subst (asm) readdirplus_loop.simps) (auto split: option.splits)
    have s1: "P s1" using keepsD [OF reads_readdirplus_next less.prems(1) n] .
    note dropped = keepsD [OF reads_readdirplus_drop s1]
    note step = readdirplus_loop_step [OF n, of l] and IH = less.hyps [OF _ s1]
    show ?case
    proof (cases r)
      case (NextOk e)
      define p where "p = entry_plus_try_push (into_entry (vfs_handle (vfs ctx)) (file_handle_converter ctx) e) l"
      then have "is_ok (fst p) \<Longrightarrow> max_size (bounded_entries (snd p)) - current_size (bounded_entries (snd p)) <
          max_size (bounded_entries l) - current_size (bounded_entries l)"
        using entry_plus_try_push_size by simp
      then show ?thesis
        using step less.prems(2) NextOk IH [of "snd p"]
        by (auto simp: Let_def p_def [symmetric] drop_then_eq_Some dest: dropped split: if_splits)
    qed (use less.prems(2) step in \<open>auto simp: drop_then_eq_Some dest: dropped\<close>)
  qed
qed

lemma keeps_readdir_loop [keeps_intros]: "keeps P (readdir_loop ctx l it) P"
proof (rule keepsI)
  fix s x s' assume "P s" "readdir_loop ctx l it s = Some (x, s')"
  then show "P s'"
  proof (induction "max_size l - current_size l" arbitrary: l it s rule: less_induct)
    case less
    obtain r it' s1 where n: "vfs_readdir_next (vfs ctx) it s = Some ((r, it'), s1)"
      using less.prems(2) by (subst (asm) readdir_loop.simps) (auto split: option.splits)
    have s1: "P s1" using keepsD [OF reads_readdir_next less.prems(1) n] .
    note dropped = keepsD [OF reads_readdir_drop s1]
    note step = readdir_loop_step [OF n, of l] and IH = less.hyps [OF _ s1]
    show ?case
    proof (cases r)
      case (NextOk e)
      define p where "p = try_push entry3_codec e l"
      then have "is_ok (fst p) \<Longrightarrow> max_size (snd p) - current_size (snd p) < max_size l - current_size l"
        using try_push_size by simp
      then show ?thesis
        using step less.prems(2) NextOk IH [of "snd p"]
        by (auto simp: Let_def p_def [symmetric] drop_then_eq_Some dest: dropped split: if_splits)
    qed (use less.prems(2) step in \<open>auto simp: drop_then_eq_Some dest: dropped\<close>)
  qed
qed

lemmas keeps_rules = keeps_await_same keeps_intros

lemma keeps_getattr_handler: "keeps P (nfsproc3_getattr ctx x args) P"
  unfolding nfsproc3_getattr_def Let_def by (intro keeps_rules)

lemma keeps_lookup_handler: "keeps P (nfsproc3_lookup ctx x args) P"
  unfolding nfsproc3_lookup_def Let_def by (intro keeps_rules)

lemma keeps_read_handler: "keeps P (nfsproc3_read ctx x args) P"
  unfolding nfsproc3_read_def Let_def by (intro keeps_rules)

lemma keeps_fsinfo_handler: "keeps P (nfsproc3_fsinfo ctx x args) P"
  unfolding nfsproc3_fsinfo_def Let_def by (intro keeps_rules)

lemma keeps_pathconf_handler: "keeps P (nfsproc3_pathconf ctx x args) P"
  unfolding nfsproc3_pathconf_def Let_def by (intro keeps_rules)

lemma keeps_fsstat_handler: "keeps P (nfsproc3_fsstat ctx x args) P"
  unfolding nfsproc3_fsstat_def Let_def by (intro keeps_rules)

lemma keeps_readlink_handler: "keeps P (nfsproc3_readlink ctx x args) P"
  unfolding nfsproc3_readlink_def Let_def by (intro keeps_rules)

lemma keeps_access_handler: "keeps P (nfsproc3_access ctx x args) P"
  unfolding nfsproc3_access_def Let_def by (intro keeps_rules) (simp add: keeps_def)

lemma keeps_readdir_handler: "keeps P (nfsproc3_readdir ctx x args) P"
  unfolding nfsproc3_readdir_def Let_def by (intro keeps_rules)

lemma keeps_readdirplus_handler: "keeps P (nfsproc3_readdirplus ctx x args) P"
  unfolding nfsproc3_readdirplus_def Let_def by (intro keeps_rules)

end

text \<open>The dispatcher keeps what the procedures keep.\<close>

lemma handle_nfs_keeps:
  assumes reads: "vfs_reads ctx P"
    and "\<And>x args. keeps P (nfsproc3_write ctx x args) P" "\<And>x args. keeps P (nfsproc3_create ctx x args) P"
    and "\<And>x args. keeps P (nfsproc3_setattr ctx x args) P" "\<And>x args. keeps P (nfsproc3_remove ctx x args) P"
    and "\<And>x args. keeps P (nfsproc3_mkdir ctx x args) P" "\<And>x args. keeps P (nfsproc3_symlink ctx x args) P"
    and rename: "\<And>x args. rename_source m = Some (diropargs3.name (RENAME3args.from' args)) \<Longrightarrow>
      keeps P (nfsproc3_rename ctx x args) P"
  shows "keeps P (handle_nfs ctx m) P"
proof -
  note handlers = assms(2-7) vfs_reads.keeps_getattr_handler [OF reads] vfs_reads.keeps_lookup_handler [OF reads]
    vfs_reads.keeps_read_handler [OF reads] vfs_reads.keeps_fsinfo_handler [OF reads]
    vfs_reads.keeps_access_handler [OF reads] vfs_reads.keeps_pathconf_handler [OF reads]
    vfs_reads.keeps_fsstat_handler [OF reads] vfs_reads.keeps_readdir_handler [OF reads]
    vfs_reads.keeps_readdirplus_handler [OF reads] vfs_reads.keeps_readlink_handler [OF reads]
  have null: "keeps P (nfsproc3_null ctx x args) P" for x args
    unfolding nfsproc3_null_def by (rule keeps_ret)
  have rename: "keeps P (handle RENAME3args_codec RENAME3res_codec ctx m nfsproc3_rename) P"
    if "NFS_PROGRAM_try_from (call_body.proc (incoming_body m)) = Ok NFSPROC3_RENAME"
    using that by (intro keeps_handle rename) (auto simp: rename_source_def)
  show ?thesis
  proof (cases "call_body.vers (incoming_body m) \<noteq> Nfs3_Types.VERSION")
    case True
    then show ?thesis by (simp add: handle_nfs_def keeps_ret)
  next
    case False
    show ?thesis
    proof (cases "NFS_PROGRAM_try_from (call_body.proc (incoming_body m))")
      case (Inr p)
      then show ?thesis
        using False by (cases p) (auto simp: handle_nfs_def intro: keeps_handle handlers null rename keeps_ret)
    qed (use False in \<open>simp add: handle_nfs_def Let_def keeps_ret\<close>)
  qed
qed

text \<open>A file system all of whose operations keep a property of the state.\<close>

locale vfs_keeps = vfs_reads +
  assumes writes_setattr: "keeps P (vfs_setattr (vfs ctx) h sa) P"
    and writes_write: "keeps P (vfs_write (vfs ctx) h off bs) P"
    and writes_create: "keeps P (vfs_create (vfs ctx) h nm sa) P"
    and writes_create_exclusive: "keeps P (vfs_create_exclusive (vfs ctx) h nm cv) P"
    and writes_mkdir: "keeps P (vfs_mkdir (vfs ctx) h nm) P"
    and writes_remove: "keeps P (vfs_remove (vfs ctx) h nm) P"
    and writes_rename: "keeps P (vfs_rename (vfs ctx) fd fn td tn) P"
    and writes_symlink: "keeps P (vfs_symlink (vfs ctx) h nm path sa) P"
begin

lemmas keeps_writes = writes_setattr writes_write writes_create writes_create_exclusive writes_mkdir writes_remove
  writes_rename writes_symlink

lemma keeps_get_wcc_attr: "keeps P (get_wcc_attr ctx h) P"
  unfolding get_wcc_attr_def by (intro keeps_rules)

lemma keeps_finish_create: "keeps P (finish_create ctx h nm ch pre) P"
  unfolding finish_create_def create_object_def Let_def
  by (cases ch; simp; intro keeps_rules keeps_writes)

lemma keeps_create_handler: "keeps P (nfsproc3_create ctx x args) P"
  unfolding nfsproc3_create_def Let_def
  by (cases "CREATE3args.how args"; simp; intro keeps_rules keeps_get_wcc_attr keeps_finish_create)

lemma keeps_handle_nfs: "keeps P (handle_nfs ctx m) P"
proof (rule handle_nfs_keeps)
  show "vfs_reads ctx P" by (rule vfs_reads_axioms)
qed (unfold nfsproc3_write_def nfsproc3_setattr_def nfsproc3_remove_def nfsproc3_mkdir_def nfsproc3_symlink_def
       nfsproc3_rename_def Let_def,
     (intro keeps_create_handler keeps_get_wcc_attr keeps_rules keeps_writes)+)

end

text \<open>
  \<open>inv\<close> is kept by every operation, under the conditions the handlers establish: \<open>present\<close>
  is what a successful \<^verbatim>\<open>getattr\<close> tells about a handle; \<open>source_ok\<close> restricts the names that
  may be moved.
\<close>

locale vfs_invariant =
  fixes ctx :: "('s, 'h, 'i, 'p) RPCContext"
    and inv :: "'s \<Rightarrow> bool" and present :: "'h \<Rightarrow> 's \<Rightarrow> bool" and source_ok :: "filename3 \<Rightarrow> bool"
  assumes pure: "pure_reads (vfs ctx)"
    and getattr_present: "inv s \<Longrightarrow> vfs_getattr (vfs ctx) h s = Some (Ok a, s) \<Longrightarrow> present h s"
    and keeps_setattr: "keeps inv (vfs_setattr (vfs ctx) h sa) inv"
    and keeps_write: "length bs < 2 ^ 32 \<Longrightarrow> keeps inv (vfs_write (vfs ctx) h off bs) inv"
    and keeps_create: "keeps inv (vfs_create (vfs ctx) h nm sa) inv"
    and keeps_create_exclusive: "keeps inv (vfs_create_exclusive (vfs ctx) h nm cv) inv"
    and keeps_mkdir: "keeps (\<lambda>s. inv s \<and> present h s) (vfs_mkdir (vfs ctx) h nm) inv"
    and keeps_remove: "keeps inv (vfs_remove (vfs ctx) h nm) inv"
    and keeps_rename: "source_ok fn \<Longrightarrow>
      keeps (\<lambda>s. inv s \<and> present fd s \<and> present td s) (vfs_rename (vfs ctx) fd fn td tn) inv"
    and keeps_symlink: "keeps (\<lambda>s. inv s \<and> present h s) (vfs_symlink (vfs ctx) h nm path sa) inv"
begin

lemma reads: "vfs_reads ctx P"
  by unfold_locales (intro keeps_pure pure_reads.pure_ops [OF pure])+

lemmas keeps_reads [keeps_intros] = vfs_reads.keeps_reads [OF reads]

lemmas keeps_rules = keeps_await_same keeps_intros

text \<open>After the attributes of a handle have been read, it is present.\<close>

lemma keeps_wcc:
  assumes "\<And>e. keeps P (f e) Q" "\<And>w. keeps (\<lambda>s. P s \<and> present h s) (g w) Q" "\<And>s. P s \<Longrightarrow> inv s"
  shows "keeps P (await (get_wcc_attr ctx h) (\<lambda>r. case r of Err e \<Rightarrow> f e | Ok w \<Rightarrow> g w)) Q"
proof (rule keepsI)
  fix s x s' assume s: "P s" and run: "await (get_wcc_attr ctx h) (\<lambda>r. case r of Err e \<Rightarrow> f e | Ok w \<Rightarrow> g w) s = Some (x, s')"
  then obtain r s1 where r: "vfs_getattr (vfs ctx) h s = Some (r, s1)"
    by (auto simp: await_eq_Some get_wcc_attr_def)
  have s1: "s1 = s" using preservesD [OF pure_reads.pure_getattr [OF pure] r] .
  show "Q s'"
  proof (cases r)
    case (Inl e)
    then have "f e s = Some (x, s')" using run r s1 by (simp add: await_def get_wcc_attr_def ret_def)
    then show ?thesis using keepsD [OF assms(1) s] by blast
  next
    case (Inr a)
    then obtain w where "g w s = Some (x, s')" using run r s1 by (auto simp: await_def get_wcc_attr_def ret_def)
    moreover have "present h s" using getattr_present [OF assms(3) [OF s]] r s1 Inr by blast
    ultimately show ?thesis using keepsD [OF assms(2)] s by blast
  qed
qed

lemma keeps_write_handler: "keeps inv (nfsproc3_write ctx x args) inv"
proof -
  have "length (WRITE3args.data args) = unat (WRITE3args.count args) \<Longrightarrow> length (WRITE3args.data args) < 2 ^ 32"
    using unsigned_less [of "WRITE3args.count args", where ?'a = nat] by simp
  then show ?thesis
    unfolding nfsproc3_write_def Let_def get_wcc_attr_def by (intro keeps_rules keeps_write) simp
qed

lemma keeps_finish_create: "keeps inv (finish_create ctx h nm ch pre) inv"
  unfolding finish_create_def create_object_def Let_def
  by (cases ch; simp; intro keeps_rules keeps_create keeps_create_exclusive)

lemma keeps_create_handler: "keeps inv (nfsproc3_create ctx x args) inv"
  unfolding nfsproc3_create_def Let_def get_wcc_attr_def
  by (cases "CREATE3args.how args"; simp; intro keeps_rules keeps_finish_create)

lemma keeps_setattr_handler: "keeps inv (nfsproc3_setattr ctx x args) inv"
  unfolding nfsproc3_setattr_def Let_def get_wcc_attr_def by (intro keeps_rules keeps_setattr)

lemma keeps_remove_handler: "keeps inv (nfsproc3_remove ctx x args) inv"
  unfolding nfsproc3_remove_def Let_def get_wcc_attr_def by (intro keeps_rules keeps_remove)

lemma keeps_mkdir_handler: "keeps inv (nfsproc3_mkdir ctx x args) inv"
  unfolding nfsproc3_mkdir_def Let_def
  by (intro keeps_require_write keeps_fh_to_id keeps_wcc keeps_ret keeps_await [OF keeps_mkdir] keeps_rules)

lemma keeps_symlink_handler: "keeps inv (nfsproc3_symlink ctx x args) inv"
  unfolding nfsproc3_symlink_def Let_def
  by (intro keeps_require_write keeps_fh_to_id keeps_wcc keeps_ret keeps_await [OF keeps_symlink] keeps_rules)

lemma keeps_rename_handler:
  assumes "source_ok (diropargs3.name (RENAME3args.from' args))"
  shows "keeps inv (nfsproc3_rename ctx x args) inv"
proof -
  have ren: "keeps (\<lambda>s. (inv s \<and> present fd s) \<and> present td s)
      (vfs_rename (vfs ctx) fd (diropargs3.name (RENAME3args.from' args)) td tn) inv" for fd td tn
    by (rule keeps_weaken [OF keeps_rename [OF assms]]) blast
  have err: "keeps (\<lambda>s. inv s \<and> present fd s) (ret y) inv" for fd and y :: RENAME3res
    by (simp add: keeps_def)
  show ?thesis
    unfolding nfsproc3_rename_def Let_def
    by (intro keeps_require_write keeps_fh_to_id keeps_wcc err keeps_ret keeps_await [OF ren] keeps_rules) blast+
qed

text \<open>The dispatcher.\<close>

lemma keeps_handle_nfs:
  assumes "\<And>nm. rename_source m = Some nm \<Longrightarrow> source_ok nm"
  shows "keeps inv (handle_nfs ctx m) inv"
  using assms
  by (intro handle_nfs_keeps reads keeps_write_handler keeps_create_handler keeps_setattr_handler
      keeps_remove_handler keeps_mkdir_handler keeps_symlink_handler keeps_rename_handler) blast+

end

section \<open>A server of a read-only file system\<close>

lemma read_only_vfs_invariant:
  assumes "pure_reads v"
  shows "vfs_invariant (ctx\<lparr> vfs := ReadOnlyAdapter v \<rparr>) (\<lambda>s. s = s0) (\<lambda>_ _. True) (\<lambda>_. True)"
  by unfold_locales
     (use pure_reads.ReadOnlyAdapter_pure [OF assms] in \<open>auto simp: ReadOnlyAdapter_def keeps_def pure_reads_def\<close>)

section \<open>Properties\<close>

text \<open>
  C18: a server of a read-only file system never changes it, whatever it is asked, and answers
  every modifying procedure with \<^verbatim>\<open>NFS3ERR_ROFS\<close>.
\<close>

theorem read_only_server:
  fixes v :: "('s, 'h, 'i, 'p, 'z) NfsReadFileSystem_scheme" and ctx :: "('s, 'h, 'i, 'p) RPCContext"
  assumes "pure_reads v"
  defines "ro \<equiv> ctx\<lparr> vfs := ReadOnlyAdapter v \<rparr>"
  shows "(\<forall>m s r s'. handle_nfs ro m s = Some (r, s') \<longrightarrow> s' = s) \<and>
    nfsproc3_setattr ro x sa = ret (Nfs3Err NFS3ERR_ROFS \<lparr> SETATTR3resfail.obj_wcc = wcc_none \<rparr>) \<and>
    nfsproc3_write ro x wr = ret (Nfs3Err NFS3ERR_ROFS \<lparr> WRITE3resfail.file_wcc = wcc_none \<rparr>) \<and>
    nfsproc3_create ro x cr = ret (Nfs3Err NFS3ERR_ROFS \<lparr> CREATE3resfail.dir_wcc = wcc_none \<rparr>) \<and>
    nfsproc3_mkdir ro x mk = ret (Nfs3Err NFS3ERR_ROFS \<lparr> MKDIR3resfail.dir_wcc = wcc_none \<rparr>) \<and>
    nfsproc3_symlink ro x sl = ret (Nfs3Err NFS3ERR_ROFS \<lparr> SYMLINK3resfail.dir_wcc = wcc_none \<rparr>) \<and>
    nfsproc3_remove ro x rm = ret (Nfs3Err NFS3ERR_ROFS \<lparr> REMOVE3resfail.dir_wcc = wcc_none \<rparr>) \<and>
    nfsproc3_rename ro x rn = ret (Nfs3Err NFS3ERR_ROFS
      \<lparr> RENAME3resfail.fromdir_wcc = wcc_none, RENAME3resfail.todir_wcc = wcc_none \<rparr>)"
proof -
  have refused: "require_write ro dflt m = ret (Nfs3Err NFS3ERR_ROFS dflt)" for dflt and m :: "('s, ('t, 'e) nfs3_result) prog"
    by (simp add: require_write_def ro_def ReadOnlyAdapter_def ret_def fun_eq_iff)
  have inv: "vfs_invariant ro (\<lambda>s'. s' = s) (\<lambda>_ _. True) (\<lambda>_. True)" for s
    unfolding ro_def by (rule read_only_vfs_invariant [OF assms(1)])
  have "s' = s" if "handle_nfs ro m s = Some (r, s')" for m s r s'
    using keepsD [OF vfs_invariant.keeps_handle_nfs [OF inv] refl that] by simp
  then show ?thesis
    by (simp add: refused nfsproc3_setattr_def nfsproc3_write_def nfsproc3_create_def nfsproc3_mkdir_def
        nfsproc3_symlink_def nfsproc3_remove_def nfsproc3_rename_def Let_def)
qed



section \<open>The size of listings\<close>

lemma readdir_loop_bounded:
  "readdir_loop ctx l it s = Some (Ok (l', is_eof), s') \<Longrightarrow> bounded_list_ok entry3_codec l \<Longrightarrow>
   bounded_list_ok entry3_codec l' \<and> max_size l' = max_size l"
proof (induction ctx l it s rule: readdir_loop.induct)
  case (1 ctx l it s)
  obtain r it' s1 where n: "vfs_readdir_next (vfs ctx) it s = Some ((r, it'), s1)"
    using "1.prems"(1) by (subst (asm) readdir_loop.simps) (auto split: option.splits)
  note step = readdir_loop_step [OF n, of l] and ok = try_push_ok [OF "1.prems"(2)]
  show ?case
  proof (cases r)
    case (NextOk e)
    then show ?thesis
      using step "1.prems"(1) "1.IH" [OF n [unfolded NextOk]] ok [of e]
      by (auto simp: Let_def drop_then_eq_Some split: if_splits)
  qed (use "1.prems" step in \<open>auto simp: drop_then_eq_Some\<close>)
qed

lemma readdirplus_loop_bounded:
  "readdirplus_loop ctx l it s = Some (Ok (l', is_eof), s') \<Longrightarrow> entry_plus_ok l \<Longrightarrow>
   entry_plus_ok l' \<and> max_size (bounded_entries l') = max_size (bounded_entries l) \<and> dircount l' = dircount l"
proof (induction ctx l it s rule: readdirplus_loop.induct)
  case (1 ctx l it s)
  obtain r it' s1 where n: "vfs_readdirplus_next (vfs ctx) it s = Some ((r, it'), s1)"
    using "1.prems"(1) by (subst (asm) readdirplus_loop.simps) (auto split: option.splits)
  note step = readdirplus_loop_step [OF n, of l] and ok = entry_plus_try_push_ok [OF "1.prems"(2)]
  show ?case
  proof (cases r)
    case (NextOk e)
    then show ?thesis
      using step "1.prems"(1) "1.IH" [OF n [unfolded NextOk]] ok by (auto simp: Let_def drop_then_eq_Some split: if_splits)
  qed (use "1.prems" step in \<open>auto simp: drop_then_eq_Some\<close>)
qed

lemma await_result_Ok:
  "await m (\<lambda>r. case r of Err e \<Rightarrow> ret (Nfs3Err e (f e)) | Ok x \<Rightarrow> g x) s = Some (Nfs3Ok y, s') \<longleftrightarrow>
   (\<exists>x s1. m s = Some (Ok x, s1) \<and> g x s1 = Some (Nfs3Ok y, s'))"
  by (auto simp: await_eq_Some split: sum.splits) (metis sum.exhaust)

definition readdir_reply :: "fattr3 option \<Rightarrow> entry3 list \<Rightarrow> bool \<Rightarrow> READDIR3resok" where
  "readdir_reply da es e = \<lparr> READDIR3resok.dir_attributes = da, READDIR3resok.cookieverf = cookieverf_from_attr da,
     READDIR3resok.reply = \<lparr> dirlist3.entries = es, dirlist3.eof = e \<rparr> \<rparr>"

lemma readdir_Ok:
  assumes "nfsproc3_readdir ctx x args s = Some (Nfs3Ok r, s')"
  obtains dirid da s1 s2 it l is_eof
  where "fh_from_nfs (vfs_handle (vfs ctx)) (file_handle_converter ctx) (READDIR3args.dir args) = Ok dirid"
    "vfs_getattr (vfs ctx) dirid s = Some (da, s1)"
    "packed_size u32_codec x + packed_size READDIR3resok_codec (readdir_reply (nfs_option_from_result da) [] False)
       \<le> unat (READDIR3args.count args)"
    "vfs_readdir (vfs ctx) dirid (READDIR3args.cookie args) s1 = Some (Ok it, s2)"
    "readdir_loop ctx (bounded_list_new entry3_codec (unat (READDIR3args.count args) -
       (packed_size u32_codec x + packed_size READDIR3resok_codec (readdir_reply (nfs_option_from_result da) [] False))))
       it s2 = Some (Ok (l, is_eof), s')"
    "r = readdir_reply (nfs_option_from_result da) (bl_list l) is_eof" "bl_list l \<noteq> [] \<or> is_eof"
proof -
  obtain dirid da s1 where d:
    "fh_from_nfs (vfs_handle (vfs ctx)) (file_handle_converter ctx) (READDIR3args.dir args) = Ok dirid"
    "vfs_getattr (vfs ctx) dirid s = Some (da, s1)"
    using assms by (auto simp: nfsproc3_readdir_def fh_to_id_def Let_def await_eq_Some split: sum.splits)
  have run: "nfsproc3_readdir ctx x args s = Some (Nfs3Ok r, s')" by (rule assms)
  show ?thesis
    using that d run
    unfolding nfsproc3_readdir_def fh_to_id_def Let_def readdir_reply_def d(1) sum.case
    by (simp add: await_def [of "vfs_getattr (vfs ctx) dirid"] await_result_Ok split: if_splits)
       (auto simp: bounded_list_into_inner_def not_less split: if_splits)
qed

definition readdirplus_reply :: "fattr3 option \<Rightarrow> entryplus3 list \<Rightarrow> bool \<Rightarrow> READDIRPLUS3resok" where
  "readdirplus_reply da es e = \<lparr> READDIRPLUS3resok.dir_attributes = da,
     READDIRPLUS3resok.cookieverf = cookieverf_from_attr da,
     READDIRPLUS3resok.reply = \<lparr> dirlistplus3.entries = es, dirlistplus3.eof = e \<rparr> \<rparr>"

lemma readdirplus_Ok:
  assumes "nfsproc3_readdirplus ctx x args s = Some (Nfs3Ok r, s')"
  obtains dirid da s1 s2 it l is_eof
  where "fh_from_nfs (vfs_handle (vfs ctx)) (file_handle_converter ctx) (READDIRPLUS3args.dir args) = Ok dirid"
    "vfs_getattr (vfs ctx) dirid s = Some (da, s1)" "128 \<le> READDIRPLUS3args.maxcount args"
    "vfs_readdirplus (vfs ctx) dirid (READDIRPLUS3args.cookie args) s1 = Some (Ok it, s2)"
    "readdirplus_loop ctx (bounded_entry_plus_new (unat (READDIRPLUS3args.dircount args))
       (unat (READDIRPLUS3args.maxcount args) - 128)) it s2 = Some (Ok (l, is_eof), s')"
    "r = readdirplus_reply (nfs_option_from_result da) (bl_list (bounded_entries l)) is_eof"
    "bl_list (bounded_entries l) \<noteq> [] \<or> is_eof"
proof -
  obtain dirid da s1 where d:
    "fh_from_nfs (vfs_handle (vfs ctx)) (file_handle_converter ctx) (READDIRPLUS3args.dir args) = Ok dirid"
    "vfs_getattr (vfs ctx) dirid s = Some (da, s1)" "128 \<le> READDIRPLUS3args.maxcount args"
    using assms by (auto simp: nfsproc3_readdirplus_def fh_to_id_def Let_def await_eq_Some not_less
        split: sum.splits if_splits)
  have run: "nfsproc3_readdirplus ctx x args s = Some (Nfs3Ok r, s')" by (rule assms)
  show ?thesis
    using that d run
    unfolding nfsproc3_readdirplus_def fh_to_id_def Let_def readdirplus_reply_def d(1) sum.case
    by (simp add: await_def [of "vfs_getattr (vfs ctx) dirid"] await_result_Ok not_less [symmetric])
       (auto simp: bounded_list_into_inner_def not_less split: if_splits)
qed

lemma readdir_reply_size:
  "packed_size READDIR3resok_codec (readdir_reply da es e) =
   packed_size READDIR3resok_codec (readdir_reply da [] False) - 4 + list_packed_size entry3_codec es"
  by (simp add: readdir_reply_def READDIR3resok_codec_def dirlist3_codec_def fields_codec_def list_codec_def bool_codec_def)

lemma readdir_reply_sel [simp]:
  "dirlist3.entries (READDIR3resok.reply (readdir_reply da es e)) = es"
  "dirlist3.eof (READDIR3resok.reply (readdir_reply da es e)) = e"
  by (simp_all add: readdir_reply_def)

lemma readdir_reply_min: "4 \<le> packed_size READDIR3resok_codec (readdir_reply da es e)"
  by (simp add: readdir_reply_def READDIR3resok_codec_def dirlist3_codec_def fields_codec_def bool_codec_def)

lemma readdir_size:
  assumes "nfsproc3_readdir ctx x a s = Some (Nfs3Ok r, s')"
  shows "packed_size READDIR3res_codec (Nfs3Ok r) \<le> unat (READDIR3args.count a) \<and>
    (dirlist3.entries (READDIR3resok.reply r) \<noteq> [] \<or> dirlist3.eof (READDIR3resok.reply r))"
  using assms
proof (rule readdir_Ok)
  fix dirid da s1 s2 it l is_eof
  let ?empty = "packed_size u32_codec x + packed_size READDIR3resok_codec (readdir_reply (nfs_option_from_result da) [] False)"
  assume "?empty \<le> unat (READDIR3args.count a)"
    "readdir_loop ctx (bounded_list_new entry3_codec (unat (READDIR3args.count a) - ?empty)) it s2 =
      Some (Ok (l, is_eof), s')"
    "r = readdir_reply (nfs_option_from_result da) (bl_list l) is_eof" "bl_list l \<noteq> [] \<or> is_eof"
  moreover from readdir_loop_bounded [OF this(2)]
  have "bounded_list_ok entry3_codec l" "max_size l = unat (READDIR3args.count a) - ?empty"
    by (simp_all add: bounded_list_new_ok) (simp add: bounded_list_new_def)
  ultimately show ?thesis
    using readdir_reply_size [of "nfs_option_from_result da" "bl_list l" is_eof]
      readdir_reply_min [of "nfs_option_from_result da" "[]" False]
    by (cases "bl_list l = []")
       (auto simp: bounded_list_ok_def READDIR3res_codec_def nfs3_result_codec_def u32_codec_def)
qed

text \<open>
  C13: the result of READDIR, as encoded, is no longer than the client's \<^verbatim>\<open>count\<close>, and it has an
  entry unless it ends the listing.
\<close>

theorem readdir_fits:
  assumes "nfsproc3_readdir ctx x args s = Some (Nfs3Ok r, s')"
  shows "packed_size READDIR3res_codec (Nfs3Ok r) \<le> unat (READDIR3args.count args) \<and>
    (dirlist3.entries (READDIR3resok.reply r) \<noteq> [] \<or> dirlist3.eof (READDIR3resok.reply r))"
  using assms by (rule readdir_size)

lemma readdirplus_reply_sel [simp]:
  "dirlistplus3.entries (READDIRPLUS3resok.reply (readdirplus_reply da es e)) = es"
  "dirlistplus3.eof (READDIRPLUS3resok.reply (readdirplus_reply da es e)) = e"
  by (simp_all add: readdirplus_reply_def)

lemma readdirplus_reply_size:
  "packed_size READDIRPLUS3res_codec (Nfs3Ok (readdirplus_reply da es e)) \<le>
   104 + list_packed_size entryplus3_codec es"
  by (cases da) (simp_all add: readdirplus_reply_def READDIRPLUS3res_codec_def nfs3_result_codec_def
      READDIRPLUS3resok_codec_def dirlistplus3_codec_def fields_codec_def list_codec_def bool_codec_def
      nfs3_option_codec_def cookieverf3_codec_def complex_enum_codec_def field_payload_def unit_payload_def)

text \<open>
  C33: the result of READDIRPLUS, as encoded, is no longer than the client's \<^verbatim>\<open>maxcount\<close>, and the
  names and cookies in it are within its \<^verbatim>\<open>dircount\<close>.
\<close>

theorem readdirplus_fits:
  assumes "nfsproc3_readdirplus ctx x args s = Some (Nfs3Ok r, s')"
  shows "packed_size READDIRPLUS3res_codec (Nfs3Ok r) \<le> unat (READDIRPLUS3args.maxcount args) \<and>
    sum_list (map added_dircount (dirlistplus3.entries (READDIRPLUS3resok.reply r)))
      \<le> unat (READDIRPLUS3args.dircount args) \<and>
    (dirlistplus3.entries (READDIRPLUS3resok.reply r) \<noteq> [] \<or> dirlistplus3.eof (READDIRPLUS3resok.reply r))"
  using assms
proof (rule readdirplus_Ok)
  fix dirid da s1 s2 it l is_eof
  assume mc: "128 \<le> READDIRPLUS3args.maxcount args"
    and loop: "readdirplus_loop ctx (bounded_entry_plus_new (unat (READDIRPLUS3args.dircount args))
       (unat (READDIRPLUS3args.maxcount args) - 128)) it s2 = Some (Ok (l, is_eof), s')"
    and r: "r = readdirplus_reply (nfs_option_from_result da) (bl_list (bounded_entries l)) is_eof"
    and some: "bl_list (bounded_entries l) \<noteq> [] \<or> is_eof"
  from mc have mc: "128 \<le> unat (READDIRPLUS3args.maxcount args)" by (simp add: word_le_nat_alt)
  from readdirplus_loop_bounded [OF loop]
  have l: "entry_plus_ok l" "max_size (bounded_entries l) = unat (READDIRPLUS3args.maxcount args) - 128"
    "dircount l = unat (READDIRPLUS3args.dircount args)"
    by (simp_all only: bounded_entry_plus_new_ok simp_thms)
       (simp_all add: bounded_entry_plus_new_def bounded_list_new_def)
  have "list_packed_size entryplus3_codec (bl_list (bounded_entries l)) + 104 \<le> unat (READDIRPLUS3args.maxcount args)"
    using l mc by (cases "bl_list (bounded_entries l) = []") (auto simp: entry_plus_ok_def bounded_list_ok_def)
  then show ?thesis
    using l r some readdirplus_reply_size [of "nfs_option_from_result da" "bl_list (bounded_entries l)" is_eof]
    by (simp add: entry_plus_ok_def)
qed

section \<open>What a listing holds\<close>

text \<open>
  An iterator that yields the entries of a list, one after the other, and then ends.
\<close>

locale dir_stream =
  fixes next_entry :: "'it \<Rightarrow> ('s, 'e NextResult \<times> 'it) prog" and stream :: "'s \<Rightarrow> 'it \<Rightarrow> 'e list"
  assumes next_eof: "stream s it = [] \<Longrightarrow> \<exists>it'. next_entry it s = Some ((NextEof, it'), s)"
    and next_ok: "stream s it = e # es \<Longrightarrow> \<exists>it'. next_entry it s = Some ((NextOk e, it'), s) \<and> stream s it' = es"

locale readdir_stream = dir_stream "vfs_readdir_next (vfs ctx)" stream
  for ctx :: "('s, 'h, 'i, 'p) RPCContext" and stream :: "'s \<Rightarrow> 'i \<Rightarrow> entry3 list" +
  assumes drop_nothing: "vfs_readdir_drop (vfs ctx) it = ret ()"
begin

text \<open>The loop collects a prefix, all of it exactly when it reports the end.\<close>

lemma readdir_loop_prefix:
  "\<exists>k l'. readdir_loop ctx l it s = Some (Ok (l', k = length (stream s it)), s) \<and> k \<le> length (stream s it) \<and>
     bl_list l' = bl_list l @ take k (stream s it)"
proof (induction "stream s it" arbitrary: l it)
  case Nil
  with next_eof obtain it' where n: "vfs_readdir_next (vfs ctx) it s = Some ((NextEof, it'), s)" by metis
  show ?case using readdir_loop_step [OF n, of l] Nil by (intro exI [of _ 0]) (simp add: drop_nothing)
next
  case (Cons e es)
  from next_ok [OF Cons.hyps(2) [symmetric]] obtain it'
    where n: "vfs_readdir_next (vfs ctx) it s = Some ((NextOk e, it'), s)" and it': "stream s it' = es" by blast
  let ?p = "try_push entry3_codec e l"
  show ?case
  proof (cases "is_ok (fst ?p)")
    case True
    from Cons.hyps(1) [OF it' [symmetric], of "snd ?p"] obtain k l'
      where k: "readdir_loop ctx (snd ?p) it' s = Some (Ok (l', k = length es), s)" "k \<le> length es"
        "bl_list l' = bl_list (snd ?p) @ take k es" unfolding it' by blast
    show ?thesis unfolding Cons.hyps(2) [symmetric]
      by (rule exI [of _ "Suc k"])
         (use readdir_loop_step [OF n, of l] True k try_push_list [of entry3_codec e l] in \<open>simp add: Let_def drop_nothing\<close>)
  next
    case False
    show ?thesis unfolding Cons.hyps(2) [symmetric]
      by (rule exI [of _ 0])
         (use readdir_loop_step [OF n, of l] False try_push_list [of entry3_codec e l] in \<open>simp add: Let_def drop_nothing\<close>)
  qed
qed

end

locale readdirplus_stream = dir_stream "vfs_readdirplus_next (vfs ctx)" stream
  for ctx :: "('s, 'h, 'i, 'p) RPCContext" and stream :: "'s \<Rightarrow> 'p \<Rightarrow> 'h DirEntryPlus list" +
  assumes drop_nothing: "vfs_readdirplus_drop (vfs ctx) it = ret ()"
begin

abbreviation wire :: "'h DirEntryPlus \<Rightarrow> entryplus3" where
  "wire \<equiv> into_entry (vfs_handle (vfs ctx)) (file_handle_converter ctx)"

lemma readdirplus_loop_prefix:
  "\<exists>k l'. readdirplus_loop ctx l it s = Some (Ok (l', k = length (stream s it)), s) \<and> k \<le> length (stream s it) \<and>
     bl_list (bounded_entries l') = bl_list (bounded_entries l) @ map wire (take k (stream s it))"
proof (induction "stream s it" arbitrary: l it)
  case Nil
  with next_eof obtain it' where n: "vfs_readdirplus_next (vfs ctx) it s = Some ((NextEof, it'), s)" by metis
  show ?case using readdirplus_loop_step [OF n, of l] Nil by (intro exI [of _ 0]) (simp add: drop_nothing)
next
  case (Cons e es)
  from next_ok [OF Cons.hyps(2) [symmetric]] obtain it'
    where n: "vfs_readdirplus_next (vfs ctx) it s = Some ((NextOk e, it'), s)" and it': "stream s it' = es" by blast
  let ?p = "entry_plus_try_push (wire e) l"
  show ?case
  proof (cases "is_ok (fst ?p)")
    case True
    from Cons.hyps(1) [OF it' [symmetric], of "snd ?p"] obtain k l'
      where k: "readdirplus_loop ctx (snd ?p) it' s = Some (Ok (l', k = length es), s)" "k \<le> length es"
        "bl_list (bounded_entries l') = bl_list (bounded_entries (snd ?p)) @ map wire (take k es)" unfolding it' by blast
    show ?thesis unfolding Cons.hyps(2) [symmetric]
      by (rule exI [of _ "Suc k"])
         (use readdirplus_loop_step [OF n, of l] True k entry_plus_try_push_list [of "wire e" l] in \<open>simp add: Let_def drop_nothing\<close>)
  next
    case False
    show ?thesis unfolding Cons.hyps(2) [symmetric]
      by (rule exI [of _ 0])
         (use readdirplus_loop_step [OF n, of l] False entry_plus_try_push_list [of "wire e" l] in \<open>simp add: Let_def drop_nothing\<close>)
  qed
qed

end

section \<open>Guards of the modifying procedures\<close>

text \<open>
  SETATTR with a guard time that is not the object's \<^verbatim>\<open>ctime\<close> is refused with
  \<^verbatim>\<open>NFS3ERR_NOT_SYNC\<close> and the file system's \<^verbatim>\<open>setattr\<close> is not called; a matching guard, or
  none, lets it through, and the reply tells the attributes before and after.
\<close>

theorem setattr_guard:
  assumes "fh_from_nfs (vfs_handle (vfs ctx)) (file_handle_converter ctx) (SETATTR3args.object args) = Ok h"
    and "vfs_capabilities (vfs ctx) s = ReadWrite" "vfs_getattr (vfs ctx) h s = Some (Ok a, s1)"
  defines "pre \<equiv> \<lparr> wcc_attr.size = fattr3.size a, wcc_attr.mtime = fattr3.mtime a, wcc_attr.ctime = fattr3.ctime a \<rparr>"
  shows "nfsproc3_setattr ctx x args s =
    (if SETATTR3args.guard args \<notin> {None, Some (fattr3.ctime a)}
     then Some (Nfs3Err NFS3ERR_NOT_SYNC
       \<lparr> SETATTR3resfail.obj_wcc = \<lparr> wcc_data.before = Some pre, wcc_data.after = None \<rparr> \<rparr>, s1)
     else case vfs_setattr (vfs ctx) h (SETATTR3args.new_attributes args) s1 of
       None \<Rightarrow> None
     | Some (Ok a', s2) \<Rightarrow> Some (Nfs3Ok
         \<lparr> SETATTR3resok.obj_wcc = \<lparr> wcc_data.before = Some pre, wcc_data.after = Some a' \<rparr> \<rparr>, s2)
     | Some (Err stat, s2) \<Rightarrow> Some (Nfs3Err stat
         \<lparr> SETATTR3resfail.obj_wcc = \<lparr> wcc_data.before = Some pre, wcc_data.after = None \<rparr> \<rparr>, s2))"
  using assms
  by (auto simp: nfsproc3_setattr_def require_write_def fh_to_id_def get_wcc_attr_def await_def ret_def pre_def Let_def
      split: option.splits sum.splits)

text \<open>
  A GUARDED create of a name that the file system finds is refused with \<^verbatim>\<open>NFS3ERR_EXIST\<close>,
  without a call of its \<^verbatim>\<open>create\<close>.
\<close>

theorem guarded_create_exists:
  assumes "fh_from_nfs (vfs_handle (vfs ctx)) (file_handle_converter ctx) (diropargs3.dir (CREATE3args.where' args)) = Ok h"
    and "vfs_capabilities (vfs ctx) s = ReadWrite" "CREATE3args.how args = GUARDED sa"
    and "vfs_getattr (vfs ctx) h s = Some (Ok a, s)"
    and "vfs_lookup (vfs ctx) h (diropargs3.name (CREATE3args.where' args)) s = Some (Ok i, s)"
  shows "\<exists>wcc. nfsproc3_create ctx x args s = Some (Nfs3Err NFS3ERR_EXIST \<lparr> CREATE3resfail.dir_wcc = wcc \<rparr>, s)"
  using assms
  by (simp add: nfsproc3_create_def require_write_def fh_to_id_def get_wcc_attr_def await_def ret_def Let_def)

end
