(* ===== verification/Memfs_Server.thy ===== *)
theory Memfs_Server
  imports Mem_Fs_Props Nfs_Handlers_Props
begin

text \<open>
  The NFSv3 procedures over the in-memory file system: the interpretations of the interfaces
  of \<open>Nfs_Handlers_Props\<close> on it, and what they give for the two together.
\<close>

section \<open>The invariant\<close>

definition memfs_present :: "FileHandleU64 \<Rightarrow> MemFs \<Rightarrow> bool" where
  "memfs_present h m \<longleftrightarrow> Fs.entries (fs m) h \<noteq> None"

definition proper_name :: "filename3 \<Rightarrow> bool" where
  "proper_name nm \<longleftrightarrow> nm \<noteq> DOT \<and> nm \<noteq> DOTDOT"

lemma memfs_vfs_invariant:
  assumes ord: "permuting (fst env)"
  shows "vfs_invariant (ctx\<lparr> vfs := memfs env \<rparr>) memfs_ok memfs_present proper_name"
  unfolding vfs_invariant_def
proof (intro conjI allI impI)
  show "pure_reads (vfs (ctx\<lparr> vfs := memfs env \<rparr>))"
    using memfs.pure_reads_axioms by simp
  show "memfs_ok m \<Longrightarrow> vfs_getattr (vfs (ctx\<lparr> vfs := memfs env \<rparr>)) h m = Some (Ok a, m) \<Longrightarrow> memfs_present h m" for m h a
    by (auto simp: memfs_def memfs_getattr_def read_fs_def memfs_present_def result_simps)
  show "keeps memfs_ok (vfs_setattr (vfs (ctx\<lparr> vfs := memfs env \<rparr>)) h sa) memfs_ok" for h sa
    by (rule keepsI) (auto simp: memfs_def intro: memfs_setattr_keeps)
  show "keeps memfs_ok (vfs_write (vfs (ctx\<lparr> vfs := memfs env \<rparr>)) h off bs) memfs_ok" if "length bs < 2 ^ 32" for bs h off
  proof (rule keepsI)
    have "length bs < 2 ^ 63" using that by simp
    then show "memfs_ok m \<Longrightarrow> vfs_write (vfs (ctx\<lparr> vfs := memfs env \<rparr>)) h off bs m = Some (x, m') \<Longrightarrow> memfs_ok m'" for m x m'
      using memfs_write_keeps by (simp add: memfs_def)
  qed
  show "keeps memfs_ok (vfs_create (vfs (ctx\<lparr> vfs := memfs env \<rparr>)) h nm sa) memfs_ok" for h nm sa
    by (rule keepsI) (use ord in \<open>auto simp: memfs_def intro: memfs_add_file_keeps [where bs = "[]"]\<close>)
  show "keeps memfs_ok (vfs_create_exclusive (vfs (ctx\<lparr> vfs := memfs env \<rparr>)) h nm cv) memfs_ok" for h nm cv
    by (rule keepsI) (use ord in \<open>auto simp: memfs_def intro: memfs_create_exclusive_keeps\<close>)
  show "keeps (\<lambda>s. memfs_ok s \<and> memfs_present h s) (vfs_mkdir (vfs (ctx\<lparr> vfs := memfs env \<rparr>)) h nm) memfs_ok" for h nm
  proof (rule keepsI)
    fix m x m' assume "memfs_ok m \<and> memfs_present h m" "vfs_mkdir (vfs (ctx\<lparr> vfs := memfs env \<rparr>)) h nm m = Some (x, m')"
    then show "memfs_ok m'"
      using returns_okD [OF memfs_add_dir_ok, of m env h nm x m'] ord by (auto simp: memfs_def memfs_present_def)
  qed
  show "keeps memfs_ok (vfs_remove (vfs (ctx\<lparr> vfs := memfs env \<rparr>)) h nm) memfs_ok" for h nm
    by (rule keepsI) (use ord returns_okD [OF memfs_remove_ok] in simp)
  show "keeps (\<lambda>s. memfs_ok s \<and> memfs_present fd s \<and> memfs_present td s)
      (vfs_rename (vfs (ctx\<lparr> vfs := memfs env \<rparr>)) fd fn td tn) memfs_ok" if "proper_name fn" for fn fd td tn
    by (rule keepsI) (use that ord returns_okD [OF memfs_rename_ok] in
      \<open>(simp add: proper_name_def memfs_present_def, blast)\<close>)
  show "keeps (\<lambda>s. memfs_ok s \<and> memfs_present h s) (vfs_symlink (vfs (ctx\<lparr> vfs := memfs env \<rparr>)) h nm path sa) memfs_ok"
    for h nm path sa
    by (rule keepsI) (simp add: memfs_def)
qed

interpretation memfs_server: vfs_invariant "ctx\<lparr> vfs := memfs (\<lambda>xs. xs, now) \<rparr>" memfs_ok memfs_present proper_name
  for ctx now
  by (rule memfs_vfs_invariant) (simp add: permuting_def)

section \<open>Directory listings\<close>

text \<open>What an iterator still yields: the entries that are left and exist.\<close>

definition iter_left :: "Fs \<Rightarrow> MemFsIterator \<Rightarrow> FileHandleU64 list" where
  "iter_left t it = filter (\<lambda>i. Fs.entries t i \<noteq> None) (drop (iter_index it) (iter_entries it))"

lemma visit_next_entry_left:
  "case iter_left t it of
     [] \<Rightarrow> \<exists>it'. visit_next_entry f t it = (NextEof, it')
   | i # is \<Rightarrow> \<exists>it'. visit_next_entry f t it = (NextOk (f i (the (Fs.entries t i))), it') \<and> iter_left t it' = is"
proof (induction f t it rule: visit_next_entry.induct)
  case (1 f t it)
  show ?case
  proof (cases "iter_index it \<ge> length (iter_entries it)")
    case True
    then show ?thesis by (subst (1 2) visit_next_entry.simps) (simp add: iter_left_def)
  next
    case False
    let ?i = "iter_entries it ! iter_index it" and ?it = "it\<lparr> iter_index := Suc (iter_index it) \<rparr>"
    have left: "iter_left t it = (if Fs.entries t ?i = None then iter_left t ?it else ?i # iter_left t ?it)"
      using False by (auto simp: iter_left_def Cons_nth_drop_Suc [symmetric])
    have step: "visit_next_entry f t it = (case Fs.entries t ?i of
        None \<Rightarrow> visit_next_entry f t ?it | Some e \<Rightarrow> (NextOk (f ?i e), ?it))"
      using False by (subst visit_next_entry.simps) (simp add: Let_def)
    show ?thesis
      using 1 [OF False refl refl, unfolded Suc_eq_plus1 [symmetric]] left step by (cases "Fs.entries t ?i") (auto split: list.splits)
  qed
qed

interpretation memfs_readdir: readdir_stream "ctx\<lparr> vfs := memfs env \<rparr>"
  "\<lambda>m it. map (\<lambda>i. dir_entry i (the (Fs.entries (fs m) i))) (iter_left (fs m) it)" for ctx env
proof unfold_locales
  fix m :: MemFs and it assume "map (\<lambda>i. dir_entry i (the (Fs.entries (fs m) i))) (iter_left (fs m) it) = []"
  then show "\<exists>it'. vfs_readdir_next (vfs (ctx\<lparr> vfs := memfs env \<rparr>)) it m = Some ((NextEof, it'), m)"
    using visit_next_entry_left [where t = "fs m" and it = it and f = dir_entry] by (auto simp: memfs_def read_fs_def)
next
  fix m :: MemFs and it e es assume "map (\<lambda>i. dir_entry i (the (Fs.entries (fs m) i))) (iter_left (fs m) it) = e # es"
  then show "\<exists>it'. vfs_readdir_next (vfs (ctx\<lparr> vfs := memfs env \<rparr>)) it m = Some ((NextOk e, it'), m) \<and>
      map (\<lambda>i. dir_entry i (the (Fs.entries (fs m) i))) (iter_left (fs m) it') = es"
    using visit_next_entry_left [where t = "fs m" and it = it and f = dir_entry] by (auto simp: memfs_def read_fs_def)
qed (simp add: memfs_def)

interpretation memfs_readdirplus: readdirplus_stream "ctx\<lparr> vfs := memfs env \<rparr>"
  "\<lambda>m it. map (\<lambda>i. dir_entry_plus i (the (Fs.entries (fs m) i))) (iter_left (fs m) it)" for ctx env
proof unfold_locales
  fix m :: MemFs and it assume "map (\<lambda>i. dir_entry_plus i (the (Fs.entries (fs m) i))) (iter_left (fs m) it) = []"
  then show "\<exists>it'. vfs_readdirplus_next (vfs (ctx\<lparr> vfs := memfs env \<rparr>)) it m = Some ((NextEof, it'), m)"
    using visit_next_entry_left [where t = "fs m" and it = it and f = dir_entry_plus] by (auto simp: memfs_def read_fs_def)
next
  fix m :: MemFs and it e es assume "map (\<lambda>i. dir_entry_plus i (the (Fs.entries (fs m) i))) (iter_left (fs m) it) = e # es"
  then show "\<exists>it'. vfs_readdirplus_next (vfs (ctx\<lparr> vfs := memfs env \<rparr>)) it m = Some ((NextOk e, it'), m) \<and>
      map (\<lambda>i. dir_entry_plus i (the (Fs.entries (fs m) i))) (iter_left (fs m) it') = es"
    using visit_next_entry_left [where t = "fs m" and it = it and f = dir_entry_plus] by (auto simp: memfs_def read_fs_def)
qed (simp add: memfs_def)

lemma skip_to_last:
  "distinct (pre @ rest) \<Longrightarrow> pre \<noteq> [] \<Longrightarrow> skip_to (last pre) (pre @ rest) = Some rest"
  by (induction pre) auto

text \<open>The entries of a directory that come after a cookie; \<open>pre\<close> are those before it.\<close>

definition after_cookie :: "FileHandleU64 list \<Rightarrow> cookie3 \<Rightarrow> FileHandleU64 list \<Rightarrow> bool" where
  "after_cookie cs c rest \<longleftrightarrow>
     (\<exists>pre. cs = pre @ rest \<and> (if c = 0 then pre = [] else pre \<noteq> [] \<and> last pre = c))"

lemma after_cookie_next:
  assumes "after_cookie cs c rest" "0 < k" "k \<le> length rest" "0 \<notin> set cs"
  shows "after_cookie cs (last (take k rest)) (drop k rest)"
proof -
  obtain pre where pre: "cs = pre @ rest" using assms(1) by (auto simp: after_cookie_def)
  have ne: "take k rest \<noteq> []" using assms(2,3) by auto
  then have "last (take k rest) \<in> set rest" using last_in_set [OF ne] set_take_subset [of k rest] by blast
  then have "last (take k rest) \<noteq> 0" using assms(4) pre by auto
  moreover have "cs = (pre @ take k rest) @ drop k rest" by (simp add: pre)
  ultimately show ?thesis unfolding after_cookie_def using ne by (intro exI [of _ "pre @ take k rest"]) simp
qed

lemma make_iter_after:
  assumes "Fs.entries t d = Some (EDir dd)" "distinct (Dir.content dd)" "after_cookie (Dir.content dd) c rest"
  shows "make_iter d c t = Ok \<lparr> iter_entries = rest, iter_index = 0 \<rparr>"
  using assms skip_to_last by (auto simp: make_iter_def after_cookie_def split: if_splits)

definition listed :: "MemFs \<Rightarrow> FileHandleU64 list \<Rightarrow> entry3 list" where
  "listed m is = map (\<lambda>i. dir_entry i (the (Fs.entries (fs m) i))) is"

lemma iter_left_content:
  assumes "fs_ok t" "Fs.entries t d = Some (EDir dd)" "after_cookie (Dir.content dd) c rest"
  shows "iter_left t \<lparr> iter_entries = rest, iter_index = 0 \<rparr> = rest"
proof -
  have "set rest \<subseteq> set (Dir.content dd)" using assms(3) by (auto simp: after_cookie_def)
  then show ?thesis using content_present [OF assms(1,2)] by (auto simp: iter_left_def filter_id_conv)
qed

lemma memfs_readdir_reply:
  assumes m: "memfs_ok m" and d: "Fs.entries (fs m) d = Some (EDir dd)"
    and fh: "fh_from_nfs FileHandleU64_ops (file_handle_converter ctx) (READDIR3args.dir args) = Ok d"
    and rest: "after_cookie (Dir.content dd) (READDIR3args.cookie args) rest"
    and run: "nfsproc3_readdir (ctx\<lparr> vfs := memfs env \<rparr>) x args m = Some (Nfs3Ok r, m')"
  shows "m' = m \<and> (\<exists>k \<le> length rest. dirlist3.entries (READDIR3resok.reply r) = listed m (take k rest) \<and>
    dirlist3.eof (READDIR3resok.reply r) = (k = length rest) \<and> (k = 0 \<longrightarrow> rest = []))"
  using run
proof (rule readdir_Ok)
  let ?ctx = "ctx\<lparr> vfs := memfs env \<rparr>" and ?it = "\<lparr> iter_entries = rest, iter_index = 0 \<rparr>"
  fix dirid da s1 s2 it l is_eof mx
  assume "fh_from_nfs (vfs_handle (vfs ?ctx)) (file_handle_converter ?ctx) (READDIR3args.dir args) = Ok dirid"
    and ga: "vfs_getattr (vfs ?ctx) dirid m = Some (da, s1)"
    and it: "vfs_readdir (vfs ?ctx) dirid (READDIR3args.cookie args) s1 = Some (Ok it, s2)"
    and loop: "readdir_loop ?ctx (bounded_list_new entry3_codec mx) it s2 = Some (Ok (l, is_eof), m')"
    and r: "r = readdir_reply (nfs_option_from_result da) (bl_list l) is_eof" "bl_list l \<noteq> [] \<or> is_eof"
  then have "dirid = d" using fh by (simp add: memfs_def)
  have t: "fs_ok (fs m)" using m by (simp add: memfs_ok_def)
  have "distinct (Dir.content dd)" using fs_ok_entry [OF t d] by simp
  note mk = make_iter_after [OF d this rest]
  have s: "s1 = m" "s2 = m" "it = ?it"
    using ga it mk \<open>dirid = d\<close> by (auto simp: memfs_def memfs_getattr_def read_fs_def)
  from memfs_readdir.readdir_loop_prefix [where ctx = ctx and env = env and l = "bounded_list_new entry3_codec mx" and it = ?it and s = m] loop
  show ?thesis
    using iter_left_content [OF t d rest] r s
    by (auto simp: listed_def bounded_list_new_def take_map)
qed

text \<open>
  The pages a client reads: each call goes on after the last cookie of the page before, with any
  transaction id and any limit, until the server reports the end.
\<close>

inductive readdir_pages ::
  "('s, 'h, 'i, 'p) RPCContext \<Rightarrow> nfs_fh3 \<Rightarrow> 's \<Rightarrow> cookie3 \<Rightarrow> entry3 list \<Rightarrow> bool" for ctx fh where
  last_page: "nfsproc3_readdir ctx x args s = Some (Nfs3Ok r, s') \<Longrightarrow>
    READDIR3args.dir args = fh \<Longrightarrow> READDIR3args.cookie args = c \<Longrightarrow>
    dirlist3.eof (READDIR3resok.reply r) \<Longrightarrow>
    readdir_pages ctx fh s c (dirlist3.entries (READDIR3resok.reply r))"
| next_page: "nfsproc3_readdir ctx x args s = Some (Nfs3Ok r, s') \<Longrightarrow>
    READDIR3args.dir args = fh \<Longrightarrow> READDIR3args.cookie args = c \<Longrightarrow>
    \<not> dirlist3.eof (READDIR3resok.reply r) \<Longrightarrow>
    readdir_pages ctx fh s' (entry3.cookie (last (dirlist3.entries (READDIR3resok.reply r)))) es \<Longrightarrow>
    readdir_pages ctx fh s c (dirlist3.entries (READDIR3resok.reply r) @ es)"

lemma listed_append: "listed m (is @ js) = listed m is @ listed m js"
  by (simp add: listed_def)

lemma listed_last_cookie: "is \<noteq> [] \<Longrightarrow> entry3.cookie (last (listed m is)) = last is"
  by (simp add: listed_def last_map dir_entry_def)

lemma readdir_pages_rest:
  assumes "readdir_pages (ctx\<lparr> vfs := memfs env \<rparr>) fh m c es"
    and "memfs_ok m" "Fs.entries (fs m) d = Some (EDir dd)" "0 \<notin> set (Dir.content dd)"
    and "fh_from_nfs FileHandleU64_ops (file_handle_converter ctx) fh = Ok d"
    and "after_cookie (Dir.content dd) c rest"
  shows "es = listed m rest"
  using assms
proof (induction arbitrary: rest rule: readdir_pages.induct)
  case (last_page x args m r m' c)
  then show ?case using memfs_readdir_reply [OF last_page.prems(1,2) _ _ last_page.hyps(1)] by fastforce
next
  case (next_page x args m r m' c es)
  note prems = next_page.prems
  obtain k where m': "m' = m" and k: "k \<le> length rest"
    "dirlist3.entries (READDIR3resok.reply r) = listed m (take k rest)" "k \<noteq> length rest" "k = 0 \<longrightarrow> rest = []"
    using memfs_readdir_reply [OF prems(1,2) _ _ next_page.hyps(1)] next_page.hyps(2-4) prems(4,5) by fastforce
  have k0: "0 < k" "take k rest \<noteq> []" using k by auto
  have "after_cookie (Dir.content dd) (last (take k rest)) (drop k rest)"
    by (rule after_cookie_next [OF prems(5) k0(1) k(1) prems(3)])
  then have "es = listed m (drop k rest)"
    using next_page.IH [of "drop k rest"] prems m' k(2) k0(2) by (simp add: listed_last_cookie)
  then show ?case by (simp add: k(2) listed_append [symmetric])
qed

section \<open>Properties\<close>

text \<open>
  C7: a client that reads a directory of the in-memory file system page by page, from cookie 0 to
  the end, with whatever limits it likes, gets every entry of the directory exactly once.
\<close>

theorem memfs_listing_complete:
  assumes "memfs_ok m" "Fs.entries (fs m) d = Some (EDir dd)" "0 \<notin> set (Dir.content dd)"
    "fh_from_nfs FileHandleU64_ops (file_handle_converter ctx) fh = Ok d"
    "readdir_pages (ctx\<lparr> vfs := memfs env \<rparr>) fh m 0 es"
  shows "es = listed m (Dir.content dd) \<and> distinct (map entry3.fileid es) \<and>
    set (map entry3.fileid es) = set (Dir.content dd)"
proof -
  have "after_cookie (Dir.content dd) 0 (Dir.content dd)" by (simp add: after_cookie_def)
  from readdir_pages_rest [OF assms(5,1,2,3,4) this] have es: "es = listed m (Dir.content dd)" .
  have "fs_ok (fs m)" using assms(1) by (simp add: memfs_ok_def)
  from fs_ok_entry [OF this assms(2)] have "distinct (Dir.content dd)" by simp
  then show ?thesis by (simp add: es listed_def dir_entry_def o_def)
qed

text \<open>The tree stays well formed, as long as nobody renames \<^verbatim>\<open>.\<close> or \<^verbatim>\<open>..\<close>.\<close>

lemma handle_nfs_keeps_memfs:
  assumes "permuting (fst env)" "memfs_ok m" "\<forall>nm. rename_source msg = Some nm \<longrightarrow> nm \<noteq> DOT \<and> nm \<noteq> DOTDOT"
    "handle_nfs (ctx\<lparr> vfs := memfs env \<rparr>) msg m = Some (r, m')"
  shows "memfs_ok m'"
proof -
  have "keeps memfs_ok (handle_nfs (ctx\<lparr> vfs := memfs env \<rparr>) msg) memfs_ok"
    by (rule vfs_invariant.keeps_handle_nfs [OF memfs_vfs_invariant [OF assms(1)]])
       (use assms(3) in \<open>simp add: proper_name_def\<close>)
  then show ?thesis using assms(2,4) by (rule keepsD)
qed

section \<open>Examples\<close>

definition example_ctx :: "(MemFs, FileHandleU64, MemFsIterator, MemFsIterator) RPCContext" where
  "example_ctx = \<lparr> local_port = 2049, client_addr = ''127.0.0.1:1000'',
     auth = \<lparr> auth_unix.stamp = 0, auth_unix.machinename = [], auth_unix.uid = 0, auth_unix.gid = 0, auth_unix.gids = [] \<rparr>,
     vfs = memfs example_env, mount_signal = False, export_name = [47],
     file_handle_converter = file_handle_converter_new 7 \<rparr>"

definition example_fh :: "FileHandleU64 \<Rightarrow> nfs_fh3" where
  "example_fh = fh_to_nfs FileHandleU64_ops (file_handle_converter_new 7)"

lemma example_ctx_vfs [simp]: "example_ctx\<lparr> vfs := memfs example_env \<rparr> = example_ctx"
  "vfs example_ctx = memfs example_env" "file_handle_converter example_ctx = file_handle_converter_new 7"
  by (simp_all add: example_ctx_def)

lemma example_fh_from [simp]:
  "fh_from_nfs FileHandleU64_ops (file_handle_converter_new 7) (example_fh i) = Ok i"
  unfolding example_fh_def by (rule FileHandleU64.fh_round_trip)

definition example_readdir :: READDIR3args where
  "example_readdir = \<lparr> READDIR3args.dir = example_fh 1, READDIR3args.cookie = 0,
     READDIR3args.cookieverf = NONE_COOKIE_VERF, READDIR3args.count = 4096 \<rparr>"

lemma example_readdir_reply:
  "\<exists>r. nfsproc3_readdir example_ctx 1 example_readdir example_memfs = Some (Nfs3Ok r, example_memfs) \<and>
     dirlist3.eof (READDIR3resok.reply r)"
  by (simp add: nfsproc3_readdir_def example_readdir_def fh_to_id_def memfs_def await_def ret_def read_fs_def
    memfs_getattr_def example_memfs_def Let_def cookieverf_is_none_def make_iter_def root_dir_def dir_new_def
    nfs_option_from_result_def READDIR3resok_codec_def dirlist3_codec_def fields_codec_def list_codec_def bool_codec_def
    nfs3_option_codec_def cookieverf3_codec_def complex_enum_codec_def field_payload_def unit_payload_def
    readdir_loop.simps visit_next_entry.simps dir_entry_def try_push_def bounded_list_new_def entry3_codec_def
    filename3_codec_def opaque_codec_def file_new_def bounded_list_into_inner_def
    add_padding_def get_padding_def)

theorem memfs_listing_complete_witness:
  "\<exists>es. readdir_pages example_ctx (example_fh 1) example_memfs 0 es \<and> map entry3.fileid es = [2] \<and>
     map entry3.name es = [[97]]"
proof -
  obtain r where r: "nfsproc3_readdir example_ctx 1 example_readdir example_memfs = Some (Nfs3Ok r, example_memfs)"
    "dirlist3.eof (READDIR3resok.reply r)" using example_readdir_reply by blast
  have p: "readdir_pages (example_ctx\<lparr> vfs := memfs example_env \<rparr>) (example_fh 1) example_memfs 0
      (dirlist3.entries (READDIR3resok.reply r))"
    unfolding example_ctx_vfs by (rule last_page [OF r(1)]) (simp_all add: example_readdir_def r(2))
  have d: "Fs.entries (fs example_memfs) 1 = Some (EDir ((root_dir example_now)\<lparr> Dir.content := [2] \<rparr>))"
    by (simp add: example_memfs_def)
  have "dirlist3.entries (READDIR3resok.reply r) = listed example_memfs [2]"
    using memfs_listing_complete [OF example_memfs_ok d _ _ p] by simp
  then show ?thesis
    using p by (auto simp: listed_def dir_entry_def example_memfs_def file_new_def)
qed

theorem read_only_server_witness:
  "nfsproc3_remove (example_ctx\<lparr> vfs := ReadOnlyAdapter (memfs example_env) \<rparr>) 5
     \<lparr> REMOVE3args.object = \<lparr> diropargs3.dir = example_fh 1, diropargs3.name = [97] \<rparr> \<rparr> example_memfs =
   Some (Nfs3Err NFS3ERR_ROFS \<lparr> REMOVE3resfail.dir_wcc = wcc_none \<rparr>, example_memfs)"
  using read_only_server [OF memfs.pure_reads_axioms [of example_env], where ctx = example_ctx and x = 5] by (simp add: ret_def)


theorem readdir_fits_witness:
  "\<exists>r. nfsproc3_readdir example_ctx 1 example_readdir example_memfs = Some (Nfs3Ok r, example_memfs) \<and>
     packed_size READDIR3res_codec (Nfs3Ok r) \<le> 4096"
proof -
  obtain r where r: "nfsproc3_readdir example_ctx 1 example_readdir example_memfs = Some (Nfs3Ok r, example_memfs)"
    using example_readdir_reply by blast
  from readdir_fits [OF r] r show ?thesis by (auto simp: example_readdir_def)
qed

lemma length_as_bytes [simp]: "length (as_bytes FileHandleU64_ops h) = 8"
  by (simp add: FileHandleU64_ops_def FileHandleU64_as_bytes_def)

definition example_readdirplus :: READDIRPLUS3args where
  "example_readdirplus = \<lparr> READDIRPLUS3args.dir = example_fh 1, READDIRPLUS3args.cookie = 0,
     READDIRPLUS3args.cookieverf = NONE_COOKIE_VERF, READDIRPLUS3args.dircount = 512, READDIRPLUS3args.maxcount = 4096 \<rparr>"

theorem readdirplus_fits_witness:
  "\<exists>r. nfsproc3_readdirplus example_ctx 1 example_readdirplus example_memfs = Some (Nfs3Ok r, example_memfs) \<and>
     packed_size READDIRPLUS3res_codec (Nfs3Ok r) \<le> 4096"
proof -
  have "\<exists>r. nfsproc3_readdirplus example_ctx 1 example_readdirplus example_memfs = Some (Nfs3Ok r, example_memfs)"
    by (simp add: nfsproc3_readdirplus_def example_readdirplus_def fh_to_id_def memfs_def await_def ret_def read_fs_def
      memfs_getattr_def example_memfs_def Let_def make_iter_def root_dir_def dir_new_def nfs_option_from_result_def
      nfs3_option_codec_def complex_enum_codec_def field_payload_def unit_payload_def fields_codec_def
      readdirplus_loop.simps visit_next_entry.simps dir_entry_plus_def into_entry_def entry_plus_try_push_def
      added_dircount_def bounded_entry_plus_new_def try_push_def bounded_list_new_def entryplus3_codec_def list_codec_def
      filename3_codec_def nfs_fh3_codec_def fh_to_nfs_def opaque_codec_def file_new_def bounded_list_into_inner_def
      bool_codec_def add_padding_def)
  then obtain r where r: "nfsproc3_readdirplus example_ctx 1 example_readdirplus example_memfs = Some (Nfs3Ok r, example_memfs)"
    by blast
  from readdirplus_fits [OF r] r show ?thesis by (auto simp: example_readdirplus_def)
qed

theorem setattr_guard_witness:
  "\<exists>wcc. nfsproc3_setattr example_ctx 5
     \<lparr> SETATTR3args.object = example_fh 2, SETATTR3args.new_attributes = sattr3_default,
       SETATTR3args.guard = Some \<lparr> nfstime3.seconds = 3, nfstime3.nseconds = 0 \<rparr> \<rparr> example_memfs =
   Some (Nfs3Err NFS3ERR_NOT_SYNC \<lparr> SETATTR3resfail.obj_wcc = wcc \<rparr>, example_memfs)"
proof -
  let ?args = "\<lparr> SETATTR3args.object = example_fh 2, SETATTR3args.new_attributes = sattr3_default,
       SETATTR3args.guard = Some \<lparr> nfstime3.seconds = 3, nfstime3.nseconds = 0 \<rparr> \<rparr>"
  let ?a = "new_attr example_now NF3REG 0x1ED 2 2"
  have "vfs_getattr (vfs example_ctx) 2 example_memfs = Some (Ok ?a, example_memfs)"
    by (simp add: memfs_def memfs_getattr_def read_fs_def example_memfs_def file_new_def)
  moreover have "fh_from_nfs (vfs_handle (vfs example_ctx)) (file_handle_converter example_ctx)
      (SETATTR3args.object ?args) = Ok 2" by (simp add: memfs_def)
  moreover have "vfs_capabilities (vfs example_ctx) example_memfs = ReadWrite" by (simp add: memfs_def)
  ultimately show ?thesis
    using setattr_guard [of example_ctx ?args 2 example_memfs ?a example_memfs 5]
    by (simp add: new_attr_def example_now_def example_env_def)
qed

theorem guarded_create_exists_witness:
  "\<exists>wcc. nfsproc3_create example_ctx 5
     \<lparr> CREATE3args.where' = \<lparr> diropargs3.dir = example_fh 1, diropargs3.name = [97] \<rparr>,
       CREATE3args.how = GUARDED sattr3_default \<rparr> example_memfs =
   Some (Nfs3Err NFS3ERR_EXIST \<lparr> CREATE3resfail.dir_wcc = wcc \<rparr>, example_memfs)"
proof -
  let ?args = "\<lparr> CREATE3args.where' = \<lparr> diropargs3.dir = example_fh 1, diropargs3.name = [97] \<rparr>,
       CREATE3args.how = GUARDED sattr3_default \<rparr>"
  have "\<exists>a. vfs_getattr (vfs example_ctx) 1 example_memfs = Some (Ok a, example_memfs)"
    by (simp add: memfs_def memfs_getattr_def read_fs_def example_memfs_def)
  then obtain a where "vfs_getattr (vfs example_ctx) 1 example_memfs = Some (Ok a, example_memfs)" ..
  moreover have "fh_from_nfs (vfs_handle (vfs example_ctx)) (file_handle_converter example_ctx)
      (diropargs3.dir (CREATE3args.where' ?args)) = Ok 1" by (simp add: memfs_def)
  moreover have "vfs_capabilities (vfs example_ctx) example_memfs = ReadWrite" by (simp add: memfs_def)
  ultimately show ?thesis
    using guarded_create_exists [of example_ctx ?args 1 example_memfs sattr3_default a 2 5] example_lookup by simp
qed

end
