(* ===== verification/Server.thy ===== *)
theory Server
  imports Memfs_Server Rpc_Wire_Props
begin

text \<open>
  The server as a whole, from the bytes of a message to the state of the in-memory file system
  and of the transaction tracker.
\<close>

section \<open>The invariant of the server\<close>

lemma not_admitted:
  assumes "\<forall>m. \<not> admitted packed m" "handle_rpc_message now later ctx packed st = Some (r, st')"
  shows "st' = st"
proof (cases "incoming_try_from packed")
  case (Inr m)
  then have "call_body.rpcvers (incoming_body m) \<noteq> RPC_VERSION_2 \<or>
      opaque_auth.flavor (call_body.cred (incoming_body m)) = AUTH_UNIX \<and>
      \<not> is_ok (unpack auth_unix_codec (opaque_auth.body (call_body.cred (incoming_body m))))"
    using assms(1) by (auto simp: admitted_def)
  then show ?thesis using assms(2) Inr
    by (auto simp: handle_rpc_message_def Let_def is_ok_def split: sum.splits if_splits)
qed (use assms(2) in \<open>simp add: handle_rpc_message_def\<close>)

lemma dispatch_keeps_memfs:
  assumes "permuting (fst env)" "memfs_ok (vfs_state st)"
    and "\<forall>nm. rename_source m = Some nm \<longrightarrow> nm \<noteq> DOT \<and> nm \<noteq> DOTDOT"
    and run: "dispatch (ctx\<lparr> vfs := memfs env \<rparr>) m st = Some (r, st')"
  shows "memfs_ok (vfs_state st')"
proof -
  have "preserves (vfs_lookup_by_path (vfs (ctx\<lparr> vfs := memfs env \<rparr>)) path)" for path
    by (simp add: memfs_def path_to_id_impl_def preserves_def)
  then have "same_vfs (handle_mount (ctx\<lparr> vfs := memfs env \<rparr>) m)" by (rule handle_mount_same_vfs)
  then have mount: "handle_mount (ctx\<lparr> vfs := memfs env \<rparr>) m (vfs_state st, signals st) = Some (x, s, sig) \<Longrightarrow> s = vfs_state st"
    for x s sig unfolding same_vfs_def by (metis fst_conv)
  show ?thesis
    using run assms(2) handle_nfs_keeps_memfs [OF assms(1,2,3)] mount
      handle_portmap_preserves [of "ctx\<lparr> vfs := memfs env \<rparr>" m, THEN preservesD, of st r st']
    by (auto simp: dispatch_def Let_def with_vfs_def with_mount_def ret_def split: if_splits option.splits)
qed

text \<open>
  Whatever message arrives, the tree of the in-memory file system stays well formed and the
  transaction tracker consistent, with the locks of the other requests and no more: the one of
  this message has been given back.
\<close>

theorem server_invariant:
  assumes "permuting (fst env)" "memfs_ok (vfs_state st)" "tracker_ok (transaction_tracker st) ls"
    and names: "\<forall>m nm. incoming_try_from packed = Ok m \<and> rename_source m = Some nm \<longrightarrow> nm \<noteq> DOT \<and> nm \<noteq> DOTDOT"
    and run: "handle_rpc_message now later (ctx\<lparr> vfs := memfs env \<rparr>) packed st = Some (r, st')"
  shows "memfs_ok (vfs_state st') \<and> tracker_ok (transaction_tracker st') ls"
proof (cases "\<exists>m. admitted packed m")
  case True
  then obtain m where m: "admitted packed m" ..
  obtain au where "handle_rpc_message now later (ctx\<lparr> vfs := memfs env \<rparr>) packed =
      transacted now later (ctx\<lparr> vfs := memfs env \<rparr>\<lparr> auth := au \<rparr>) m" by (rule admitted_handle [OF m])
  moreover have "ctx\<lparr> vfs := memfs env \<rparr>\<lparr> auth := au \<rparr> = ctx\<lparr> auth := au \<rparr>\<lparr> vfs := memfs env \<rparr>"
    by (cases ctx) simp
  ultimately have "transacted now later (ctx\<lparr> auth := au \<rparr>\<lparr> vfs := memfs env \<rparr>) m st = Some (r, st')" using run by simp
  from assms(3) this show ?thesis
  proof (cases rule: transacted_cases)
    case (executed lock t st1)
    have "\<forall>nm. rename_source m = Some nm \<longrightarrow> nm \<noteq> DOT \<and> nm \<noteq> DOTDOT"
      using names m by (auto simp: admitted_def)
    from dispatch_keeps_memfs [OF assms(1) _ this executed(3)] assms(2) executed(4,5)
      drop_lock_ok [OF executed(2), of lock later]
    show ?thesis by simp
  qed (use assms(2) in simp_all)
next
  case False
  then show ?thesis using not_admitted [OF _ run] assms(2,3) by blast
qed

section \<open>Examples\<close>

definition example_rpc :: "u32 \<Rightarrow> u32 \<Rightarrow> u32 \<Rightarrow> rpc_msg" where
  "example_rpc prg vs prc = \<lparr> rpc_msg.xid = 5, rpc_msg.body = CALL
     \<lparr> call_body.rpcvers = 2, call_body.prog = prg, call_body.vers = vs,
       call_body.proc = prc, call_body.cred = opaque_auth_default, call_body.verf = opaque_auth_default \<rparr> \<rparr>"

lemma example_rpc_pack: "\<exists>k h. pack rpc_msg_codec (example_rpc prg vs prc) [] = Ok (k, h)"
  by (simp add: example_rpc_def rpc_msg_codec_def struct_codec_def fields_codec_def msg_body_codec_def
      call_body_codec_def opaque_auth_codec_def complex_enum_codec_def field_payload_def opaque_auth_default_def
      auth_flavor_pack opaque_codec_def u32_try_from_def Let_def)

definition example_message :: "u32 \<Rightarrow> u32 \<Rightarrow> u32 \<Rightarrow> bytes" where
  "example_message prg vs prc = (case pack rpc_msg_codec (example_rpc prg vs prc) [] of Ok (_, h) \<Rightarrow> h | Err _ \<Rightarrow> [])"

lemma example_message_pack:
  "pack rpc_msg_codec (example_rpc prg vs prc) [] = Ok (length (example_message prg vs prc), example_message prg vs prc)"
  using example_rpc_pack [of prg vs prc] by (auto simp: example_message_def dest: rpc_msg.pack_size)

lemma example_incoming:
  "incoming_try_from (example_message prg vs prc @ bs) = Ok \<lparr> incoming_xid = 5,
     incoming_body = \<lparr> call_body.rpcvers = 2, call_body.prog = prg, call_body.vers = vs,
       call_body.proc = prc, call_body.cred = opaque_auth_default, call_body.verf = opaque_auth_default \<rparr>,
     incoming_data = Some (example_message prg vs prc @ bs), message_start = length (example_message prg vs prc) \<rparr>"
  using incoming_try_from_call [OF example_message_pack [of prg vs prc, unfolded example_rpc_def]] by simp

definition example_state :: "MemFs server_state" where
  "example_state = \<lparr> vfs_state = example_memfs, signals = [], transaction_tracker = tracker_new 60 2 4 \<rparr>"

lemma example_tracker_ok: "tracker_ok (tracker_new 60 2 4) []"
  using tracker_init_ok [of 2 4 60] by (simp add: tracker_init_def)

text \<open>The NULL procedure of the NFS program, called for the first time.\<close>

lemma example_null_dispatch:
  assumes "incoming_try_from (example_message 100003 3 0) = Ok m"
  shows "\<exists>buf. (\<forall>s. dispatch ctx m s = Some (Ok (Reply buf), s)) \<and>
    unpack rpc_msg_codec buf = Ok (accepted 5 SUCCESS, length buf, [])"
proof -
  have m: "m = \<lparr> incoming_xid = 5,
     incoming_body = \<lparr> call_body.rpcvers = 2, call_body.prog = 100003, call_body.vers = 3,
       call_body.proc = 0, call_body.cred = opaque_auth_default, call_body.verf = opaque_auth_default \<rparr>,
     incoming_data = Some (example_message 100003 3 0), message_start = length (example_message 100003 3 0) \<rparr>"
    using assms example_incoming [of 100003 3 0 "[]"] by simp
  have "dispatch ctx m s = Some (into_error_reply SUCCESS m, s)" for s
    by (simp add: m dispatch_def Let_def program_numbers with_vfs_def handle_nfs_def NFS_PROGRAM_try_from_def
        handle_def void_codec_def nfsproc3_null_def ret_def into_success_reply_def into_error_reply_def)
  then show ?thesis using into_error_reply_refusal [of m SUCCESS] by (auto simp: refusal_def m)
qed

lemma example_admitted: "\<exists>m. admitted (example_message 100003 3 0) m \<and> incoming_xid m = 5"
  using example_incoming [of 100003 3 0 "[]"]
  by (simp add: admitted_def RPC_VERSION_2_def opaque_auth_default_def)

lemma example_null_call:
  "\<exists>buf st'. handle_rpc_message 0 1 example_ctx (example_message 100003 3 0) example_state = Some (Ok (Reply buf), st') \<and>
     unpack rpc_msg_codec buf = Ok (accepted 5 SUCCESS, length buf, []) \<and> retention_period (transaction_tracker st') = 60"
proof -
  obtain m where m: "admitted (example_message 100003 3 0) m" "incoming_xid m = 5" using example_admitted by blast
  obtain au where h: "handle_rpc_message 0 1 example_ctx (example_message 100003 3 0) =
      transacted 0 1 (example_ctx\<lparr> auth := au \<rparr>) m" by (rule admitted_handle [OF m(1)])
  have "incoming_try_from (example_message 100003 3 0) = Ok m" using m(1) by (simp add: admitted_def)
  from example_null_dispatch [OF this, of "example_ctx\<lparr> auth := au \<rparr>"]
  obtain buf where buf: "\<forall>s. dispatch (example_ctx\<lparr> auth := au \<rparr>) m s = Some (Ok (Reply buf), s)"
    "unpack rpc_msg_codec buf = Ok (accepted 5 SUCCESS, length buf, [])" by blast
  have "\<exists>st'. transacted 0 1 (example_ctx\<lparr> auth := au \<rparr>) m example_state = Some (Ok (Reply buf), st') \<and>
      retention_period (transaction_tracker st') = 60"
    using m(2) buf(1)
    by (simp add: transacted_def await_def lock_transaction_def release_def example_state_def tracker_new_def
        start_transaction_def start_read_def start_write_def lock_client_def client_transactions_new_def
        add_transaction_def find_transaction_def trim_if_needed_def drop_lock_def complete_transaction_def
        transaction_complete_def remove_old_transactions_def in_progress_def is_stale_def Let_def ret_def)
  then show ?thesis using buf(2) unfolding h by blast
qed

lemma example_rename_names:
  "\<forall>m nm. incoming_try_from (example_message 100003 3 0) = Ok m \<and> rename_source m = Some nm \<longrightarrow> nm \<noteq> DOT \<and> nm \<noteq> DOTDOT"
  using example_incoming [of 100003 3 0 "[]"] by (simp add: rename_source_def NFS_PROGRAM_try_from_def)

theorem server_invariant_witness:
  "\<exists>buf st'. handle_rpc_message 0 1 example_ctx (example_message 100003 3 0) example_state = Some (Ok (Reply buf), st') \<and>
     memfs_ok (vfs_state st') \<and> tracker_ok (transaction_tracker st') []"
proof -
  obtain buf st' where run: "handle_rpc_message 0 1 (example_ctx\<lparr> vfs := memfs example_env \<rparr>) (example_message 100003 3 0)
      example_state = Some (Ok (Reply buf), st')"
    using example_null_call by auto
  have st: "memfs_ok (vfs_state example_state)" "tracker_ok (transaction_tracker example_state) []"
    using example_memfs_ok example_tracker_ok by (simp_all add: example_state_def)
  from server_invariant [OF permuting_id st example_rename_names run] run show ?thesis by auto
qed

theorem reply_carries_xid_witness:
  "\<exists>buf st' rb k out. handle_rpc_message 0 1 example_ctx (example_message 100003 3 0) example_state = Some (Ok (Reply buf), st') \<and>
     unpack rpc_msg_codec buf = Ok (\<lparr> rpc_msg.xid = 5, rpc_msg.body = REPLY rb \<rparr>, k, out)"
proof -
  obtain buf st' where run: "handle_rpc_message 0 1 example_ctx (example_message 100003 3 0)
      example_state = Some (Ok (Reply buf), st')"
    using example_null_call by blast
  have "unpack rpc_msg_codec (example_message 100003 3 0) =
      Ok (example_rpc 100003 3 0, length (example_message 100003 3 0), [])"
    using rpc_msg.unpack_pack [OF example_message_pack, of 100003 3 0 "[]"] by simp
  with reply_carries_xid [OF run] run show ?thesis by (auto simp: example_rpc_def)
qed

text \<open>\<^verbatim>\<open>PMAPPROC_GETPORT\<close> for the NFS program.\<close>

definition example_mapping :: mapping where
  "example_mapping = \<lparr> mapping.prog = 100003, mapping.vers = 3, mapping.prot = 6, mapping.port = 0 \<rparr>"

lemma example_mapping_pack:
  "pack mapping_codec example_mapping [] = Ok (16, concat (map to_be_bytes [100003 :: u32, 3, 6, 0]))"
  by (simp add: example_mapping_def mapping_codec_def struct_codec_def fields_codec_def)

theorem procedure_called_witness:
  "\<exists>m hdr. incoming_try_from (example_message 100000 2 3 @ concat (map to_be_bytes [100003 :: u32, 3, 6, 0])) = Ok m \<and>
     handle mapping_codec u32_codec example_ctx m pmapproc_getport example_memfs =
       Some (Ok (Reply (hdr @ to_be_bytes (2049 :: u32))), example_memfs)"
proof -
  have h: "pmapproc_getport example_ctx 5 example_mapping example_memfs = Some (2049, example_memfs)"
    by (simp add: pmapproc_getport_def example_ctx_def ret_def)
  have "pack u32_codec 2049 [] = Ok (4, to_be_bytes (2049 :: u32))" by simp
  from procedure_called [where handler = pmapproc_getport and ctx = example_ctx, OF total_codec_xdr [OF mapping_codec_lawful]
      codec_total_appender [OF u32_codec_lawful] example_message_pack [of 100000 2 3, unfolded example_rpc_def] example_mapping_pack h this]
  show ?thesis by blast
qed

theorem garbage_args_refused_witness:
  "\<exists>m r. incoming_try_from (example_message 100000 2 3 @ take 3 (concat (map to_be_bytes [100003 :: u32, 3, 6, 0]))) = Ok m \<and>
     handle mapping_codec u32_codec example_ctx m pmapproc_getport example_memfs = Some (r, example_memfs) \<and>
     refusal 5 GARBAGE_ARGS r"
proof -
  let ?bs = "concat (map to_be_bytes [100003 :: u32, 3, 6, 0])"
  have "\<exists>j < 16. take 3 ?bs = take j ?bs" by (rule exI [of _ 3]) simp
  then have cut: "(\<exists>j < 16. take 3 ?bs = take j ?bs) \<or> (\<exists>more. more \<noteq> [] \<and> take 3 ?bs = ?bs @ more)" ..
  from garbage_args_refused [where handler = pmapproc_getport and ctx = example_ctx and co = u32_codec and s = example_memfs,
      OF total_codec_xdr [OF mapping_codec_lawful] example_message_pack [of 100000 2 3, unfolded example_rpc_def] example_mapping_pack cut]
  show ?thesis by blast
qed

theorem unsupported_calls_refused_witness:
  "\<exists>m r. incoming_try_from (example_message 100003 2 0) = Ok m \<and>
     dispatch example_ctx m example_state = Some (r, example_state) \<and> refusal 5 (PROG_MISMATCH 3 3) r"
proof -
  obtain m where m: "incoming_try_from (example_message 100003 2 0) = Ok m" "incoming_xid m = 5"
    "call_body.prog (incoming_body m) = 100003" "call_body.vers (incoming_body m) = 2"
    using example_incoming [of 100003 2 0 "[]"] by simp
  then show ?thesis
    using unsupported_calls_refused [OF m(1), where ctx = example_ctx and st = example_state] by auto
qed


theorem fragments_reassembled_witness:
  "read_message 2 packed_rpc_message_new (frames [[1, 2], [3]] @ [9]) = Ok (Some ([1, 2, 3], [9]))"
proof -
  have "\<forall>p \<in> set [[1, 2], [3 :: u8]]. length p < 2 ^ 31" by simp
  from conjunct1 [OF fragments_reassembled [OF _ this, of "[9]" "[]"]] show ?thesis
    by (simp del: read_message.simps frames.simps add: numeral_2_eq_2)
qed

end
