(* ===== verification/Client_Server.thy ===== *)
theory Client_Server
  imports Client_Props Server
begin

text \<open>
  The client and the server together: a connection whose other end is the server of
  \<open>Rpc_Wire\<close>, and calls of the client over it.
\<close>

section \<open>The connection\<close>

text \<open>
  The bytes that the client has written and the server has not read yet, and the other way
  round.  The server acts when the client waits for a reply.
\<close>

record 's loopback =
  lb_server :: "'s server_state"
  lb_request :: bytes
  lb_reply :: bytes

definition serve :: "nat \<Rightarrow> nat \<Rightarrow> ('s, 'h, 'i, 'p) RPCContext \<Rightarrow> 's loopback \<Rightarrow> 's loopback" where
  "serve now later ctx c =
     (case read_message (Suc (length (lb_request c))) packed_rpc_message_new (lb_request c) of
        Ok (Some (msg, rest)) \<Rightarrow>
          (case handle_rpc_message now later ctx msg (lb_server c) of
             Some (Ok (Reply buf), st) \<Rightarrow>
               (case write_fragment buf of
                  Some bs \<Rightarrow> \<lparr> lb_server = st, lb_request = rest, lb_reply = lb_reply c @ bs \<rparr>
                | None \<Rightarrow> c)
           | Some (_, st) \<Rightarrow> c\<lparr> lb_server := st, lb_request := rest \<rparr>
           | None \<Rightarrow> c)
      | _ \<Rightarrow> c)"

definition served :: "nat \<Rightarrow> nat \<Rightarrow> ('s, 'h, 'i, 'p) RPCContext \<Rightarrow> 's loopback \<Rightarrow> 's loopback" where
  "served now later ctx c = (if lb_reply c = [] then serve now later ctx c else c)"

definition loopback_io :: "nat \<Rightarrow> nat \<Rightarrow> ('s, 'h, 'i, 'p) RPCContext \<Rightarrow> 's loopback async_io" where
  "loopback_io now later ctx = \<lparr>
     async_read = (\<lambda>n c. let c' = served now later ctx c in
       (Ok (take n (lb_reply c')), c'\<lparr> lb_reply := drop n (lb_reply c') \<rparr>)),
     async_write = (\<lambda>bs c. (Ok (length bs), c\<lparr> lb_request := lb_request c @ bs \<rparr>)) \<rparr>"

interpretation loopback: stream_io "loopback_io now later ctx" "\<lambda>c. lb_reply (served now later ctx c)" lb_request
  "\<lambda>c. (lb_server c, lb_reply c)" "\<lambda>c. (lb_server c, lb_request c)"
  "\<lambda>c. (lb_server (served now later ctx c), lb_request (served now later ctx c))" "\<lambda>c. lb_reply c = []" for now later ctx
proof unfold_locales
  fix n :: nat and c
  let ?c = "served now later ctx c"
  assume n: "0 < n" "lb_reply ?c \<noteq> []"
  let ?c' = "?c\<lparr> lb_reply := drop n (lb_reply ?c) \<rparr>"
  have "if drop n (lb_reply ?c) = [] then lb_reply ?c' = [] else lb_reply (served now later ctx ?c') = drop n (lb_reply ?c) \<and>
      (lb_server (served now later ctx ?c'), lb_request (served now later ctx ?c')) = (lb_server ?c, lb_request ?c)"
    by (auto simp: served_def)
  then show "\<exists>bs rest s'. async_read (loopback_io now later ctx) n c = (Ok bs, s') \<and> bs \<noteq> [] \<and> length bs \<le> n \<and>
      lb_reply ?c = bs @ rest \<and> (lb_server s', lb_request s') = (lb_server ?c, lb_request ?c) \<and>
      (if rest = [] then lb_reply s' = [] else lb_reply (served now later ctx s') = rest \<and>
        (lb_server (served now later ctx s'), lb_request (served now later ctx s')) = (lb_server ?c, lb_request ?c))"
    using n by (intro exI [of _ "take n (lb_reply ?c)"] exI [of _ "drop n (lb_reply ?c)"] exI [of _ ?c'])
      (simp add: loopback_io_def Let_def)
qed (simp add: loopback_io_def)

lemma served_frame:
  assumes "lb_reply c = []" "lb_request c = frame True msg" "length msg < 2 ^ 31"
    and "handle_rpc_message now later ctx msg (lb_server c) = Some (Ok (Reply buf), st)" "length buf < 2 ^ 31"
  shows "served now later ctx c = \<lparr> lb_server = st, lb_request = [], lb_reply = frame True buf \<rparr>"
proof -
  have "read_message (Suc (length (frame True msg))) packed_rpc_message_new (frame True msg) = Ok (Some (msg, []))"
    using read_message_frames [of "[msg]" "Suc (length (frame True msg))" "[]" "[]"] assms(3)
    by (simp add: packed_rpc_message_new_def)
  moreover have "write_fragment buf = Some (frame True buf)"
    using fragment_header_new_Some [OF assms(5), of True] assms(5) by (auto simp: write_fragment_def frame_def)
  ultimately show ?thesis using assms by (simp add: served_def serve_def)
qed

text \<open>A call over the connection, from the client's arguments to the decoded reply.\<close>

lemma loopback_call:
  fixes ctx :: "('s, 'h, 'i, 'p) RPCContext" and c :: "'s loopback RpcClient"
  defines "call prg vs prc \<equiv> \<lparr> call_body.rpcvers = RPC_VERSION_2, call_body.prog = prg, call_body.vers = vs,
      call_body.proc = prc, call_body.cred = rpc_credential c, call_body.verf = rpc_verifier c \<rparr>"
  assumes "xdr_codec cc" "pack rpc_msg_codec \<lparr> rpc_msg.xid = rpc_xid c, rpc_msg.body = CALL (call prg vs prc) \<rparr> [] = Ok (k, h)"
    and "pack cc a [] = Ok (n, bs)" "length (h @ bs) < 2 ^ 31"
    and "lb_request (rpc_io c) = []" "lb_reply (rpc_io c) = []"
    and "handle_rpc_message now later ctx (h @ bs) (lb_server (rpc_io c)) = Some (Ok (Reply buf), st)"
    and "buf \<noteq> []" "length buf < 2 ^ 31"
  shows "\<exists>c'. rpc_call (loopback_io now later ctx) cc cr prg vs prc a c = Some (decode_reply cr (rpc_xid c) buf, c') \<and>
    rpc_io c' = \<lparr> lb_server = st, lb_request = [], lb_reply = [] \<rparr> \<and> rpc_xid c' = rpc_xid c + 1 \<and>
    rpc_credential c' = rpc_credential c \<and> rpc_verifier c' = rpc_verifier c"
proof -
  let ?ops = "loopback_io now later ctx"
  have bytes: "call_bytes \<lparr> rpc_msg.xid = rpc_xid c, rpc_msg.body = CALL (call prg vs prc) \<rparr> cc a = Some (Ok (frame True (h @ bs)))"
    by (rule call_bytes_frame) (use assms in simp_all)
  obtain io1 where io1: "async_write_all ?ops (frame True (h @ bs)) (rpc_io c) = Some (Ok (), io1)"
    "lb_request io1 = frame True (h @ bs)" "lb_server io1 = lb_server (rpc_io c)" "lb_reply io1 = []"
    using loopback.write_all_delivers [of now later ctx "frame True (h @ bs)" "rpc_io c"] assms(6,7) by auto
  have served: "served now later ctx io1 = \<lparr> lb_server = st, lb_request = [], lb_reply = frame True buf \<rparr>"
    by (rule served_frame [OF io1(4,2)]) (use assms(5,8,10) io1(3) in simp_all)
  then obtain io2 where "recv_reply ?ops cr (rpc_xid c) io1 = Some (decode_reply cr (rpc_xid c) buf, io2)"
    "io2 = \<lparr> lb_server = st, lb_request = [], lb_reply = [] \<rparr>"
    using loopback.recv_reply_delivers [of now later ctx io1 buf cr "rpc_xid c"] assms(9,10) by auto
  then show ?thesis
    using bytes io1(1)
    by (simp add: rpc_call_def Let_def await_ok_def await_def on_io_def send_call_def io_result_def ret_def call_def)
qed

section \<open>Procedures\<close>

text \<open>The server runs the given handler, with the given codecs, for a call.\<close>

definition serves ::
  "('s, 'h, 'i, 'p) RPCContext \<Rightarrow> call_body \<Rightarrow> 'c codec \<Rightarrow> 'r codec \<Rightarrow>
     (('s, 'h, 'i, 'p) RPCContext \<Rightarrow> u32 \<Rightarrow> 'c \<Rightarrow> ('s, 'r) prog) \<Rightarrow> bool" where
  "serves ctx call cc cr handler \<longleftrightarrow> (\<forall>au m. incoming_body m = call \<longrightarrow>
     dispatch (ctx\<lparr> auth := au \<rparr>) m = with_vfs (handle cc cr (ctx\<lparr> auth := au \<rparr>) m handler))"

lemma accepted_size: "packed_size rpc_msg_codec (accepted i SUCCESS) = 24"
  by (simp add: accepted_def rpc_msg_codec_def struct_codec_def fields_codec_def msg_body_codec_def
      reply_body_codec_def accepted_reply_codec_def opaque_auth_codec_def accept_stat_data_codec_def
      complex_enum_codec_def field_payload_def unit_payload_def opaque_auth_default_def opaque_codec_def add_padding_def)

lemma served_call:
  assumes "xdr_codec cc" "xdr_codec_on cr R" "serves ctx call cc cr handler"
    and msg: "pack rpc_msg_codec \<lparr> rpc_msg.xid = i, rpc_msg.body = CALL call \<rparr> [] = Ok (k, h)" "pack cc a [] = Ok (n, bs)"
    and call: "call_body.rpcvers call = RPC_VERSION_2" "opaque_auth.flavor (call_body.cred call) = AUTH_UNIX \<longrightarrow>
      is_ok (unpack auth_unix_codec (opaque_auth.body (call_body.cred call)))"
    and tracker: "tracker_ok (transaction_tracker st) ls"
      "start_transaction (client_addr ctx) i now (transaction_tracker st) = Some (Ok lock, t)"
    and run: "\<forall>au. handler (ctx\<lparr> auth := au \<rparr>) i a (vfs_state st) = Some (r, s')" "pack cr r [] = Ok (n', out)"
  shows "\<exists>hdr st'. handle_rpc_message now later ctx (h @ bs) st = Some (Ok (Reply (hdr @ out)), st') \<and>
    vfs_state st' = s' \<and> drop_lock later lock t = Some (transaction_tracker st') \<and>
    pack rpc_msg_codec (accepted i SUCCESS) [] = Ok (24, hdr) \<and> length hdr = 24"
proof -
  let ?m = "\<lparr> incoming_xid = i, incoming_body = call, incoming_data = Some (h @ bs), message_start = length h \<rparr>"
  have "admitted (h @ bs) ?m" using call incoming_try_from_call [OF msg(1), of bs] by (simp add: admitted_def)
  then obtain au where au: "handle_rpc_message now later ctx (h @ bs) = transacted now later (ctx\<lparr> auth := au \<rparr>) ?m"
    by (rule admitted_handle)
  obtain k' hdr where hdr: "pack rpc_msg_codec (accepted i SUCCESS) [] = Ok (k', hdr)" using accepted_pack by blast
  then have k': "k' = 24" "length hdr = 24" using rpc_msg.pack_size [OF hdr] accepted_size [of i] by auto
  have "pack_reply (accepted i SUCCESS) cr r = Ok (hdr @ out)"
    by (rule appender.pack_reply_eq [OF codec_on_appender [OF assms(2)] hdr run(2)])
  moreover have "unpack cc bs = Ok (a, length bs, [])"
    using xdr_codec.unpack_pack [OF assms(1) msg(2), of "[]"] xdr_codec.pack_size [OF assms(1) msg(2)] by simp
  ultimately have "dispatch (ctx\<lparr> auth := au \<rparr>) ?m (st\<lparr> transaction_tracker := t \<rparr>) =
      Some (Ok (Reply (hdr @ out)), st\<lparr> vfs_state := s', transaction_tracker := t \<rparr>)"
    using assms(3) run(1)
    by (simp add: serves_def with_vfs_def handle_def Let_def into_success_reply_def await_def ret_def)
  moreover obtain t' where "drop_lock later lock t = Some t'"
    using start_transaction_ok [OF tracker(1), of "client_addr ctx" i now] tracker(2) drop_lock_ok [of t "lock # ls" lock later]
    by (auto simp: hold_def)
  ultimately show ?thesis
    using au tracker(2) hdr k'
    by (simp add: transacted_def lock_transaction_def release_def await_def ret_def)
qed

text \<open>
  C5: a client's call over a connection to the server returns what the procedure's handler returns
  for the client's arguments, and leaves the file system as the handler leaves it.
\<close>

theorem client_server_call:
  fixes ctx :: "('s, 'h, 'i, 'p) RPCContext" and c :: "'s loopback RpcClient"
  defines "call prg vs prc \<equiv> \<lparr> call_body.rpcvers = RPC_VERSION_2, call_body.prog = prg, call_body.vers = vs,
      call_body.proc = prc, call_body.cred = rpc_credential c, call_body.verf = rpc_verifier c \<rparr>"
    and "st \<equiv> lb_server (rpc_io c)"
  assumes "xdr_codec cc" "xdr_codec_on cr R" "serves ctx (call prg vs prc) cc cr handler"
    and "pack rpc_msg_codec \<lparr> rpc_msg.xid = rpc_xid c, rpc_msg.body = CALL (call prg vs prc) \<rparr> [] = Ok (k, h)"
    and "pack cc a [] = Ok (n, bs)" "length (h @ bs) < 2 ^ 31"
    and "opaque_auth.flavor (rpc_credential c) = AUTH_UNIX \<longrightarrow>
      is_ok (unpack auth_unix_codec (opaque_auth.body (rpc_credential c)))"
    and "lb_request (rpc_io c) = []" "lb_reply (rpc_io c) = []" "tracker_ok (transaction_tracker st) ls"
    and "start_transaction (client_addr ctx) (rpc_xid c) now (transaction_tracker st) = Some (Ok lock, t)"
    and "\<forall>au. handler (ctx\<lparr> auth := au \<rparr>) (rpc_xid c) a (vfs_state st) = Some (r, s')"
    and "R r" "pack cr r [] = Ok (n', out)" "length out < 2 ^ 30"
  shows "\<exists>c'. rpc_call (loopback_io now later ctx) cc cr prg vs prc a c = Some (Ok r, c') \<and>
    vfs_state (lb_server (rpc_io c')) = s' \<and> rpc_xid c' = rpc_xid c + 1"
proof -
  obtain hdr st' where reply: "handle_rpc_message now later ctx (h @ bs) st = Some (Ok (Reply (hdr @ out)), st')"
    "vfs_state st' = s'" "pack rpc_msg_codec (accepted (rpc_xid c) SUCCESS) [] = Ok (24, hdr)" "length hdr = 24"
    using served_call [OF assms(3-7) _ _ assms(12,13,14,16), where later = later] assms(9) by (auto simp: call_def)
  have "decode_reply cr (rpc_xid c) (hdr @ out) = Ok r"
    using xdr_codec_on.unpack_pack [OF assms(4,15,16), of "[]"] rpc_msg.unpack_pack [OF reply(3), of out]
    by (simp add: decode_reply_def accepted_def)
  moreover have "length (hdr @ out) < 2 ^ 31" "hdr @ out \<noteq> []" using reply(4) assms(17) by auto
  ultimately show ?thesis
    using loopback_call [OF assms(3) assms(6) [unfolded call_def] assms(7,8,10,11) reply(1) [unfolded st_def], of cr] reply(2) by auto
qed

text \<open>
  A method of the client whose calls, encoded with the codecs of the method, reach the given
  handler of the server, which decodes them with the same codecs.
\<close>

definition method_served ::
  "('s, 'h, 'i, 'p) RPCContext \<Rightarrow> ('s loopback async_io \<Rightarrow> 'c \<Rightarrow> ('s loopback RpcClient, client_error + 'r) prog) \<Rightarrow> u32 \<Rightarrow>
     (('s, 'h, 'i, 'p) RPCContext \<Rightarrow> u32 \<Rightarrow> 'c \<Rightarrow> ('s, 'r) prog) \<Rightarrow> bool" where
  "method_served ctx method prc handler \<longleftrightarrow> (\<exists>cc cr.
     (\<forall>ops. method ops = rpc_call ops cc cr Nfs3_Types.PROGRAM Nfs3_Types.VERSION prc) \<and>
     (\<forall>cred vrf. serves ctx \<lparr> call_body.rpcvers = RPC_VERSION_2, call_body.prog = Nfs3_Types.PROGRAM,
        call_body.vers = Nfs3_Types.VERSION, call_body.proc = prc, call_body.cred = cred, call_body.verf = vrf \<rparr> cc cr handler))"

lemma method_servedI:
  assumes "\<And>ops a. method ops a = nfs_call ops cc cr p a"
    and "prc = NFS_PROGRAM_as_u32 p"
    and "\<And>ctx m. call_body.vers (incoming_body m) = Nfs3_Types.VERSION \<Longrightarrow>
      NFS_PROGRAM_try_from (call_body.proc (incoming_body m)) = Ok p \<Longrightarrow> handle_nfs ctx m = handle cc cr ctx m handler"
  shows "method_served ctx method prc handler"
  unfolding method_served_def serves_def
  by (intro exI [of _ cc] exI [of _ cr] conjI allI impI)
     (simp_all add: assms fun_eq_iff nfs_call_def dispatch_def program_numbers)


section \<open>Examples\<close>

definition example_client :: "MemFs loopback RpcClient" where
  "example_client = rpc_client_new 5 \<lparr> lb_server = example_state, lb_request = [], lb_reply = [] \<rparr>
     opaque_auth_default opaque_auth_default"

definition example_getattr :: GETATTR3args where
  "example_getattr = \<lparr> GETATTR3args.object = example_fh 2 \<rparr>"

lemma example_getattr_pack: "\<exists>n bs. pack GETATTR3args_codec example_getattr [] = Ok (n, bs) \<and> length bs = 20"
proof -
  have len: "length (nfs_fh3.data (example_fh 2)) = 16"
    by (simp add: example_fh_def fh_to_nfs_def file_handle_converter_new_def)
  then show ?thesis
    by (simp add: GETATTR3args_codec_def example_getattr_def struct_codec_def nfs_fh3_codec_def opaque_pack pad4_def zero_padding_def get_padding_def)
qed

lemma fattr3_packs: "\<exists>n bs. pack fattr3_codec a out = Ok (n, bs)"
  by (simp add: fattr3_codec_def struct_codec_def fields_codec_def ftype3_pack u64_codec_def write_all_def specdata3_codec_def nfstime3_codec_def)

lemma example_getattr_run:
  "nfsproc3_getattr (example_ctx\<lparr> auth := au \<rparr>) 5 example_getattr example_memfs =
   Some (Nfs3Ok \<lparr> GETATTR3resok.obj_attributes = new_attr example_now NF3REG 0x1ED 2 2 \<rparr>, example_memfs)"
  by (simp add: nfsproc3_getattr_def example_getattr_def fh_to_id_def memfs_def await_def ret_def memfs_getattr_def
      read_fs_def example_memfs_def file_new_def)

lemma example_start:
  "\<exists>lock t. start_transaction (client_addr example_ctx) 5 0 (tracker_new 60 2 4) = Some (Ok lock, t)"
  by (simp add: tracker_new_def start_transaction_def start_read_def start_write_def lock_client_def
      client_transactions_new_def add_transaction_def find_transaction_def Let_def)

text \<open>GETATTR of a file, by a client of the server.\<close>

theorem client_server_call_witness:
  "\<exists>c'. rpc_call (loopback_io 0 1 example_ctx) GETATTR3args_codec GETATTR3res_codec 100003 3 1 example_getattr example_client =
     Some (Ok (Nfs3Ok \<lparr> GETATTR3resok.obj_attributes = new_attr example_now NF3REG 0x1ED 2 2 \<rparr>), c')"
proof -
  let ?c = example_client and ?r = "Nfs3Ok \<lparr> GETATTR3resok.obj_attributes = new_attr example_now NF3REG 0x1ED 2 2 \<rparr> :: GETATTR3res"
  have c: "rpc_xid ?c = 5" "rpc_credential ?c = opaque_auth_default" "rpc_verifier ?c = opaque_auth_default"
    "lb_server (rpc_io ?c) = example_state" "lb_request (rpc_io ?c) = []" "lb_reply (rpc_io ?c) = []"
    by (simp_all add: example_client_def rpc_client_new_def)
  have h: "pack rpc_msg_codec (example_rpc 100003 3 1) [] = Ok (length (example_message 100003 3 1), example_message 100003 3 1)"
    by (rule example_message_pack)
  have hl: "length (example_message 100003 3 1) = 40" using rpc_msg.pack_size [OF h]
    by (simp add: example_rpc_def rpc_msg_codec_def struct_codec_def fields_codec_def msg_body_codec_def
      call_body_codec_def opaque_auth_codec_def complex_enum_codec_def field_payload_def opaque_auth_default_def
      opaque_codec_def add_padding_def)
  obtain n bs where a: "pack GETATTR3args_codec example_getattr [] = Ok (n, bs)" "length bs = 20" using example_getattr_pack by blast
  obtain n' out where r: "pack GETATTR3res_codec ?r [] = Ok (n', out)"
    using fattr3_packs [of "new_attr example_now NF3REG 0x1ED 2 2" "to_be_bytes (0 :: u32)"]
    by (auto simp: GETATTR3res_codec_def nfs3_result_codec_def nfsstat3_pack GETATTR3resok_codec_def struct_codec_def)
  have "length out = 88"
    using GETATTR3res.pack_size [OF r] by (simp add: GETATTR3res_codec_def nfs3_result_codec_def GETATTR3resok_codec_def struct_codec_def)
  obtain lock t where t: "start_transaction (client_addr example_ctx) 5 0 (tracker_new 60 2 4) = Some (Ok lock, t)"
    using example_start by blast
  have s: "serves example_ctx \<lparr> call_body.rpcvers = RPC_VERSION_2, call_body.prog = 100003, call_body.vers = 3,
      call_body.proc = 1, call_body.cred = rpc_credential ?c, call_body.verf = rpc_verifier ?c \<rparr>
      GETATTR3args_codec GETATTR3res_codec nfsproc3_getattr"
    by (simp add: serves_def dispatch_def program_numbers handle_nfs_def NFS_PROGRAM_try_from_def)
  have "\<exists>c'. rpc_call (loopback_io 0 1 example_ctx) GETATTR3args_codec GETATTR3res_codec 100003 3 1 example_getattr ?c =
      Some (Ok ?r, c') \<and> vfs_state (lb_server (rpc_io c')) = example_memfs \<and> rpc_xid c' = rpc_xid ?c + 1"
  proof (rule client_server_call [OF total_codec_xdr [OF GETATTR3args_codec_lawful] GETATTR3res.xdr_codec_on_axioms s _ a(1)])
    show "pack rpc_msg_codec \<lparr> rpc_msg.xid = rpc_xid ?c, rpc_msg.body = CALL \<lparr> call_body.rpcvers = RPC_VERSION_2,
        call_body.prog = 100003, call_body.vers = 3, call_body.proc = 1, call_body.cred = rpc_credential ?c,
        call_body.verf = rpc_verifier ?c \<rparr> \<rparr> [] = Ok (length (example_message 100003 3 1), example_message 100003 3 1)"
      using h by (simp add: c example_rpc_def RPC_VERSION_2_def)
    show "length (example_message 100003 3 1 @ bs) < 2 ^ 31" using hl a(2) by simp
    show "tracker_ok (transaction_tracker (lb_server (rpc_io ?c))) []" using example_tracker_ok by (simp add: c example_state_def)
    show "start_transaction (client_addr example_ctx) (rpc_xid ?c) 0 (transaction_tracker (lb_server (rpc_io ?c))) = Some (Ok lock, t)"
      using t by (simp add: c example_state_def)
    show "\<forall>au. nfsproc3_getattr (example_ctx\<lparr> auth := au \<rparr>) (rpc_xid ?c) example_getattr (vfs_state (lb_server (rpc_io ?c))) =
        Some (?r, example_memfs)"
      using example_getattr_run by (simp add: c example_state_def)
    show "pack GETATTR3res_codec ?r [] = Ok (n', out)" by (rule r)
    show "length out < 2 ^ 30" using \<open>length out = 88\<close> by simp
  qed (simp_all add: c opaque_auth_default_def nfs3_result_ok_def)
  then show ?thesis by blast
qed

theorem client_reply_decoded_witness:
  "\<exists>h k. pack rpc_msg_codec (accepted 5 PROC_UNAVAIL) [] = Ok (k, h) \<and>
     decode_reply void_codec 5 h = Err (Rpc ProcUnavail) \<and> decode_reply void_codec 6 h = Err (Rpc UnexpectedXid)"
proof -
  obtain k h where h: "pack rpc_msg_codec (accepted 5 PROC_UNAVAIL) [] = Ok (k, h)" using accepted_pack by blast
  have v: "pack void_codec () [] = Ok (0, [])" by (simp add: void_codec_def)
  have "xdr_codec_on void_codec (\<lambda>_. True)" by (rule void.unrestricted.xdr_codec_on_axioms)
  from client_reply_decoded [OF this _ v h, of 5 "[]"] client_reply_decoded [OF this _ v h, of 6 "[]"] h
  show ?thesis by auto
qed

end
