(* ===== verification/Client_Session.thy ===== *)
theory Client_Session
  imports Client_Server
begin

text \<open>
  A session of a client: calls one after the other over the connection of \<open>Client_Server\<close>.
  The server's transaction tracker admits each of them because its xid is a new one, and is
  left ready for the next.
\<close>

section \<open>Requests one after the other\<close>

text \<open>The xids that the tracker knows of a client.\<close>

definition seen :: "TransactionTracker \<Rightarrow> string \<Rightarrow> u32 set" where
  "seen t client =
     (case map_of (clients t) client of
        None \<Rightarrow> {}
      | Some a \<Rightarrow> (case store t a of None \<Rightarrow> {} | Some c \<Rightarrow> set (xids c)))"

text \<open>No request is in progress, and only the given ones may be known.\<close>

definition session_ok :: "TransactionTracker \<Rightarrow> string \<Rightarrow> u32 set \<Rightarrow> bool" where
  "session_ok t client S \<longleftrightarrow> tracker_ok t [] \<and> 0 < tracker_max_active t \<and> seen t client \<subseteq> S"

lemma session_ok_new: "0 < m \<Longrightarrow> unat m < n \<Longrightarrow> session_ok (tracker_new r m n) client S"
  by (simp add: session_ok_def tracker_ok_def tracker_new_def seen_def)

lemma session_ok_mono: "session_ok t client S \<Longrightarrow> S \<subseteq> S' \<Longrightarrow> session_ok t client S'"
  by (auto simp: session_ok_def)

lemma add_transaction_xids:
  "add_transaction i now c = (r, c') \<Longrightarrow> set (xids c') \<subseteq> insert i (set (xids c))"
proof -
  assume a: "add_transaction i now c = (r, c')"
  have "set (map Transaction.xid (trim_loop n txs)) \<subseteq> set (map Transaction.xid txs)" for n txs
    using trim_loop_suffix [of txs n] by (metis map_append set_append sup.cobounded2)
  from this [of "trim_limit c"] a show ?thesis
    by (fastforce simp: add_transaction_def Let_def trim_if_needed_def in_progress_def
        dest: in_set_takeD in_set_dropD split: sum.splits if_splits)
qed

lemma complete_transaction_xids:
  assumes "client_ok c" "complete_transaction i now c = Some c'"
  shows "xids c' = xids c"
proof (cases "find_transaction i c")
  case (Inr p)
  then have "p < length (transactions c)" using find_transaction_Ok [OF client_okD [OF assms(1)]] by blast
  then show ?thesis using assms(2) Inr
    by (auto simp: complete_transaction_def Let_def transaction_complete_def xids_update
        split: if_splits TransactionState.splits option.splits)
qed (use assms(2) in \<open>auto simp: complete_transaction_def Let_def\<close>)

text \<open>A request with a new xid is admitted; when it is answered, the tracker is ready for the next.\<close>

lemma lock_client_new:
  assumes t: "tracker_ok t []" "0 < tracker_max_active t" and a: "map_of (clients t) client = Some a"
    and new: "i \<notin> seen t client"
  obtains l t' where "lock_client a i now t = Some (Ok l, t')" "tracker_max_active t' = tracker_max_active t"
    "seen t' client \<subseteq> insert i (seen t client)"
proof -
  obtain c where c: "store t a = Some c" "client_ok c" "live c = locks_at a []"
    "max_active_transactions c = tracker_max_active t"
    by (rule tracker_ok_record [OF t(1) map_of_client_addr [OF a]])
  have i: "i \<notin> set (xids c)" using new a c(1) by (simp add: seen_def)
  have "live c = {}" using c(3) by (simp add: locks_at_def)
  then have "active_transactions c = 0" using c(2) by (simp add: client_ok_def unat_eq_0)
  then have "active_transactions c < max_active_transactions c" using t(2) c(4) by simp
  then obtain c' where c': "add_transaction i now c = (Ok (), c')" by (rule add_transaction_new [OF c(2) i])
  show ?thesis
    by (rule that [of "\<lparr> lock_addr = a, lock_xid = i, lock_retention = retention_period t \<rparr>" "t\<lparr> store := (store t)(a \<mapsto> c') \<rparr>"])
       (use a c c' add_transaction_xids [OF c'] in \<open>auto simp: lock_client_def seen_def\<close>)
qed

lemma start_transaction_new:
  assumes "session_ok t client S" "i \<notin> S"
  obtains l t' where "start_transaction client i now t = Some (Ok l, t')" "tracker_ok t' [l]"
    "tracker_max_active t' = tracker_max_active t" "seen t' client \<subseteq> insert i S"
proof -
  have t: "tracker_ok t []" "0 < tracker_max_active t" "seen t client \<subseteq> S" using assms(1) by (simp_all add: session_ok_def)
  have "\<exists>l t'. start_transaction client i now t = Some (Ok l, t') \<and> tracker_max_active t' = tracker_max_active t \<and>
      seen t' client \<subseteq> insert i S"
  proof (cases "map_of (clients t) client")
    case (Some a)
    obtain l t' where "lock_client a i now t = Some (Ok l, t')" "tracker_max_active t' = tracker_max_active t"
      "seen t' client \<subseteq> insert i (seen t client)"
      by (rule lock_client_new [OF t(1,2) Some]) (use t(3) assms(2) in blast)
    then show ?thesis using t(3) by (auto simp: start_transaction_def start_read_def Some)
  next
    case None
    obtain c where c: "client_transactions_new now (tracker_max_active t) (tracker_trim_limit t) = Some c"
      using t(1) by (auto simp: client_transactions_new_def tracker_ok_def)
    let ?t = "t\<lparr> clients := (client, next_addr t) # clients t, store := (store t)(next_addr t \<mapsto> c), next_addr := next_addr t + 1 \<rparr>"
    have "seen ?t client = {}" using c by (auto simp: seen_def client_transactions_new_def split: if_splits)
    then obtain l t' where "lock_client (next_addr t) i now ?t = Some (Ok l, t')" "tracker_max_active t' = tracker_max_active t"
      "seen t' client \<subseteq> {i}"
      using t(2) by (auto intro: lock_client_new [OF tracker_ok_insert [OF t(1) None c], of client "next_addr t" i now])
    then show ?thesis by (auto simp: start_transaction_def start_read_def start_write_def None c)
  qed
  then show ?thesis using that start_transaction_ok [OF t(1), of client i now] by (auto simp: hold_def)
qed

lemma drop_lock_session:
  assumes "tracker_ok t [l]" "0 < tracker_max_active t" "seen t client \<subseteq> S" "drop_lock now l t = Some t'"
  shows "session_ok t' client S"
proof -
  have "tracker_ok t' []" using drop_lock_ok [OF assms(1), of l now] assms(4) by simp
  moreover obtain c where c: "store t (lock_addr l) = Some c" "client_ok c"
    using assms(1) by (auto simp: tracker_ok_def record_ok_def)
  moreover obtain c1 where c1: "complete_transaction (lock_xid l) now c = Some c1"
    "t' = t\<lparr> store := (store t)(lock_addr l \<mapsto> remove_old_transactions now (lock_retention l) c1) \<rparr>"
    using assms(4) c(1) by (auto simp: drop_lock_def split: option.splits)
  moreover have "set (xids (remove_old_transactions now k c1)) \<subseteq> set (xids c1)" for k
  proof -
    obtain ys where ys: "transactions c1 = ys @ remove_old_loop now k (transactions c1)"
      using remove_old_loop_suffix [of "transactions c1" now k] by blast
    show ?thesis by (rule subset_trans [OF _ eq_refl [OF arg_cong [OF ys [symmetric], where f = "\<lambda>txs. set (map Transaction.xid txs)"]]])
      (auto simp: remove_old_transactions_def)
  qed
  ultimately show ?thesis
    using assms(2,3) complete_transaction_xids [OF c(2) c1(1)]
    by (fastforce simp: session_ok_def seen_def split: option.splits)
qed

section \<open>Values that can be encoded\<close>

text \<open>Encoding a value can fail, if it has opaque data that is too long.\<close>

definition packs :: "'a codec \<Rightarrow> 'a \<Rightarrow> bool" where
  "packs c x \<longleftrightarrow> (\<forall>out. is_ok (pack c x out))"

lemma packsE:
  assumes "packs c x"
  obtains n bs where "pack c x out = Ok (n, bs)"
  using assms that by (auto simp: packs_def is_ok_iff)

lemma packs_fields [simp]: "packs a x \<Longrightarrow> packs b y \<Longrightarrow> packs (fields_codec a b) (x, y)"
  by (force simp: packs_def is_ok_iff fields_codec_def result_simps)

lemma packs_struct [simp]: "packs c (des r) \<Longrightarrow> packs (struct_codec con des c) r"
  by (simp add: packs_def struct_codec_def)

lemma packs_basic [simp]: "packs u32_codec x" "packs u64_codec y" "packs bool_codec b" "packs (u8_array_codec :: 'n::len u8_array codec) a"
  by (simp_all add: packs_def u64_codec_def bool_codec_def u8_array_codec_def Let_def)

lemma packs_opaque [simp]: "length x < 2 ^ 32 \<Longrightarrow> packs opaque_codec x"
  by (simp add: packs_def opaque_pack)

lemma packs_enums [simp]: "packs nfsstat3_codec st" "packs auth_flavor_codec fl" "packs ftype3_codec ty"
  by (simp_all add: packs_def nfsstat3_pack auth_flavor_pack ftype3_pack)

lemma packs_fattr3 [simp]: "packs fattr3_codec a"
  by (simp add: fattr3_codec_def specdata3_codec_def nfstime3_codec_def)

lemma packs_option [simp]: "(\<And>x. a = Some x \<Longrightarrow> packs c x) \<Longrightarrow> packs (nfs3_option_codec c) a"
  by (cases a) (force simp: packs_def is_ok_iff nfs3_option_codec_def complex_enum_codec_def field_payload_def unit_payload_def
      result_simps)+

lemma packs_list [simp]:
  assumes "\<And>x. x \<in> set xs \<Longrightarrow> packs c x"
  shows "packs (list_codec c) xs"
  unfolding packs_def
proof
  show "is_ok (pack (list_codec c) xs out)" for out
    using assms
  proof (induction xs arbitrary: out)
    case (Cons x xs)
    have "packs c x" by (simp add: Cons.prems)
    then obtain n bs where x: "pack c x (out @ to_be_bytes (1 :: u32)) = Ok (n, bs)" by (rule packsE)
    obtain n' bs' where "pack (list_codec c) xs bs = Ok (n', bs')" using Cons.IH [of bs] Cons.prems by (auto simp: is_ok_iff)
    then show ?case using x by (simp add: list_codec_def bool_codec_def)
  qed (simp add: list_codec_def bool_codec_def)
qed

lemma packs_result [simp]:
  assumes "packs ok v"
  shows "packs (nfs3_result_codec ok fail) (Nfs3Ok v)"
proof -
  have "packs (fields_codec nfsstat3_codec ok) (NFS3_OK, v)" using assms by simp
  then show ?thesis by (simp add: packs_def nfs3_result_pack)
qed

lemma pad4_less: "pad4 n < 4"
  by (simp add: pad4_def)

section \<open>Calls of a session\<close>

text \<open>
  The client whose connection is idle, with the file system of the server in the given state and
  a tracker that knows at most the given xids.
\<close>

definition ready :: "('s, 'h, 'i, 'p) RPCContext \<Rightarrow> u32 set \<Rightarrow> 's \<Rightarrow> 's loopback RpcClient \<Rightarrow> bool" where
  "ready ctx S s c \<longleftrightarrow> lb_request (rpc_io c) = [] \<and> lb_reply (rpc_io c) = [] \<and>
     session_ok (transaction_tracker (lb_server (rpc_io c))) (client_addr ctx) S \<and> vfs_state (lb_server (rpc_io c)) = s \<and>
     length (opaque_auth.body (rpc_credential c)) < 2 ^ 16 \<and> length (opaque_auth.body (rpc_verifier c)) < 2 ^ 16 \<and>
     (opaque_auth.flavor (rpc_credential c) = AUTH_UNIX \<longrightarrow>
        is_ok (unpack auth_unix_codec (opaque_auth.body (rpc_credential c))))"

lemma call_packs:
  assumes "length (opaque_auth.body cr) < 2 ^ 16" "length (opaque_auth.body vr) < 2 ^ 16"
  obtains k h where "pack rpc_msg_codec \<lparr> rpc_msg.xid = i, rpc_msg.body = CALL \<lparr> call_body.rpcvers = rv, call_body.prog = prg,
      call_body.vers = vs, call_body.proc = prc, call_body.cred = cr, call_body.verf = vr \<rparr> \<rparr> [] = Ok (k, h)"
    "length h < 2 ^ 20"
proof -
  let ?call = "\<lparr> call_body.rpcvers = rv, call_body.prog = prg, call_body.vers = vs, call_body.proc = prc,
      call_body.cred = cr, call_body.verf = vr \<rparr>"
  let ?m = "\<lparr> rpc_msg.xid = i, rpc_msg.body = CALL ?call \<rparr>"
  have "packs call_body_codec ?call" using assms by (simp add: call_body_codec_def opaque_auth_codec_def)
  then have "packs msg_body_codec (CALL ?call)"
    by (force simp: packs_def is_ok_iff msg_body_codec_def complex_enum_codec_def field_payload_def result_simps)
  then have "packs rpc_msg_codec ?m" by (simp add: rpc_msg_codec_def)
  then obtain k h where h: "pack rpc_msg_codec ?m [] = Ok (k, h)" by (rule packsE)
  have "packed_size rpc_msg_codec ?m < 2 ^ 20"
    using assms pad4_less [of "length (opaque_auth.body cr)"] pad4_less [of "length (opaque_auth.body vr)"]
    by (simp add: rpc_msg_codec_def msg_body_codec_def call_body_codec_def opaque_auth_codec_def
      complex_enum_codec_def field_payload_def opaque_packed_size)
  then show ?thesis using that h rpc_msg.pack_size [OF h] by simp
qed

lemma session_call:
  assumes c: "ready ctx S s c" "rpc_xid c \<notin> S"
    and "xdr_codec cc" "xdr_codec_on cr R"
    and "\<And>cred vrf. serves ctx \<lparr> call_body.rpcvers = RPC_VERSION_2, call_body.prog = prg, call_body.vers = vs,
      call_body.proc = prc, call_body.cred = cred, call_body.verf = vrf \<rparr> cc cr handler"
    and "pack cc a [] = Ok (n, bs)" "length bs < 2 ^ 30"
    and "\<And>au. handler (ctx\<lparr> auth := au \<rparr>) (rpc_xid c) a s = Some (r, s')"
    and "R r" "pack cr r [] = Ok (n', out)" "length out < 2 ^ 30"
  obtains c' where "rpc_call (loopback_io now later ctx) cc cr prg vs prc a c = Some (Ok r, c')"
    "ready ctx (insert (rpc_xid c) S) s' c'" "rpc_xid c' = rpc_xid c + 1"
proof -
  let ?st = "lb_server (rpc_io c)"
  let ?call = "\<lparr> call_body.rpcvers = RPC_VERSION_2, call_body.prog = prg, call_body.vers = vs,
      call_body.proc = prc, call_body.cred = rpc_credential c, call_body.verf = rpc_verifier c \<rparr>"
  have rdy: "lb_request (rpc_io c) = []" "lb_reply (rpc_io c) = []" "vfs_state ?st = s"
    "session_ok (transaction_tracker ?st) (client_addr ctx) S" using c(1) by (simp_all add: ready_def)
  have body: "length (opaque_auth.body (rpc_credential c)) < 2 ^ 16" "length (opaque_auth.body (rpc_verifier c)) < 2 ^ 16"
    using c(1) unfolding ready_def by blast+
  obtain k h where h: "pack rpc_msg_codec \<lparr> rpc_msg.xid = rpc_xid c, rpc_msg.body = CALL ?call \<rparr> [] = Ok (k, h)" "length h < 2 ^ 20"
    by (rule call_packs [OF body])
  obtain l t where t: "start_transaction (client_addr ctx) (rpc_xid c) now (transaction_tracker ?st) = Some (Ok l, t)"
    "tracker_ok t [l]" "tracker_max_active t = tracker_max_active (transaction_tracker ?st)"
    "seen t (client_addr ctx) \<subseteq> insert (rpc_xid c) S" by (rule start_transaction_new [OF rdy(4) c(2)])
  have tok: "tracker_ok (transaction_tracker ?st) []" "0 < tracker_max_active t" using rdy(4) t(3) by (simp_all add: session_ok_def)
  obtain hdr st' where reply: "handle_rpc_message now later ctx (h @ bs) ?st = Some (Ok (Reply (hdr @ out)), st')"
    "vfs_state st' = s'" "drop_lock later l t = Some (transaction_tracker st')"
    "pack rpc_msg_codec (accepted (rpc_xid c) SUCCESS) [] = Ok (24, hdr)" "length hdr = 24"
    using served_call [OF assms(3-5) h(1) assms(6) _ _ tok(1) t(1) _ assms(10), where later = later] assms(8) c(1) rdy(3)
    by (auto simp: ready_def)
  have "decode_reply cr (rpc_xid c) (hdr @ out) = Ok r"
    using xdr_codec_on.unpack_pack [OF assms(4,9,10), of "[]"] rpc_msg.unpack_pack [OF reply(4), of out]
    by (simp add: decode_reply_def accepted_def)
  moreover have "length (hdr @ out) < 2 ^ 31" "hdr @ out \<noteq> []" "length (h @ bs) < 2 ^ 31" using reply(5) assms(7,11) h(2) by auto
  ultimately obtain c' where c': "rpc_call (loopback_io now later ctx) cc cr prg vs prc a c = Some (Ok r, c')"
    "rpc_io c' = \<lparr> lb_server = st', lb_request = [], lb_reply = [] \<rparr>" "rpc_xid c' = rpc_xid c + 1"
    "rpc_credential c' = rpc_credential c" "rpc_verifier c' = rpc_verifier c"
    using loopback_call [OF assms(3) h(1) assms(6) _ rdy(1,2) reply(1), of cr] by auto
  have "session_ok (transaction_tracker st') (client_addr ctx) (insert (rpc_xid c) S)"
    by (rule drop_lock_session [OF t(2) tok(2) t(4) reply(3)])
  then show ?thesis using that c' c(1) reply(2) by (simp add: ready_def)
qed

text \<open>The example client has not called the server yet.\<close>

lemma example_ready: "ready example_ctx {} example_memfs example_client"
proof -
  have "session_ok (tracker_new 60 2 4) (client_addr example_ctx) {}" by (rule session_ok_new) simp_all
  then show ?thesis by (simp add: ready_def example_client_def rpc_client_new_def example_state_def opaque_auth_default_def)
qed

end
