(* ===== verification/Client_Download_Props.thy ===== *)
theory Client_Download_Props
  imports Client_Download Client_Session
begin

text \<open>
  The download of a file from the server: the client's program and the server together.  The
  locale \<open>served_file\<close> is what the download needs of the READ procedure of a server; the
  in-memory file system provides it.
\<close>

section \<open>Reading a file chunk by chunk\<close>

locale served_file =
  fixes ctx :: "('s, 'h, 'i, 'p) RPCContext" and holds :: "'s \<Rightarrow> nfs_fh3 \<Rightarrow> bytes \<Rightarrow> bool"
  assumes short_handle: "holds s fh bs \<Longrightarrow> length (nfs_fh3.data fh) < 2 ^ 16"
    and read: "holds s fh bs \<Longrightarrow> unat off + unat cnt < 2 ^ 64 \<Longrightarrow>
      \<exists>fa. \<forall>au x. nfsproc3_read (ctx\<lparr> auth := au \<rparr>) x \<lparr> READ3args.file' = fh, READ3args.offset = off, READ3args.count = cnt \<rparr> s =
        Some (Nfs3Ok \<lparr> READ3resok.file_attributes = fa,
          READ3resok.count = of_nat (length (take (unat cnt) (drop (unat off) bs))),
          READ3resok.eof = (length bs \<le> unat off + unat cnt),
          READ3resok.data = take (unat cnt) (drop (unat off) bs) \<rparr>, s)"

lemma READ3args_packs:
  assumes "length (nfs_fh3.data fh) < 2 ^ 16"
  obtains n bs where "pack READ3args_codec \<lparr> READ3args.file' = fh, READ3args.offset = off, READ3args.count = cnt \<rparr> [] = Ok (n, bs)"
    "length bs < 2 ^ 30"
proof -
  let ?a = "\<lparr> READ3args.file' = fh, READ3args.offset = off, READ3args.count = cnt \<rparr>"
  have "packs READ3args_codec ?a" using assms by (simp add: READ3args_codec_def nfs_fh3_codec_def)
  then obtain n bs where p: "pack READ3args_codec ?a [] = Ok (n, bs)" by (rule packsE)
  have "packed_size READ3args_codec ?a < 2 ^ 30"
    using assms pad4_less [of "length (nfs_fh3.data fh)"] by (simp add: READ3args_codec_def nfs_fh3_codec_def opaque_packed_size)
  then show ?thesis using that p xdr_codec.pack_size [OF total_codec_xdr [OF READ3args_codec_lawful] p] by simp
qed

lemma READ3res_packs:
  assumes "length (READ3resok.data r) < 2 ^ 20"
  obtains n bs where "pack READ3res_codec (Nfs3Ok r) [] = Ok (n, bs)" "length bs < 2 ^ 30"
proof -
  have "packs READ3res_codec (Nfs3Ok r)" using assms by (simp add: READ3res_codec_def READ3resok_codec_def)
  then obtain n bs where p: "pack READ3res_codec (Nfs3Ok r) [] = Ok (n, bs)" by (rule packsE)
  have "packed_size READ3res_codec (Nfs3Ok r) < 2 ^ 30"
    using assms pad4_less [of "length (READ3resok.data r)"] by (cases "READ3resok.file_attributes r")
      (simp_all add: READ3res_codec_def nfs3_result_codec_def READ3resok_codec_def nfs3_option_codec_def complex_enum_codec_def
        field_payload_def unit_payload_def opaque_packed_size bool_codec_def)
  then show ?thesis using that p READ3res.pack_size [OF p] by simp
qed

text \<open>The server answers READ.\<close>

lemma read_served:
  "serves ctx \<lparr> call_body.rpcvers = RPC_VERSION_2, call_body.prog = Nfs3_Types.PROGRAM, call_body.vers = Nfs3_Types.VERSION,
     call_body.proc = NFS_PROGRAM_as_u32 NFSPROC3_READ, call_body.cred = cr, call_body.verf = vr \<rparr>
     READ3args_codec READ3res_codec nfsproc3_read"
  by (simp add: serves_def dispatch_def program_numbers handle_nfs_def NFS_PROGRAM_try_from_def)

context served_file
begin

lemma read_chunk_served:
  assumes "ready ctx S s (dl_client d)" "rpc_xid (dl_client d) \<notin> S" "holds s fh bs" "unat off + unat CHUNK < 2 ^ 64"
  obtains r c where "read_chunk (loopback_io now later ctx) fh off d = Some (Ok r, d\<lparr> dl_client := c \<rparr>)"
    "READ3resok.data r = take (unat CHUNK) (drop (unat off) bs)" "READ3resok.eof r = (length bs \<le> unat off + unat CHUNK)"
    "ready ctx (insert (rpc_xid (dl_client d)) S) s c" "rpc_xid c = rpc_xid (dl_client d) + 1"
proof -
  let ?a = "\<lparr> READ3args.file' = fh, READ3args.offset = off, READ3args.count = CHUNK \<rparr>"
  obtain fa where fa: "\<And>au x. nfsproc3_read (ctx\<lparr> auth := au \<rparr>) x ?a s = Some (Nfs3Ok \<lparr> READ3resok.file_attributes = fa,
      READ3resok.count = of_nat (length (take (unat CHUNK) (drop (unat off) bs))),
      READ3resok.eof = (length bs \<le> unat off + unat CHUNK), READ3resok.data = take (unat CHUNK) (drop (unat off) bs) \<rparr>, s)"
    using read [OF assms(3,4)] by blast
  define r where "r = \<lparr> READ3resok.file_attributes = fa,
      READ3resok.count = of_nat (length (take (unat CHUNK) (drop (unat off) bs))),
      READ3resok.eof = (length bs \<le> unat off + unat CHUNK), READ3resok.data = take (unat CHUNK) (drop (unat off) bs) \<rparr>"
  obtain n b where a: "pack READ3args_codec ?a [] = Ok (n, b)" "length b < 2 ^ 30"
    by (rule READ3args_packs [OF short_handle [OF assms(3)]])
  have "length (READ3resok.data r) < 2 ^ 20" by (simp add: r_def CHUNK_def)
  then obtain n' out where o: "pack READ3res_codec (Nfs3Ok r) [] = Ok (n', out)" "length out < 2 ^ 30" by (rule READ3res_packs)
  obtain c where "rpc_call (loopback_io now later ctx) READ3args_codec READ3res_codec Nfs3_Types.PROGRAM Nfs3_Types.VERSION
      (NFS_PROGRAM_as_u32 NFSPROC3_READ) ?a (dl_client d) = Some (Ok (Nfs3Ok r), c)"
    "ready ctx (insert (rpc_xid (dl_client d)) S) s c" "rpc_xid c = rpc_xid (dl_client d) + 1"
    by (rule session_call [OF assms(1,2) total_codec_xdr [OF READ3args_codec_lawful] READ3res.xdr_codec_on_axioms read_served a
        _ _ o, of s]) (simp_all add: fa r_def nfs3_result_ok_def)
  then show ?thesis
    by (intro that [of r c]) (simp_all add: read_chunk_def nfs_read_def nfs_call_def on_client_def await_ok_def await_def ret_def r_def)
qed

lemma download_loop_served:
  assumes "holds s fh bs" "length bs < 2 ^ 48"
    and wr: "\<And>b w. \<exists>w'. local_write_all lfs file b w = (Ok (), w') \<and> written w' = written w @ b"
  shows "ready ctx S s (dl_client d) \<Longrightarrow> unat off \<le> length bs \<Longrightarrow>
    \<forall>k \<le> (length bs - unat off) div unat CHUNK. rpc_xid (dl_client d) + of_nat k \<notin> S \<Longrightarrow>
    \<exists>d'. download_loop (loopback_io now later ctx) lfs file fh off d = Some (Ok (), d') \<and>
      written (dl_local d') = written (dl_local d) @ drop (unat off) bs"
proof (induction "length bs - unat off" arbitrary: off d S rule: less_induct)
  case less
  have C: "unat CHUNK = 131072" by (simp add: CHUNK_def)
  have xid: "rpc_xid (dl_client d) \<notin> S" using less.prems(3) [rule_format, of 0] by simp
  have room: "unat off + unat CHUNK < 2 ^ 64" using less.prems(2) assms(2) by (simp add: C)
  obtain r c where r: "read_chunk (loopback_io now later ctx) fh off d = Some (Ok r, d\<lparr> dl_client := c \<rparr>)"
    "READ3resok.data r = take (unat CHUNK) (drop (unat off) bs)" "READ3resok.eof r = (length bs \<le> unat off + unat CHUNK)"
    "ready ctx (insert (rpc_xid (dl_client d)) S) s c" "rpc_xid c = rpc_xid (dl_client d) + 1"
    by (rule read_chunk_served [OF less.prems(1) xid assms(1) room])
  obtain w where w: "local_write_all lfs file (READ3resok.data r) (dl_local d) = (Ok (), w)"
    "written w = written (dl_local d) @ READ3resok.data r" using wr by blast
  let ?d = "d\<lparr> dl_client := c, dl_local := w \<rparr>" and ?off = "off + of_nat (length (READ3resok.data r))"
  have small: "unat off + length (READ3resok.data r) < 2 ^ 64" using room by (simp add: r(2))
  have step: "download_loop (loopback_io now later ctx) lfs file fh off d =
      (if READ3resok.eof r then Some (Ok (), ?d) else download_loop (loopback_io now later ctx) lfs file fh ?off ?d)"
    using small by (subst download_loop.simps) (simp add: await_ok_def await_def on_local_def r(1) w(1))
  show ?case
  proof (cases "READ3resok.eof r")
    case True
    then show ?thesis using step r(2,3) w(2) by simp
  next
    case False
    then have lt: "unat off + 131072 < length bs" using r(3) by (simp add: C)
    have len: "length (READ3resok.data r) = 131072" using lt by (simp add: r(2) C)
    have off: "unat ?off = unat off + 131072" using lt assms(2) by (simp add: len unat_word_ariths)
    have div: "(length bs - unat ?off) div unat CHUNK = (length bs - unat off) div unat CHUNK - 1"
      using lt by (simp add: off C div_if)
    have "rpc_xid c + of_nat k \<notin> insert (rpc_xid (dl_client d)) S" if k: "k \<le> (length bs - unat ?off) div unat CHUNK" for k
    proof -
      have "Suc k \<le> (length bs - unat off) div unat CHUNK" "Suc k < 2 ^ 32"
        using k lt assms(2) unfolding div by (simp_all add: C)
      then have "rpc_xid (dl_client d) + of_nat (Suc k) \<notin> S" "(of_nat (Suc k) :: u32) \<noteq> 0"
        using less.prems(3) by (blast, simp del: of_nat_Suc add: word_of_nat_eq_0_iff nat_dvd_not_less)
      then show ?thesis by (simp add: r(5) add.assoc)
    qed
    moreover have "length bs - unat ?off < length bs - unat off" "unat ?off \<le> length bs" using lt off by auto
    ultimately obtain d' where d': "download_loop (loopback_io now later ctx) lfs file fh ?off ?d = Some (Ok (), d')"
      "written (dl_local d') = written w @ drop (unat ?off) bs"
      using less.hyps [of ?off "insert (rpc_xid (dl_client d)) S" ?d] r(4) by auto
    have "written w = written (dl_local d) @ take 131072 (drop (unat off) bs)" using w(2) r(2) by (simp add: C)
    moreover have "take 131072 (drop (unat off) bs) @ drop (unat off + 131072) bs = drop (unat off) bs"
      by (metis add.commute append_take_drop_id drop_drop)
    ultimately have "written (dl_local d') = written (dl_local d) @ drop (unat off) bs" using d'(2) unfolding off by simp
    then show ?thesis using step False d'(1) by simp
  qed
qed

lemma download_file_served:
  assumes "holds s fh bs" "length bs < 2 ^ 48" "ready ctx S s (dl_client d)"
    and "\<forall>k \<le> length bs div unat CHUNK. rpc_xid (dl_client d) + of_nat k \<notin> S"
    and "local_file_create lfs path (dl_local d) = (Ok file, w)" "written w = []"
    and "\<And>b w. \<exists>w'. local_write_all lfs file b w = (Ok (), w') \<and> written w' = written w @ b"
  shows "\<exists>d'. download_file (loopback_io now later ctx) lfs fh path d = Some (Ok (), d') \<and> written (dl_local d') = bs"
proof -
  have "\<exists>d'. download_loop (loopback_io now later ctx) lfs file fh 0 (d\<lparr> dl_local := w \<rparr>) = Some (Ok (), d') \<and>
      written (dl_local d') = bs"
    using download_loop_served [OF assms(1,2,7), where d = "d\<lparr> dl_local := w \<rparr>" and off = 0] assms(3,4,6) by simp
  then show ?thesis using assms(5) by (auto simp: download_file_def on_local_def await_ok_def await_def)
qed

end

section \<open>Files of the in-memory file system\<close>

definition memfs_holds :: "('s, 'h, 'i, 'p) RPCContext \<Rightarrow> MemFs \<Rightarrow> nfs_fh3 \<Rightarrow> bytes \<Rightarrow> bool" where
  "memfs_holds ctx m fh bs \<longleftrightarrow> length (nfs_fh3.data fh) < 2 ^ 16 \<and>
     (\<exists>i f. fh_from_nfs FileHandleU64_ops (file_handle_converter ctx) fh = Ok i \<and>
        Fs.entries (fs m) i = Some (EFile f) \<and> File.content f = bs)"

interpretation memfs_file: served_file "ctx\<lparr> vfs := memfs env \<rparr>" "memfs_holds ctx" for ctx env
proof unfold_locales
  fix m fh bs and off :: u64 and cnt :: u32
  assume h: "memfs_holds ctx m fh bs" "unat off + unat cnt < 2 ^ 64"
  then obtain i f where f: "fh_from_nfs FileHandleU64_ops (file_handle_converter ctx) fh = Ok i"
    "Fs.entries (fs m) i = Some (EFile f)" "File.content f = bs" by (auto simp: memfs_holds_def)
  have "file_read f off cnt = Some (take (unat cnt) (drop (unat off) bs), length bs \<le> unat off + unat cnt)"
    using h(2) f(3) by (auto simp: file_read_def Let_def)
  moreover have "length (take (unat cnt) (drop (unat off) bs)) < 2 ^ 32"
    using unsigned_less [of cnt] by (simp add: min_less_iff_disj)
  ultimately show "\<exists>fa. \<forall>au x. nfsproc3_read (ctx\<lparr> vfs := memfs env, auth := au \<rparr>) x
      \<lparr> READ3args.file' = fh, READ3args.offset = off, READ3args.count = cnt \<rparr> m =
      Some (Nfs3Ok \<lparr> READ3resok.file_attributes = fa,
        READ3resok.count = of_nat (length (take (unat cnt) (drop (unat off) bs))),
        READ3resok.eof = (length bs \<le> unat off + unat cnt), READ3resok.data = take (unat cnt) (drop (unat off) bs) \<rparr>, m)"
    using f by (intro exI [of _ "Some (File.attr f)"])
      (simp add: nfsproc3_read_def fh_to_id_def memfs_def await_def ret_def memfs_getattr_def read_fs_def memfs_read_def
        nfs_option_from_result_def u32_try_from_def Let_def)
qed (simp add: memfs_holds_def)

section \<open>Properties\<close>

text \<open>
  C8: a client that downloads a file from a server with the in-memory file system, over as many READ
  calls as it takes, comes to an end and has written the file's content, and nothing else, to the
  local file.  The transaction tracker must not know the xids that the download uses.
\<close>

theorem download_file_complete:
  fixes ctx :: "(MemFs, FileHandleU64, MemFsIterator, MemFsIterator) RPCContext" and c :: "MemFs loopback RpcClient"
    and written :: "'w \<Rightarrow> bytes"
  assumes "fh_from_nfs FileHandleU64_ops (file_handle_converter ctx) fh = Ok i" "length (nfs_fh3.data fh) \<le> 64"
    and "Fs.entries (fs m) i = Some (EFile f)" "length (File.content f) < 2 ^ 48"
    and "ready (ctx\<lparr> vfs := memfs env \<rparr>) S m c"
    and "\<forall>k \<le> length (File.content f) div 2 ^ 17. rpc_xid c + of_nat k \<notin> S"
    and "local_file_create lfs path w = (Ok file, w0)" "written w0 = []"
    and "\<And>b w. \<exists>w'. local_write_all lfs file b w = (Ok (), w') \<and> written w' = written w @ b"
  shows "\<exists>d'. download_file (loopback_io now later (ctx\<lparr> vfs := memfs env \<rparr>)) lfs fh path
      \<lparr> dl_client = c, dl_local = w \<rparr> = Some (Ok (), d') \<and> written (dl_local d') = File.content f"
proof -
  have "memfs_holds ctx m fh (File.content f)" using assms(1-3) by (auto simp: memfs_holds_def)
  from memfs_file.download_file_served [OF this assms(4), where d = "\<lparr> dl_client = c, dl_local = w \<rparr>" and written = written]
  show ?thesis using assms(5-9) by (simp add: CHUNK_def)
qed

text \<open>A local file system with one file, whose content is the state.\<close>

definition one_file :: "bytes local_fs" where
  "one_file = \<lparr> local_create_dir_all = (\<lambda>p w. (Ok (), w)), local_file_create = (\<lambda>p w. (Ok 3, [])),
     local_write_all = (\<lambda>f b w. (Ok (), w @ b)) \<rparr>"

theorem download_file_complete_witness:
  "\<exists>d'. download_file (loopback_io 0 1 example_ctx) one_file (example_fh 2) [120]
     \<lparr> dl_client = example_client, dl_local = [0] \<rparr> = Some (Ok (), d') \<and> dl_local d' = [104, 105]"
proof -
  let ?f = "file_new example_now [97] 2 [104, 105] (Array (replicate 8 0))"
  have f: "Fs.entries (fs example_memfs) 2 = Some (EFile ?f)" by (simp add: example_memfs_def)
  have fh: "fh_from_nfs FileHandleU64_ops (file_handle_converter example_ctx) (example_fh 2) = Ok 2" by simp
  have len: "length (nfs_fh3.data (example_fh 2)) \<le> 64" by (simp add: example_fh_def fh_to_nfs_def file_handle_converter_new_def)
  have c: "ready (example_ctx\<lparr> vfs := memfs example_env \<rparr>) {} example_memfs example_client" using example_ready by simp
  have "local_file_create one_file [120] [0] = (Ok 3, [])" by (simp add: one_file_def)
  from download_file_complete [OF fh len f _ c _ this, where written = "\<lambda>w. w" and now = 0 and later = 1]
  show ?thesis by (simp add: one_file_def file_new_def)
qed

section \<open>Names from the server\<close>

lemma from_utf8_lossy_ascii: "\<forall>b \<in> set bs. b < 0x80 \<Longrightarrow> from_utf8_lossy bs = bs"
  by (induction bs) (simp_all add: utf8_chunk_def utf8_width_def)

text \<open>
  The names of a listing are not checked: a file whose name begins with a slash is written to
  the path of that name, wherever the local folder is.
\<close>

lemma absolute_entry_escapes:
  assumes "entryplus3.name e = 47 # nm" "\<forall>b \<in> set nm. b < 0x80"
    and "entryplus3.name_handle e = Some fh" "entryplus3.name_attributes e = Some a" "fattr3.type' a \<noteq> NF3DIR"
  shows "download_entry ops lfs local_path folder_fh e queue =
    await_ok (download_file ops lfs fh (47 # nm)) (\<lambda>_. ret (Ok queue))"
proof -
  have "from_utf8_lossy (47 # nm) = 47 # nm" using assms(2) by (intro from_utf8_lossy_ascii) simp
  then show ?thesis
    using assms by (simp add: download_entry_def Let_def entry_handle_def path_push_def await_ok_def [of "ret _"])
qed

end
