(* ===== verification/Client_Ls.thy ===== *)
theory Client_Ls
  imports Client_Download
begin

text \<open>
  The client program that lists the root directory of a server
  (\<^verbatim>\<open>nfs3_client/examples/ls.rs\<close>), once with READDIR and once with READDIRPLUS.  What it prints
  is the result of the loops; the layout of the lines is left out.
\<close>

section \<open>READDIR\<close>

definition ls_page ::
  "'io async_io \<Rightarrow> nfs_fh3 \<Rightarrow> cookie3 \<Rightarrow> cookieverf3 \<Rightarrow> ('io RpcClient, client_error + READDIR3resok) prog" where
  "ls_page ops root c v =
     await_ok (nfs_readdir ops \<lparr> READDIR3args.dir = root, READDIR3args.cookie = c, READDIR3args.cookieverf = v,
       READDIR3args.count = CHUNK \<rparr>) unwrap"

text \<open>The names printed so far are the last argument but one.  An empty page that is not the last one panics.\<close>

partial_function (option) ls_readdir ::
  "'io async_io \<Rightarrow> nfs_fh3 \<Rightarrow> cookie3 \<Rightarrow> cookieverf3 \<Rightarrow> bytes list \<Rightarrow> 'io RpcClient \<Rightarrow>
     ((client_error + bytes list) \<times> 'io RpcClient) option" where
  "ls_readdir ops root c v printed s =
     await_ok (ls_page ops root c v) (\<lambda>r s.
       if dirlist3.eof (READDIR3resok.reply r)
       then Some (Ok (printed @ map (\<lambda>e. from_utf8_lossy (entry3.name e)) (dirlist3.entries (READDIR3resok.reply r))), s)
       else if dirlist3.entries (READDIR3resok.reply r) = [] then None
       else ls_readdir ops root (entry3.cookie (last (dirlist3.entries (READDIR3resok.reply r)))) (READDIR3resok.cookieverf r)
         (printed @ map (\<lambda>e. from_utf8_lossy (entry3.name e)) (dirlist3.entries (READDIR3resok.reply r))) s) s"

section \<open>READDIRPLUS\<close>

definition ls_page_plus ::
  "'io async_io \<Rightarrow> nfs_fh3 \<Rightarrow> cookie3 \<Rightarrow> cookieverf3 \<Rightarrow> ('io RpcClient, client_error + READDIRPLUS3resok) prog" where
  "ls_page_plus ops root c v =
     await_ok (nfs_readdirplus ops \<lparr> READDIRPLUS3args.dir = root, READDIRPLUS3args.cookie = c, READDIRPLUS3args.cookieverf = v,
       READDIRPLUS3args.dircount = CHUNK, READDIRPLUS3args.maxcount = CHUNK \<rparr>) unwrap"

text \<open>
  A line: the name, whether it is a directory, the size, and the time as seconds and nanoseconds
  since the epoch, after the carry of \<^verbatim>\<open>Duration::new\<close>.
\<close>

type_synonym ls_line = "bytes \<times> bool \<times> u64 \<times> (nat \<times> nat)"

definition duration_new :: "nat \<Rightarrow> nat \<Rightarrow> nat \<times> nat" where
  "duration_new secs nanos = (secs + nanos div 1000000000, nanos mod 1000000000)"

definition ls_line :: "entryplus3 \<Rightarrow> ls_line" where
  "ls_line e =
     (let nm = from_utf8_lossy (entryplus3.name e) in
      case entryplus3.name_attributes e of
        Some attrs \<Rightarrow> (nm, fattr3.type' attrs = NF3DIR, fattr3.size attrs,
          duration_new (unat (nfstime3.seconds (fattr3.mtime attrs))) (unat (nfstime3.nseconds (fattr3.mtime attrs))))
      | None \<Rightarrow> (nm, False, 0, (0, 0)))"

partial_function (option) ls_readdirplus ::
  "'io async_io \<Rightarrow> nfs_fh3 \<Rightarrow> cookie3 \<Rightarrow> cookieverf3 \<Rightarrow> ls_line list \<Rightarrow> 'io RpcClient \<Rightarrow>
     ((client_error + ls_line list) \<times> 'io RpcClient) option" where
  "ls_readdirplus ops root c v printed s =
     await_ok (ls_page_plus ops root c v) (\<lambda>r s.
       if dirlistplus3.eof (READDIRPLUS3resok.reply r)
       then Some (Ok (printed @ map ls_line (dirlistplus3.entries (READDIRPLUS3resok.reply r))), s)
       else if dirlistplus3.entries (READDIRPLUS3resok.reply r) = [] then None
       else ls_readdirplus ops root (entryplus3.cookie (last (dirlistplus3.entries (READDIRPLUS3resok.reply r))))
         (READDIRPLUS3resok.cookieverf r) (printed @ map ls_line (dirlistplus3.entries (READDIRPLUS3resok.reply r))) s) s"

section \<open>The program\<close>

text \<open>\<^verbatim>\<open>main\<close> from the mounted connection on.\<close>

definition ls_main :: "'io async_io \<Rightarrow> 'io Nfs3Connection \<Rightarrow> (client_error + bytes list \<times> ls_line list) option" where
  "ls_main ops connection =
     (let root = root_nfs_fh3 connection; start = Array (replicate 8 0) in
      case await_ok (ls_readdir ops root 0 start []) (\<lambda>names.
          await_ok (ls_readdirplus ops root 0 start []) (\<lambda>lines. ret (Ok (names, lines)))) (conn_nfs3_client connection) of
        None \<Rightarrow> None
      | Some (Err e, c) \<Rightarrow> Some (Err e)
      | Some (Ok out, c) \<Rightarrow>
          (case unmount ops (connection\<lparr> conn_nfs3_client := c \<rparr>) of
             None \<Rightarrow> None
           | Some (Err e) \<Rightarrow> Some (Err e)
           | Some (Ok ()) \<Rightarrow> Some (Ok out)))"

text \<open>The whole program, with what it prints; without enough arguments it prints nothing of a directory.\<close>

definition ls_program ::
  "'io async_io \<Rightarrow> ('addr, 'io, 'n) Connector \<Rightarrow> u32 \<times> u32 \<times> u32 \<Rightarrow> string list \<Rightarrow> 'n net \<Rightarrow>
     (client_error + bytes list \<times> ls_line list) option" where
  "ls_program ops conn random as n =
     (if length as < 3 then Some (Ok ([], []))
      else
        (case client_builder (as ! 1) (as ! 2) (args_get as 3) of
           None \<Rightarrow> None
         | Some b \<Rightarrow>
             (case builder_mount ops conn (fst random) (fst (snd random)) (snd (snd random)) b n of
                None \<Rightarrow> None
              | Some (Err e, n') \<Rightarrow> Some (Err e)
              | Some (Ok connection, n') \<Rightarrow> ls_main ops connection)))"

end
