(* ===== verification/Client_Ls_Props.thy ===== *)
theory Client_Ls_Props
  imports Client_Ls Client_Session
begin

text \<open>
  The listing of a directory of the in-memory file system by the client's program, over a
  connection to the server.
\<close>

section \<open>The answers of READDIR\<close>

lemma readdir_loop_vfs:
  "vfs ctx' = vfs ctx \<Longrightarrow> readdir_loop ctx' l it s = readdir_loop ctx l it s"
proof (induction ctx l it s rule: readdir_loop.induct)
  case (1 ctx l it s)
  then show ?case
    by (subst (1 2) readdir_loop.simps) (auto simp: Let_def split: option.splits NextResult.splits)
qed

lemma readdir_auth: "nfsproc3_readdir (ctx\<lparr> auth := au \<rparr>) x a s = nfsproc3_readdir ctx x a s"
proof -
  have loop: "readdir_loop (ctx\<lparr> auth := au \<rparr>) = readdir_loop ctx" by (intro ext readdir_loop_vfs) simp
  have "vfs (ctx\<lparr> auth := au \<rparr>) = vfs ctx" "file_handle_converter (ctx\<lparr> auth := au \<rparr>) = file_handle_converter ctx" by simp_all
  then show ?thesis unfolding nfsproc3_readdir_def fh_to_id_def loop by (simp only:)
qed

text \<open>The server answers a page of a directory whose names are not too long for one.\<close>

definition short_names :: "MemFs \<Rightarrow> FileHandleU64 list \<Rightarrow> bool" where
  "short_names m is \<longleftrightarrow> (\<forall>i \<in> set is. length (entry_name (the (Fs.entries (fs m) i))) < 2 ^ 16)"

lemma memfs_first_entry:
  assumes "iter_left (fs m) it = i # is" "length (entry_name (the (Fs.entries (fs m) i))) < 2 ^ 16" "2 ^ 16 + 64 \<le> mx"
  shows "\<exists>l e. readdir_loop (ctx\<lparr> vfs := memfs env \<rparr>) (bounded_list_new entry3_codec mx) it m = Some (Ok (l, e), m) \<and> bl_list l \<noteq> []"
proof -
  let ?ctx = "ctx\<lparr> vfs := memfs env \<rparr>" and ?e = "dir_entry i (the (Fs.entries (fs m) i))"
  let ?p = "try_push entry3_codec ?e (bounded_list_new entry3_codec mx)"
  obtain it' where n: "vfs_readdir_next (vfs ?ctx) it m = Some ((NextOk ?e, it'), m)"
    using memfs_readdir.next_ok [of m it ?e, where ctx = ctx and env = env] assms(1) by auto
  have "pad4 k < 4" for k by (simp add: pad4_def)
  from this [of "length (entry_name (the (Fs.entries (fs m) i)))"]
  have ok: "is_ok (fst ?p)" "bl_list (snd ?p) = [?e]"
    using assms(2,3) by (simp_all add: try_push_def bounded_list_new_def Let_def entry3_codec_def struct_codec_def
      fields_codec_def filename3_codec_def opaque_packed_size dir_entry_def list_codec_def)
  obtain k l where "readdir_loop ?ctx (snd ?p) it' m = Some (Ok (l, k), m)" "\<exists>es. bl_list l = ?e # es"
    using memfs_readdir.readdir_loop_prefix [where ctx = ctx and env = env and l = "snd ?p" and it = it' and s = m] ok(2) by auto
  then show ?thesis using readdir_loop_step [OF n, of "bounded_list_new entry3_codec mx"] ok(1) by (auto simp: Let_def)
qed

lemma memfs_readdir_answers:
  assumes m: "memfs_ok m" and d: "Fs.entries (fs m) d = Some (EDir dd)"
    and fh: "fh_from_nfs FileHandleU64_ops (file_handle_converter ctx) fh = Ok d"
    and rest: "after_cookie (Dir.content dd) c rest" "short_names m rest"
    and v: "v = (if c = 0 then NONE_COOKIE_VERF else cookieverf_from_attr (Some (Dir.attr dd)))"
      "c \<noteq> 0 \<Longrightarrow> \<not> cookieverf_is_none v"
  obtains r where "nfsproc3_readdir (ctx\<lparr> vfs := memfs env \<rparr>) x \<lparr> READDIR3args.dir = fh, READDIR3args.cookie = c,
      READDIR3args.cookieverf = v, READDIR3args.count = CHUNK \<rparr> m = Some (Nfs3Ok r, m)"
    "READDIR3resok.cookieverf r = cookieverf_from_attr (Some (Dir.attr dd))"
proof -
  let ?ctx = "ctx\<lparr> vfs := memfs env \<rparr>" and ?it = "\<lparr> iter_entries = rest, iter_index = 0 \<rparr>"
  let ?mx = "unat CHUNK - (packed_size u32_codec x + packed_size READDIR3resok_codec
    (readdir_reply (Some (Dir.attr dd)) [] False))"
  have t: "fs_ok (fs m)" using m by (simp add: memfs_ok_def)
  have "distinct (Dir.content dd)" using fs_ok_entry [OF t d] by simp
  note mk = make_iter_after [OF d this rest(1)]
  have left: "iter_left (fs m) ?it = rest" by (rule iter_left_content [OF t d rest(1)])
  have size: "packed_size READDIR3resok_codec (readdir_reply (Some (Dir.attr dd)) [] False) \<le> 200"
    by (simp add: readdir_reply_def READDIR3resok_codec_def dirlist3_codec_def fields_codec_def list_codec_def bool_codec_def
      nfs3_option_codec_def cookieverf3_codec_def complex_enum_codec_def field_payload_def)
  have "\<exists>l e. readdir_loop ?ctx (bounded_list_new entry3_codec ?mx) ?it m = Some (Ok (l, e), m) \<and> (bl_list l \<noteq> [] \<or> e)"
  proof (cases rest)
    case Nil
    then show ?thesis using memfs_readdir.readdir_loop_prefix
      [where ctx = ctx and env = env and l = "bounded_list_new entry3_codec ?mx" and it = ?it and s = m] left by auto
  next
    case (Cons i "is")
    have "2 ^ 16 + 64 \<le> ?mx" using size by (simp add: CHUNK_def)
    moreover have "length (entry_name (the (Fs.entries (fs m) i))) < 2 ^ 16" using rest(2) Cons by (simp add: short_names_def)
    ultimately show ?thesis using memfs_first_entry [of m ?it i "is"] left Cons by blast
  qed
  then obtain l e where l: "readdir_loop ?ctx (bounded_list_new entry3_codec ?mx) ?it m = Some (Ok (l, e), m)" "bl_list l \<noteq> [] \<or> e"
    by blast
  have "\<not> unat CHUNK < packed_size u32_codec x + packed_size READDIR3resok_codec (readdir_reply (Some (Dir.attr dd)) [] False)"
    using size by (simp add: CHUNK_def)
  then show ?thesis
    using that [of "readdir_reply (Some (Dir.attr dd)) (bl_list l) e"] l mk fh d v
    by (cases "c = 0") (simp_all add: nfsproc3_readdir_def fh_to_id_def memfs_def await_def ret_def read_fs_def memfs_getattr_def
        nfs_option_from_result_def readdir_reply_def bounded_list_into_inner_def Let_def cookieverf_is_none_def)
qed

section \<open>Calls of READDIR\<close>

lemma readdir_served:
  "serves ctx \<lparr> call_body.rpcvers = RPC_VERSION_2, call_body.prog = Nfs3_Types.PROGRAM, call_body.vers = Nfs3_Types.VERSION,
     call_body.proc = NFS_PROGRAM_as_u32 NFSPROC3_READDIR, call_body.cred = cr, call_body.verf = vr \<rparr>
     READDIR3args_codec READDIR3res_codec nfsproc3_readdir"
  by (simp add: serves_def dispatch_def program_numbers handle_nfs_def NFS_PROGRAM_try_from_def)

lemma READDIR3args_packs:
  assumes "length (nfs_fh3.data fh) < 2 ^ 16"
  obtains n bs where "pack READDIR3args_codec \<lparr> READDIR3args.dir = fh, READDIR3args.cookie = c, READDIR3args.cookieverf = v,
      READDIR3args.count = cnt \<rparr> [] = Ok (n, bs)" "length bs < 2 ^ 30"
proof -
  let ?a = "\<lparr> READDIR3args.dir = fh, READDIR3args.cookie = c, READDIR3args.cookieverf = v, READDIR3args.count = cnt \<rparr>"
  have "packs READDIR3args_codec ?a" using assms by (simp add: READDIR3args_codec_def nfs_fh3_codec_def cookieverf3_codec_def)
  then obtain n bs where p: "pack READDIR3args_codec ?a [] = Ok (n, bs)" by (rule packsE)
  have "packed_size READDIR3args_codec ?a < 2 ^ 30"
    using assms pad4_less [of "length (nfs_fh3.data fh)"]
    by (simp add: READDIR3args_codec_def nfs_fh3_codec_def opaque_packed_size cookieverf3_codec_def)
  then show ?thesis using that p xdr_codec.pack_size [OF total_codec_xdr [OF READDIR3args_codec_lawful] p] by simp
qed

lemma packs_READDIR3res:
  assumes "\<And>e. e \<in> set (dirlist3.entries (READDIR3resok.reply r)) \<Longrightarrow> length (entry3.name e) < 2 ^ 16"
  shows "packs READDIR3res_codec (Nfs3Ok r)"
  using assms by (force simp: READDIR3res_codec_def READDIR3resok_codec_def dirlist3_codec_def entry3_codec_def filename3_codec_def
      cookieverf3_codec_def intro!: packs_result packs_struct packs_fields packs_list packs_opaque)

text \<open>A page of the listing, by the client.\<close>

lemma ls_page_served:
  assumes c: "ready (ctx\<lparr> vfs := memfs env \<rparr>) S m c" "rpc_xid c \<notin> S" "length (nfs_fh3.data fh) < 2 ^ 16"
    and m: "memfs_ok m" and d: "Fs.entries (fs m) d = Some (EDir dd)"
    and fh: "fh_from_nfs FileHandleU64_ops (file_handle_converter ctx) fh = Ok d"
    and rest: "after_cookie (Dir.content dd) ck rest" "short_names m rest"
    and v: "v = (if ck = 0 then NONE_COOKIE_VERF else cookieverf_from_attr (Some (Dir.attr dd)))"
      "ck \<noteq> 0 \<Longrightarrow> \<not> cookieverf_is_none v"
  obtains r c' k where "ls_page (loopback_io now later (ctx\<lparr> vfs := memfs env \<rparr>)) fh ck v c = Some (Ok r, c')"
    "dirlist3.entries (READDIR3resok.reply r) = listed m (take k rest)" "k \<le> length rest" "k = 0 \<longrightarrow> rest = []"
    "dirlist3.eof (READDIR3resok.reply r) = (k = length rest)"
    "READDIR3resok.cookieverf r = cookieverf_from_attr (Some (Dir.attr dd))"
    "ready (ctx\<lparr> vfs := memfs env \<rparr>) (insert (rpc_xid c) S) m c'" "rpc_xid c' = rpc_xid c + 1"
proof -
  let ?ctx = "ctx\<lparr> vfs := memfs env \<rparr>"
  let ?a = "\<lparr> READDIR3args.dir = fh, READDIR3args.cookie = ck, READDIR3args.cookieverf = v, READDIR3args.count = CHUNK \<rparr>"
  obtain r where r: "nfsproc3_readdir ?ctx (rpc_xid c) ?a m = Some (Nfs3Ok r, m)"
    "READDIR3resok.cookieverf r = cookieverf_from_attr (Some (Dir.attr dd))"
    by (rule memfs_readdir_answers [OF m d fh rest v])
  obtain k where k: "k \<le> length rest" "dirlist3.entries (READDIR3resok.reply r) = listed m (take k rest)"
    "dirlist3.eof (READDIR3resok.reply r) = (k = length rest)" "k = 0 \<longrightarrow> rest = []"
    using memfs_readdir_reply [OF m d _ _ r(1)] fh rest(1) by auto
  obtain n b where a: "pack READDIR3args_codec ?a [] = Ok (n, b)" "length b < 2 ^ 30" by (rule READDIR3args_packs [OF c(3)])
  have "packs READDIR3res_codec (Nfs3Ok r)"
    by (rule packs_READDIR3res) (use rest(2) in \<open>auto simp: k(2) listed_def dir_entry_def short_names_def dest: in_set_takeD\<close>)
  then obtain n' out where o: "pack READDIR3res_codec (Nfs3Ok r) [] = Ok (n', out)" by (rule packsE)
  then have "length out < 2 ^ 30" using READDIR3res.pack_size [OF o] readdir_size [OF r(1)] by (simp add: CHUNK_def)
  then obtain c' where "rpc_call (loopback_io now later ?ctx) READDIR3args_codec READDIR3res_codec Nfs3_Types.PROGRAM Nfs3_Types.VERSION
      (NFS_PROGRAM_as_u32 NFSPROC3_READDIR) ?a c = Some (Ok (Nfs3Ok r), c')"
    "ready ?ctx (insert (rpc_xid c) S) m c'" "rpc_xid c' = rpc_xid c + 1"
    by (rule session_call [OF c(1,2) total_codec_xdr [OF READDIR3args_codec_lawful] READDIR3res.xdr_codec_on_axioms readdir_served a
        _ _ o, of m, rotated 2]) (simp_all only: readdir_auth r(1), simp_all add: nfs3_result_ok_def)
  then show ?thesis
    by (intro that [of r c' k]) (simp_all add: k r(2) ls_page_def nfs_readdir_def nfs_call_def await_ok_def await_def ret_def)
qed

text \<open>The loop prints the names of all entries that come after its cookie.\<close>

lemma ls_readdir_served:
  assumes m: "memfs_ok m" and d: "Fs.entries (fs m) d = Some (EDir dd)"
    and fh: "fh_from_nfs FileHandleU64_ops (file_handle_converter ctx) fh = Ok d" "length (nfs_fh3.data fh) < 2 ^ 16"
    and dir: "0 \<notin> set (Dir.content dd)" "short_names m (Dir.content dd)"
      "\<not> cookieverf_is_none (cookieverf_from_attr (Some (Dir.attr dd)))"
  shows "ready (ctx\<lparr> vfs := memfs env \<rparr>) S m c \<Longrightarrow> after_cookie (Dir.content dd) ck rest \<Longrightarrow> length rest < 2 ^ 32 \<Longrightarrow>
    \<forall>k \<le> length rest. rpc_xid c + of_nat k \<notin> S \<Longrightarrow>
    v = (if ck = 0 then NONE_COOKIE_VERF else cookieverf_from_attr (Some (Dir.attr dd))) \<Longrightarrow>
    \<exists>c'. ls_readdir (loopback_io now later (ctx\<lparr> vfs := memfs env \<rparr>)) fh ck v printed c =
      Some (Ok (printed @ map (\<lambda>e. from_utf8_lossy (entry3.name e)) (listed m rest)), c')"
proof (induction "length rest" arbitrary: rest ck v printed c S rule: less_induct)
  case less
  let ?ops = "loopback_io now later (ctx\<lparr> vfs := memfs env \<rparr>)"
  have xid: "rpc_xid c \<notin> S" using less.prems(4) [rule_format, of 0] by simp
  have short: "short_names m rest" using dir(2) less.prems(2) by (auto simp: short_names_def after_cookie_def)
  have v: "ck \<noteq> 0 \<Longrightarrow> \<not> cookieverf_is_none v" using dir(3) less.prems(5) by simp
  obtain r c1 k where r: "ls_page ?ops fh ck v c = Some (Ok r, c1)"
    "dirlist3.entries (READDIR3resok.reply r) = listed m (take k rest)" "k \<le> length rest" "k = 0 \<longrightarrow> rest = []"
    "dirlist3.eof (READDIR3resok.reply r) = (k = length rest)"
    "READDIR3resok.cookieverf r = cookieverf_from_attr (Some (Dir.attr dd))"
    "ready (ctx\<lparr> vfs := memfs env \<rparr>) (insert (rpc_xid c) S) m c1" "rpc_xid c1 = rpc_xid c + 1"
    by (rule ls_page_served [OF less.prems(1) xid fh(2) m d fh(1) less.prems(2) short less.prems(5) v])
  show ?case
  proof (cases "k = length rest")
    case True
    then show ?thesis using r(1,2,5) by (subst ls_readdir.simps) (simp add: await_ok_def await_def)
  next
    case False
    let ?ck = "last (take k rest)" and ?out = "printed @ map (\<lambda>e. from_utf8_lossy (entry3.name e)) (listed m (take k rest))"
    have k: "0 < k" "take k rest \<noteq> []" using False r(3,4) by auto
    then have "listed m (take k rest) \<noteq> []" by (simp add: listed_def)
    then have step: "ls_readdir ?ops fh ck v printed c = ls_readdir ?ops fh ?ck (READDIR3resok.cookieverf r) ?out c1"
      using r(1,2,5) False listed_last_cookie [OF k(2), of m] by (subst ls_readdir.simps) (simp add: await_ok_def await_def)
    have shorter: "length (drop k rest) < length rest" using k by auto
    have next_page: "after_cookie (Dir.content dd) ?ck (drop k rest)"
      by (rule after_cookie_next [OF less.prems(2) k(1) r(3) dir(1)])
    have "?ck \<in> set rest" using last_in_set [OF k(2)] set_take_subset [of k rest] by blast
    then have "?ck \<in> set (Dir.content dd)" using less.prems(2) by (auto simp: after_cookie_def)
    then have "?ck \<noteq> 0" using dir(1) by auto
    moreover have "rpc_xid c1 + of_nat j \<notin> insert (rpc_xid c) S" if j: "j \<le> length (drop k rest)" for j
    proof -
      have "Suc j \<le> length rest" "Suc j < 2 ^ 32" using j k(1) less.prems(3) r(3) by auto
      then have "rpc_xid c + of_nat (Suc j) \<notin> S" "(of_nat (Suc j) :: u32) \<noteq> 0"
        using less.prems(4) by (blast, simp del: of_nat_Suc add: word_of_nat_eq_0_iff nat_dvd_not_less)
      then show ?thesis by (simp add: r(8) add.assoc)
    qed
    ultimately obtain c' where "ls_readdir ?ops fh ?ck (READDIR3resok.cookieverf r) ?out c1 =
        Some (Ok (?out @ map (\<lambda>e. from_utf8_lossy (entry3.name e)) (listed m (drop k rest))), c')"
      using less.hyps [OF shorter r(7) next_page less_trans [OF shorter less.prems(3)], of "READDIR3resok.cookieverf r" ?out] k(1) r(3,6) less.prems(3) by auto
    moreover have "listed m (take k rest) @ listed m (drop k rest) = listed m rest" by (simp add: listed_append [symmetric])
    ultimately show ?thesis using step by (simp add: map_append [symmetric] del: map_append)
  qed
qed

lemma be_bytes_zero: "be_bytes n 0 = replicate n 0"
  by (induction n) simp_all

section \<open>Properties\<close>

text \<open>
  C9: the client's program that lists a directory with READDIR ends and prints the names of all
  entries, each exactly once and in the order of the directory, when the server has an in-memory
  file system.  The names must be short enough for a reply, the time of the directory must not be
  the one whose cookie verifier stands for none, and the xids must be new to the server.
\<close>

theorem ls_lists_directory:
  fixes ctx :: "(MemFs, FileHandleU64, MemFsIterator, MemFsIterator) RPCContext"
  assumes "memfs_ok m" "Fs.entries (fs m) d = Some (EDir dd)"
    and "fh_from_nfs FileHandleU64_ops (file_handle_converter ctx) fh = Ok d" "length (nfs_fh3.data fh) \<le> 64"
    and "0 \<notin> set (Dir.content dd)" "length (Dir.content dd) < 2 ^ 32"
    and "\<forall>i \<in> set (Dir.content dd). length (entry_name (the (Fs.entries (fs m) i))) < 2 ^ 16"
    and "\<not> cookieverf_is_none (cookieverf_from_attr (Some (Dir.attr dd)))"
    and "ready (ctx\<lparr> vfs := memfs env \<rparr>) S m c" "\<forall>k \<le> length (Dir.content dd). rpc_xid c + of_nat k \<notin> S"
  shows "\<exists>c'. ls_readdir (loopback_io now later (ctx\<lparr> vfs := memfs env \<rparr>)) fh 0 (Array (replicate 8 0)) [] c =
    Some (Ok (map (\<lambda>i. from_utf8_lossy (entry_name (the (Fs.entries (fs m) i)))) (Dir.content dd)), c')"
proof -
  have "after_cookie (Dir.content dd) 0 (Dir.content dd)" by (simp add: after_cookie_def)
  moreover have "(Array (replicate 8 0) :: cookieverf3) = NONE_COOKIE_VERF" by (simp add: NONE_COOKIE_VERF_def to_be_bytes_def be_bytes_zero)
  ultimately show ?thesis
    using ls_readdir_served [OF assms(1-3) _ assms(5) _ assms(8,9), where ck = 0 and printed = "[]"] assms(4,6,7,10)
    by (simp add: short_names_def listed_def dir_entry_def o_def)
qed

theorem ls_lists_directory_witness:
  "\<exists>c'. ls_readdir (loopback_io 0 1 example_ctx) (example_fh 1) 0 (Array (replicate 8 0)) [] example_client = Some (Ok [[97]], c')"
proof -
  let ?dd = "(root_dir example_now)\<lparr> Dir.content := [2] \<rparr>"
  have d: "Fs.entries (fs example_memfs) 1 = Some (EDir ?dd)" by (simp add: example_memfs_def)
  have fh: "fh_from_nfs FileHandleU64_ops (file_handle_converter example_ctx) (example_fh 1) = Ok 1" by simp
  have len: "length (nfs_fh3.data (example_fh 1)) \<le> 64" by (simp add: example_fh_def fh_to_nfs_def file_handle_converter_new_def)
  have nm: "entry_name (the (Fs.entries (fs example_memfs) 2)) = [97]" by (simp add: example_memfs_def file_new_def)
  have v: "\<not> cookieverf_is_none (cookieverf_from_attr (Some (Dir.attr ?dd)))"
    by (simp add: cookieverf_is_none_def cookieverf_from_attr_def NONE_COOKIE_VERF_def root_dir_def dir_new_def new_attr_def
      example_now_def example_env_def Array_eq_iff to_be_bytes_inject)
  have c: "ready (example_ctx\<lparr> vfs := memfs example_env \<rparr>) {} example_memfs example_client" using example_ready by simp
  from ls_lists_directory [OF example_memfs_ok d fh len _ _ _ v c, where now = 0 and later = 1]
  show ?thesis by (simp add: nm from_utf8_lossy.simps utf8_chunk_def utf8_width_def)
qed

end
