(* ===== verification/Tcp_Server.thy ===== *)
theory Tcp_Server
  imports Rpc_Wire
begin

text \<open>
  The TCP front of the server (\<^verbatim>\<open>nfs3_server/src/tcp.rs\<close>): binding a listener, and the system of
  all connections with their tasks as a step relation.

  The sockets of the operating system are a parameter.  The pipe between the task that reads the
  socket and the one that puts messages together is a sequence of bytes; that a full pipe makes
  its writer wait changes when bytes arrive there and not in which order.  A spawned task has
  three steps, which other tasks come between: it takes the lock of its transaction, it runs the
  procedure, and it gives the lock back and sends the reply.
\<close>

unbundle bit_operations_syntax

section \<open>Listeners\<close>

text \<open>What \<^verbatim>\<open>bind\<close> fails with: a bad address, or the error of the operating system.\<close>

datatype 'e bind_error = AddrNotAvailable string | BindFailed 'e

record ('s, 'h, 'i, 'p, 'l) NFSTcpListener =
  tcp_listener :: 'l
  port :: u16
  arcfs :: "('s, 'h, 'i, 'p) NfsFileSystem"
  listener_signal :: bool
  listener_export :: bytes
  listener_tracker :: TransactionTracker
  listener_converter :: FileHandleConverter

text \<open>The operations of the operating system: binding an address, and the address of the socket.\<close>

record ('w, 'l, 'e) tcp =
  tcp_bind :: "string \<Rightarrow> 'w \<Rightarrow> ('e + 'l) \<times> 'w"
  tcp_local_port :: "'l \<Rightarrow> u16"
  tcp_local_ip :: "'l \<Rightarrow> string"

definition generate_host_ip :: "u16 \<Rightarrow> string" where
  "generate_host_ip hostnum =
     ''127.88.'' @ decimal (unat (ucast (drop_bit 8 hostnum AND 0xFF) :: u8)) @ ''.'' @
     decimal (unat (ucast (hostnum AND 0xFF) :: u8))"

definition new_transaction_tracker :: TransactionTracker where
  "new_transaction_tracker = tracker_new 60 256 2048"

definition bind_internal ::
  "('w, 'l, 'e) tcp \<Rightarrow> u64 \<Rightarrow> string \<Rightarrow> u16 \<Rightarrow> ('s, 'h, 'i, 'p) NfsFileSystem \<Rightarrow> 'w \<Rightarrow>
     ('e bind_error + ('s, 'h, 'i, 'p, 'l) NFSTcpListener) \<times> 'w" where
  "bind_internal net start ip p fs w =
     (case tcp_bind net (ip @ '':'' @ decimal (unat p)) w of
        (Err e, w') \<Rightarrow> (Err (BindFailed e), w')
      | (Ok l, w') \<Rightarrow>
          (Ok \<lparr> tcp_listener = l, port = tcp_local_port net l, arcfs = fs, listener_signal = False,
                listener_export = [47], listener_tracker = new_transaction_tracker,
                listener_converter = file_handle_converter_new start \<rparr>, w'))"

text \<open>The loop over the addresses for \<^verbatim>\<open>auto\<close>.\<close>

fun bind_auto ::
  "('w, 'l, 'e) tcp \<Rightarrow> u64 \<Rightarrow> nat \<Rightarrow> u16 \<Rightarrow> u16 \<Rightarrow> ('s, 'h, 'i, 'p) NfsFileSystem \<Rightarrow> 'w \<Rightarrow>
     ('e bind_error + ('s, 'h, 'i, 'p, 'l) NFSTcpListener) \<times> 'w" where
  "bind_auto net start num_tries_left try_ip p fs w =
     (case bind_internal net start (generate_host_ip try_ip) p fs w of
        (Err e, w') \<Rightarrow>
          (case num_tries_left of
             0 \<Rightarrow> (Err e, w')
           | Suc n \<Rightarrow> bind_auto net start n (try_ip + 1) p fs w')
      | (Ok l, w') \<Rightarrow> (Ok l, w'))"

declare bind_auto.simps [simp del]

definition bind ::
  "('w, 'l, 'e) tcp \<Rightarrow> u64 \<Rightarrow> string \<Rightarrow> ('s, 'h, 'i, 'p) NfsFileSystem \<Rightarrow> 'w \<Rightarrow>
     ('e bind_error + ('s, 'h, 'i, 'p, 'l) NFSTcpListener) \<times> 'w" where
  "bind net start ipstr fs w =
     (case split_once CHR '':'' ipstr of
        None \<Rightarrow> (Err (AddrNotAvailable ''IP Address must be of form ip:port''), w)
      | Some (ip, p) \<Rightarrow>
          (case parse_u16 p of
             None \<Rightarrow> (Err (AddrNotAvailable ''Port not in range 0..=65535''), w)
           | Some p \<Rightarrow>
               if ip = ''auto'' then bind_auto net start 32 1 p fs w
               else bind_internal net start ip p fs w))"

definition bind_ro ::
  "('w, 'l, 'e) tcp \<Rightarrow> u64 \<Rightarrow> string \<Rightarrow> ('s, 'h, 'i, 'p) NfsFileSystem \<Rightarrow> 'w \<Rightarrow>
     ('e bind_error + ('s, 'h, 'i, 'p, 'l) NFSTcpListener) \<times> 'w" where
  "bind_ro net start ipstr fs = bind net start ipstr (ReadOnlyAdapter fs)"

definition with_export_name ::
  "bytes \<Rightarrow> ('s, 'h, 'i, 'p, 'l) NFSTcpListener \<Rightarrow> ('s, 'h, 'i, 'p, 'l) NFSTcpListener" where
  "with_export_name nm l =
     l\<lparr> listener_export := SLASH # trim_start_matches_slash (trim_end_matches_slash nm) \<rparr>"

definition get_listen_port :: "('w, 'l, 'e) tcp \<Rightarrow> ('s, 'h, 'i, 'p, 'l) NFSTcpListener \<Rightarrow> u16" where
  "get_listen_port net l = tcp_local_port net (tcp_listener l)"

definition get_listen_ip :: "('w, 'l, 'e) tcp \<Rightarrow> ('s, 'h, 'i, 'p, 'l) NFSTcpListener \<Rightarrow> string" where
  "get_listen_ip net l = tcp_local_ip net (tcp_listener l)"

definition set_mount_listener ::
  "('s, 'h, 'i, 'p, 'l) NFSTcpListener \<Rightarrow> ('s, 'h, 'i, 'p, 'l) NFSTcpListener" where
  "set_mount_listener l = l\<lparr> listener_signal := True \<rparr>"

text \<open>The context of a connection that \<^verbatim>\<open>handle_forever\<close> accepts.\<close>

definition connection_context ::
  "('s, 'h, 'i, 'p, 'l) NFSTcpListener \<Rightarrow> string \<Rightarrow> ('s, 'h, 'i, 'p) RPCContext" where
  "connection_context l peer =
     \<lparr> local_port = port l, client_addr = peer, auth = auth_unix_default, vfs = arcfs l,
       mount_signal = listener_signal l, export_name = listener_export l,
       file_handle_converter = listener_converter l \<rparr>"

section \<open>Tasks\<close>

text \<open>
  \<^verbatim>\<open>handle_rpc_message\<close> up to the lock of the transaction: the result, or what is needed to go on.
\<close>

definition begin_message ::
  "nat \<Rightarrow> ('s, 'h, 'i, 'p) RPCContext \<Rightarrow> CompleteRpcMessage \<Rightarrow>
     ('s server_state, (rpc_error + HandleResult) + ('s, 'h, 'i, 'p) RPCContext \<times> IncomingRpcMessage \<times> TransactionLock) prog" where
  "begin_message now ctx packed =
     (case incoming_try_from packed of
        Err e \<Rightarrow> ret (Inl (Err e))
      | Ok m \<Rightarrow>
          (let call = incoming_body m in
           if call_body.rpcvers call \<noteq> RPC_VERSION_2 then ret (Inl (into_rpc_mismatch m))
           else
             case (if opaque_auth.flavor (call_body.cred call) = AUTH_UNIX
                   then (case unpack auth_unix_codec (opaque_auth.body (call_body.cred call)) of
                           Err e \<Rightarrow> Err e
                         | Ok (a, _) \<Rightarrow> Ok (ctx\<lparr> auth := a \<rparr>))
                   else Ok ctx) of
               Err e \<Rightarrow> ret (Inl (Err (AuthFailed e)))
             | Ok ctx \<Rightarrow>
                 await (lock_transaction now (client_addr ctx) (incoming_xid m)) (\<lambda>transaction.
                   ret (case transaction of
                     Err (Some err) \<Rightarrow> Inl (into_error_reply err m)
                   | Err None \<Rightarrow> Inl (Ok NoReply)
                   | Ok lock \<Rightarrow> Inr (ctx, m, lock)))))"

text \<open>A task without another one in between is a call of \<^verbatim>\<open>handle_rpc_message\<close>.\<close>

lemma handle_rpc_message_begin:
  "handle_rpc_message now later ctx packed =
     await (begin_message now ctx packed) (\<lambda>b. case b of
       Inl result \<Rightarrow> ret result
     | Inr (ctx, m, lock) \<Rightarrow> await (dispatch ctx m) (\<lambda>result. await (release later lock) (\<lambda>_. ret result)))"
proof
  fix st
  show "handle_rpc_message now later ctx packed st =
     await (begin_message now ctx packed) (\<lambda>b. case b of
       Inl result \<Rightarrow> ret result
     | Inr (ctx, m, lock) \<Rightarrow> await (dispatch ctx m) (\<lambda>result. await (release later lock) (\<lambda>_. ret result))) st"
    by (auto simp: handle_rpc_message_def begin_message_def Let_def await_def ret_def
        split: sum.splits option.splits prod.splits)
qed

datatype ('s, 'h, 'i, 'p) task =
    Spawned CompleteRpcMessage
  | Locked CompleteRpcMessage "('s, 'h, 'i, 'p) RPCContext" IncomingRpcMessage TransactionLock
  | Executed CompleteRpcMessage TransactionLock "rpc_error + HandleResult"

fun task_message :: "('s, 'h, 'i, 'p) task \<Rightarrow> CompleteRpcMessage" where
  "task_message (Spawned msg) = msg"
| "task_message (Locked msg ctx m lock) = msg"
| "task_message (Executed msg lock result) = msg"

fun task_locks :: "('s, 'h, 'i, 'p) task \<Rightarrow> TransactionLock list" where
  "task_locks (Spawned msg) = []"
| "task_locks (Locked msg ctx m lock) = [lock]"
| "task_locks (Executed msg lock result) = [lock]"

section \<open>Connections\<close>

text \<open>
  A connection: its \<^verbatim>\<open>SocketMessageHandler\<close> with the pipe, the tasks, the channel of replies, and
  whether \<^verbatim>\<open>process_socket\<close> still runs.  The last fields record what came in, which messages were
  found in it, which replies were sent and which bytes were written; the program does not keep them.
\<close>

record ('s, 'h, 'i, 'p) connection =
  conn_context :: "('s, 'h, 'i, 'p) RPCContext"
  cur_fragment :: PackedRpcMessage
  pipe :: bytes
  tasks :: "('s, 'h, 'i, 'p) task list"
  channel :: "(unit + CompleteRpcMessage) list"
  running :: bool
  received :: bytes
  messages :: "CompleteRpcMessage list"
  sent :: "CompleteRpcMessage list"
  written :: bytes
  write_failed :: bool

definition new_connection :: "('s, 'h, 'i, 'p) RPCContext \<Rightarrow> ('s, 'h, 'i, 'p) connection" where
  "new_connection ctx =
     \<lparr> conn_context = ctx, cur_fragment = packed_rpc_message_new, pipe = [], tasks = [], channel = [],
       running = True, received = [], messages = [], sent = [], written = [], write_failed = False \<rparr>"

text \<open>\<^verbatim>\<open>process_socket\<close> passes on what it read.\<close>

definition receive_bytes :: "bytes \<Rightarrow> ('s, 'h, 'i, 'p) connection \<Rightarrow> ('s, 'h, 'i, 'p) connection" where
  "receive_bytes bs c = c\<lparr> pipe := pipe c @ bs, received := received c @ bs \<rparr>"

text \<open>\<^verbatim>\<open>SocketMessageHandler::read\<close> when all of the next fragment has arrived; it waits otherwise.\<close>

definition read_fragment :: "('s, 'h, 'i, 'p) connection \<Rightarrow> ('s, 'h, 'i, 'p) connection option" where
  "read_fragment c =
     (case socket_read (cur_fragment c) (pipe c) of
        Err _ \<Rightarrow> None
      | Ok (m, cur, rest) \<Rightarrow>
          Some (let c = c\<lparr> cur_fragment := cur, pipe := rest \<rparr> in
                case m of
                  None \<Rightarrow> c
                | Some msg \<Rightarrow> c\<lparr> tasks := tasks c @ [Spawned msg], messages := messages c @ [msg] \<rparr>))"

text \<open>The end of a task: its output goes to the channel, unless nobody listens any more.\<close>

definition send_output ::
  "rpc_error + HandleResult \<Rightarrow> ('s, 'h, 'i, 'p) connection \<Rightarrow> ('s, 'h, 'i, 'p) connection" where
  "send_output result c =
     (if running c then c\<lparr> channel := channel c @ (case task_output result of None \<Rightarrow> [] | Some x \<Rightarrow> [x]) \<rparr> else c)"

section \<open>The server\<close>

record ('s, 'h, 'i, 'p) tcp_server =
  shared :: "'s server_state"
  connections :: "('s, 'h, 'i, 'p) connection list"

inductive conn_step ::
  "'s server_state \<Rightarrow> ('s, 'h, 'i, 'p) connection \<Rightarrow> 's server_state \<Rightarrow> ('s, 'h, 'i, 'p) connection \<Rightarrow> bool" where
  receive: "running c \<Longrightarrow> bs \<noteq> [] \<Longrightarrow> length bs \<le> 128 * 1024 \<Longrightarrow> conn_step st c st (receive_bytes bs c)"
| closed: "running c \<Longrightarrow> conn_step st c st (c\<lparr> running := False \<rparr>)"
| fragment: "read_fragment c = Some c' \<Longrightarrow> conn_step st c st c'"
| refused: "tasks c = ts @ Spawned msg # ts' \<Longrightarrow> begin_message now (conn_context c) msg st = Some (Inl result, st') \<Longrightarrow>
    conn_step st c st' (send_output result (c\<lparr> tasks := ts @ ts' \<rparr>))"
| locked: "tasks c = ts @ Spawned msg # ts' \<Longrightarrow>
    begin_message now (conn_context c) msg st = Some (Inr (ctx, m, lock), st') \<Longrightarrow>
    conn_step st c st' (c\<lparr> tasks := ts @ Locked msg ctx m lock # ts' \<rparr>)"
| executed: "tasks c = ts @ Locked msg ctx m lock # ts' \<Longrightarrow> dispatch ctx m st = Some (result, st') \<Longrightarrow>
    conn_step st c st' (c\<lparr> tasks := ts @ Executed msg lock result # ts' \<rparr>)"
| finished: "tasks c = ts @ Executed msg lock result # ts' \<Longrightarrow> release now lock st = Some ((), st') \<Longrightarrow>
    conn_step st c st' (send_output result (c\<lparr> tasks := ts @ ts' \<rparr>))"
| reply_written: "running c \<Longrightarrow> channel c = Ok buf # ch \<Longrightarrow> write_fragment buf = Some bs \<Longrightarrow>
    conn_step st c st (c\<lparr> channel := ch, sent := sent c @ [buf], written := written c @ bs \<rparr>)"
| reply_torn: "running c \<Longrightarrow> channel c = Ok buf # ch \<Longrightarrow> write_fragment buf = Some bs \<Longrightarrow> n < length bs \<Longrightarrow>
    conn_step st c st (c\<lparr> channel := ch, sent := sent c @ [buf], written := written c @ take n bs, write_failed := True \<rparr>)"
| reply_too_long: "running c \<Longrightarrow> channel c = Ok buf # ch \<Longrightarrow> write_fragment buf = None \<Longrightarrow>
    conn_step st c st (c\<lparr> channel := ch, running := False \<rparr>)"
| failed: "running c \<Longrightarrow> channel c = Err () # ch \<Longrightarrow> conn_step st c st (c\<lparr> channel := ch, running := False \<rparr>)"

inductive server_step ::
  "('s, 'h, 'i, 'p, 'l) NFSTcpListener \<Rightarrow> ('s, 'h, 'i, 'p) tcp_server \<Rightarrow> ('s, 'h, 'i, 'p) tcp_server \<Rightarrow> bool" for l where
  accept: "server_step l s (s\<lparr> connections := connections s @ [new_connection (connection_context l peer)] \<rparr>)"
| connection: "connections s = cs @ c # cs' \<Longrightarrow> conn_step (shared s) c st' c' \<Longrightarrow>
    server_step l s (s\<lparr> shared := st', connections := cs @ c' # cs' \<rparr>)"
| clean: "server_step l s (s\<lparr> shared := (shared s)\<lparr> transaction_tracker := cleanup now (transaction_tracker (shared s)) \<rparr> \<rparr>)"

definition server_init :: "('s, 'h, 'i, 'p, 'l) NFSTcpListener \<Rightarrow> 's \<Rightarrow> ('s, 'h, 'i, 'p) tcp_server" where
  "server_init l s =
     \<lparr> shared = \<lparr> vfs_state = s, signals = [], transaction_tracker = listener_tracker l \<rparr>, connections = [] \<rparr>"

definition server_reachable ::
  "('s, 'h, 'i, 'p, 'l) NFSTcpListener \<Rightarrow> 's \<Rightarrow> ('s, 'h, 'i, 'p) tcp_server \<Rightarrow> bool" where
  "server_reachable l s0 s \<longleftrightarrow> (server_step l)\<^sup>*\<^sup>* (server_init l s0) s"

end
