(* ===== verification/Mount_Props.thy ===== *)
theory Mount_Props
  imports Mount_Handlers Memfs_Server
begin

text \<open>
  Properties of the MOUNT program: which object a path leads to, and that the handle a client
  gets by mounting is one the NFS procedures accept.
\<close>

section \<open>Paths\<close>

text \<open>The rest of a mount path without the slashes around it.\<close>

abbreviation relative :: "bytes \<Rightarrow> bytes" where
  "relative rel \<equiv> trim_end_matches_slash (trim_start_matches_slash rel)"


section \<open>The in-memory file system\<close>

lemma path_components_lookup:
  "lookup_components (vfs_lookup (memfs env)) fid cs m = Some (path_components (fs m) fid cs, m)"
proof (induction cs arbitrary: fid)
  case (Cons c cs)
  then show ?case
    by (cases "fs_lookup fid c (fs m)") (auto simp: memfs_def read_fs_def await_def ret_def)
qed (simp add: ret_def)

text \<open>
  The in-memory file system's own walk along a path under one lock gives what the trait's
  default method gives, which looks up the components one by one.
\<close>

theorem memfs_lookup_by_path_default:
  "vfs_lookup_by_path (memfs env) path m =
   default_lookup_by_path (vfs_root_dir (memfs env)) (vfs_lookup (memfs env)) path m"
  unfolding default_lookup_by_path_def path_components_lookup by (simp add: memfs_def path_to_id_impl_def)

lemma lookup_content_entry: "lookup_content t nm is = Ok e \<Longrightarrow> \<exists>i. Fs.entries t i = Some e"
  by (induction t nm "is" rule: lookup_content.induct) (auto split: option.splits if_splits)

lemma fs_lookup_entry: "fs_lookup d nm t = Ok e \<Longrightarrow> \<exists>i. Fs.entries t i = Some e"
  by (auto simp: fs_lookup_def result_simps ok_or_def dest: lookup_content_entry split: option.splits Entry.splits if_splits)

lemma path_components_present:
  assumes "fs_ok t"
  shows "Fs.entries t fid \<noteq> None \<Longrightarrow> path_components t fid cs = Ok h \<Longrightarrow> Fs.entries t h \<noteq> None"
proof (induction cs arbitrary: fid)
  case (Cons c cs)
  show ?case
  proof (cases "c = []")
    case False
    with Cons.prems(2) obtain e where e: "fs_lookup fid c t = Ok e" "path_components t (entry_fileid e) cs = Ok h"
      by (cases "fs_lookup fid c t") auto
    then obtain i where "Fs.entries t i = Some e" using fs_lookup_entry by blast
    then have "Fs.entries t (entry_fileid e) \<noteq> None" using fs_ok_id [OF assms] by auto
    then show ?thesis using Cons.IH e(2) by blast
  qed (use Cons in simp)
qed simp

text \<open>
  The handle that a successful MNT returns is one that the NFS procedures accept: GETATTR with
  it gives the attributes of an object that exists.  Mounting does not change the file system.
\<close>

theorem mounted_handle_accepted:
  assumes "memfs_ok (fst st)" "mountproc3_mnt (ctx\<lparr> vfs := memfs env \<rparr>) x path st = Some (MntOk r, st')"
  shows "fst st' = fst st \<and> (\<exists>a. nfsproc3_getattr (ctx\<lparr> vfs := memfs env \<rparr>) x'
      \<lparr> GETATTR3args.object = \<lparr> nfs_fh3.data = mountres3_ok.fhandle r \<rparr> \<rparr> (fst st') =
    Some (Nfs3Ok \<lparr> GETATTR3resok.obj_attributes = a \<rparr>, fst st'))"
proof -
  obtain h p where h: "path_components (fs (fst st)) (rootdir (fst st)) p = Ok h" and st': "fst st' = fst st"
    and r: "\<lparr> nfs_fh3.data = mountres3_ok.fhandle r \<rparr> = fh_to_nfs FileHandleU64_ops (file_handle_converter ctx) h"
    using assms(2)
    by (auto simp: mountproc3_mnt_def await_eq_Some on_vfs_def send_signal_def memfs_def path_to_id_impl_def Let_def
        split: if_splits option.splits sum.splits)
  have "fs_ok (fs (fst st))" "rootdir (fst st) = Fs.root (fs (fst st))" using assms(1) by (simp_all add: memfs_ok_def)
  then have "Fs.entries (fs (fst st)) h \<noteq> None"
    using path_components_present [OF _ _ h] fs_ok_root by fastforce
  then show ?thesis
    using st' FileHandleU64.fh_round_trip [of "file_handle_converter ctx" h]
    by (auto simp: r nfsproc3_getattr_def fh_to_id_def await_def ret_def memfs_def memfs_getattr_def read_fs_def)
qed

section \<open>Examples\<close>

text \<open>The path \<^verbatim>\<open>//a/\<close> of the export \<^verbatim>\<open>/\<close>.\<close>

lemma example_trim: "trim [97] = [97]"
  by (simp add: trim_def whitespace_def strip_all.simps)

lemma example_relative: "relative [47, 97, 47] = [97]"
  by (simp add: trim_end_matches_slash_def trim_start_matches_slash_def SLASH_def)


theorem mounted_handle_accepted_witness:
  "\<exists>r st' a. mountproc3_mnt example_ctx 9 [47, 97] (example_memfs, []) = Some (MntOk r, st') \<and>
     nfsproc3_getattr example_ctx 10 \<lparr> GETATTR3args.object = \<lparr> nfs_fh3.data = mountres3_ok.fhandle r \<rparr> \<rparr> (fst st') =
       Some (Nfs3Ok \<lparr> GETATTR3resok.obj_attributes = a \<rparr>, fst st')"
proof -
  have "\<exists>r st'. mountproc3_mnt example_ctx 9 [47, 97] (example_memfs, []) = Some (MntOk r, st')"
    by (simp add: mountproc3_mnt_def example_ctx_def strip_prefix_def trim_end_matches_slash_def SLASH_def
        trim_start_matches_slash_def example_trim await_def ret_def on_vfs_def send_signal_def memfs_def
        path_to_id_impl_def DELIMITER_def example_memfs_def memfs_eval)
  then obtain r st' where r: "mountproc3_mnt (example_ctx\<lparr> vfs := memfs example_env \<rparr>) 9 [47, 97] (example_memfs, []) = Some (MntOk r, st')"
    by auto
  have "memfs_ok (fst (example_memfs, [] :: bool list))" using example_memfs_ok by simp
  from mounted_handle_accepted [OF this r, of 10] r show ?thesis by auto
qed

end
