(* ===== verification/Tcp_Bind.thy ===== *)
theory Tcp_Bind
  imports Tcp_Server Mount_Props
begin

text \<open>
  Binding a listener (\<^verbatim>\<open>NFSTcpListener::bind\<close>): how the address is read, which address \<^verbatim>\<open>auto\<close> ends up
  with, and what clients can mount under the name of the export.
\<close>

section \<open>Numbers in text\<close>

lemma of_char_digit [simp]: "n < 10 \<Longrightarrow> (of_char (digit n) :: nat) = 48 + n"
  by (simp add: digit_def of_char_of)

lemma digit_simps [simp]: "n < 10 \<Longrightarrow> is_digit (digit n)" "n < 10 \<Longrightarrow> digit_value (digit n) = n"
  by (simp_all add: is_digit_def digit_value_def)

lemma decimal_digits: "decimal n \<noteq> [] \<and> list_all is_digit (decimal n) \<and> foldl (\<lambda>k c. k * 10 + digit_value c) 0 (decimal n) = n"
proof (induction n rule: decimal.induct)
  case (1 n)
  then show ?case by (subst (1 2 3) decimal.simps) auto
qed

lemma plus_is_no_digit: "\<not> is_digit CHR ''+''" "\<not> is_digit CHR '':''"
  by (simp_all add: is_digit_def)

lemma parse_u16_decimal: "parse_u16 (decimal (unat p)) = Some p"
proof -
  have "hd (decimal (unat p)) \<noteq> CHR ''+''"
    using decimal_digits [of "unat p"] plus_is_no_digit by (cases "decimal (unat p)") auto
  moreover have "unat p < 65536" using unsigned_less [of p, where ?'a = nat] by simp
  ultimately show ?thesis using decimal_digits [of "unat p"] by (simp add: parse_u16_def Let_def)
qed

lemma split_once_append: "c \<notin> set a \<Longrightarrow> split_once c (a @ c # b) = Some (a, b)"
  by (induction a) (auto simp: split_once_def)

section \<open>Binding\<close>

lemma bind_parsed:
  "CHR '':'' \<notin> set ip \<Longrightarrow> bind net start (ip @ '':'' @ decimal (unat p)) v w =
     (if ip = ''auto'' then bind_auto net start 32 1 p v w else bind_internal net start ip p v w)"
  using split_once_append [of "CHR '':''" ip] by (simp add: bind_def parse_u16_decimal)

text \<open>
  An address and a port, written with a colon between them, are bound as they are; without a
  colon, or with something that is not the number of a port behind it, nothing is bound.
\<close>

theorem bind_address:
  assumes "CHR '':'' \<notin> set ip"
  shows "bind net start (ip @ '':'' @ decimal (unat p)) v w =
      (if ip = ''auto'' then bind_auto net start 32 1 p v w else bind_internal net start ip p v w) \<and>
    (\<exists>e. bind net start ip v w = (Err (AddrNotAvailable e), w)) \<and>
    (parse_u16 q = None \<longrightarrow> (\<exists>e. bind net start (ip @ '':'' @ q) v w = (Err (AddrNotAvailable e), w)))"
proof -
  have "split_once CHR '':'' ip = None" using assms by (simp add: split_once_def)
  then show ?thesis
    using bind_parsed [OF assms, of net start p v w] split_once_append [OF assms, of q] by (simp add: bind_def)
qed

text \<open>The world after the first \<open>n\<close> attempts, all of which failed.\<close>

fun tried :: "('w, 'l, 'e) tcp \<Rightarrow> u16 \<Rightarrow> nat \<Rightarrow> u16 \<Rightarrow> 'w \<Rightarrow> 'w option" where
  "tried net p 0 k w = Some w"
| "tried net p (Suc n) k w =
     (case tcp_bind net (generate_host_ip k @ '':'' @ decimal (unat p)) w of
        (Err e, w') \<Rightarrow> tried net p n (k + 1) w'
      | (Ok l, w') \<Rightarrow> None)"

lemma bind_auto_tried:
  "\<exists>n w1. n \<le> N \<and> tried net p n k w = Some w1 \<and>
     bind_auto net start N k p v w = bind_internal net start (generate_host_ip (k + of_nat n)) p v w1 \<and>
     (is_ok (fst (bind_auto net start N k p v w)) \<or> n = N)"
proof (induction N arbitrary: k w)
  case 0
  show ?case by (intro exI [of _ 0] exI [of _ w]) (auto simp: bind_auto.simps split: prod.splits sum.splits)
next
  case (Suc N)
  obtain r w' where b: "tcp_bind net (generate_host_ip k @ '':'' @ decimal (unat p)) w = (r, w')" by fastforce
  show ?case
  proof (cases r)
    case (Inl e)
    from Suc.IH [of "k + 1" w'] obtain n w1 where n: "n \<le> N" "tried net p n (k + 1) w' = Some w1"
      "bind_auto net start N (k + 1) p v w' = bind_internal net start (generate_host_ip (k + 1 + of_nat n)) p v w1"
      "is_ok (fst (bind_auto net start N (k + 1) p v w')) \<or> n = N" by blast
    have "bind_auto net start (Suc N) k p v w = bind_auto net start N (k + 1) p v w'"
      using b Inl by (subst bind_auto.simps) (simp add: bind_internal_def)
    then show ?thesis using n b Inl by (intro exI [of _ "Suc n"] exI [of _ w1]) (simp add: algebra_simps)
  next
    case (Inr l)
    then show ?thesis using b
      by (intro exI [of _ 0] exI [of _ w]) (simp add: bind_auto.simps [of _ _ "Suc N"] bind_internal_def is_ok_def)
  qed
qed

text \<open>
  With the address \<^verbatim>\<open>auto\<close>, the loopback addresses from 127.88.0.1 on are tried one after the
  other.  The listener is bound to the first that is free; after 33 failures the last error is
  returned.
\<close>

theorem bind_auto_first:
  "\<exists>n w1. n \<le> 32 \<and> tried net p n 1 w = Some w1 \<and>
     bind net start (''auto:'' @ decimal (unat p)) v w =
       bind_internal net start (generate_host_ip (of_nat (Suc n))) p v w1 \<and>
     (is_ok (fst (bind net start (''auto:'' @ decimal (unat p)) v w)) \<or> n = 32)"
proof -
  have "bind net start (''auto:'' @ decimal (unat p)) v w = bind_auto net start 32 1 p v w"
    using bind_parsed [of "''auto''" net start p v w] by simp
  with bind_auto_tried [of 32 net p 1 w start v] show ?thesis by simp
qed

section \<open>Exports\<close>

lemma trim_Nil [simp]: "trim [] = []"
proof -
  have "strip_all ws [] = []" for ws by (subst strip_all.simps) (auto simp: find_Some_iff split: option.splits)
  then show ?thesis by (simp add: trim_def)
qed

text \<open>
  The name that an export was given, with one slash before it and none around it, is what EXPORT
  lists, and mounting it gives the root of the file system.
\<close>

theorem export_mounts_root:
  assumes "from_utf8_valid (listener_export (with_export_name nm l))"
    and "\<forall>p. vfs_lookup_by_path (arcfs l) p = default_lookup_by_path (vfs_root_dir (arcfs l)) (vfs_lookup (arcfs l)) p"
    and "ctx = connection_context (with_export_name nm l) peer"
  shows "mountproc3_export ctx x () (s, sig) =
      Some ([\<lparr> export_node.ex_dir = SLASH # trim_start_matches_slash (trim_end_matches_slash nm), export_node.ex_groups = [] \<rparr>], s, sig) \<and>
    mountproc3_mnt ctx x (SLASH # trim_start_matches_slash (trim_end_matches_slash nm)) (s, sig) =
      Some (MntOk \<lparr> mountres3_ok.fhandle =
          nfs_fh3.data (fh_to_nfs (vfs_handle (arcfs l)) (listener_converter l) (vfs_root_dir (arcfs l) s)),
        mountres3_ok.auth_flavors = [0, 1] \<rparr>, s, if listener_signal l then True # sig else sig)"
proof -
  have "vfs_lookup_by_path (arcfs l) [] s = Some (Ok (vfs_root_dir (arcfs l) s), s)"
    using assms(2) by (simp add: default_lookup_by_path_components components_def ret_def)
  then show ?thesis
    using assms(1,3)
    by (simp add: connection_context_def with_export_name_def mountproc3_export_def mountproc3_mnt_def strip_prefix_def
        on_vfs_def await_def ret_def send_signal_def trim_start_matches_slash_def trim_end_matches_slash_def Let_def)
qed

section \<open>Examples\<close>

definition example_tcp :: "(unit, unit, unit) tcp" where
  "example_tcp = \<lparr> tcp_bind = \<lambda>addr w. (if addr = ''127.0.0.1:2049'' then Ok () else Err (), w), 
     tcp_local_port = \<lambda>_. 2049, tcp_local_ip = \<lambda>_. ''127.0.0.1'' \<rparr>"

definition example_listener :: "('s, 'h, 'i, 'p) NfsFileSystem \<Rightarrow> ('s, 'h, 'i, 'p, unit) NFSTcpListener" where
  "example_listener v = \<lparr> tcp_listener = (), port = 2049, arcfs = v, listener_signal = False, listener_export = [47],
     listener_tracker = tracker_new 60 256 2048, listener_converter = file_handle_converter_new 7 \<rparr>"

lemma example_port: "decimal 2049 = ''2049''"
  by (simp add: decimal.simps [of 2049] decimal.simps [of 204] decimal.simps [of 20] decimal.simps [of 2] digit_def
      char_of_def bit_iff_odd)

lemma example_bind: "bind example_tcp 7 ''127.0.0.1:2049'' v () = (Ok (example_listener v), ())"
proof -
  have "bind example_tcp 7 (''127.0.0.1'' @ '':'' @ decimal (unat (2049 :: u16))) v () =
      bind_internal example_tcp 7 ''127.0.0.1'' 2049 v ()"
    using bind_parsed [of "''127.0.0.1''" example_tcp 7 2049 v "()"] by simp
  then show ?thesis
    by (simp add: example_port bind_internal_def example_tcp_def example_listener_def new_transaction_tracker_def)
qed

theorem bind_address_witness:
  "bind example_tcp 7 ''127.0.0.1:2049'' (memfs example_env) () =
      bind_internal example_tcp 7 ''127.0.0.1'' 2049 (memfs example_env) () \<and>
    (\<exists>e. bind example_tcp 7 ''127.0.0.1:x'' (memfs example_env) () = (Err (AddrNotAvailable e), ()))"
proof -
  have "parse_u16 ''x'' = None" by (simp add: parse_u16_def is_digit_def Let_def)
  then show ?thesis
    using bind_address [of "''127.0.0.1''" example_tcp 7 2049 "memfs example_env" "()" "''x''"] by (simp add: example_port)
qed

text \<open>The export \<^verbatim>\<open>/a\<close> was named \<^verbatim>\<open>a/\<close>.\<close>

theorem export_mounts_root_witness:
  "mountproc3_export (connection_context (with_export_name [97, 47] (example_listener (memfs example_env))) ''127.0.0.1:1000'') 5 ()
     (example_memfs, []) = Some ([\<lparr> export_node.ex_dir = [47, 97], export_node.ex_groups = [] \<rparr>], example_memfs, [])"
proof -
  let ?l = "example_listener (memfs example_env)"
  have utf8: "from_utf8_valid (listener_export (with_export_name [97, 47] ?l))"
    by (simp add: with_export_name_def trim_start_matches_slash_def trim_end_matches_slash_def SLASH_def)
  have default: "\<forall>p. vfs_lookup_by_path (arcfs ?l) p = default_lookup_by_path (vfs_root_dir (arcfs ?l)) (vfs_lookup (arcfs ?l)) p"
    by (simp add: example_listener_def fun_eq_iff memfs_lookup_by_path_default)
  from export_mounts_root [OF utf8 default refl, of "''127.0.0.1:1000''" 5 example_memfs "[]"]
  show ?thesis by (simp add: trim_start_matches_slash_def trim_end_matches_slash_def SLASH_def)
qed

end
