(* ===== verification/Fs_Util.thy ===== *)
theory Fs_Util
  imports Vfs
begin

text \<open>
  The conversions between what the operating system says about a file and the attributes of the
  protocol (\<^verbatim>\<open>nfs3_server/src/fs_util\<close>, with the conversions of times in
  \<^verbatim>\<open>nfs3_types/src/nfs3.rs\<close>), on Unix.

  The operating system is a parameter: a record of the operations that the program calls, each a
  function on the state \<open>'w\<close> of the world.  Files are handles of type \<open>'f\<close>, open directories
  of type \<open>'d\<close>.  A world may change in any way during a call, so nothing is assumed about other
  processes.
\<close>

unbundle bit_operations_syntax

section \<open>The operating system\<close>

text \<open>\<^verbatim>\<open>std::io::ErrorKind\<close>, with a number for the kinds the program does not tell apart.\<close>

datatype ErrorKind = NotFound | PermissionDenied | AlreadyExists | IsADirectory | NotADirectory
  | ReadOnlyFilesystem | Unsupported | CrossesDevices | OtherKind nat

datatype file_type = RegularFile | Directory | SymbolicLink | BlockDevice | CharDevice | NamedPipe | SocketFile | UnknownFile

text \<open>A \<^verbatim>\<open>SystemTime\<close> is the number of nanoseconds since the epoch.\<close>

type_synonym SystemTime = int

record Metadata =
  meta_type :: file_type
  meta_len :: u64
  meta_ino :: u64
  meta_mode :: u32
  meta_nlink :: u64
  meta_uid :: u32
  meta_gid :: u32
  meta_mtime :: int
  meta_accessed :: "ErrorKind + SystemTime"
  meta_modified :: "ErrorKind + SystemTime"
  meta_created :: "ErrorKind + SystemTime"

text \<open>\<^verbatim>\<open>FileTime\<close> of the crate \<^verbatim>\<open>filetime\<close>: now, or seconds and nanoseconds.\<close>

datatype FileTime = FileTimeNow | FileTimeAt int u32

record ('w, 'f, 'd) os =
  os_exists :: "bytes \<Rightarrow> 'w \<Rightarrow> bool \<times> 'w"
  os_symlink_metadata :: "bytes \<Rightarrow> 'w \<Rightarrow> (ErrorKind + Metadata) \<times> 'w"
  os_open :: "bytes \<Rightarrow> 'w \<Rightarrow> (ErrorKind + 'f) \<times> 'w"
  os_open_write :: "bytes \<Rightarrow> 'w \<Rightarrow> (ErrorKind + 'f) \<times> 'w"
  os_open_read_write :: "bytes \<Rightarrow> 'w \<Rightarrow> (ErrorKind + 'f) \<times> 'w"
  os_create :: "bytes \<Rightarrow> 'w \<Rightarrow> (ErrorKind + 'f) \<times> 'w"
  os_create_new :: "bytes \<Rightarrow> 'w \<Rightarrow> (ErrorKind + 'f) \<times> 'w"
  os_metadata :: "'f \<Rightarrow> 'w \<Rightarrow> (ErrorKind + Metadata) \<times> 'w"
  os_seek :: "u64 \<Rightarrow> 'f \<Rightarrow> 'w \<Rightarrow> (ErrorKind + unit) \<times> 'w"
  os_read_exact :: "nat \<Rightarrow> 'f \<Rightarrow> 'w \<Rightarrow> (ErrorKind + bytes) \<times> 'w"
  os_write_all :: "bytes \<Rightarrow> 'f \<Rightarrow> 'w \<Rightarrow> (ErrorKind + unit) \<times> 'w"
  os_flush :: "'f \<Rightarrow> 'w \<Rightarrow> (ErrorKind + unit) \<times> 'w"
  os_set_len :: "u64 \<Rightarrow> 'f \<Rightarrow> 'w \<Rightarrow> (ErrorKind + unit) \<times> 'w"
  os_read_dir :: "bytes \<Rightarrow> 'w \<Rightarrow> (ErrorKind + 'd) \<times> 'w"
  os_next_entry :: "'d \<Rightarrow> 'w \<Rightarrow> ((ErrorKind + bytes option) \<times> 'd) \<times> 'w"
  os_read_link :: "bytes \<Rightarrow> 'w \<Rightarrow> (ErrorKind + bytes) \<times> 'w"
  os_create_dir :: "bytes \<Rightarrow> 'w \<Rightarrow> (ErrorKind + unit) \<times> 'w"
  os_remove_dir :: "bytes \<Rightarrow> 'w \<Rightarrow> (ErrorKind + unit) \<times> 'w"
  os_remove_file :: "bytes \<Rightarrow> 'w \<Rightarrow> (ErrorKind + unit) \<times> 'w"
  os_rename :: "bytes \<Rightarrow> bytes \<Rightarrow> 'w \<Rightarrow> (ErrorKind + unit) \<times> 'w"
  os_symlink :: "bytes \<Rightarrow> bytes \<Rightarrow> 'w \<Rightarrow> (ErrorKind + unit) \<times> 'w"
  os_set_atime :: "bytes \<Rightarrow> FileTime \<Rightarrow> 'w \<Rightarrow> (ErrorKind + unit) \<times> 'w"
  os_set_mtime :: "bytes \<Rightarrow> FileTime \<Rightarrow> 'w \<Rightarrow> (ErrorKind + unit) \<times> 'w"
  os_set_permissions :: "bytes \<Rightarrow> u32 \<Rightarrow> 'w \<Rightarrow> (ErrorKind + unit) \<times> 'w"
  os_file_set_permissions :: "'f \<Rightarrow> u32 \<Rightarrow> 'w \<Rightarrow> (ErrorKind + unit) \<times> 'w"
  os_now :: "'w \<Rightarrow> nat \<times> 'w"
  os_metadata_of :: "bytes \<Rightarrow> 'w \<Rightarrow> (ErrorKind + Metadata) \<times> 'w"
  os_open_or_create :: "bytes \<Rightarrow> 'w \<Rightarrow> (ErrorKind + 'f) \<times> 'w"
  os_sync_all :: "'f \<Rightarrow> 'w \<Rightarrow> (ErrorKind + unit) \<times> 'w"

text \<open>A call of the operating system as an operation on the world.\<close>

definition os_call :: "('w \<Rightarrow> 'a \<times> 'w) \<Rightarrow> ('w, 'a) prog" where
  "os_call f w = Some (f w)"

text \<open>The \<^verbatim>\<open>?\<close> operator behind a call.\<close>

definition os_ok :: "('w, 'e + 'a) prog \<Rightarrow> ('a \<Rightarrow> ('w, 'e + 'b) prog) \<Rightarrow> ('w, 'e + 'b) prog" where
  "os_ok m f = await m (\<lambda>r. case r of Err e \<Rightarrow> ret (Err e) | Ok x \<Rightarrow> f x)"

definition map_err :: "('e \<Rightarrow> 'e2) \<Rightarrow> ('w, 'e + 'a) prog \<Rightarrow> ('w, 'e2 + 'a) prog" where
  "map_err g m = await m (\<lambda>r. ret (case r of Err e \<Rightarrow> Err (g e) | Ok x \<Rightarrow> Ok x))"

section \<open>Times (nfs3.rs)\<close>

definition NANOS :: nat where
  "NANOS = 1000000000"

text \<open>\<^verbatim>\<open>duration_since\<close> fails for times before the epoch.\<close>

definition nfstime3_try_from :: "SystemTime \<Rightarrow> unit + nfstime3" where
  "nfstime3_try_from t =
     (if t < 0 then Err ()
      else
        (let secs = nat t div NANOS in
         Ok \<lparr> nfstime3.seconds = (if secs < 2 ^ 32 then of_nat secs else - 1),
              nfstime3.nseconds = of_nat (nat t mod NANOS) \<rparr>))"

definition system_time_from :: "nfstime3 \<Rightarrow> SystemTime" where
  "system_time_from t = int (unat (nfstime3.seconds t) * NANOS) + int (unat (nfstime3.nseconds t))"

definition nfstime3_default :: nfstime3 where
  "nfstime3_default = \<lparr> nfstime3.seconds = 0, nfstime3.nseconds = 0 \<rparr>"

section \<open>Attributes (fs\_util)\<close>

definition meta_ext_nlink :: "Metadata \<Rightarrow> u32" where
  "meta_ext_nlink m = (if unat (meta_nlink m) < 2 ^ 32 then ucast (meta_nlink m) else - 1)"

fun meta_ext_file_type :: "file_type \<Rightarrow> ftype3" where
  "meta_ext_file_type RegularFile = ftype3.NF3REG"
| "meta_ext_file_type Directory = ftype3.NF3DIR"
| "meta_ext_file_type SymbolicLink = ftype3.NF3LNK"
| "meta_ext_file_type BlockDevice = ftype3.NF3BLK"
| "meta_ext_file_type CharDevice = ftype3.NF3CHR"
| "meta_ext_file_type NamedPipe = ftype3.NF3FIFO"
| "meta_ext_file_type SocketFile = ftype3.NF3SOCK"
| "meta_ext_file_type UnknownFile = ftype3.NF3REG"

definition metadata_differ :: "Metadata \<Rightarrow> Metadata \<Rightarrow> bool" where
  "metadata_differ lhs rhs \<longleftrightarrow> meta_ino lhs \<noteq> meta_ino rhs \<or> meta_mtime lhs \<noteq> meta_mtime rhs \<or>
     meta_len lhs \<noteq> meta_len rhs \<or> meta_type lhs \<noteq> meta_type rhs"

definition fattr3_differ :: "fattr3 \<Rightarrow> fattr3 \<Rightarrow> bool" where
  "fattr3_differ lhs rhs \<longleftrightarrow> fattr3.fileid lhs \<noteq> fattr3.fileid rhs \<or> fattr3.mtime lhs \<noteq> fattr3.mtime rhs \<or>
     fattr3.size lhs \<noteq> fattr3.size rhs \<or> fattr3.type' lhs \<noteq> fattr3.type' rhs"

definition exists_no_traverse :: "('w, 'f, 'd) os \<Rightarrow> bytes \<Rightarrow> ('w, bool) prog" where
  "exists_no_traverse os path = await (os_call (os_symlink_metadata os path)) (\<lambda>r. ret (is_ok r))"

definition mode_unmask :: "u32 \<Rightarrow> u32" where
  "mode_unmask m = (m OR 0x80) AND 0x1FF"

definition to_nfstime3 :: "ErrorKind + SystemTime \<Rightarrow> nfstime3" where
  "to_nfstime3 time =
     (case time of
        Ok t \<Rightarrow> (case nfstime3_try_from t of Ok n \<Rightarrow> n | Err _ \<Rightarrow> nfstime3_default)
      | Err _ \<Rightarrow> nfstime3_default)"

definition metadata_to_fattr3 :: "fileid3 \<Rightarrow> Metadata \<Rightarrow> fattr3" where
  "metadata_to_fattr3 fid m =
     \<lparr> fattr3.type' = meta_ext_file_type (meta_type m), fattr3.mode = mode_unmask (meta_mode m),
       fattr3.nlink = meta_ext_nlink m, fattr3.uid = meta_uid m, fattr3.gid = meta_gid m,
       fattr3.size = meta_len m, fattr3.used = meta_len m,
       fattr3.rdev = \<lparr> specdata3.specdata1 = 0, specdata3.specdata2 = 0 \<rparr>, fattr3.fsid = 0,
       fattr3.fileid = fid, fattr3.atime = to_nfstime3 (meta_accessed m),
       fattr3.mtime = to_nfstime3 (meta_modified m), fattr3.ctime = to_nfstime3 (meta_created m) \<rparr>"

definition client_time :: "nfstime3 \<Rightarrow> FileTime" where
  "client_time t = FileTimeAt (int (unat (nfstime3.seconds t))) (nfstime3.nseconds t)"

definition set_atime_of :: "('w, 'f, 'd) os \<Rightarrow> bytes \<Rightarrow> set_atime \<Rightarrow> ('w, unit) prog" where
  "set_atime_of os path t =
     (case t of
        set_atime.SET_TO_SERVER_TIME \<Rightarrow> await (os_call (os_set_atime os path FileTimeNow)) (\<lambda>_. ret ())
      | set_atime.SET_TO_CLIENT_TIME c \<Rightarrow> await (os_call (os_set_atime os path (client_time c))) (\<lambda>_. ret ())
      | set_atime.DONT_CHANGE \<Rightarrow> ret ())"

definition set_mtime_of :: "('w, 'f, 'd) os \<Rightarrow> bytes \<Rightarrow> set_mtime \<Rightarrow> ('w, unit) prog" where
  "set_mtime_of os path t =
     (case t of
        set_mtime.SET_TO_SERVER_TIME \<Rightarrow> await (os_call (os_set_mtime os path FileTimeNow)) (\<lambda>_. ret ())
      | set_mtime.SET_TO_CLIENT_TIME c \<Rightarrow> await (os_call (os_set_mtime os path (client_time c))) (\<lambda>_. ret ())
      | set_mtime.DONT_CHANGE \<Rightarrow> ret ())"

text \<open>The errors of the first three calls are ignored; owner and group are not set.\<close>

definition path_setattr :: "('w, 'f, 'd) os \<Rightarrow> bytes \<Rightarrow> sattr3 \<Rightarrow> ('w, nfsstat3 + unit) prog" where
  "path_setattr os path sa =
     await (set_atime_of os path (sattr3.atime sa)) (\<lambda>_.
     await (set_mtime_of os path (sattr3.mtime sa)) (\<lambda>_.
     await (case sattr3.mode sa of
         Some m \<Rightarrow> await (os_call (os_set_permissions os path (mode_unmask m))) (\<lambda>_. ret ())
       | None \<Rightarrow> ret ()) (\<lambda>_.
     case sattr3.size sa of
       Some sz \<Rightarrow>
         os_ok (map_err (\<lambda>_. NFS3ERR_IO) (os_call (os_open_read_write os path))) (\<lambda>file.
         os_ok (map_err (\<lambda>_. NFS3ERR_IO) (os_call (os_set_len os sz file))) (\<lambda>_. ret (Ok ())))
     | None \<Rightarrow> ret (Ok ()))))"

definition file_setattr :: "('w, 'f, 'd) os \<Rightarrow> 'f \<Rightarrow> sattr3 \<Rightarrow> ('w, nfsstat3 + unit) prog" where
  "file_setattr os file sa =
     await (case sattr3.mode sa of
         Some m \<Rightarrow> await (os_call (os_file_set_permissions os file (mode_unmask m))) (\<lambda>_. ret ())
       | None \<Rightarrow> ret ()) (\<lambda>_.
     case sattr3.size sa of
       Some sz \<Rightarrow> os_ok (map_err (\<lambda>_. NFS3ERR_IO) (os_call (os_set_len os sz file))) (\<lambda>_. ret (Ok ()))
     | None \<Rightarrow> ret (Ok ()))"

section \<open>What the conversions keep\<close>

text \<open>
  A time that a client sent comes back unchanged, if its nanoseconds are less than a second;
  a time of the operating system that is between the epoch and the year 2106 is sent as it is.
\<close>

theorem nfstime3_round_trip:
  "(unat (nfstime3.nseconds t) < 10 ^ 9 \<longrightarrow> nfstime3_try_from (system_time_from t) = Ok t) \<and>
   (0 \<le> n \<and> n < 2 ^ 32 * 10 ^ 9 \<longrightarrow> map_ok system_time_from (nfstime3_try_from n) = Ok n)"
proof (intro conjI impI)
  assume t: "unat (nfstime3.nseconds t) < 10 ^ 9"
  define s where "s = unat (nfstime3.seconds t)"
  define k where "k = unat (nfstime3.nseconds t)"
  have s: "s < 2 ^ 32" unfolding s_def by (rule order_less_le_trans [OF unsigned_less]) simp
  have k: "k < NANOS" using t by (simp add: k_def NANOS_def)
  have "system_time_from t = int (s * NANOS + k)" by (simp only: system_time_from_def s_def k_def of_nat_add)
  then have n: "nat (system_time_from t) = s * NANOS + k" by (simp only: nat_int)
  then have "nat (system_time_from t) div NANOS = s" "nat (system_time_from t) mod NANOS = k" using k by simp_all
  moreover have "0 \<le> system_time_from t" by (simp add: system_time_from_def)
  ultimately show "nfstime3_try_from (system_time_from t) = Ok t"
    using s by (simp add: nfstime3_try_from_def Let_def s_def k_def)
next
  assume n: "0 \<le> n \<and> n < 2 ^ 32 * 10 ^ 9"
  define m where "m = nat n"
  have m: "m div NANOS < 2 ^ 32" using n by (simp add: m_def NANOS_def less_mult_imp_div_less nat_less_iff)
  moreover have "m mod NANOS < 2 ^ 32" by (rule less_trans [of _ NANOS]) (simp_all add: NANOS_def)
  ultimately have "system_time_from \<lparr> nfstime3.seconds = of_nat (m div NANOS), nfstime3.nseconds = of_nat (m mod NANOS) \<rparr> = int m"
    by (simp add: system_time_from_def unat_of_nat flip: of_nat_add of_nat_mult)
  with m n show "map_ok system_time_from (nfstime3_try_from n) = Ok n"
    by (simp add: nfstime3_try_from_def Let_def m_def)
qed

theorem nfstime3_round_trip_witness:
  "nfstime3_try_from (system_time_from \<lparr> nfstime3.seconds = 7, nfstime3.nseconds = 9 \<rparr>) =
     Ok \<lparr> nfstime3.seconds = 7, nfstime3.nseconds = 9 \<rparr>"
  using nfstime3_round_trip [of "\<lparr> nfstime3.seconds = 7, nfstime3.nseconds = 9 \<rparr>"] by simp

end
