(* ===== verification/Iterator_Cache.thy ===== *)
theory Iterator_Cache
  imports File_Handle "HOL-Library.Multiset"
begin

text \<open>
  The cache of suspended directory iterators of the mirror file system
  (\<^verbatim>\<open>cargo_nfs3_server/src/mirror/iterator_cache.rs\<close>).  The \<^verbatim>\<open>ReadDir\<close> that an iterator reads from
  is of any type \<open>'d\<close>; an \<^verbatim>\<open>Instant\<close> is a natural number.

  The system of the cache with the iterators in use is a step relation; its invariant is that no
  two iterators, in use or suspended, share a base cookie.
\<close>

unbundle bit_operations_syntax

section \<open>Operations\<close>

record 'd CachedIteratorInfo =
  info_cookie :: u64
  cached_at :: nat
  info_read_dir :: 'd

record 'd IteratorCache =
  iterator_retention :: nat
  iterator_cache :: "FileHandleU64 \<Rightarrow> 'd CachedIteratorInfo list option"
  max_cached_per_dir :: u16
  cookie_counter :: u32

definition iterator_cache_new :: "nat \<Rightarrow> u16 \<Rightarrow> 'd IteratorCache" where
  "iterator_cache_new period mx =
     \<lparr> iterator_retention = period, iterator_cache = (\<lambda>_. None), max_cached_per_dir = mx, cookie_counter = 0 \<rparr>"

text \<open>\<^verbatim>\<open>fetch_add\<close> wraps around.\<close>

definition generate_base_cookie :: "'d IteratorCache \<Rightarrow> u64 \<times> 'd IteratorCache" where
  "generate_base_cookie c =
     (push_bit 32 (ucast (cookie_counter c)), c\<lparr> cookie_counter := cookie_counter c + 1 \<rparr>)"

text \<open>\<^verbatim>\<open>Vec::swap_remove\<close>: the last element takes the place of the removed one.\<close>

definition swap_remove :: "nat \<Rightarrow> 'a list \<Rightarrow> 'a list" where
  "swap_remove i xs = butlast (xs[i := last xs])"

definition pop_state ::
  "FileHandleU64 \<Rightarrow> u64 \<Rightarrow> 'd IteratorCache \<Rightarrow> 'd CachedIteratorInfo option \<times> 'd IteratorCache" where
  "pop_state dir_id ck c =
     (case iterator_cache c dir_id of
        None \<Rightarrow> (None, c)
      | Some iterators \<Rightarrow>
          (case find (\<lambda>i. info_cookie (iterators ! i) = ck) [0..<length iterators] of
             None \<Rightarrow> (None, c)
           | Some index \<Rightarrow>
               (Some (iterators ! index),
                c\<lparr> iterator_cache := (iterator_cache c)(dir_id \<mapsto> swap_remove index iterators) \<rparr>)))"

definition trim_cache_for_dir :: "FileHandleU64 \<Rightarrow> 'd IteratorCache \<Rightarrow> 'd IteratorCache" where
  "trim_cache_for_dir dir_id c =
     (case iterator_cache c dir_id of
        None \<Rightarrow> c
      | Some iterators \<Rightarrow>
          if length iterators > unat (max_cached_per_dir c)
          then (let sorted = sort_key cached_at iterators; to_keep = unat (max_cached_per_dir c)
                in c\<lparr> iterator_cache := (iterator_cache c)(dir_id \<mapsto> drop (length sorted - to_keep) sorted) \<rparr>)
          else c)"

definition cache_state :: "FileHandleU64 \<Rightarrow> u64 \<Rightarrow> 'd \<Rightarrow> nat \<Rightarrow> 'd IteratorCache \<Rightarrow> 'd IteratorCache" where
  "cache_state dir_id ck rd now c =
     (let info = \<lparr> info_cookie = ck, cached_at = now, info_read_dir = rd \<rparr>;
          iterators = (case iterator_cache c dir_id of None \<Rightarrow> [] | Some its \<Rightarrow> its)
      in trim_cache_for_dir dir_id
           (c\<lparr> iterator_cache := (iterator_cache c)(dir_id \<mapsto> iterators @ [info]) \<rparr>))"

text \<open>The difference of two instants is never negative.\<close>

definition cleanup_iterators :: "nat \<Rightarrow> 'd IteratorCache \<Rightarrow> 'd IteratorCache" where
  "cleanup_iterators now c =
     c\<lparr> iterator_cache := (\<lambda>d. case iterator_cache c d of
          None \<Rightarrow> None
        | Some iterators \<Rightarrow>
            (let kept = filter (\<lambda>info. now - cached_at info \<le> iterator_retention c) iterators
             in if kept = [] then None else Some kept)) \<rparr>"

section \<open>Iterators in use and suspended\<close>

text \<open>The suspended iterators of a directory.\<close>

definition suspended :: "'d IteratorCache \<Rightarrow> FileHandleU64 \<Rightarrow> 'd CachedIteratorInfo list" where
  "suspended c d = (case iterator_cache c d of None \<Rightarrow> [] | Some its \<Rightarrow> its)"

text \<open>The number of the iterator that a cookie belongs to, and the position in it.\<close>

definition base :: "u64 \<Rightarrow> nat" where
  "base ck = unat ck div 2 ^ 32"

definition position :: "u64 \<Rightarrow> nat" where
  "position ck = unat ck mod 2 ^ 32"

lemma suspended_swap_remove:
  assumes "i < length xs"
  shows "mset xs = add_mset (xs ! i) (mset (swap_remove i xs))"
proof (cases "i = length xs - 1")
  case True
  then have "xs[i := last xs] = xs" using assms by (simp add: last_conv_nth flip: length_greater_0_conv)
  moreover have "xs = butlast xs @ [xs ! i]" using assms True by (metis append_butlast_last_id last_conv_nth length_greater_0_conv order_le_less_trans zero_le)
  ultimately show ?thesis unfolding swap_remove_def by (metis add_mset_add_single mset_append mset_single_iff_right mset.simps)
next
  case False
  then have i: "i < length xs - 1" using assms by simp
  obtain ys l where xs: "xs = ys @ [l]" using assms by (cases xs rule: rev_cases) auto
  then have "swap_remove i xs = ys[i := l]" "i < length ys" using i by (simp_all add: swap_remove_def list_update_append)
  then show ?thesis using xs by (simp add: nth_append mset_update insert_DiffM add_mset_commute)
qed

lemma pop_state_None: "fst (pop_state d ck c) = None \<longleftrightarrow> (\<forall>info \<in> set (suspended c d). info_cookie info \<noteq> ck)"
  by (auto simp: pop_state_def suspended_def find_None_iff find_Some_iff in_set_conv_nth split: option.splits)

lemma pop_state_Some:
  assumes "pop_state d ck c = (Some info, c')"
  shows "info_cookie info = ck" "mset (suspended c d) = add_mset info (mset (suspended c' d))"
    "d' \<noteq> d \<Longrightarrow> suspended c' d' = suspended c d'"
    "max_cached_per_dir c' = max_cached_per_dir c" "cookie_counter c' = cookie_counter c"
    "iterator_retention c' = iterator_retention c"
proof -
  from assms obtain its i where its: "iterator_cache c d = Some its"
    and i: "find (\<lambda>i. info_cookie (its ! i) = ck) [0..<length its] = Some i" and info: "info = its ! i"
    and c': "c' = c\<lparr> iterator_cache := (iterator_cache c)(d \<mapsto> swap_remove i its) \<rparr>"
    by (auto simp: pop_state_def split: option.splits)
  have "i < length its" "info_cookie (its ! i) = ck" using i by (auto simp: find_Some_iff)
  then show "info_cookie info = ck" "mset (suspended c d) = add_mset info (mset (suspended c' d))"
    using suspended_swap_remove by (simp_all add: suspended_def its info c')
qed (use assms in \<open>auto simp: pop_state_def suspended_def split: option.splits\<close>)

lemma sort_key_snoc:
  assumes "\<And>x. x \<in> set xs \<Longrightarrow> f x \<le> f y"
  shows "sort_key f (xs @ [y]) = sort_key f xs @ [y]"
proof -
  have insort: "f x \<le> f y \<Longrightarrow> insort_key f x (zs @ [y]) = insort_key f x zs @ [y]" for x and zs :: "'a list"
    by (induction zs) auto
  show ?thesis using assms by (induction xs) (simp_all add: insort)
qed

text \<open>What is left of the suspended iterators when one more is put behind them.\<close>

lemma cache_state_suspended:
  "suspended (cache_state d ck rd now c) d =
     (let its = suspended c d @ [\<lparr> info_cookie = ck, cached_at = now, info_read_dir = rd \<rparr>];
          keep = unat (max_cached_per_dir c)
      in if length its > keep then drop (length its - keep) (sort_key cached_at its) else its)"
  by (simp add: cache_state_def trim_cache_for_dir_def suspended_def Let_def)

lemma cache_state_fields:
  "d' \<noteq> d \<Longrightarrow> suspended (cache_state d ck rd now c) d' = suspended c d'"
  "max_cached_per_dir (cache_state d ck rd now c) = max_cached_per_dir c"
  "cookie_counter (cache_state d ck rd now c) = cookie_counter c"
  "iterator_retention (cache_state d ck rd now c) = iterator_retention c"
  by (simp_all add: cache_state_def trim_cache_for_dir_def suspended_def Let_def)

lemma cache_state_subset:
  "mset (suspended (cache_state d ck rd now c) d) \<subseteq>#
   add_mset \<lparr> info_cookie = ck, cached_at = now, info_read_dir = rd \<rparr> (mset (suspended c d))"
proof -
  have "mset (drop n (sort_key cached_at xs)) \<subseteq># mset xs" for n and xs :: "'a CachedIteratorInfo list"
    by (metis append_take_drop_id mset_append mset_sort mset_subset_eq_add_right)
  from this [of _ "suspended c d @ [\<lparr> info_cookie = ck, cached_at = now, info_read_dir = rd \<rparr>]"] show ?thesis
    by (simp add: cache_state_suspended Let_def)
qed

lemma cache_state_bound: "length (suspended (cache_state d ck rd now c) d) \<le> unat (max_cached_per_dir c)"
  by (simp add: cache_state_suspended Let_def)

text \<open>The iterator put behind the others stays, if it is the latest and there is room for one.\<close>

lemma cache_state_keeps_last:
  assumes "\<And>info. info \<in> set (suspended c d) \<Longrightarrow> cached_at info \<le> now" "max_cached_per_dir c \<noteq> 0"
  shows "\<lparr> info_cookie = ck, cached_at = now, info_read_dir = rd \<rparr> \<in> set (suspended (cache_state d ck rd now c) d)"
proof -
  let ?info = "\<lparr> info_cookie = ck, cached_at = now, info_read_dir = rd \<rparr>"
  have "unat (max_cached_per_dir c) > 0" using assms(2) by (simp add: unat_gt_0)
  moreover have "sort_key cached_at (suspended c d @ [?info]) = sort_key cached_at (suspended c d) @ [?info]"
    using assms(1) by (intro sort_key_snoc) simp
  ultimately show ?thesis by (simp add: cache_state_suspended Let_def)
qed

text \<open>
  The iterators in use: directory, cookie and \<^verbatim>\<open>ReadDir\<close>.  An iterator is opened, moves on, ends,
  is suspended when it is dropped, and resumed; the cleaner may run at any time.  The counter of
  base cookies and the positions stay below their limit of 32 bits.
\<close>

type_synonym 'd in_use = "(FileHandleU64 \<times> u64 \<times> 'd) list"

inductive iterator_step :: "'d IteratorCache \<times> 'd in_use \<Rightarrow> 'd IteratorCache \<times> 'd in_use \<Rightarrow> bool" where
  open_iterator: "unat (cookie_counter c) < 2 ^ 32 - 1 \<Longrightarrow> generate_base_cookie c = (ck, c') \<Longrightarrow>
    iterator_step (c, its) (c', (d, ck, rd) # its)"
| advance: "position ck < 2 ^ 32 - 1 \<Longrightarrow>
    iterator_step (c, its @ (d, ck, rd) # its') (c, its @ (d, ck + 1, rd') # its')"
| suspend: "iterator_step (c, its @ (d, ck, rd) # its') (cache_state d ck rd now c, its @ its')"
| finish: "iterator_step (c, its @ it # its') (c, its @ its')"
| resume: "pop_state d ck c = (Some info, c') \<Longrightarrow>
    iterator_step (c, its) (c', (d, info_cookie info, info_read_dir info) # its)"
| clean: "iterator_step (c, its) (cleanup_iterators now c, its)"

inductive iterators_reachable :: "nat \<Rightarrow> u16 \<Rightarrow> 'd IteratorCache \<times> 'd in_use \<Rightarrow> bool" for period mx where
  start: "iterators_reachable period mx (iterator_cache_new period mx, [])"
| step: "iterators_reachable period mx s \<Longrightarrow> iterator_step s s' \<Longrightarrow> iterators_reachable period mx s'"

definition bases_in_use :: "'d in_use \<Rightarrow> nat multiset" where
  "bases_in_use its = mset (map (\<lambda>(d, ck, rd). base ck) its)"

definition bases_suspended :: "'d IteratorCache \<Rightarrow> FileHandleU64 \<Rightarrow> nat multiset" where
  "bases_suspended c d = image_mset (\<lambda>info. base (info_cookie info)) (mset (suspended c d))"

definition iterators_ok :: "'d IteratorCache \<times> 'd in_use \<Rightarrow> bool" where
  "iterators_ok s \<longleftrightarrow> (case s of (c, its) \<Rightarrow>
     (\<forall>d b. Multiset.count (bases_in_use its) b + Multiset.count (bases_suspended c d) b \<le> 1) \<and>
     (\<forall>d d' b. d \<noteq> d' \<and> b \<in># bases_suspended c d \<longrightarrow> b \<notin># bases_suspended c d') \<and>
     (\<forall>b. b \<in># bases_in_use its \<longrightarrow> b < unat (cookie_counter c)) \<and>
     (\<forall>d b. b \<in># bases_suspended c d \<longrightarrow> b < unat (cookie_counter c)) \<and>
     (\<forall>d. length (suspended c d) \<le> unat (max_cached_per_dir c)))"

lemma bases_in_use_simps [simp]:
  "bases_in_use [] = {#}"
  "bases_in_use ((d, ck, rd) # its) = add_mset (base ck) (bases_in_use its)"
  "bases_in_use (its @ its') = bases_in_use its + bases_in_use its'"
  by (simp_all add: bases_in_use_def)

lemma base_generated:
  assumes "generate_base_cookie c = (ck, c')"
  shows "base ck = unat (cookie_counter c)"
proof -
  define n where "n = unat (cookie_counter c)"
  have n: "n < 2 ^ 32" unfolding n_def by (rule order_less_le_trans [OF unsigned_less]) simp
  have "ck = push_bit 32 (ucast (cookie_counter c))" using assms by (simp add: generate_base_cookie_def)
  then have "unat ck = n * 2 ^ 32"
    using n by (simp only: unsigned_push_bit_eq unsigned_ucast_eq n_def [symmetric])
      (simp add: take_bit_eq_mod push_bit_eq_mult)
  then show ?thesis by (simp add: base_def n_def)
qed

lemma base_advance:
  assumes "position ck < 2 ^ 32 - 1"
  shows "base (ck + 1) = base ck"
proof -
  define n where "n = unat ck"
  have n: "n mod 2 ^ 32 < 2 ^ 32 - 1" "n < 2 ^ 64"
    using assms unsigned_less [of ck, where ?'a = nat] by (simp_all add: position_def n_def)
  have "n + 1 \<noteq> 2 ^ 64"
  proof
    assume "n + 1 = 2 ^ 64"
    then have "n = 2 ^ 64 - 1" by simp
    with n(1) show False by simp
  qed
  then have "unat (ck + 1) = n + 1" using n(2) by (simp add: unat_word_ariths n_def)
  moreover have "(n + 1) div 2 ^ 32 = n div 2 ^ 32"
    using n(1) by (auto simp: div_Suc mod_Suc)
  ultimately show ?thesis by (simp add: base_def n_def)
qed


lemma position_advance:
  assumes "position ck < 2 ^ 32 - 1"
  shows "position (ck + 1) = Suc (position ck)"
proof -
  have "unat ck + 1 \<noteq> 2 ^ 64"
  proof
    assume "unat ck + 1 = 2 ^ 64"
    then have "unat ck = 2 ^ 64 - 1" by simp
    with assms show False by (simp add: position_def)
  qed
  then have "unat (ck + 1) = Suc (unat ck)"
    using unsigned_less [of ck, where ?'a = nat] by (simp add: unat_word_ariths)
  then show ?thesis using assms by (simp add: position_def mod_Suc)
qed

lemma base_add:
  "position ck + k < 2 ^ 32 \<Longrightarrow> base (ck + of_nat k) = base ck \<and> position (ck + of_nat k) = position ck + k"
proof (induction k)
  case (Suc k)
  then have "base (ck + of_nat k) = base ck" "position (ck + of_nat k) = position ck + k" by simp_all
  with Suc.prems show ?case
    using base_advance [of "ck + of_nat k"] position_advance [of "ck + of_nat k"] by (simp add: algebra_simps)
qed simp

lemma position_generated:
  assumes "generate_base_cookie c = (ck, c')"
  shows "position ck = 0"
proof -
  have "ck = push_bit 32 (ucast (cookie_counter c))" using assms by (simp add: generate_base_cookie_def)
  then have "unat ck = take_bit 64 (push_bit 32 (unat (ucast (cookie_counter c) :: u64)))"
    by (simp only: unsigned_push_bit_eq) simp
  then show ?thesis
    by (simp add: position_def take_bit_push_bit flip: take_bit_eq_mod) (simp add: take_bit_eq_mod push_bit_eq_mult)
qed

lemma bases_suspended_cache_state:
  "d' \<noteq> d \<Longrightarrow> bases_suspended (cache_state d ck rd now c) d' = bases_suspended c d'"
  "bases_suspended (cache_state d ck rd now c) d \<subseteq># add_mset (base ck) (bases_suspended c d)"
  using image_mset_subseteq_mono [OF cache_state_subset [of d ck rd now c], of "\<lambda>info. base (info_cookie info)"]
  by (simp_all add: bases_suspended_def cache_state_fields)

lemma bases_suspended_cleanup: "bases_suspended (cleanup_iterators now c) d \<subseteq># bases_suspended c d"
  by (auto simp: bases_suspended_def suspended_def cleanup_iterators_def Let_def intro!: image_mset_subseteq_mono
      split: option.split if_splits)

lemma bases_suspended_pop:
  assumes "pop_state d ck c = (Some info, c')"
  shows "bases_suspended c d = add_mset (base (info_cookie info)) (bases_suspended c' d)"
    "d' \<noteq> d \<Longrightarrow> bases_suspended c' d' = bases_suspended c d'"
  using pop_state_Some [OF assms] by (simp_all add: bases_suspended_def)

lemma iterators_okD:
  assumes "iterators_ok (c, its)"
  shows "b \<in># bases_in_use its \<Longrightarrow> b \<notin># bases_suspended c d"
    and "Multiset.count (bases_in_use its) b \<le> 1" "Multiset.count (bases_suspended c d) b \<le> 1"
    and "d \<noteq> d' \<Longrightarrow> b \<in># bases_suspended c d \<Longrightarrow> b \<notin># bases_suspended c d'"
    and "b \<in># bases_in_use its \<Longrightarrow> b < unat (cookie_counter c)"
    and "b \<in># bases_suspended c d \<Longrightarrow> b < unat (cookie_counter c)"
    and "length (suspended c d) \<le> unat (max_cached_per_dir c)"
proof -
  have sum: "Multiset.count (bases_in_use its) b + Multiset.count (bases_suspended c d) b \<le> 1"
    using assms by (simp add: iterators_ok_def)
  then show "Multiset.count (bases_in_use its) b \<le> 1" "Multiset.count (bases_suspended c d) b \<le> 1"
    "b \<in># bases_in_use its \<Longrightarrow> b \<notin># bases_suspended c d"
    unfolding not_in_iff by (simp_all flip: count_greater_zero_iff)
qed (use assms in \<open>auto simp: iterators_ok_def\<close>)

lemma iterators_okI:
  assumes "\<And>b d. b \<in># bases_in_use its \<Longrightarrow> b \<notin># bases_suspended c d"
    and "\<And>b. Multiset.count (bases_in_use its) b \<le> 1" "\<And>b d. Multiset.count (bases_suspended c d) b \<le> 1"
    and "\<And>b d d'. d \<noteq> d' \<Longrightarrow> b \<in># bases_suspended c d \<Longrightarrow> b \<notin># bases_suspended c d'"
    and "\<And>b. b \<in># bases_in_use its \<Longrightarrow> b < unat (cookie_counter c)"
    and "\<And>b d. b \<in># bases_suspended c d \<Longrightarrow> b < unat (cookie_counter c)"
    and "\<And>d. length (suspended c d) \<le> unat (max_cached_per_dir c)"
  shows "iterators_ok (c, its)"
proof -
  have "Multiset.count (bases_in_use its) b + Multiset.count (bases_suspended c d) b \<le> 1" for b d
    using assms(1) [of b d] assms(2) [of b] assms(3) [of d b]
    by (cases "b \<in># bases_in_use its") (simp_all add: not_in_iff)
  then show ?thesis using assms(4-7) by (auto simp: iterators_ok_def)
qed

lemma open_iterator_ok:
  assumes ok: "iterators_ok (c, its)" and room: "unat (cookie_counter c) < 2 ^ 32 - 1"
    and gen: "generate_base_cookie c = (ck, c')"
  shows "iterators_ok (c', (d, ck, rd) # its)"
proof -
  note D = iterators_okD [OF ok]
  have b: "base ck = unat (cookie_counter c)" using base_generated gen .
  have c': "c' = c\<lparr> cookie_counter := cookie_counter c + 1 \<rparr>" using gen by (simp add: generate_base_cookie_def)
  have n: "unat (cookie_counter c') = Suc (unat (cookie_counter c))"
    using room by (simp add: c' unat_word_ariths)
  have s: "suspended c' d = suspended c d" "bases_suspended c' d = bases_suspended c d" for d
    by (simp_all add: c' bases_suspended_def suspended_def)
  have new: "base ck \<notin># bases_in_use its" "base ck \<notin># bases_suspended c d" for d
    using D(5) [of "base ck"] D(6) [of "base ck" d] b by auto
  show ?thesis
  proof (rule iterators_okI)
    show "Multiset.count (bases_in_use ((d, ck, rd) # its)) x \<le> 1" for x
      using D(2) [of x] new(1) by (auto simp: not_in_iff)
    show "length (suspended c' d') \<le> unat (max_cached_per_dir c')" for d'
      using D(7) [of d'] by (simp only: s) (simp add: c')
  qed (use D(1,3,4) new in \<open>auto simp: s n b dest: D(5,6)\<close>)
qed

lemma suspend_ok:
  assumes ok: "iterators_ok (c, its @ (d, ck, rd) # its')"
  shows "iterators_ok (cache_state d ck rd now c, its @ its')"
proof -
  note D = iterators_okD [OF ok]
  let ?c = "cache_state d ck rd now c"
  have used: "base ck \<notin># bases_suspended c e" for e using D(1) by simp
  have left: "base ck \<notin># bases_in_use (its @ its')"
    using D(2) [of "base ck"] by (simp add: not_in_iff)
  have sub: "x \<in># bases_suspended ?c e \<Longrightarrow> e = d \<and> x = base ck \<or> x \<in># bases_suspended c e" for x e
    using bases_suspended_cache_state(1) [of e d ck rd now c]
      mset_subset_eqD [OF bases_suspended_cache_state(2), of x d ck rd now c] by (cases "e = d") auto
  show ?thesis
  proof (rule iterators_okI)
    show "Multiset.count (bases_suspended ?c e) x \<le> 1" for e x
      using mset_subset_eq_count [OF bases_suspended_cache_state(2), of d ck rd now c x] D(3) [of e x] used [of d]
        bases_suspended_cache_state(1) [of e d ck rd now c]
      by (cases "e = d") (auto simp: not_in_iff split: if_splits)
    show "length (suspended ?c e) \<le> unat (max_cached_per_dir ?c)" for e
      using cache_state_bound [of d ck rd now c] D(7) [of e] by (cases "e = d") (simp_all add: cache_state_fields)
    show "Multiset.count (bases_in_use (its @ its')) x \<le> 1" for x using D(2) [of x] by (simp split: if_splits)
    show "x < unat (cookie_counter ?c)" if "x \<in># bases_suspended ?c e" for x e
      using sub [OF that] D(5) [of x] D(6) [of x e] by (auto simp: cache_state_fields)
    show "x < unat (cookie_counter ?c)" if "x \<in># bases_in_use (its @ its')" for x
      using that D(5) [of x] by (auto simp: cache_state_fields)
    show "x \<notin># bases_suspended ?c e" if "x \<in># bases_in_use (its @ its')" for x e
      using that left D(1) [of x e] sub [of x e] by auto
    show "x \<notin># bases_suspended ?c e'" if "e \<noteq> e'" "x \<in># bases_suspended ?c e" for e e' x
      using that(1) sub [OF that(2)] sub [of x e'] used D(4) [OF that(1), of x] by blast
  qed
qed

lemma resume_ok:
  assumes ok: "iterators_ok (c, its)" and pop: "pop_state d ck c = (Some info, c')"
  shows "iterators_ok (c', (d, info_cookie info, rd) # its)"
proof -
  note D = iterators_okD [OF ok] and P = pop_state_Some [OF pop] and B = bases_suspended_pop [OF pop]
  have mem: "base (info_cookie info) \<in># bases_suspended c d" by (simp add: B(1))
  have gone: "base (info_cookie info) \<notin># bases_suspended c' e" for e
    using D(3) [of d "base (info_cookie info)"] D(4) [OF _ mem, of e] B(1) B(2) [of e]
    by (cases "e = d") (simp_all add: not_in_iff)
  have idle: "base (info_cookie info) \<notin># bases_in_use its" using D(1) mem by blast
  have sub: "bases_suspended c' e \<subseteq># bases_suspended c e" for e
    using B(1) B(2) [of e] by (cases "e = d") simp_all
  have "length (suspended c d) = Suc (length (suspended c' d))" using P(2) by (metis size_add_mset size_mset)
  then have len: "length (suspended c' e) \<le> length (suspended c e)" for e
    using P(3) [of e] by (cases "e = d") simp_all
  show ?thesis
  proof (rule iterators_okI)
    show "Multiset.count (bases_in_use ((d, info_cookie info, rd) # its)) x \<le> 1" for x
      using D(2) [of x] idle by (auto simp: not_in_iff)
    show "Multiset.count (bases_suspended c' e) x \<le> 1" for x e
      using mset_subset_eq_count [OF sub, of e x] D(3) [of e x] by simp
    show "length (suspended c' e) \<le> unat (max_cached_per_dir c')" for e using len [of e] D(7) [of e] by (simp add: P)
    show "x \<notin># bases_suspended c' e'" if "e \<noteq> e'" "x \<in># bases_suspended c' e" for e e' x
      using that D(4) [OF that(1), of x] mset_subset_eqD [OF sub] by blast
    show "x \<notin># bases_suspended c' e" if "x \<in># bases_in_use ((d, info_cookie info, rd) # its)" for e x
      using that gone D(1) [of x e] mset_subset_eqD [OF sub, of x e] by auto
    show "x < unat (cookie_counter c')" if "x \<in># bases_suspended c' e" for x e
      using D(6) [OF mset_subset_eqD [OF sub that]] by (simp add: P)
    show "x < unat (cookie_counter c')" if "x \<in># bases_in_use ((d, info_cookie info, rd) # its)" for x
      using that D(5) [of x] D(6) [OF mem] by (auto simp: P)
  qed
qed

lemma clean_ok:
  assumes ok: "iterators_ok (c, its)"
  shows "iterators_ok (cleanup_iterators now c, its)"
proof -
  note D = iterators_okD [OF ok] and sub = bases_suspended_cleanup [of now c]
  have same: "cookie_counter (cleanup_iterators now c) = cookie_counter c"
    "max_cached_per_dir (cleanup_iterators now c) = max_cached_per_dir c" by (simp_all add: cleanup_iterators_def)
  have len: "length (suspended (cleanup_iterators now c) e) \<le> length (suspended c e)" for e
    by (simp add: suspended_def cleanup_iterators_def Let_def split: option.split)
  show ?thesis
  proof (rule iterators_okI)
    show "Multiset.count (bases_suspended (cleanup_iterators now c) e) x \<le> 1" for e x
      using mset_subset_eq_count [OF sub, of e x] D(3) [of e x] by simp
    show "length (suspended (cleanup_iterators now c) e) \<le> unat (max_cached_per_dir (cleanup_iterators now c))" for e
      using len [of e] D(7) [of e] by (simp add: same)
    show "x \<notin># bases_suspended (cleanup_iterators now c) e'" if "e \<noteq> e'" "x \<in># bases_suspended (cleanup_iterators now c) e" for e e' x
      using that D(4) [OF that(1), of x] mset_subset_eqD [OF sub] by blast
    show "x \<notin># bases_suspended (cleanup_iterators now c) e" if "x \<in># bases_in_use its" for e x
      using D(1) [OF that, of e] mset_subset_eqD [OF sub, of x e] by blast
    show "x < unat (cookie_counter (cleanup_iterators now c))" if "x \<in># bases_suspended (cleanup_iterators now c) e" for x e
      using D(6) [OF mset_subset_eqD [OF sub that]] by (simp only: same)
  qed (simp_all only: same D)
qed

lemma advance_ok:
  assumes "position ck < 2 ^ 32 - 1" "iterators_ok (c, its @ (d, ck, rd) # its')"
  shows "iterators_ok (c, its @ (d, ck + 1, rd') # its')"
proof -
  have same: "bases_in_use (its @ (d, ck + 1, rd') # its') = bases_in_use (its @ (d, ck, rd) # its')"
    using base_advance [OF assms(1)] by simp
  show ?thesis using assms(2) unfolding iterators_ok_def prod.case same .
qed

lemma finish_ok:
  assumes "iterators_ok (c, its @ it # its')"
  shows "iterators_ok (c, its @ its')"
proof -
  obtain d ck rd where it: "it = (d, ck, rd)" by (cases it)
  note D = iterators_okD [OF assms [unfolded it]]
  show ?thesis
  proof (rule iterators_okI)
    show "Multiset.count (bases_in_use (its @ its')) x \<le> 1" for x using D(2) [of x] by (simp split: if_splits)
    show "x \<notin># bases_suspended c e" if "x \<in># bases_in_use (its @ its')" for x e using D(1) [of x e] that by auto
    show "x < unat (cookie_counter c)" if "x \<in># bases_in_use (its @ its')" for x using D(5) [of x] that by auto
  qed (fact D)+
qed

lemma iterator_step_ok: "iterator_step s s' \<Longrightarrow> iterators_ok s \<Longrightarrow> iterators_ok s'"
  by (induction rule: iterator_step.induct)
     (rule open_iterator_ok advance_ok suspend_ok finish_ok resume_ok clean_ok; assumption)+

lemma iterator_step_limit: "iterator_step s s' \<Longrightarrow> max_cached_per_dir (fst s') = max_cached_per_dir (fst s)"
  by (induction rule: iterator_step.induct)
     (auto simp: generate_base_cookie_def cache_state_fields cleanup_iterators_def pop_state_Some)

lemma iterators_reachable_ok:
  "iterators_reachable period mx s \<Longrightarrow> iterators_ok s \<and> max_cached_per_dir (fst s) = mx"
proof (induction rule: iterators_reachable.induct)
  case start
  show ?case by (simp add: iterators_ok_def iterator_cache_new_def bases_suspended_def suspended_def)
qed (simp add: iterator_step_ok iterator_step_limit)

section \<open>Cookies are unique and lead back to their iterator\<close>

lemma in_bases_suspended: "b \<in># bases_suspended c d \<longleftrightarrow> (\<exists>info \<in> set (suspended c d). b = base (info_cookie info))"
  by (auto simp: bases_suspended_def)

lemma suspended_unique:
  assumes "iterators_ok (c, its)" "i \<in> set (suspended c d)" "j \<in> set (suspended c d)"
    and "base (info_cookie i) = base (info_cookie j)"
  shows "i = j"
proof (rule ccontr)
  assume "i \<noteq> j"
  have "i \<in># mset (suspended c d)" "j \<in># mset (suspended c d)" using assms(2,3) by simp_all
  then obtain M where M: "mset (suspended c d) = add_mset i M" "j \<in># add_mset i M" using mset_add by metis
  with \<open>i \<noteq> j\<close> obtain N where "M = add_mset j N" using mset_add by (metis insert_noteq_member)
  with M have "Multiset.count (bases_suspended c d) (base (info_cookie i)) \<ge> 2"
    by (simp add: bases_suspended_def assms(4))
  with iterators_okD(3) [OF assms(1), of d "base (info_cookie i)"] show False by simp
qed

lemma count_le_1_distinct: "(\<And>b. Multiset.count (mset xs) b \<le> 1) \<Longrightarrow> distinct xs"
  by (simp add: distinct_count_atmost_1 le_Suc_eq count_mset_0_iff)


lemma other_cookie_gone:
  assumes ok: "iterators_ok (c, its @ (d, ck, rd) # its')" and ck': "base ck' = base ck" "ck' \<noteq> ck"
  shows "fst (pop_state e ck' (cache_state d ck rd now c)) = None"
  unfolding pop_state_None
proof
  let ?info = "\<lparr> info_cookie = ck, cached_at = now, info_read_dir = rd \<rparr>"
  fix j assume j: "j \<in> set (suspended (cache_state d ck rd now c) e)"
  have "j = ?info \<or> j \<in> set (suspended c e)"
  proof (cases "e = d")
    case True
    with j have "j \<in># add_mset ?info (mset (suspended c e))"
      using mset_subset_eqD [OF cache_state_subset, of j d ck rd now c] by simp
    then show ?thesis by simp
  qed (use j in \<open>simp add: cache_state_fields\<close>)
  moreover have "base ck \<notin># bases_suspended c e" using iterators_okD(1) [OF ok] by simp
  ultimately show "info_cookie j \<noteq> ck'" using ck' unfolding in_bases_suspended by force
qed

text \<open>
  An iterator that is dropped can be resumed, once, with the cookie of the last entry it gave
  out: its \<^verbatim>\<open>ReadDir\<close> is the one that was suspended.  With the cookie of an earlier entry it
  cannot.
\<close>

theorem iterator_resumed:
  assumes "iterators_reachable period mx (c, its @ (d, ck, rd) # its')" "mx \<noteq> 0"
    and "\<forall>info \<in> set (suspended c d). cached_at info \<le> now"
  defines "c' \<equiv> cache_state d ck rd now c"
  shows "(\<exists>info c''. pop_state d ck c' = (Some info, c'') \<and> info_read_dir info = rd \<and> fst (pop_state d ck c'') = None) \<and>
    (\<forall>e ck'. base ck' = base ck \<and> ck' \<noteq> ck \<longrightarrow> fst (pop_state e ck' c') = None)"
proof -
  have c: "iterators_ok (c, its @ (d, ck, rd) # its')" "max_cached_per_dir c = mx"
    using iterators_reachable_ok [OF assms(1)] by auto
  have ok: "iterators_ok (c', its @ its')" unfolding c'_def using c(1) by (rule suspend_ok)
  let ?info = "\<lparr> info_cookie = ck, cached_at = now, info_read_dir = rd \<rparr>"
  have info: "?info \<in> set (suspended c' d)"
    unfolding c'_def using assms(2,3) c(2) by (intro cache_state_keeps_last) auto
  then have "fst (pop_state d ck c') \<noteq> None"
    unfolding pop_state_None by (metis CachedIteratorInfo.select_convs(1))
  then obtain i c'' where pop: "pop_state d ck c' = (Some i, c'')" by (metis not_None_eq prod.collapse)
  note P = pop_state_Some [OF pop]
  have "i \<in> set (suspended c' d)" using P(2) by (metis set_mset_mset union_single_eq_member)
  then have i: "i = ?info" using suspended_unique [OF ok _ info] P(1) by simp
  have "base ck \<notin># bases_suspended c'' d"
    using iterators_okD(3) [OF ok, of d "base ck"] bases_suspended_pop(1) [OF pop] P(1) by (simp add: not_in_iff)
  then have "fst (pop_state d ck c'') = None" unfolding in_bases_suspended pop_state_None by blast
  moreover have "fst (pop_state e ck' c') = None" if "base ck' = base ck" "ck' \<noteq> ck" for e ck'
    unfolding c'_def by (rule other_cookie_gone [OF c(1) that])
  ultimately show ?thesis using pop i by auto
qed


section \<open>Examples\<close>

text \<open>An iterator over the directory 1 that has given out one entry.\<close>

definition example_cache :: "string IteratorCache" where
  "example_cache = (iterator_cache_new 60 20)\<lparr> cookie_counter := 1 \<rparr>"

lemma example_iterators: "iterators_reachable 60 20 (example_cache, [] @ [(1, 1, ''rest'')])"
proof -
  have "iterator_step (iterator_cache_new 60 20, []) (example_cache, [(1, 0, ''all'')])"
    by (rule open_iterator) (simp_all add: generate_base_cookie_def iterator_cache_new_def example_cache_def)
  then have opened: "iterators_reachable 60 20 (example_cache, [] @ (1, 0, ''all'') # [])"
    by (simp add: iterators_reachable.step [OF iterators_reachable.start])
  have "position 0 < 2 ^ 32 - 1" by (simp add: position_def)
  from iterators_reachable.step [OF opened advance [OF this]] show ?thesis by simp
qed


theorem iterator_resumed_witness:
  "\<exists>info c. pop_state 1 1 (cache_state 1 1 ''rest'' 5 example_cache) = (Some info, c) \<and> info_read_dir info = ''rest''"
proof -
  have "\<forall>info \<in> set (suspended example_cache 1). cached_at info \<le> 5"
    by (simp add: suspended_def example_cache_def iterator_cache_new_def)
  then show ?thesis using iterator_resumed [OF example_iterators, of 5] by auto
qed

end
