(* ===== verification/Mirror_Fs.thy ===== *)
theory Mirror_Fs
  imports Fs_Util Symbols_Cache Iterator_Cache
begin

text \<open>
  The mirror file system of the server binary, which serves a directory of the operating system
  (\<^verbatim>\<open>cargo_nfs3_server/src/mirror/mod.rs\<close> and \<^verbatim>\<open>iterator.rs\<close>).  Its state is the world, the cache
  of handles and the cache of suspended iterators.  The operating system with its clock, the table of
  symbols and the exported directory are parameters.

  A name of the protocol is the same bytes as an \<^verbatim>\<open>OsStr\<close> on Unix, so the conversions of
  \<^verbatim>\<open>string_ext.rs\<close> are the identity.
\<close>

section \<open>State\<close>

record ('w, 't, 'd) mirror_state = "('w, 't) symbols_state" +
  iterators :: "'d IteratorCache"

definition on_world :: "('w, 'a) prog \<Rightarrow> (('w, 't, 'z) symbols_state_scheme, 'a) prog" where
  "on_world m s = (case m (world s) of None \<Rightarrow> None | Some (x, w) \<Rightarrow> Some (x, s\<lparr> world := w \<rparr>))"

definition mirror_new :: "'t symbol_table \<Rightarrow> 'w \<Rightarrow> ('w, 't, 'd) mirror_state" where
  "mirror_new tbl w =
     \<lparr> world = w, inner = symbols_cache_new tbl, iterators = iterator_cache_new 60 20 \<rparr>"

fun map_io_error :: "ErrorKind \<Rightarrow> nfsstat3" where
  "map_io_error NotFound = NFS3ERR_NOENT"
| "map_io_error PermissionDenied = NFS3ERR_ACCES"
| "map_io_error AlreadyExists = NFS3ERR_EXIST"
| "map_io_error IsADirectory = NFS3ERR_ISDIR"
| "map_io_error NotADirectory = NFS3ERR_NOTDIR"
| "map_io_error ReadOnlyFilesystem = NFS3ERR_ROFS"
| "map_io_error Unsupported = NFS3ERR_NOTSUPP"
| "map_io_error CrossesDevices = NFS3ERR_XDEV"
| "map_io_error (OtherKind n) = NFS3ERR_IO"

section \<open>Paths and files\<close>

definition mirror_path ::
  "'t symbol_table \<Rightarrow> bytes \<Rightarrow> FileHandleU64 \<Rightarrow> (('w, 't, 'z) symbols_state_scheme, nfsstat3 + bytes) prog" where
  "mirror_path tbl root i s =
     (case handle_to_path tbl i (inner s) of
        None \<Rightarrow> None
      | Some r \<Rightarrow> Some (map_ok (path_push root) r, s))"

text \<open>\<^verbatim>\<open>Fs::read\<close>; a count of 32 bits fits into \<^verbatim>\<open>usize\<close>, and the sum cannot overflow.\<close>

definition read_file :: "('w, 'f, 'd) os \<Rightarrow> bytes \<Rightarrow> u64 \<Rightarrow> u32 \<Rightarrow> ('w, ErrorKind + bytes \<times> bool) prog" where
  "read_file os path start cnt =
     os_ok (os_call (os_open os path)) (\<lambda>f.
     os_ok (os_call (os_metadata os f)) (\<lambda>m.
       let len = meta_len m in
       if start \<ge> len \<or> cnt = 0 then ret (Ok ([], ucast cnt \<ge> len))
       else
         let n = min (ucast cnt) (len - start) in
         os_ok (os_call (os_seek os start f)) (\<lambda>_.
         os_ok (os_call (os_read_exact os (unat n) f)) (\<lambda>buf.
         ret (Ok (buf, start + n \<ge> len))))))"

definition mirror_getattr ::
  "('w, 'f, 'd) os \<Rightarrow> 't symbol_table \<Rightarrow> bytes \<Rightarrow> FileHandleU64 \<Rightarrow>
     (('w, 't, 'z) symbols_state_scheme, nfsstat3 + fattr3) prog" where
  "mirror_getattr os tbl root i =
     os_ok (mirror_path tbl root i) (\<lambda>path.
     os_ok (map_err map_io_error (on_world (os_call (os_symlink_metadata os path)))) (\<lambda>m.
     ret (Ok (metadata_to_fattr3 i m))))"

definition mirror_read ::
  "('w, 'f, 'd) os \<Rightarrow> 't symbol_table \<Rightarrow> bytes \<Rightarrow> FileHandleU64 \<Rightarrow> u64 \<Rightarrow> u32 \<Rightarrow>
     (('w, 't, 'z) symbols_state_scheme, nfsstat3 + bytes \<times> bool) prog" where
  "mirror_read os tbl root i off cnt =
     os_ok (mirror_path tbl root i) (\<lambda>path. map_err map_io_error (on_world (read_file os path off cnt)))"

definition mirror_readlink ::
  "('w, 'f, 'd) os \<Rightarrow> 't symbol_table \<Rightarrow> bytes \<Rightarrow> FileHandleU64 \<Rightarrow>
     (('w, 't, 'z) symbols_state_scheme, nfsstat3 + nfspath3) prog" where
  "mirror_readlink os tbl root i =
     os_ok (mirror_path tbl root i) (\<lambda>path.
     await (on_world (os_call (os_read_link os path))) (\<lambda>r. ret (case r of
       Ok target \<Rightarrow> Ok target
     | Err e \<Rightarrow> if e = NotFound then Err NFS3ERR_NOENT else Err NFS3ERR_BADTYPE)))"

section \<open>Iterators (iterator.rs)\<close>

record 'd MirrorFsIterator =
  iter_dirid :: FileHandleU64
  iter_read_dir :: "'d option"
  iter_cookie :: u64

definition initialize_read_dir ::
  "('w, 'f, 'd) os \<Rightarrow> 't symbol_table \<Rightarrow> bytes \<Rightarrow> FileHandleU64 \<Rightarrow> u64 \<Rightarrow>
     (('w, 't, 'd) mirror_state, nfsstat3 + 'd \<times> u64) prog" where
  "initialize_read_dir os tbl root dirid ck =
     os_ok (mirror_path tbl root dirid) (\<lambda>dir_path.
       if ck = 0 then
         os_ok (map_err (\<lambda>_. NFS3ERR_NOENT) (on_world (os_call (os_symlink_metadata os dir_path)))) (\<lambda>m.
         if meta_type m \<noteq> Directory then ret (Err NFS3ERR_NOTDIR)
         else
           os_ok (map_err (\<lambda>_. NFS3ERR_IO) (on_world (os_call (os_read_dir os dir_path)))) (\<lambda>rd s.
             let (b, its) = generate_base_cookie (iterators s) in Some (Ok (rd, b), s\<lparr> iterators := its \<rparr>)))
       else (\<lambda>s.
         let (popped, its) = pop_state dirid ck (iterators s); s = s\<lparr> iterators := its \<rparr> in
         case popped of
           Some cached_info \<Rightarrow> Some (Ok (info_read_dir cached_info, info_cookie cached_info), s)
         | None \<Rightarrow> Some (Err NFS3ERR_BAD_COOKIE, s)))"

definition get_or_create_iterator ::
  "('w, 'f, 'd) os \<Rightarrow> 't symbol_table \<Rightarrow> bytes \<Rightarrow> FileHandleU64 \<Rightarrow> u64 \<Rightarrow>
     (('w, 't, 'd) mirror_state, nfsstat3 + 'd MirrorFsIterator) prog" where
  "get_or_create_iterator os tbl root dirid ck =
     os_ok (initialize_read_dir os tbl root dirid ck) (\<lambda>(rd, cookie_value).
     ret (Ok \<lparr> iter_dirid = dirid, iter_read_dir = Some rd, iter_cookie = cookie_value \<rparr>))"

text \<open>The addition to the cookie overflows, and then panics, only after \<open>2 ^ 64\<close> entries.\<close>

definition next_entry_common ::
  "('w, 'f, 'd) os \<Rightarrow> 't symbol_table \<Rightarrow> bytes \<Rightarrow> 'd MirrorFsIterator \<Rightarrow>
     (('w, 't, 'd) mirror_state, (FileHandleU64 \<times> bytes \<times> u64) NextResult \<times> 'd MirrorFsIterator) prog" where
  "next_entry_common os tbl root it =
     (case iter_read_dir it of
        None \<Rightarrow> ret (NextEof, it)
      | Some rd \<Rightarrow>
          await (on_world (os_call (os_next_entry os rd))) (\<lambda>(r, rd').
            let it = it\<lparr> iter_read_dir := Some rd' \<rparr> in
            case r of
              Ok (Some nm) \<Rightarrow>
                await (lookup_by_id tbl (os_exists os) root (iter_dirid it) nm False) (\<lambda>h. case h of
                  Err e \<Rightarrow> ret (NextErr e, it)
                | Ok handle \<Rightarrow>
                    if iter_cookie it = - 1 then panic
                    else (let it = it\<lparr> iter_cookie := iter_cookie it + 1 \<rparr>
                          in ret (NextOk (handle, nm, iter_cookie it), it)))
            | Ok None \<Rightarrow> ret (NextEof, it\<lparr> iter_read_dir := None \<rparr>)
            | Err _ \<Rightarrow> ret (NextErr NFS3ERR_IO, it)))"

definition iterator_drop ::
  "('w, 'f, 'd) os \<Rightarrow> 'd MirrorFsIterator \<Rightarrow> (('w, 't, 'd) mirror_state, unit) prog" where
  "iterator_drop os it s =
     (case iter_read_dir it of
        None \<Rightarrow> Some ((), s)
      | Some rd \<Rightarrow>
          (let (now, w) = os_now os (world s) in
           Some ((), s\<lparr> world := w,
             iterators := cache_state (iter_dirid it) (iter_cookie it) rd now (iterators s) \<rparr>)))"

definition mirror_next ::
  "('w, 'f, 'd) os \<Rightarrow> 't symbol_table \<Rightarrow> bytes \<Rightarrow> 'd MirrorFsIterator \<Rightarrow>
     (('w, 't, 'd) mirror_state, DirEntry NextResult \<times> 'd MirrorFsIterator) prog" where
  "mirror_next os tbl root it =
     await (next_entry_common os tbl root it) (\<lambda>(r, it'). ret (case r of
       NextOk (handle, nm, ck) \<Rightarrow> (NextOk \<lparr> entry3.fileid = handle, entry3.name = nm, entry3.cookie = ck \<rparr>, it')
     | NextErr e \<Rightarrow> (NextErr e, it')
     | NextEof \<Rightarrow> (NextEof, it')))"

text \<open>The loop of the other iterator goes on when a handle has no path.\<close>

partial_function (option) mirror_next_plus ::
  "('w, 'f, 'd) os \<Rightarrow> 't symbol_table \<Rightarrow> bytes \<Rightarrow> 'd MirrorFsIterator \<Rightarrow> ('w, 't, 'd) mirror_state \<Rightarrow>
     ((FileHandleU64 DirEntryPlus NextResult \<times> 'd MirrorFsIterator) \<times> ('w, 't, 'd) mirror_state) option" where
  "mirror_next_plus os tbl root it s =
     Option.bind (next_entry_common os tbl root it s) (\<lambda>((r, it'), s').
       case r of
         NextOk (handle, nm, ck) \<Rightarrow>
           (case handle_to_path tbl handle (inner s') of
              None \<Rightarrow> None
            | Some (Err _) \<Rightarrow> mirror_next_plus os tbl root it' s'
            | Some (Ok relative_path) \<Rightarrow>
                (let (m, w) = os_symlink_metadata os (path_push root relative_path) (world s') in
                 Some ((NextOk \<lparr> DirEntryPlus.fileid = handle, DirEntryPlus.name = nm, DirEntryPlus.cookie = ck,
                    DirEntryPlus.name_attributes = (case m of Err _ \<Rightarrow> None | Ok md \<Rightarrow> Some (metadata_to_fattr3 handle md)),
                    DirEntryPlus.name_handle = Some handle \<rparr>, it'), s'\<lparr> world := w \<rparr>)))
       | NextErr e \<Rightarrow> Some ((NextErr e, it'), s')
       | NextEof \<Rightarrow> Some ((NextEof, it'), s'))"

section \<open>Modifying operations\<close>

definition mirror_setattr ::
  "('w, 'f, 'd) os \<Rightarrow> 't symbol_table \<Rightarrow> bytes \<Rightarrow> FileHandleU64 \<Rightarrow> sattr3 \<Rightarrow>
     (('w, 't, 'z) symbols_state_scheme, nfsstat3 + fattr3) prog" where
  "mirror_setattr os tbl root i sa =
     os_ok (mirror_path tbl root i) (\<lambda>path.
     os_ok (on_world (path_setattr os path sa)) (\<lambda>_. mirror_getattr os tbl root i))"

definition mirror_write ::
  "('w, 'f, 'd) os \<Rightarrow> 't symbol_table \<Rightarrow> bytes \<Rightarrow> FileHandleU64 \<Rightarrow> u64 \<Rightarrow> bytes \<Rightarrow>
     (('w, 't, 'z) symbols_state_scheme, nfsstat3 + fattr3) prog" where
  "mirror_write os tbl root i off bs =
     os_ok (mirror_path tbl root i) (\<lambda>path.
     os_ok (map_err map_io_error (on_world (os_call (os_symlink_metadata os path)))) (\<lambda>m.
     if meta_type m \<noteq> RegularFile then ret (Err NFS3ERR_INVAL)
     else
       os_ok (map_err map_io_error (on_world (
         os_ok (os_call (os_open_write os path)) (\<lambda>file.
         os_ok (os_call (os_seek os off file)) (\<lambda>_.
         os_ok (os_call (os_write_all os bs file)) (\<lambda>_.
         os_call (os_flush os file))))))) (\<lambda>_. mirror_getattr os tbl root i)))"

definition mirror_lookup ::
  "('w, 'f, 'd) os \<Rightarrow> 't symbol_table \<Rightarrow> bytes \<Rightarrow> FileHandleU64 \<Rightarrow> filename3 \<Rightarrow>
     (('w, 't, 'z) symbols_state_scheme, nfsstat3 + FileHandleU64) prog" where
  "mirror_lookup os tbl root dirid nm = lookup_by_id tbl (os_exists os) root dirid nm True"

definition mirror_create ::
  "('w, 'f, 'd) os \<Rightarrow> 't symbol_table \<Rightarrow> bytes \<Rightarrow> FileHandleU64 \<Rightarrow> filename3 \<Rightarrow> sattr3 \<Rightarrow>
     (('w, 't, 'z) symbols_state_scheme, nfsstat3 + FileHandleU64 \<times> fattr3) prog" where
  "mirror_create os tbl root dirid nm sa =
     os_ok (mirror_path tbl root dirid) (\<lambda>dir_path.
     os_ok (map_err map_io_error (on_world (
       os_ok (os_call (os_create os (path_push dir_path nm))) (\<lambda>file.
       case sattr3.size sa of
         Some sz \<Rightarrow> os_call (os_set_len os sz file)
       | None \<Rightarrow> ret (Ok ()))))) (\<lambda>_.
     os_ok (mirror_lookup os tbl root dirid nm) (\<lambda>file_id.
     os_ok (mirror_setattr os tbl root file_id sa) (\<lambda>a. ret (Ok (file_id, a))))))"

definition mirror_create_exclusive ::
  "('w, 'f, 'd) os \<Rightarrow> 't symbol_table \<Rightarrow> bytes \<Rightarrow> FileHandleU64 \<Rightarrow> filename3 \<Rightarrow> createverf3 \<Rightarrow>
     (('w, 't, 'z) symbols_state_scheme, nfsstat3 + FileHandleU64) prog" where
  "mirror_create_exclusive os tbl root dirid nm cv =
     os_ok (mirror_path tbl root dirid) (\<lambda>dir_path.
     os_ok (map_err map_io_error (on_world (os_call (os_create_new os (path_push dir_path nm))))) (\<lambda>_.
     mirror_lookup os tbl root dirid nm))"

definition mirror_mkdir ::
  "('w, 'f, 'd) os \<Rightarrow> 't symbol_table \<Rightarrow> bytes \<Rightarrow> FileHandleU64 \<Rightarrow> filename3 \<Rightarrow>
     (('w, 't, 'z) symbols_state_scheme, nfsstat3 + FileHandleU64 \<times> fattr3) prog" where
  "mirror_mkdir os tbl root dirid nm =
     os_ok (mirror_path tbl root dirid) (\<lambda>dir_path.
     os_ok (map_err map_io_error (on_world (os_call (os_create_dir os (path_push dir_path nm))))) (\<lambda>_.
     os_ok (mirror_lookup os tbl root dirid nm) (\<lambda>new_dir_id.
     os_ok (mirror_getattr os tbl root new_dir_id) (\<lambda>a. ret (Ok (new_dir_id, a))))))"

definition mirror_remove ::
  "('w, 'f, 'd) os \<Rightarrow> 't symbol_table \<Rightarrow> bytes \<Rightarrow> FileHandleU64 \<Rightarrow> filename3 \<Rightarrow>
     (('w, 't, 'z) symbols_state_scheme, nfsstat3 + unit) prog" where
  "mirror_remove os tbl root dirid nm =
     os_ok (mirror_path tbl root dirid) (\<lambda>dir_path.
       let file_path = path_push dir_path nm in
       map_err map_io_error (on_world (
         os_ok (os_call (os_symlink_metadata os file_path)) (\<lambda>m.
         if meta_type m = Directory then os_call (os_remove_dir os file_path)
         else os_call (os_remove_file os file_path)))))"

text \<open>What has to be clear about the target of a rename.\<close>

definition check_target ::
  "('w, 'f, 'd) os \<Rightarrow> Metadata \<Rightarrow> bytes \<Rightarrow> ('w, nfsstat3 + unit) prog" where
  "check_target os from_metadata to_path =
     await (os_call (os_symlink_metadata os to_path)) (\<lambda>r. case r of
       Err _ \<Rightarrow> ret (Ok ())
     | Ok to_metadata \<Rightarrow>
         if (meta_type from_metadata = Directory) \<noteq> (meta_type to_metadata = Directory)
         then ret (Err NFS3ERR_EXIST)
         else if meta_type to_metadata = Directory then
           os_ok (map_err map_io_error (os_call (os_read_dir os to_path))) (\<lambda>rd.
           await (os_call (os_next_entry os rd)) (\<lambda>(e, _). case e of
             Err e \<Rightarrow> ret (Err (map_io_error e))
           | Ok (Some _) \<Rightarrow> ret (Err NFS3ERR_NOTEMPTY)
           | Ok None \<Rightarrow> ret (Ok ())))
         else ret (Ok ()))"

definition is_dots :: "bytes \<Rightarrow> bool" where
  "is_dots nm \<longleftrightarrow> nm = [46] \<or> nm = [46, 46]"

definition mirror_rename ::
  "('w, 'f, 'd) os \<Rightarrow> 't symbol_table \<Rightarrow> bytes \<Rightarrow> FileHandleU64 \<Rightarrow> filename3 \<Rightarrow> FileHandleU64 \<Rightarrow> filename3 \<Rightarrow>
     (('w, 't, 'z) symbols_state_scheme, nfsstat3 + unit) prog" where
  "mirror_rename os tbl root from_dirid from_name to_dirid to_name =
     (if is_dots from_name \<or> is_dots to_name then ret (Err NFS3ERR_INVAL)
      else
        os_ok (mirror_path tbl root from_dirid) (\<lambda>from_dir_path.
        os_ok (mirror_path tbl root to_dirid) (\<lambda>to_dir_path.
          let from_path = path_push from_dir_path from_name; to_path = path_push to_dir_path to_name in
          if from_dirid = to_dirid \<and> from_name = to_name then ret (Ok ())
          else
            os_ok (map_err map_io_error (on_world (os_call (os_symlink_metadata os from_path)))) (\<lambda>from_metadata.
            os_ok (on_world (check_target os from_metadata to_path)) (\<lambda>_.
            os_ok (map_err map_io_error (on_world (os_call (os_rename os from_path to_path)))) (\<lambda>_.
            await (lookup_by_id tbl (os_exists os) root from_dirid from_name False) (\<lambda>_.
            await (lookup_by_id tbl (os_exists os) root to_dirid to_name False) (\<lambda>_.
            ret (Ok ())))))))))"

definition mirror_symlink ::
  "('w, 'f, 'd) os \<Rightarrow> 't symbol_table \<Rightarrow> bytes \<Rightarrow> FileHandleU64 \<Rightarrow> filename3 \<Rightarrow> nfspath3 \<Rightarrow> sattr3 \<Rightarrow>
     (('w, 't, 'z) symbols_state_scheme, nfsstat3 + FileHandleU64 \<times> fattr3) prog" where
  "mirror_symlink os tbl root dirid linkname target sa =
     os_ok (mirror_path tbl root dirid) (\<lambda>dir_path.
     os_ok (map_err map_io_error (on_world (os_call (os_symlink os target (path_push dir_path linkname))))) (\<lambda>_.
     os_ok (mirror_lookup os tbl root dirid linkname) (\<lambda>link_id.
     await (if sattr3.mode sa \<noteq> None \<or> sattr3.uid sa \<noteq> None \<or> sattr3.gid sa \<noteq> None
            then await (mirror_setattr os tbl root link_id sa) (\<lambda>_. ret ()) else ret ()) (\<lambda>_.
     os_ok (mirror_getattr os tbl root link_id) (\<lambda>a. ret (Ok (link_id, a)))))))"

section \<open>The file system\<close>

definition mirror ::
  "('w, 'f, 'd) os \<Rightarrow> 't symbol_table \<Rightarrow> bytes \<Rightarrow>
     (('w, 't, 'd) mirror_state, FileHandleU64, 'd MirrorFsIterator, 'd MirrorFsIterator) NfsFileSystem" where
  "mirror os tbl root = \<lparr>
     vfs_handle = FileHandleU64_ops,
     vfs_root_dir = (\<lambda>_. ROOT_ID),
     vfs_lookup = mirror_lookup os tbl root,
     vfs_lookup_by_path = default_lookup_by_path (\<lambda>_. ROOT_ID) (mirror_lookup os tbl root),
     vfs_getattr = mirror_getattr os tbl root,
     vfs_read = mirror_read os tbl root,
     vfs_readdir = get_or_create_iterator os tbl root,
     vfs_readdir_next = mirror_next os tbl root,
     vfs_readdir_drop = iterator_drop os,
     vfs_readdirplus = get_or_create_iterator os tbl root,
     vfs_readdirplus_next = mirror_next_plus os tbl root,
     vfs_readdirplus_drop = iterator_drop os,
     vfs_readlink = mirror_readlink os tbl root,
     vfs_fsinfo = default_fsinfo (mirror_getattr os tbl root),
     vfs_capabilities = (\<lambda>_. ReadWrite),
     vfs_setattr = mirror_setattr os tbl root,
     vfs_write = mirror_write os tbl root,
     vfs_create = mirror_create os tbl root,
     vfs_create_exclusive = mirror_create_exclusive os tbl root,
     vfs_mkdir = mirror_mkdir os tbl root,
     vfs_remove = mirror_remove os tbl root,
     vfs_rename = mirror_rename os tbl root,
     vfs_symlink = mirror_symlink os tbl root \<rparr>"

end
