(* ===== verification/Mirror_Props.thy ===== *)
theory Mirror_Props
  imports Mirror_Fs Nfs_Handlers_Props
begin

text \<open>
  Properties of the mirror file system and of a server over it: the handles of the clients keep
  their meaning, the paths that the operating system gets to see, reading, and what happens to a
  directory listing that does not fit into one reply.
\<close>

section \<open>Handles keep their meaning\<close>

text \<open>
  The cache has grown from \<open>c0\<close> and is well formed, unless the handles have run out.
\<close>

definition handles_kept ::
  "'t symbol_table \<Rightarrow> ('t \<Rightarrow> bool) \<Rightarrow> 't SymbolsCacheInner \<Rightarrow> ('w, 't, 'z) symbols_state_scheme \<Rightarrow> bool" where
  "handles_kept tbl table_ok c0 s \<longleftrightarrow> length (path_to_id c0) \<le> length (path_to_id (inner s)) \<and>
     (cache_room (inner s) \<longrightarrow> cache_ok tbl table_ok (inner s) \<and> cache_extends tbl c0 (inner s))"

lemma keeps_os_ok [keeps_intros]:
  "keeps P m P \<Longrightarrow> (\<And>x. keeps P (f x) P) \<Longrightarrow> keeps P (os_ok m f) P"
  unfolding os_ok_def by (intro keeps_await_same keeps_intros)

lemma keeps_map_err [keeps_intros]: "keeps P m P \<Longrightarrow> keeps P (map_err g m) P"
  unfolding map_err_def by (intro keeps_await_same keeps_intros)

lemma keeps_on_world [keeps_intros]: "keeps (handles_kept tbl table_ok c0) (on_world m) (handles_kept tbl table_ok c0)"
  by (auto simp: keeps_def on_world_def handles_kept_def split: option.splits)

lemma keeps_mirror_path [keeps_intros]: "keeps P (mirror_path tbl root i) P"
  by (auto simp: keeps_def mirror_path_def split: option.splits)

lemma keeps_iterator_drop [keeps_intros]: "keeps (handles_kept tbl table_ok c0) (iterator_drop os it) (handles_kept tbl table_ok c0)"
  by (auto simp: keeps_def iterator_drop_def handles_kept_def split: option.splits prod.splits)

lemma insert_entry_length: "length (path_to_id (snd (insert_entry parent y c))) = Suc (length (path_to_id c))"
  by (simp add: insert_entry_def Let_def)

lemma inner_lookup_length:
  assumes run: "inner_lookup tbl ex root parent nm chk s = Some (r, s')"
  shows "length (path_to_id (inner s)) \<le> length (path_to_id (inner s'))"
proof -
  from run obtain y t where t: "table_intern tbl nm (symbols (inner s)) = Some (y, t)"
    by (auto simp: inner_lookup_def insert_or_resolve_def split: option.splits)
  define s1 where "s1 = s\<lparr> inner := (inner s)\<lparr> symbols := t,
    symbols_logger := snd (check_and_log (table_len tbl t) (symbols_logger (inner s))) \<rparr> \<rparr>"
  have same: "path_to_id (inner s1) = path_to_id (inner s)" by (simp add: s1_def)
  show ?thesis
  proof (cases "map_of (path_to_id (inner s1)) (parent @ [y])")
    case None
    let ?chk = "if chk then check_paths tbl ex root parent nm else ret (Ok ())"
    from run None obtain q s2 where q: "?chk s1 = Some (q, s2)"
      and rest: "(case q of Err stat \<Rightarrow> Some (Err stat, s2)
        | Ok _ \<Rightarrow> (let (i, c) = insert_entry parent y (inner s2) in Some (Ok i, s2\<lparr> inner := c \<rparr>))) = Some (r, s')"
      unfolding s1_def
      by (auto simp: inner_lookup_def insert_or_resolve_def t symbols_path_join_def Let_def await_eq_Some)
    have s2: "inner s2 = inner s1" using q check_paths_inner by (fastforce split: if_splits)
    show ?thesis
    proof (cases q)
      case (Inr u)
      obtain i c where ins: "insert_entry parent y (inner s2) = (i, c)" by (cases "insert_entry parent y (inner s2)")
      with rest Inr have "inner s' = c" by auto
      then show ?thesis using insert_entry_length [of parent y "inner s2"] ins s2 same by simp
    qed (use rest s2 same in auto)
  next
    case (Some i)
    with run have "s' = s1"
      unfolding s1_def by (auto simp: inner_lookup_def insert_or_resolve_def t symbols_path_join_def Let_def)
    then show ?thesis using same by simp
  qed
qed

lemma lookup_by_id_length:
  assumes "lookup_by_id tbl ex root pid nm chk s = Some (r, s')"
  shows "length (path_to_id (inner s)) \<le> length (path_to_id (inner s'))"
  using assms inner_lookup_length by (fastforce simp: lookup_by_id_def split: sum.splits)

lemma keeps_generate_base_cookie:
  "keeps (handles_kept tbl table_ok c0)
     (\<lambda>s. let (b, its) = generate_base_cookie (iterators s) in Some (f b, s\<lparr> iterators := its \<rparr>)) (handles_kept tbl table_ok c0)"
  by (auto simp: keeps_def handles_kept_def split: prod.splits)

lemma keeps_pop_state:
  "keeps (handles_kept tbl table_ok c0)
     (\<lambda>s. let (popped, its) = pop_state i ck (iterators s); s = s\<lparr> iterators := its \<rparr> in
        case popped of Some info \<Rightarrow> Some (g info, s) | None \<Rightarrow> Some (e, s)) (handles_kept tbl table_ok c0)"
  by (auto simp: keeps_def handles_kept_def Let_def split: prod.splits option.splits)

context interner
begin

lemma keeps_lookup_by_id [keeps_intros]:
  "keeps (handles_kept tbl table_ok c0) (lookup_by_id tbl ex root pid nm chk) (handles_kept tbl table_ok c0)"
proof (rule keepsI)
  fix s x s'
  assume kept: "handles_kept tbl table_ok c0 s" and run: "lookup_by_id tbl ex root pid nm chk s = Some (x, s')"
  have len: "length (path_to_id (inner s)) \<le> length (path_to_id (inner s'))" by (rule lookup_by_id_length [OF run])
  then have "cache_room (inner s') \<Longrightarrow> cache_room (inner s)" by (simp add: cache_room_def)
  then show "handles_kept tbl table_ok c0 s'"
    using kept len lookup_by_id_ok [OF _ _ run] cache_extends_trans by (fastforce simp: handles_kept_def)
qed

abbreviation kept :: "'t SymbolsCacheInner \<Rightarrow> ('w, 't, 'z) symbols_state_scheme \<Rightarrow> bool" where
  "kept \<equiv> handles_kept tbl table_ok"

lemma keeps_mirror_lookup [keeps_intros]: "keeps (kept c0) (mirror_lookup os tbl root i nm) (kept c0)"
  unfolding mirror_lookup_def by (intro keeps_intros)

lemma keeps_mirror_getattr [keeps_intros]: "keeps (kept c0) (mirror_getattr os tbl root i) (kept c0)"
  unfolding mirror_getattr_def by (intro keeps_intros)

lemma keeps_mirror_setattr [keeps_intros]: "keeps (kept c0) (mirror_setattr os tbl root i sa) (kept c0)"
  unfolding mirror_setattr_def by (intro keeps_intros)

lemma keeps_get_iterator [keeps_intros]: "keeps (kept c0) (get_or_create_iterator os tbl root i ck) (kept c0)"
  unfolding get_or_create_iterator_def initialize_read_dir_def
  by (intro keeps_intros keeps_generate_base_cookie keeps_pop_state)

lemma keeps_next_entry [keeps_intros]: "keeps (kept c0) (next_entry_common os tbl root it) (kept c0)"
  unfolding next_entry_common_def Let_def by (intro keeps_await_same keeps_intros)

lemma keeps_mirror_next [keeps_intros]: "keeps (kept c0) (mirror_next os tbl root it) (kept c0)"
  unfolding mirror_next_def by (intro keeps_await_same keeps_intros)

lemma keeps_mirror_next_plus [keeps_intros]: "keeps (kept c0) (mirror_next_plus os tbl root it) (kept c0)"
proof (rule keepsI)
  fix s x s' assume s: "kept c0 s" and run: "mirror_next_plus os tbl root it s = Some (x, s')"
  let ?P = "\<lambda>os t root it s y. t = tbl \<longrightarrow> kept c0 s \<longrightarrow> kept c0 (snd y)"
  have "?P os tbl root it s (x, s')"
  proof (rule mirror_next_plus.raw_induct [where P = ?P, OF _ run], goal_cases)
    case (1 f os t root it s y)
    then obtain r it' s1 where n: "next_entry_common os t root it s = Some ((r, it'), s1)"
      by (cases "next_entry_common os t root it s") auto
    show ?case
    proof (intro impI)
      assume t: "t = tbl" "kept c0 s"
      have s1: "kept c0 s1" using keepsD [OF keeps_next_entry t(2) n [unfolded t(1)]] .
      show "kept c0 (snd y)"
      proof (cases r)
        case (NextOk e)
        with 1(2) n 1(1) [of os t root it' s1 y] s1 t(1) show ?thesis
          by (cases e) (auto simp: handles_kept_def split: option.splits sum.splits prod.splits)
      qed (use 1(2) n s1 in auto)
    qed
  qed
  with s show "kept c0 s'" by simp
qed

lemma keeps_mirror_rename [keeps_intros]: "keeps (kept c0) (mirror_rename os tbl root fd fn td tn) (kept c0)"
  unfolding mirror_rename_def Let_def by (intro keeps_await_same keeps_intros)

lemma keeps_mirror_symlink [keeps_intros]: "keeps (kept c0) (mirror_symlink os tbl root h nm path sa) (kept c0)"
  unfolding mirror_symlink_def by (intro keeps_await_same keeps_intros)

lemma mirror_keeps: "vfs_keeps (ctx\<lparr> vfs := mirror os tbl root \<rparr>) (kept c0)"
  by unfold_locales
     (simp_all add: mirror_def default_fsinfo_def Let_def mirror_read_def mirror_readlink_def mirror_write_def
        mirror_create_def mirror_create_exclusive_def mirror_mkdir_def mirror_remove_def,
      (intro keeps_await_same keeps_intros)+)

end

interpretation mirror_server: vfs_keeps "ctx\<lparr> vfs := mirror os list_table root \<rparr>"
  "handles_kept list_table list_table_ok c0" for ctx os root c0
  by (rule list_table.mirror_keeps)

interpretation mirror_reads: vfs_reads "ctx\<lparr> vfs := mirror os list_table root \<rparr>"
  "handles_kept list_table list_table_ok c0" for ctx os root c0
  by (rule mirror_server.vfs_reads_axioms)

text \<open>
  Whatever NFS call is served, a handle that a client got keeps standing for the same path,
  and the handles and the paths stay in one-to-one correspondence.
\<close>

theorem mirror_handles_stable:
  assumes "interner tbl table_ok" "cache_ok tbl table_ok (inner s)"
    and "handle_nfs (ctx\<lparr> vfs := mirror os tbl root \<rparr>) m s = Some (r, s')" "cache_room (inner s')"
  shows "cache_ok tbl table_ok (inner s') \<and>
    (\<forall>i ns. handle_names tbl (inner s) i = Some ns \<longrightarrow> handle_names tbl (inner s') i = Some ns) \<and>
    (\<forall>i j ns. handle_names tbl (inner s') i = Some ns \<and> handle_names tbl (inner s') j = Some ns \<longrightarrow> i = j)"
proof -
  have "keeps (handles_kept tbl table_ok (inner s)) (handle_nfs (ctx\<lparr> vfs := mirror os tbl root \<rparr>) m)
      (handles_kept tbl table_ok (inner s))"
    by (rule vfs_keeps.keeps_handle_nfs [OF interner.mirror_keeps [OF assms(1)]])
  from keepsD [OF this _ assms(3)] assms(2,4)
  have ok: "cache_ok tbl table_ok (inner s')" and ext: "cache_extends tbl (inner s) (inner s')"
    by (simp_all add: handles_kept_def)
  then show ?thesis
    using cache_extends_names [OF ext assms(2)] interner.handle_names_inject [OF assms(1) ok] by blast
qed

section \<open>Paths\<close>

lemma foldl_path_push:
  assumes "\<forall>n \<in> set ns. n \<noteq> [] \<and> 47 \<notin> set n" "buf \<noteq> []" "last buf \<noteq> 47"
  shows "foldl path_push buf ns = buf @ concat (map (Cons 47) ns)"
  using assms
proof (induction ns arbitrary: buf)
  case (Cons n ns)
  then have n: "n \<noteq> []" "47 \<notin> set n" by simp_all
  then have "hd n \<noteq> 47" "last n \<noteq> 47" using hd_in_set last_in_set by metis+
  with Cons n show ?case by (simp add: path_push_def)
qed simp

text \<open>
  The path of a handle whose names have no slash in them lies below the exported directory and
  has these names as its components, in order.
\<close>

theorem paths_below_root:
  assumes "cache_ok tbl table_ok (inner s)" "handle_names tbl (inner s) i = Some ns"
    and "\<forall>n \<in> set ns. n \<noteq> [] \<and> 47 \<notin> set n" "root \<noteq> []" "last root \<noteq> 47"
  shows "mirror_path tbl root i s = Some (Ok (if ns = [] then root @ [47] else root @ concat (map (Cons 47) ns)), s)"
proof (cases ns)
  case (Cons n ns')
  with assms(3) have n: "n \<noteq> []" "47 \<notin> set n" by simp_all
  then have hl: "hd n \<noteq> 47" "last n \<noteq> 47" using hd_in_set last_in_set by metis+
  have "foldl path_push [] ns = n @ concat (map (Cons 47) ns')"
    using foldl_path_push [of ns' n] assms(3) n hl Cons by (simp add: path_push_def)
  moreover have "hd (n @ concat (map (Cons 47) ns')) \<noteq> 47" using n hl by simp
  ultimately show ?thesis
    using assms n Cons by (simp add: mirror_path_def handle_to_path_names [OF assms(1)] path_push_def)
qed (use assms in \<open>simp add: mirror_path_def handle_to_path_names [OF assms(1)] path_push_def\<close>)

section \<open>Reading\<close>

text \<open>What the operating system promises about a file with the given content.\<close>

definition serves_file :: "('w, 'f, 'd) os \<Rightarrow> bytes \<Rightarrow> 'w \<Rightarrow> bytes \<Rightarrow> bool" where
  "serves_file os path w content \<longleftrightarrow> length content < 2 ^ 64 \<and>
     (\<exists>f w1 m w2. os_open os path w = (Ok f, w1) \<and> os_metadata os f w1 = (Ok m, w2) \<and>
        meta_len m = of_nat (length content) \<and>
        (\<forall>off n. unat off + n \<le> length content \<longrightarrow>
           (\<exists>w3 w4. os_seek os off f w2 = (Ok (), w3) \<and>
              os_read_exact os n f w3 = (Ok (take n (drop (unat off) content)), w4))))"

text \<open>
  READ returns the bytes of the file from the offset on, as many as were asked for and are
  there, and says whether the end was reached.  Only when nothing is read, because the offset is
  behind the end or no bytes are asked for, the flag compares the count with the length instead.
\<close>

theorem mirror_read_spec:
  assumes "mirror_path tbl root i s = Some (Ok path, s)" "serves_file os path (world s) content"
  shows "\<exists>w. mirror_read os tbl root i off cnt s =
    Some (Ok (take (unat cnt) (drop (unat off) content),
      if unat off < length content \<and> cnt \<noteq> 0 then length content \<le> unat off + unat cnt
      else length content \<le> unat cnt), s\<lparr> world := w \<rparr>)"
proof -
  define len where "len = length content"
  from assms(2) obtain f w1 m w2 where open_f: "os_open os path (world s) = (Ok f, w1)"
    and meta: "os_metadata os f w1 = (Ok m, w2)" and m: "meta_len m = of_nat len" and len: "len < 2 ^ 64"
    and rd: "\<And>off n. unat off + n \<le> len \<Longrightarrow> \<exists>w3 w4. os_seek os off f w2 = (Ok (), w3) \<and>
      os_read_exact os n f w3 = (Ok (take n (drop (unat off) content)), w4)"
    unfolding serves_file_def len_def by blast
  have ulen: "unat (of_nat len :: u64) = len" using len by (simp add: unat_of_nat)
  have less: "unat cnt < 18446744073709551616" by (rule order_less_le_trans [OF unsigned_less]) simp
  then have ucnt: "unat (ucast cnt :: u64) = unat cnt"
    by (simp add: unsigned_ucast_eq take_bit_eq_mod mod_less [OF less])
  note run = mirror_read_def os_ok_def map_err_def on_world_def read_file_def await_def ret_def os_call_def assms(1)
    open_f meta m Let_def
  show ?thesis
  proof (cases "unat off < len \<and> cnt \<noteq> 0")
    case False
    then have "of_nat len \<le> off \<or> cnt = 0" by (auto simp: word_le_nat_alt ulen)
    moreover have "take (unat cnt) (drop (unat off) content) = []" using False by (auto simp: len_def)
    ultimately show ?thesis using False by (auto simp: run word_le_nat_alt ulen ucnt len_def [symmetric])
  next
    case True
    define n where "n = min (ucast cnt) (of_nat len - off :: u64)"
    have sub: "unat (of_nat len - off) = len - unat off" using True by (simp add: unat_sub word_le_nat_alt ulen)
    have n: "unat n = min (unat cnt) (len - unat off)" by (simp add: n_def min_def word_le_nat_alt ucnt sub)
    have sum: "unat (off + n) = unat off + unat n"
      using True n len by (simp add: unat_word_ariths min_def split: if_splits)
    have "unat off + unat n \<le> len" using True by (auto simp: n min_def)
    from rd [OF this] obtain w3 w4 where "os_seek os off f w2 = (Ok (), w3)"
      "os_read_exact os (unat n) f w3 = (Ok (take (unat n) (drop (unat off) content)), w4)" by blast
    moreover have "\<not> (of_nat len \<le> off \<or> cnt = 0)" using True by (simp add: word_le_nat_alt ulen)
    moreover have "take (unat n) (drop (unat off) content) = take (unat cnt) (drop (unat off) content)"
      by (simp add: n len_def min_def)
    moreover have "of_nat len \<le> off + n \<longleftrightarrow> len \<le> unat off + unat cnt"
      using True by (auto simp: word_le_nat_alt ulen sum n)
    ultimately show ?thesis using True by (intro exI [of _ w4]) (simp add: run n_def [symmetric] len_def [symmetric])
  qed
qed


section \<open>Listings that do not fit into one reply\<close>

lemma inner_lookup_iterators:
  "inner_lookup tbl ex root parent nm False s = Some (r, s') \<Longrightarrow> iterators s' = iterators s"
  by (auto simp: inner_lookup_def Let_def split: option.splits prod.splits)

lemma lookup_by_id_iterators:
  "lookup_by_id tbl ex root pid nm False s = Some (r, s') \<Longrightarrow> iterators s' = iterators s"
  by (auto simp: lookup_by_id_def dest: inner_lookup_iterators split: sum.splits)

lemma mirror_next_Ok:
  assumes "mirror_next os tbl root it s = Some ((NextOk e, it'), s')"
  shows "iterators s' = iterators s" "iter_dirid it' = iter_dirid it" "entry3.cookie e = iter_cookie it + 1"
    "iter_cookie it' = iter_cookie it + 1" "iter_cookie it \<noteq> - 1" "\<exists>rd. iter_read_dir it' = Some rd"
proof -
  from assms obtain q b where q: "next_entry_common os tbl root it s = Some ((q, b), s')"
    and r: "(case q of
       NextOk (h, nm, ck) \<Rightarrow> (NextOk \<lparr> entry3.fileid = h, entry3.name = nm, entry3.cookie = ck \<rparr>, b)
     | NextErr e \<Rightarrow> (NextErr e, b)
     | NextEof \<Rightarrow> (NextEof, b)) = (NextOk e, it')"
    by (auto simp: mirror_next_def await_eq_Some)
  then obtain h nm where n: "next_entry_common os tbl root it s = Some ((NextOk (h, nm, entry3.cookie e), it'), s')"
    by (cases q) auto
  then obtain rd where rd: "iter_read_dir it = Some rd" by (auto simp: next_entry_common_def split: option.splits)
  obtain a rd' w where entry: "os_next_entry os rd (world s) = ((a, rd'), w)" by (metis prod.collapse)
  note run = next_entry_common_def rd await_def on_world_def os_call_def entry ret_def panic_def Let_def
  from n obtain nm' where "a = Ok (Some nm')" by (auto simp: run split: sum.splits option.splits)
  note run = run this
  obtain q s1 where l: "lookup_by_id tbl (os_exists os) root (iter_dirid it) nm' False (s\<lparr> world := w \<rparr>) = Some (q, s1)"
    using n by (cases "lookup_by_id tbl (os_exists os) root (iter_dirid it) nm' False (s\<lparr> world := w \<rparr>)") (auto simp: run)
  obtain h' where "q = Ok h'" using n l by (cases q) (simp_all add: run)
  then have "iter_cookie it \<noteq> - 1" "s' = s1" "entry3.cookie e = iter_cookie it + 1"
    "it' = it\<lparr> iter_read_dir := Some rd', iter_cookie := iter_cookie it + 1 \<rparr>"
    using n l by (auto simp: run split: if_splits)
  then show "iterators s' = iterators s" "iter_dirid it' = iter_dirid it" "entry3.cookie e = iter_cookie it + 1"
    "iter_cookie it' = iter_cookie it + 1" "iter_cookie it \<noteq> - 1" "\<exists>rd. iter_read_dir it' = Some rd"
    using lookup_by_id_iterators [OF l] by simp_all
qed


text \<open>
  The entries that the loop of READDIR collected before it gave up, and the iterator it left
  behind: that one is an entry further on.
\<close>

lemma unat_Suc_u64:
  assumes "(ck :: u64) \<noteq> - 1"
  shows "unat (ck + 1) = Suc (unat ck)"
proof -
  have "unat ck \<noteq> 2 ^ 64 - 1" using assms by (simp add: word_unat_eq_iff unsigned_minus_1_eq_mask mask_eq_exp_minus_1)
  then have "Suc (unat ck) < 2 ^ 64" using unsigned_less [of ck, where ?'a = nat] by simp
  then show ?thesis by (simp add: unat_word_ariths)
qed

lemma readdir_loop_truncated:
  assumes "readdir_loop ctx l it s = Some (Ok (l', False), s')" "vfs ctx = mirror os tbl root"
  shows "\<exists>es rd now. bl_list l' = bl_list l @ es \<and>
    map entry3.cookie es = map (\<lambda>k. iter_cookie it + of_nat (Suc k)) [0..<length es] \<and>
    unat (iter_cookie it) + Suc (length es) < 2 ^ 64 \<and>
    iterators s' = cache_state (iter_dirid it) (iter_cookie it + of_nat (Suc (length es))) rd now (iterators s)"
  using assms
proof (induction ctx l it s rule: readdir_loop.induct)
  case (1 ctx l it s)
  note v = "1.prems"(2)
  obtain r it' s1 where n: "vfs_readdir_next (vfs ctx) it s = Some ((r, it'), s1)"
    using "1.prems"(1) by (subst (asm) readdir_loop.simps) (auto split: option.splits)
  note step = readdir_loop_step [OF n, of l]
  obtain e where r: "r = NextOk e"
    using "1.prems"(1) step by (cases r) (auto simp: drop_then_eq_Some)
  have n': "mirror_next os tbl root it s = Some ((NextOk e, it'), s1)" using n v r by (simp add: mirror_def)
  note N = mirror_next_Ok [OF n']
  have next_ck: "unat (iter_cookie it + 1) = Suc (unat (iter_cookie it))" using N(5) by (rule unat_Suc_u64)
  show ?case
  proof (cases "is_ok (fst (try_push entry3_codec e l))")
    case True
    then have "readdir_loop ctx (snd (try_push entry3_codec e l)) it' s1 = Some (Ok (l', False), s')"
      using "1.prems"(1) step r by (simp add: Let_def)
    from "1.IH" [OF n [unfolded r] refl refl refl refl True this v]
    obtain es rd now where es: "bl_list l' = bl_list (snd (try_push entry3_codec e l)) @ es"
      "map entry3.cookie es = map (\<lambda>k. iter_cookie it' + of_nat (Suc k)) [0..<length es]"
      "unat (iter_cookie it') + Suc (length es) < 2 ^ 64"
      "iterators s' = cache_state (iter_dirid it') (iter_cookie it' + of_nat (Suc (length es))) rd now (iterators s1)" by blast
    have "bl_list l' = bl_list l @ e # es" using es(1) True try_push_list [of entry3_codec e l] by simp
    moreover have "map entry3.cookie (e # es) = map (\<lambda>k. iter_cookie it + of_nat (Suc k)) [0..<length (e # es)]"
      using es(2) N by (simp add: upt_conv_Cons algebra_simps flip: map_Suc_upt del: upt_Suc)
    moreover have "iterators s' = cache_state (iter_dirid it) (iter_cookie it + of_nat (Suc (length (e # es)))) rd now (iterators s)"
      using es(4) N by (simp add: algebra_simps)
    moreover have "unat (iter_cookie it) + Suc (length (e # es)) < 2 ^ 64" using es(3) N next_ck by simp
    ultimately show ?thesis by blast
  next
    case False
    then have "l' = snd (try_push entry3_codec e l)" "iterator_drop os it' s1 = Some ((), s')"
      using "1.prems"(1) step r v by (auto simp: drop_then_eq_Some Let_def mirror_def)
    moreover obtain rd where "iter_read_dir it' = Some rd" using N(6) by blast
    moreover obtain now w where "os_now os (world s1) = (now, w)" by fastforce
    ultimately have "bl_list l' = bl_list l @ []"
      "iterators s' = cache_state (iter_dirid it) (iter_cookie it + of_nat (Suc (length []))) rd now (iterators s)"
      using False try_push_list [of entry3_codec e l] N by (auto simp: iterator_drop_def)
    moreover have "unat (iter_cookie it) + Suc (length []) < 2 ^ 64" using next_ck unsigned_less [of "iter_cookie it + 1", where ?'a = nat] by simp
    ultimately show ?thesis by (intro exI [of _ "[]"] exI [of _ rd] exI [of _ now]) simp
  qed
qed

lemma os_ok_eq_Some:
  "os_ok m f s = Some (r, s') \<longleftrightarrow>
     (\<exists>e. m s = Some (Err e, s') \<and> r = Err e) \<or> (\<exists>x s1. m s = Some (Ok x, s1) \<and> f x s1 = Some (r, s'))"
  by (auto simp: os_ok_def await_def ret_def split: option.splits sum.splits)

lemma map_err_eq_Some:
  "map_err g m s = Some (r, s') \<longleftrightarrow>
     (\<exists>e. m s = Some (Err e, s') \<and> r = Err (g e)) \<or> (\<exists>x. m s = Some (Ok x, s') \<and> r = Ok x)"
  by (auto simp: map_err_def await_def ret_def split: option.splits sum.splits)

lemma mirror_path_state: "mirror_path tbl root i s = Some (r, s') \<Longrightarrow> s' = s"
  by (auto simp: mirror_path_def split: option.splits)

lemma on_world_iterators: "on_world m s = Some (r, s') \<Longrightarrow> iterators s' = iterators s"
  by (auto simp: on_world_def split: option.splits)

lemma mirror_getattr_iterators:
  "mirror_getattr os tbl root i s = Some (r, s') \<Longrightarrow> iterators s' = iterators s"
  by (auto simp: mirror_getattr_def os_ok_eq_Some map_err_eq_Some ret_def dest!: mirror_path_state on_world_iterators)

text \<open>An iterator is new, with a fresh base cookie, or taken from the cache.\<close>

lemma iterator_source:
  assumes "get_or_create_iterator os tbl root dirid ck s = Some (Ok it, s')"
  obtains (fresh) "ck = 0" "iter_dirid it = dirid" "generate_base_cookie (iterators s) = (iter_cookie it, iterators s')"
    | (resumed) info where "ck \<noteq> 0" "iter_dirid it = dirid" "iter_cookie it = info_cookie info"
        "pop_state dirid ck (iterators s) = (Some info, iterators s')"
proof -
  from assms obtain d ck' where init: "initialize_read_dir os tbl root dirid ck s = Some (Ok (d, ck'), s')"
    and it: "it = \<lparr> iter_dirid = dirid, iter_read_dir = Some d, iter_cookie = ck' \<rparr>"
    by (auto simp: get_or_create_iterator_def os_ok_eq_Some ret_def)
  show thesis
  proof (cases "ck = 0")
    case True
    with init have "generate_base_cookie (iterators s) = (ck', iterators s')"
      by (auto simp: initialize_read_dir_def os_ok_eq_Some map_err_eq_Some ret_def dest!: mirror_path_state
            on_world_iterators simp: split_beta prod_eq_iff split: if_splits)
    with True it fresh show thesis by simp
  next
    case False
    obtain popped c where pop: "pop_state dirid ck (iterators s) = (popped, c)" by fastforce
    from False init obtain path s1 where "mirror_path tbl root dirid s = Some (Ok path, s1)"
      and rest: "(let (popped, its) = pop_state dirid ck (iterators s1); s = s1\<lparr> iterators := its \<rparr> in
         case popped of
           Some cached_info \<Rightarrow> Some (Ok (info_read_dir cached_info, info_cookie cached_info), s)
         | None \<Rightarrow> Some (Err NFS3ERR_BAD_COOKIE, s)) = Some (Ok (d, ck'), s')"
      by (auto simp: initialize_read_dir_def os_ok_eq_Some)
    then have "s1 = s" by (simp add: mirror_path_state)
    with rest pop obtain info where "pop_state dirid ck (iterators s) = (Some info, iterators s')" "ck' = info_cookie info"
      by (cases popped) auto
    with False it resumed show thesis by simp
  qed
qed

lemma iterator_created:
  assumes run: "get_or_create_iterator os tbl root dirid ck s = Some (Ok it, s')" and ok: "iterators_ok (iterators s, its)"
    and room: "unat (cookie_counter (iterators s)) < 2 ^ 32 - 1"
  shows "iter_dirid it = dirid \<and> position (iter_cookie it) = position ck \<and>
    iterators_ok (iterators s', (dirid, iter_cookie it, rd) # its)"
  using run
proof (cases rule: iterator_source)
  case fresh
  then show ?thesis
    using open_iterator_ok [OF ok room] position_generated [of "iterators s"] by (simp add: position_def)
next
  case (resumed info)
  then show ?thesis using resume_ok [OF ok] pop_state_Some(1) by metis
qed

lemma iterators_ok_bases:
  "iterators_ok (c, its) \<Longrightarrow> bases_in_use its' = bases_in_use its \<Longrightarrow> iterators_ok (c, its')"
  by (simp add: iterators_ok_def)

lemma iterator_resumes:
  assumes "get_or_create_iterator os tbl root dirid ck s = Some (Ok it, s')" "ck \<noteq> 0"
  shows "fst (pop_state dirid ck (iterators s)) \<noteq> None"
  using assms(1) by (cases rule: iterator_source) (use assms(2) in simp_all)

text \<open>
  C32: a listing that does not fit into one reply cannot be continued: the iterator has moved past
  the entry that did not fit, so no READDIR with the cookie of the last entry of the reply
  succeeds, in whatever directory it asks.
\<close>

theorem mirror_truncated_listing:
  assumes "iterators_ok (iterators s, its)" "unat (cookie_counter (iterators s)) < 2 ^ 32 - 1"
    and "nfsproc3_readdir (ctx\<lparr> vfs := mirror os tbl root \<rparr>) x args s = Some (Nfs3Ok r, s')"
    and "READDIR3resok.reply r = \<lparr> dirlist3.entries = es @ [e], dirlist3.eof = False \<rparr>"
    and "position (READDIR3args.cookie args) + Suc (length es) < 2 ^ 32 - 1"
    and "iterators t = iterators s'" "READDIR3args.cookie args' = entry3.cookie e"
  shows "nfsproc3_readdir (ctx\<lparr> vfs := mirror os tbl root \<rparr>) x' args' t \<noteq> Some (Nfs3Ok r', t')"
proof
  let ?ctx = "ctx\<lparr> vfs := mirror os tbl root \<rparr>" and ?ctx' = "ctx\<lparr> vfs := mirror os tbl root \<rparr>"
  assume second: "nfsproc3_readdir ?ctx' x' args' t = Some (Nfs3Ok r', t')"
  from assms(3) obtain dirid da s1 s2 it l is_eof where
    ga: "vfs_getattr (vfs ?ctx) dirid s = Some (da, s1)"
    and op: "vfs_readdir (vfs ?ctx) dirid (READDIR3args.cookie args) s1 = Some (Ok it, s2)"
    and loop: "readdir_loop ?ctx (bounded_list_new entry3_codec (unat (READDIR3args.count args) -
       (packed_size u32_codec x + packed_size READDIR3resok_codec (readdir_reply (nfs_option_from_result da) [] False))))
       it s2 = Some (Ok (l, is_eof), s')"
    and r: "r = readdir_reply (nfs_option_from_result da) (bl_list l) is_eof"
    by (rule readdir_Ok)
  have s1: "iterators s1 = iterators s" using ga by (simp add: mirror_def mirror_getattr_iterators)
  have l: "bl_list l = es @ [e]" "is_eof = False" using r assms(4) by (simp_all add: readdir_reply_def)
  have opened: "get_or_create_iterator os tbl root dirid (READDIR3args.cookie args) s1 = Some (Ok it, s2)"
    using op by (simp add: mirror_def)
  have C: "iter_dirid it = dirid" "position (iter_cookie it) = position (READDIR3args.cookie args)"
    "iterators_ok (iterators s2, (dirid, iter_cookie it, rd) # its)" for rd
    using iterator_created [OF opened] assms(1,2) s1 by simp_all
  from readdir_loop_truncated [OF loop [unfolded l(2)], of os tbl root] obtain es' rd now where
    es': "bl_list l = bl_list (bounded_list_new entry3_codec (unat (READDIR3args.count args) -
       (packed_size u32_codec x + packed_size READDIR3resok_codec (readdir_reply (nfs_option_from_result da) [] False)))) @ es'"
    and cks: "map entry3.cookie es' = map (\<lambda>k. iter_cookie it + of_nat (Suc k)) [0..<length es']"
    and its': "iterators s' = cache_state (iter_dirid it) (iter_cookie it + of_nat (Suc (length es'))) rd now (iterators s2)"
    by (auto simp del: of_nat_Suc)
  have es'_eq: "es' = es @ [e]" using es' l(1) by (simp add: bounded_list_new_def)
  define ck n where "ck = iter_cookie it" and "n = Suc (length es)"
  have e: "entry3.cookie e = ck + of_nat n"
    using cks unfolding es'_eq ck_def n_def by simp
  have pos: "position ck + Suc n < 2 ^ 32" using assms(5) C(2) by (simp add: ck_def n_def)
  have B: "base (ck + of_nat n) = base ck" "position (ck + of_nat n) = position ck + n"
    "base (ck + of_nat (Suc n)) = base ck" "position (ck + of_nat (Suc n)) = position ck + Suc n"
    using base_add [of ck n] base_add [of ck "Suc n"] pos by simp_all
  have differ: "ck + of_nat n \<noteq> ck + of_nat (Suc n)" using B(2,4) by (metis n_not_Suc_n add_left_cancel)
  have nz: "entry3.cookie e \<noteq> 0" using B(2) by (auto simp: e n_def position_def)
  have "iterators_ok (iterators s2, [] @ (dirid, ck + of_nat (Suc n), rd) # its)"
    using C(3) [of rd] by (rule iterators_ok_bases) (simp add: B(3) flip: ck_def del: of_nat_Suc)
  from other_cookie_gone [OF this] have gone: "fst (pop_state d (ck + of_nat n) (iterators s')) = None" for d
    using B differ by (simp add: its' C(1) es'_eq ck_def [symmetric] n_def del: of_nat_Suc)
  from second obtain dirid' da' t1 t2 it' where
    ga': "vfs_getattr (vfs ?ctx') dirid' t = Some (da', t1)"
    and op': "vfs_readdir (vfs ?ctx') dirid' (READDIR3args.cookie args') t1 = Some (Ok it', t2)"
    by (rule readdir_Ok)
  have "iterators t1 = iterators t" using ga' by (simp add: mirror_def mirror_getattr_iterators)
  moreover have "get_or_create_iterator os tbl root dirid' (entry3.cookie e) t1 = Some (Ok it', t2)"
    using op' assms(7) by (simp add: mirror_def)
  ultimately have "fst (pop_state dirid' (entry3.cookie e) (iterators s')) \<noteq> None"
    using iterator_resumes nz assms(6) by metis
  then show False using gone e by metis
qed

section \<open>Examples\<close>

text \<open>
  An operating system with a directory \<^verbatim>\<open>/x\<close> of two files, \<^verbatim>\<open>a\<close> and \<^verbatim>\<open>b\<close>, of three bytes each.
  The world is the position in the open file, and nothing can be changed.
\<close>

definition example_meta :: "file_type \<Rightarrow> u64 \<Rightarrow> Metadata" where
  "example_meta t len = \<lparr> meta_type = t, meta_len = len, meta_ino = 5, meta_mode = 0x1ED, meta_nlink = 1,
     meta_uid = 0, meta_gid = 0, meta_mtime = 0, meta_accessed = Ok 0, meta_modified = Ok 0, meta_created = Ok 0 \<rparr>"

definition example_os :: "(nat, bytes, bytes list) os" where
  "example_os = \<lparr>
     os_exists = (\<lambda>p w. (p \<in> {[47, 120, 47], [47, 120, 47, 97], [47, 120, 47, 98]}, w)),
     os_symlink_metadata = (\<lambda>p w. (Ok (if p = [47, 120, 47] then example_meta Directory 0 else example_meta RegularFile 3), w)),
     os_open = (\<lambda>p w. (Ok p, 0)),
     os_open_write = (\<lambda>p w. (Err PermissionDenied, w)),
     os_open_read_write = (\<lambda>p w. (Err PermissionDenied, w)),
     os_create = (\<lambda>p w. (Err PermissionDenied, w)),
     os_create_new = (\<lambda>p w. (Err PermissionDenied, w)),
     os_metadata = (\<lambda>f w. (Ok (example_meta RegularFile 3), w)),
     os_seek = (\<lambda>off f w. (Ok (), unat off)),
     os_read_exact = (\<lambda>n f w. (Ok (take n (drop w [1, 2, 3])), w + n)),
     os_write_all = (\<lambda>bs f w. (Err PermissionDenied, w)),
     os_flush = (\<lambda>f w. (Ok (), w)),
     os_set_len = (\<lambda>n f w. (Err PermissionDenied, w)),
     os_read_dir = (\<lambda>p w. (Ok [[97], [98]], w)),
     os_next_entry = (\<lambda>d w. case d of [] \<Rightarrow> ((Ok None, []), w) | n # ns \<Rightarrow> ((Ok (Some n), ns), w)),
     os_read_link = (\<lambda>p w. (Err (OtherKind 0), w)),
     os_create_dir = (\<lambda>p w. (Err PermissionDenied, w)),
     os_remove_dir = (\<lambda>p w. (Err PermissionDenied, w)),
     os_remove_file = (\<lambda>p w. (Err PermissionDenied, w)),
     os_rename = (\<lambda>p q w. (Err PermissionDenied, w)),
     os_symlink = (\<lambda>p q w. (Err PermissionDenied, w)),
     os_set_atime = (\<lambda>p t w. (Err PermissionDenied, w)),
     os_set_mtime = (\<lambda>p t w. (Err PermissionDenied, w)),
     os_set_permissions = (\<lambda>p m w. (Err PermissionDenied, w)),
     os_file_set_permissions = (\<lambda>f m w. (Err PermissionDenied, w)),
     os_now = (\<lambda>w. (0, w)),
     os_metadata_of = (\<lambda>p w. (Err PermissionDenied, w)),
     os_open_or_create = (\<lambda>p w. (Err PermissionDenied, w)),
     os_sync_all = (\<lambda>f w. (Ok (), w)) \<rparr>"

definition example_mirror :: "(nat, bytes list, bytes list) mirror_state" where
  "example_mirror = mirror_new list_table 0"

definition example_mirror_ctx ::
  "((nat, bytes list, bytes list) mirror_state, FileHandleU64, bytes list MirrorFsIterator, bytes list MirrorFsIterator) RPCContext" where
  "example_mirror_ctx = \<lparr> local_port = 2049, client_addr = ''127.0.0.1:1000'',
     auth = \<lparr> auth_unix.stamp = 0, auth_unix.machinename = [], auth_unix.uid = 0, auth_unix.gid = 0, auth_unix.gids = [] \<rparr>,
     vfs = mirror example_os list_table [47, 120], mount_signal = False, export_name = [47],
     file_handle_converter = file_handle_converter_new 7 \<rparr>"

lemma example_mirror_ctx_simps [simp]:
  "example_mirror_ctx\<lparr> vfs := mirror example_os list_table [47, 120] \<rparr> = example_mirror_ctx"
  "vfs example_mirror_ctx = mirror example_os list_table [47, 120]"
  "file_handle_converter example_mirror_ctx = file_handle_converter_new 7"
  by (simp_all add: example_mirror_ctx_def)

abbreviation example_root_fh :: nfs_fh3 where
  "example_root_fh \<equiv> fh_to_nfs FileHandleU64_ops (file_handle_converter_new 7) ROOT_ID"

lemma example_mirror_ok: "cache_ok list_table list_table_ok (inner example_mirror)"
  by (simp add: example_mirror_def mirror_new_def cache_new_ok list_table.new_ok)

lemma example_iterators_ok: "iterators_ok (iterators example_mirror, [])"
  unfolding example_mirror_def mirror_new_def mirror_state.select_convs
  using iterators_reachable_ok [OF iterators_reachable.start] by (rule conjunct1)

lemma example_mirror_path: "mirror_path list_table [47, 120] ROOT_ID s = Some (Ok [47, 120, 47], s)"
  if "inner s = symbols_cache_new list_table" for s :: "(nat, bytes list, bytes list) mirror_state"
  using that by (simp add: mirror_path_def handle_to_path_def symbols_cache_new_def ok_or_def resolve_path_def path_push_def)

lemma example_mirror_root: "handle_names list_table (inner example_mirror) ROOT_ID = Some []"
  by (simp add: handle_names_def example_mirror_def mirror_new_def symbols_cache_new_def)

theorem paths_below_root_witness:
  "mirror_path list_table [47, 120] ROOT_ID example_mirror = Some (Ok [47, 120, 47], example_mirror)"
  using paths_below_root [OF example_mirror_ok example_mirror_root, of "[47, 120]"] by simp

theorem mirror_read_spec_witness:
  "\<exists>w. mirror_read example_os list_table [47, 120] ROOT_ID 1 5 example_mirror = Some (Ok ([2, 3], True), example_mirror\<lparr> world := w \<rparr>)"
proof -
  have "serves_file example_os [47, 120, 47] (world example_mirror) [1, 2, 3]"
    by (simp add: serves_file_def example_os_def example_meta_def)
  moreover have "mirror_path list_table [47, 120] ROOT_ID example_mirror = Some (Ok [47, 120, 47], example_mirror)"
    by (rule example_mirror_path) (simp add: example_mirror_def mirror_new_def)
  ultimately show ?thesis using mirror_read_spec [of list_table "[47, 120]" ROOT_ID example_mirror "[47, 120, 47]" example_os "[1, 2, 3]" 1 5] by simp
qed

definition example_mirror_readdir :: "u64 \<Rightarrow> READDIR3args" where
  "example_mirror_readdir ck = \<lparr> READDIR3args.dir = example_root_fh, READDIR3args.cookie = ck,
     READDIR3args.cookieverf = NONE_COOKIE_VERF, READDIR3args.count = 150 \<rparr>"

lemma example_root_fh_from [simp]:
  "fh_from_nfs FileHandleU64_ops (file_handle_converter_new 7) example_root_fh = Ok ROOT_ID"
  by (rule FileHandleU64.fh_round_trip)

lemma example_mirror_loop:
  "\<exists>l s'. readdir_loop example_mirror_ctx (bounded_list_new entry3_codec 42)
       \<lparr> iter_dirid = ROOT_ID, iter_read_dir = Some [[97], [98]], iter_cookie = 0 \<rparr>
       \<lparr> world = 0, inner = symbols_cache_new list_table, iterators = its \<rparr> = Some (Ok (l, False), s') \<and>
     bl_list l = [\<lparr> entry3.fileid = 2, entry3.name = [97], entry3.cookie = 1 \<rparr>]"
  by (simp add: readdir_loop.simps mirror_def mirror_next_def next_entry_common_def await_def ret_def panic_def on_world_def
    os_call_def example_os_def Let_def lookup_by_id_def inner_lookup_def symbols_cache_new_def symbols_path_def ok_or_def
    insert_or_resolve_def list_table_def symbols_path_join_def insert_entry_def ROOT_ID_def try_push_def
    bounded_list_new_def entry3_codec_def fields_codec_def filename3_codec_def opaque_codec_def add_padding_def
    get_padding_def list_codec_def drop_then_def iterator_drop_def)

lemma example_mirror_page:
  "\<exists>r s'. nfsproc3_readdir example_mirror_ctx 1 (example_mirror_readdir 0) example_mirror = Some (Nfs3Ok r, s') \<and>
     READDIR3resok.reply r = \<lparr> dirlist3.entries = [] @ [\<lparr> entry3.fileid = 2, entry3.name = [97], entry3.cookie = 1 \<rparr>],
       dirlist3.eof = False \<rparr>"
  using example_mirror_loop [of "snd (generate_base_cookie (iterator_cache_new 60 20))"]
  by (auto simp: nfsproc3_readdir_def example_mirror_readdir_def fh_to_id_def mirror_def await_def ret_def
    mirror_getattr_def example_mirror_def mirror_new_def os_ok_def map_err_def example_mirror_path on_world_def os_call_def
    Let_def cookieverf_is_none_def nfs_option_from_result_def READDIR3resok_codec_def dirlist3_codec_def
    fields_codec_def list_codec_def bool_codec_def nfs3_option_codec_def cookieverf3_codec_def complex_enum_codec_def
    field_payload_def unit_payload_def example_os_def example_meta_def get_or_create_iterator_def initialize_read_dir_def
    generate_base_cookie_def iterator_cache_new_def bounded_list_into_inner_def)

theorem mirror_truncated_listing_witness:
  "\<exists>r s'. nfsproc3_readdir example_mirror_ctx 1 (example_mirror_readdir 0) example_mirror = Some (Nfs3Ok r, s') \<and>
     map entry3.cookie (dirlist3.entries (READDIR3resok.reply r)) = [1] \<and>
     (\<forall>r' t'. nfsproc3_readdir example_mirror_ctx 2 ((example_mirror_readdir 1)\<lparr> READDIR3args.cookieverf := READDIR3resok.cookieverf r \<rparr>) s' \<noteq>
        Some (Nfs3Ok r', t'))"
proof -
  obtain r s' where run: "nfsproc3_readdir example_mirror_ctx 1 (example_mirror_readdir 0) example_mirror = Some (Nfs3Ok r, s')"
    and reply: "READDIR3resok.reply r = \<lparr> dirlist3.entries = [] @ [\<lparr> entry3.fileid = 2, entry3.name = [97], entry3.cookie = 1 \<rparr>],
       dirlist3.eof = False \<rparr>" using example_mirror_page by blast
  have room: "unat (cookie_counter (iterators example_mirror)) < 2 ^ 32 - 1"
    by (simp add: example_mirror_def mirror_new_def iterator_cache_new_def)
  have "nfsproc3_readdir (example_mirror_ctx\<lparr> vfs := mirror example_os list_table [47, 120] \<rparr>) 2
      ((example_mirror_readdir 1)\<lparr> READDIR3args.cookieverf := READDIR3resok.cookieverf r \<rparr>) s' \<noteq> Some (Nfs3Ok r', t')" for r' t'
    by (rule mirror_truncated_listing [OF example_iterators_ok room _ reply _ refl, where x = 1 and args = "example_mirror_readdir 0"])
       (simp_all only: run example_mirror_ctx_simps, simp_all add: position_def example_mirror_readdir_def)
  with run reply show ?thesis by auto
qed


definition example_mirror_lookup :: LOOKUP3args where
  "example_mirror_lookup = \<lparr> LOOKUP3args.what = \<lparr> diropargs3.dir = example_root_fh, diropargs3.name = [97] \<rparr> \<rparr>"

lemma example_mirror_lookup_pack: "\<exists>n bs. pack LOOKUP3args_codec example_mirror_lookup [] = Ok (n, bs)"
  by (simp add: example_mirror_lookup_def LOOKUP3args_codec_def diropargs3_codec_def nfs_fh3_codec_def struct_codec_def
      fields_codec_def filename3_codec_def opaque_codec_def u32_try_from_def Let_def fh_to_nfs_def FileHandleU64_ops_def
      FileHandleU64_as_bytes_def)

lemma example_mirror_looked_up:
  "\<exists>r s'. nfsproc3_lookup example_mirror_ctx 5 example_mirror_lookup example_mirror = Some (Nfs3Ok r, s') \<and>
     length (path_to_id (inner s')) = 2"
  by (simp add: nfsproc3_lookup_def example_mirror_lookup_def fh_to_id_def mirror_def await_def ret_def
    mirror_getattr_def example_mirror_def mirror_new_def os_ok_def map_err_def example_mirror_path on_world_def os_call_def
    Let_def nfs_option_from_result_def mirror_lookup_def lookup_by_id_def inner_lookup_def symbols_cache_new_def symbols_path_def ok_or_def
        insert_or_resolve_def list_table_def symbols_path_join_def check_paths_def resolve_path_def path_push_def
        ask_exists_def insert_entry_def ROOT_ID_def example_os_def mirror_path_def handle_to_path_def
    FileHandleU64.fh_round_trip)

theorem mirror_handles_stable_witness:
  "\<exists>m r s'. handle_nfs example_mirror_ctx m example_mirror = Some (r, s') \<and> length (path_to_id (inner s')) = 2 \<and>
     handle_names list_table (inner s') ROOT_ID = Some []"
proof -
  obtain n bs where bs: "pack LOOKUP3args_codec example_mirror_lookup [] = Ok (n, bs)"
    using example_mirror_lookup_pack by blast
  obtain r s' where r: "nfsproc3_lookup example_mirror_ctx 5 example_mirror_lookup example_mirror = Some (r, s')"
    "length (path_to_id (inner s')) = 2" using example_mirror_looked_up by blast
  have lawful: "xdr_codec LOOKUP3args_codec" using LOOKUP3args_codec_lawful by (rule xdr_codec_total.axioms(1))
  have u: "unpack LOOKUP3args_codec bs = Ok (example_mirror_lookup, n, [])"
    using xdr_codec.unpack_pack [OF lawful bs, of "[]"] by simp
  define m where "m = \<lparr> incoming_xid = 5, incoming_body = \<lparr> call_body.rpcvers = 2, call_body.prog = 100003,
     call_body.vers = 3, call_body.proc = 3, call_body.cred = opaque_auth_default, call_body.verf = opaque_auth_default \<rparr>,
     incoming_data = Some bs, message_start = 0 \<rparr>"
  have run: "\<exists>q. handle_nfs example_mirror_ctx m example_mirror = Some (q, s')"
    by (simp add: handle_nfs_def m_def NFS_PROGRAM_try_from_def handle_def u r await_def ret_def Let_def Nfs3_Types.VERSION_def)
  then obtain q where q: "handle_nfs (example_mirror_ctx\<lparr> vfs := mirror example_os list_table [47, 120] \<rparr>) m example_mirror = Some (q, s')"
    by auto
  have "cache_room (inner s')" by (simp add: cache_room_def r)
  then have "handle_names list_table (inner s') ROOT_ID = Some []"
    using mirror_handles_stable [OF list_table.interner_axioms example_mirror_ok q] example_mirror_root by blast
  with run r show ?thesis by blast
qed

end
