(* ===== verification/Server_Main.thy ===== *)
theory Server_Main
  imports Tcp_Bind Mirror_Props
begin

text \<open>
  The server binary (\<^verbatim>\<open>cargo_nfs3_server/src/main.rs\<close> and \<^verbatim>\<open>memfs.rs\<close>): the file system that the
  command line asks for, the content of the in-memory one, and the start of the listener.  The
  parser of the command line, logging and the handler of Ctrl-C are left out.
\<close>

section \<open>The in-memory file system (memfs.rs)\<close>

text \<open>A raw string that begins with a line break and has one after each line.\<close>

definition raw_text :: "string list \<Rightarrow> bytes" where
  "raw_text ls = concat (map (\<lambda>l. 10 # string_bytes l) ls) @ [10]"

definition CAT :: bytes where
  "CAT = raw_text
     [''    /'' @ [CHR 0x5C] @ ''_____/'' @ [CHR 0x5C],
      ''   /  o   o  '' @ [CHR 0x5C],
      ''  ( ==  ^  == )'',
      ''   )         ('',
      ''  (           )'',
      '' ( (  )   (  ) )'',
      ''(__(__)___(__)__)'']"

definition WRITABLE_README :: bytes where
  "WRITABLE_README = raw_text
     [''This is in memory filesystem for NFSv3 server.'',
      ''It contains a few files and directories for testing purposes.'',
      '''',
      ''WARNING: It stores data in memory, so it will be lost when the server is stopped.'',
      ''         The total size of the filesystem is limited by the available memory.'']"

definition READONLY_README :: bytes where
  "READONLY_README = raw_text
     [''This is in memory filesystem for NFSv3 server.'',
      ''It contains a few files and directories for testing purposes.'',
      ''It is read-only, so you cannot modify it.'']"

definition default_config :: "bool \<Rightarrow> MemFsConfig" where
  "default_config readonly =
     (let readme = (if readonly then READONLY_README else WRITABLE_README);
          config = [];
          config = config_add_file (string_bytes ''/README.txt'') readme config;
          config = config_add_file (string_bytes ''/cat.txt'') CAT config;
          config = config_add_dir (string_bytes ''/new folder'') config;
          config = config_add_dir (string_bytes ''/new folder (1)'') config;
          config = config_add_dir (string_bytes ''/new folder (2)'') config
      in config)"

section \<open>The program (main.rs)\<close>

record Args =
  arg_path :: "string option"
  arg_export_name :: string
  bind_ip :: string
  bind_port :: u16
  readonly :: bool
  use_memfs :: bool

text \<open>\<^verbatim>\<open>start_server\<close> up to the endless loop of the listener, which \<open>Tcp_Server\<close> has; a failed bind panics.\<close>

definition start_server ::
  "('n, 'l, 'e) tcp \<Rightarrow> u64 \<Rightarrow> string \<Rightarrow> string \<Rightarrow> ('s, 'h, 'i, 'p) NfsFileSystem \<Rightarrow> 'n \<Rightarrow>
     (('s, 'h, 'i, 'p, 'l) NFSTcpListener \<times> 'n) option" where
  "start_server net start bind_addr nm v w =
     (case bind net start bind_addr v w of
        (Err e, w') \<Rightarrow> None
      | (Ok l, w') \<Rightarrow> Some (with_export_name (string_bytes nm) l, w'))"

type_synonym 'l memfs_listener = "(MemFs, FileHandleU64, MemFsIterator, MemFsIterator, 'l) NFSTcpListener"

type_synonym ('w, 't, 'd, 'l) mirror_listener =
  "(('w, 't, 'd) mirror_state, FileHandleU64, 'd MirrorFsIterator, 'd MirrorFsIterator, 'l) NFSTcpListener"

text \<open>
  \<^verbatim>\<open>main\<close>: the listener and the state of the file system it serves.  Whether the path exists, the
  time of the start and the state of the disk are parameters.
\<close>

definition main ::
  "('n, 'l, 'e) tcp \<Rightarrow> ('w, 'f, 'd) os \<Rightarrow> 't symbol_table \<Rightarrow> env \<Rightarrow> u64 \<Rightarrow> (string \<Rightarrow> bool) \<Rightarrow> 'w \<Rightarrow> Args \<Rightarrow> 'n \<Rightarrow>
     (('l memfs_listener \<times> MemFs + ('w, 't, 'd, 'l) mirror_listener \<times> ('w, 't, 'd) mirror_state) \<times> 'n) option" where
  "main net os tbl env start path_exists disk a w =
     (let bind_addr = bind_ip a @ '':'' @ decimal (unat (bind_port a)); nm = arg_export_name a in
      if use_memfs a then
        (case memfs_new env (default_config (readonly a)) of
           Some (Ok m) \<Rightarrow>
             map_option (\<lambda>(l, w'). (Inl (l, m), w'))
               (start_server net start bind_addr nm (if readonly a then ReadOnlyAdapter (memfs env) else memfs env) w)
         | _ \<Rightarrow> None)
      else
        (case arg_path a of
           None \<Rightarrow> None
         | Some path \<Rightarrow>
             if \<not> path_exists path then None
             else
               (let v = mirror os tbl (string_bytes path) in
                map_option (\<lambda>(l, w'). (Inr (l, mirror_new tbl disk), w'))
                  (start_server net start bind_addr nm (if readonly a then ReadOnlyAdapter v else v) w))))"

section \<open>Filling the root directory\<close>

lemma split_delimiter_none: "d \<notin> set nm \<Longrightarrow> split_delimiter d nm = [nm]"
  by (induction nm) auto

lemma config_entry_root:
  assumes "DELIMITER \<notin> set nm" "nm \<noteq> []"
  shows "config_entry (DELIMITER # nm) d bs = \<lparr> config_parent = [DELIMITER], config_name = nm, is_dir = d, config_content = bs \<rparr>"
proof -
  have "trim_end_matches nm (DELIMITER # nm) = trim_end_matches nm [DELIMITER]"
    using assms by (subst trim_end_matches.simps) simp
  also have "\<dots> = [DELIMITER]"
    using assms by (subst trim_end_matches.simps) (cases nm; auto)
  finally show ?thesis using assms by (simp add: config_entry_def Let_def split_delimiter_none)
qed

text \<open>A file system with entries in its root only: the content of the root and the entries.\<close>

definition flat_memfs :: "nfstime3 \<Rightarrow> FileHandleU64 list \<Rightarrow> (FileHandleU64 \<times> Entry) list \<Rightarrow> MemFs" where
  "flat_memfs now c L =
     \<lparr> fs = \<lparr> Fs.entries = map_of ((1, EDir ((root_dir now)\<lparr> Dir.content := c \<rparr>)) # L), Fs.root = 1 \<rparr>,
       rootdir = 1, nextid = of_nat (length L + 2) \<rparr>"

definition flat_ok :: "FileHandleU64 list \<Rightarrow> (FileHandleU64 \<times> Entry) list \<Rightarrow> bool" where
  "flat_ok c L \<longleftrightarrow> distinct c \<and> set c = fst ` set L \<and> fst ` set L = of_nat ` {2..<length L + 2} \<and> distinct (map fst L) \<and>
     distinct (map (entry_name \<circ> snd) L) \<and> length L < 1000"

lemma lookup_content_absent:
  "\<forall>i \<in> set is. \<exists>e. Fs.entries t i = Some e \<and> entry_name e \<noteq> nm \<Longrightarrow> lookup_content t nm is = Err NFS3ERR_NOENT"
  by (induction "is") auto

lemma lookup_content_present:
  assumes "\<forall>i \<in> set is. \<exists>e. Fs.entries t i = Some e \<and> (entry_name e = nm \<longrightarrow> e = e0)"
    and "\<exists>i \<in> set is. Fs.entries t i = Some e0" "entry_name e0 = nm"
  shows "lookup_content t nm is = Ok e0"
  using assms by (induction "is") fastforce+

text \<open>The root with one more entry: the new id is the next one.\<close>

lemma flat_root: "Fs.entries (fs (flat_memfs now c L)) 1 = Some (EDir ((root_dir now)\<lparr> Dir.content := c \<rparr>))"
  by (simp add: flat_memfs_def)

lemma flat_ids:
  assumes "flat_ok c L"
  shows "(of_nat (length L + 2) :: FileHandleU64) \<notin> fst ` set L" "(of_nat (length L + 2) :: FileHandleU64) \<noteq> 1" "1 \<notin> fst ` set L"
proof -
  have len: "length L < 1000" and ids: "fst ` set L = of_nat ` {2..<length L + 2}" using assms by (simp_all add: flat_ok_def)
  have inj: "inj_on (of_nat :: nat \<Rightarrow> FileHandleU64) {..<2000}"
    by (rule inj_onI) (simp add: word_of_nat_eq_iff take_bit_eq_mod)
  have mem: "(of_nat k :: FileHandleU64) \<in> fst ` set L \<longleftrightarrow> k \<in> {2..<length L + 2}" if "k < 2000" for k
    unfolding ids using that len by (intro inj_on_image_mem_iff [OF inj]) (simp_all add: subset_iff)
  show "(of_nat (length L + 2) :: FileHandleU64) \<notin> fst ` set L" using len by (subst mem) simp_all
  show "1 \<notin> fst ` set L" using mem [of 1] by simp
  show "(of_nat (length L + 2) :: FileHandleU64) \<noteq> 1"
  proof
    assume "(of_nat (length L + 2) :: FileHandleU64) = 1"
    then have "(of_nat (length L + 2) :: FileHandleU64) = of_nat 1" by (simp only: of_nat_1)
    from inj_onD [OF inj this] show False using len by simp
  qed
qed

lemma flat_entry:
  assumes "flat_ok c L" "i \<in> set c"
  shows "\<exists>e. Fs.entries (fs (flat_memfs now c L)) i = Some e \<and> (i, e) \<in> set L"
proof -
  have "i \<noteq> 1" using assms flat_ids(3) [OF assms(1)] by (auto simp: flat_ok_def)
  moreover have "i \<in> fst ` set L" using assms unfolding flat_ok_def by blast
  then obtain e where "(i, e) \<in> set L" by auto
  ultimately show ?thesis using assms(1) by (auto simp: flat_memfs_def flat_ok_def)
qed

lemma flat_push:
  assumes ok: "flat_ok c L" "permuting ord" "length L < 998" "entry_fileid e = of_nat (length L + 2)"
    and new: "entry_name e \<notin> entry_name ` snd ` set L"
  shows "\<exists>c'. flat_ok c' ((entry_fileid e, e) # L) \<and>
    fs_push ord 1 e (fs (flat_memfs now c L)) = Some (Ok (), fs (flat_memfs now c' ((entry_fileid e, e) # L)))"
proof -
  note ids = flat_ids [OF ok(1), folded ok(4)]
  have c: "entry_fileid e \<notin> set c" using ids(1) ok(1) by (simp add: flat_ok_def)
  let ?c = "ord (entry_fileid e # c)"
  have m: "mset ?c = mset (entry_fileid e # c)" using ok(2) by (simp add: permuting_def)
  have "distinct ?c" using c ok(1) mset_eq_imp_distinct_iff [OF m] by (simp add: flat_ok_def)
  moreover have "fst ` set ((entry_fileid e, e) # L) = of_nat ` {2..<length ((entry_fileid e, e) # L) + 2}"
    using ok(1,4) by (simp add: flat_ok_def atLeastLessThanSuc)
  ultimately have "flat_ok ?c ((entry_fileid e, e) # L)"
    using ok ids new mset_eq_setD [OF m] by (auto simp: flat_ok_def image_image)
  moreover have "fs_push ord 1 e (fs (flat_memfs now c L)) = Some (Ok (), fs (flat_memfs now ?c ((entry_fileid e, e) # L)))"
    using ids c by (simp add: fs_push_def flat_memfs_def Let_def put_def map_of_eq_None_iff set_insert_def fun_upd_twist image_iff)
  ultimately show ?thesis by blast
qed

lemma flat_lookup:
  assumes ok: "flat_ok c L" and e: "(i, e) \<in> set L" "entry_name e \<noteq> DOT" "entry_name e \<noteq> DOTDOT"
  shows "fs_lookup 1 (entry_name e) (fs (flat_memfs now c L)) = Ok e"
proof -
  have same: "e' = e" if "(j, e') \<in> set L" "entry_name e' = entry_name e" for j e'
    using ok e(1) that by (force simp: flat_ok_def distinct_map inj_on_def)
  have "i \<in> set c" using ok e(1) unfolding flat_ok_def by force
  have all: "\<forall>j \<in> set c. \<exists>e'. Fs.entries (fs (flat_memfs now c L)) j = Some e' \<and> (entry_name e' = entry_name e \<longrightarrow> e' = e)"
    using flat_entry [OF ok] same by blast
  have "i \<noteq> 1" using flat_ids(3) [OF ok] e(1) by force
  then have "Fs.entries (fs (flat_memfs now c L)) i = Some e" using ok e(1) by (simp add: flat_memfs_def flat_ok_def)
  then have "\<exists>j \<in> set c. Fs.entries (fs (flat_memfs now c L)) j = Some e" using \<open>i \<in> set c\<close> by blast
  from lookup_content_present [OF all this refl]
  show ?thesis using e(2,3) by (simp add: fs_lookup_def flat_root)
qed

lemma flat_lookup_absent:
  assumes "flat_ok c L" "nm \<notin> entry_name ` snd ` set L" "nm \<noteq> DOT" "nm \<noteq> DOTDOT"
  shows "fs_lookup 1 nm (fs (flat_memfs now c L)) = Err NFS3ERR_NOENT"
proof -
  have "\<forall>j \<in> set c. \<exists>e'. Fs.entries (fs (flat_memfs now c L)) j = Some e' \<and> entry_name e' \<noteq> nm"
    using flat_entry [OF assms(1)] assms(2) by (force simp: image_iff)
  from lookup_content_absent [OF this] show ?thesis using assms(3,4) by (simp add: fs_lookup_def flat_root)
qed

text \<open>The entries that a configuration adds, in the order of their ids from the last to the first.\<close>

definition config_value :: "nfstime3 \<Rightarrow> FileHandleU64 \<Rightarrow> MemFsConfigEntry \<Rightarrow> Entry" where
  "config_value now i ce =
     (if is_dir ce then EDir (dir_new now (config_name ce) i 1)
      else EFile (file_new now (config_name ce) i (config_content ce) (Array (replicate 8 0))))"

lemma config_value_simps [simp]:
  "entry_fileid (config_value now i ce) = i" "entry_name (config_value now i ce) = config_name ce"
  by (simp_all add: config_value_def entry_fileid_def dir_new_def file_new_def new_attr_def)

fun flat_entries :: "nfstime3 \<Rightarrow> (FileHandleU64 \<times> Entry) list \<Rightarrow> MemFsConfig \<Rightarrow> (FileHandleU64 \<times> Entry) list" where
  "flat_entries now L [] = L"
| "flat_entries now L (ce # cs) =
     (let i = of_nat (length L + 2) in flat_entries now ((i, config_value now i ce) # L) cs)"

definition root_names :: "MemFsConfig \<Rightarrow> bool" where
  "root_names cs \<longleftrightarrow> (\<forall>ce \<in> set cs. config_parent ce = [DELIMITER] \<and> config_name ce \<noteq> DOT \<and> config_name ce \<noteq> DOTDOT) \<and>
     distinct (map config_name cs)"

lemma flat_add:
  assumes ok: "flat_ok c L" "permuting (fst env)" "length L < 998"
    and nm: "config_name ce \<notin> entry_name ` snd ` set L" "config_name ce \<noteq> DOT" "config_name ce \<noteq> DOTDOT"
  defines "i \<equiv> of_nat (length L + 2)"
  shows "\<exists>c' x. flat_ok c' ((i, config_value (snd env) i ce) # L) \<and>
    (if is_dir ce then memfs_add_dir env 1 (config_name ce)
     else memfs_add_file env 1 (config_name ce) sattr3_default (config_content ce) None) (flat_memfs (snd env) c L) =
    Some (Ok x, flat_memfs (snd env) c' ((i, config_value (snd env) i ce) # L))"
proof -
  let ?e = "config_value (snd env) i ce" and ?m = "flat_memfs (snd env) c L"
  obtain c' where c': "flat_ok c' ((i, ?e) # L)"
    "fs_push (fst env) 1 ?e (fs ?m) = Some (Ok (), fs (flat_memfs (snd env) c' ((i, ?e) # L)))"
    using flat_push [OF ok, of ?e "snd env"] nm(1) by (auto simp: i_def)
  have m: "?m\<lparr> nextid := nextid ?m + 1, fs := fs (flat_memfs (snd env) c' ((i, ?e) # L)) \<rparr> = flat_memfs (snd env) c' ((i, ?e) # L)"
    "nextid ?m = i" by (simp_all add: flat_memfs_def i_def)
  have l: "fs_lookup 1 (config_name ce) (fs ?m) = Err NFS3ERR_NOENT" by (rule flat_lookup_absent [OF ok(1) nm])
  show ?thesis
  proof (cases "is_dir ce")
    case True
    then show ?thesis using c' m
      by (intro exI [of _ c']) (simp add: memfs_add_dir_def Let_def with_fs_def await_def ret_def config_value_def)
  next
    case False
    then have "?e = EFile (file_new (snd env) (config_name ce) i (config_content ce) (Array (replicate 8 0)))"
      by (simp add: config_value_def)
    moreover have "set_attr (snd env) sattr3_default ?e = Some ?e"
      using False by (simp add: config_value_def set_times_def sattr3_default_def Let_def)
    moreover have "File.name (file_new (snd env) (config_name ce) i (config_content ce) (Array (replicate 8 0))) = config_name ce"
      by (simp add: file_new_def)
    ultimately show ?thesis using c' m l False
      by (intro exI [of _ c']) (simp add: memfs_add_file_def Let_def with_fs_def await_def ret_def)
  qed
qed

lemma flat_populate:
  "flat_ok c L \<Longrightarrow> permuting (fst env) \<Longrightarrow> length L + length cs < 998 \<Longrightarrow> root_names cs \<Longrightarrow>
   config_name ` set cs \<inter> entry_name ` snd ` set L = {} \<Longrightarrow>
   \<exists>c'. flat_ok c' (flat_entries (snd env) L cs) \<and>
     memfs_populate env cs (flat_memfs (snd env) c L) = Some (Ok (), flat_memfs (snd env) c' (flat_entries (snd env) L cs))"
proof (induction cs arbitrary: c L)
  case (Cons ce cs)
  let ?i = "of_nat (length L + 2) :: FileHandleU64"
  have ce: "config_parent ce = [DELIMITER]" "config_name ce \<noteq> DOT" "config_name ce \<noteq> DOTDOT" "root_names cs"
    "config_name ce \<notin> config_name ` set cs"
    using Cons.prems(4) by (auto simp: root_names_def)
  have len: "length L < 998" and fresh: "config_name ce \<notin> entry_name ` snd ` set L" using Cons.prems(3,5) by auto
  obtain c1 x where c1: "flat_ok c1 ((?i, config_value (snd env) ?i ce) # L)"
    "(if is_dir ce then memfs_add_dir env 1 (config_name ce)
      else memfs_add_file env 1 (config_name ce) sattr3_default (config_content ce) None) (flat_memfs (snd env) c L) =
     Some (Ok x, flat_memfs (snd env) c1 ((?i, config_value (snd env) ?i ce) # L))"
    using flat_add [OF Cons.prems(1,2) len fresh ce(2,3)] by blast
  have "path_to_id_impl [DELIMITER] (flat_memfs (snd env) c L) = Some (Ok 1, flat_memfs (snd env) c L)"
    by (simp add: path_to_id_impl_def flat_memfs_def)
  then have step: "memfs_populate env (ce # cs) (flat_memfs (snd env) c L) =
      memfs_populate env cs (flat_memfs (snd env) c1 ((?i, config_value (snd env) ?i ce) # L))"
    using ce(1) c1(2) by (simp add: await_def)
  have "config_name ` set cs \<inter> entry_name ` snd ` set ((?i, config_value (snd env) ?i ce) # L) = {}"
    using Cons.prems(5) ce(5) by auto
  from Cons.IH [OF c1(1) Cons.prems(2) _ ce(4) this] show ?case using step Cons.prems(3) by (simp add: Let_def)
qed (auto simp: ret_def)

section \<open>The server of an in-memory file system\<close>

lemma flat_memfs_new:
  assumes "permuting (fst env)" "root_names cs" "length cs < 998"
  shows "\<exists>c. flat_ok c (flat_entries (snd env) [] cs) \<and> memfs_new env cs = Some (Ok (flat_memfs (snd env) c (flat_entries (snd env) [] cs)))"
proof -
  have "memfs_default (snd env) = flat_memfs (snd env) [] []"
    by (simp add: memfs_default_def fs_new_def flat_memfs_def root_dir_def dir_new_def entry_fileid_def new_attr_def)
  moreover have "flat_ok [] []" by (simp add: flat_ok_def)
  ultimately show ?thesis
    using flat_populate [of "[]" "[]" env cs] assms by (force simp: memfs_new_def)
qed

lemma string_bytes_simps: "string_bytes [] = []" "string_bytes (x # s) = of_char x # string_bytes s"
  by (simp_all add: string_bytes_def)

lemmas config_add_root =
  config_entry_root [of "[82, 69, 65, 68, 77, 69, 46, 116, 120, 116]"]
  config_entry_root [of "[99, 97, 116, 46, 116, 120, 116]"]
  config_entry_root [of "[110, 101, 119, 32, 102, 111, 108, 100, 101, 114]"]
  config_entry_root [of "[110, 101, 119, 32, 102, 111, 108, 100, 101, 114, 32, 40, 49, 41]"]
  config_entry_root [of "[110, 101, 119, 32, 102, 111, 108, 100, 101, 114, 32, 40, 50, 41]"]

definition root_entry :: "string \<Rightarrow> bool \<Rightarrow> bytes \<Rightarrow> MemFsConfigEntry" where
  "root_entry nm d bs = \<lparr> config_parent = [DELIMITER], config_name = string_bytes nm, is_dir = d, config_content = bs \<rparr>"

lemma default_config_entries:
  "default_config ro =
     [root_entry ''README.txt'' False (if ro then READONLY_README else WRITABLE_README), root_entry ''cat.txt'' False CAT,
      root_entry ''new folder'' True [], root_entry ''new folder (1)'' True [], root_entry ''new folder (2)'' True []]"
  by (simp add: default_config_def Let_def config_add_file_def config_add_dir_def root_entry_def string_bytes_simps
      config_add_root [unfolded DELIMITER_def] DELIMITER_def)

text \<open>What a client finds in a file of the root.\<close>

definition serves_file :: "(MemFs, FileHandleU64, 'i, 'p) NfsFileSystem \<Rightarrow> MemFs \<Rightarrow> string \<Rightarrow> bytes \<Rightarrow> bool" where
  "serves_file v m nm bs \<longleftrightarrow>
     (\<exists>i. vfs_lookup v (vfs_root_dir v m) (string_bytes nm) m = Some (Ok i, m) \<and> vfs_read v i 0 1000 m = Some (Ok (bs, True), m))"

definition serves_dir :: "(MemFs, FileHandleU64, 'i, 'p) NfsFileSystem \<Rightarrow> MemFs \<Rightarrow> string \<Rightarrow> bool" where
  "serves_dir v m nm \<longleftrightarrow>
     (\<exists>i a. vfs_lookup v (vfs_root_dir v m) (string_bytes nm) m = Some (Ok i, m) \<and> vfs_getattr v i m = Some (Ok a, m) \<and> fattr3.type' a = NF3DIR)"

lemma flat_entry_of:
  "ce \<in> set cs \<Longrightarrow> \<exists>i. (i, config_value now i ce) \<in> set (flat_entries now L cs)"
proof (induction cs arbitrary: L)
  case (Cons d cs)
  have mono: "set L' \<subseteq> set (flat_entries now L' cs')" for L' cs'
    by (induction cs' arbitrary: L') (fastforce simp: Let_def)+
  show ?case
  proof (cases "ce = d")
    case True
    let ?i = "of_nat (length L + 2)"
    show ?thesis using mono [of "(?i, config_value now ?i d) # L" cs] True by (auto simp: Let_def)
  next
    case False
    then show ?thesis using Cons by (simp add: Let_def)
  qed
qed simp

text \<open>An entry of a configuration, seen through the file system or the adapter that forbids writing.\<close>

lemma flat_served:
  assumes ok: "flat_ok c (flat_entries now [] cs)" "root_names cs" and ce: "ce \<in> set cs" "config_name ce = string_bytes nm"
    and v: "v = memfs env \<or> v = ReadOnlyAdapter (memfs env)"
  shows "\<not> is_dir ce \<Longrightarrow> length (config_content ce) \<le> 1000 \<Longrightarrow>
      serves_file v (flat_memfs now c (flat_entries now [] cs)) nm (config_content ce)"
    and "is_dir ce \<Longrightarrow> serves_dir v (flat_memfs now c (flat_entries now [] cs)) nm"
proof -
  let ?L = "flat_entries now [] cs"
  let ?m = "flat_memfs now c ?L"
  obtain i where i: "(i, config_value now i ce) \<in> set ?L" using flat_entry_of [OF ce(1)] by blast
  have dots: "config_name ce \<noteq> DOT" "config_name ce \<noteq> DOTDOT" using ok(2) ce(1) by (auto simp: root_names_def)
  have "fs_lookup 1 (string_bytes nm) (fs ?m) = Ok (config_value now i ce)"
    using flat_lookup [OF ok(1) i] dots ce(2) by simp
  moreover have "rootdir ?m = 1" by (simp add: flat_memfs_def)
  ultimately have l: "vfs_lookup v (vfs_root_dir v ?m) (string_bytes nm) ?m = Some (Ok i, ?m)"
    using v by (auto simp: memfs_def ReadOnlyAdapter_def read_fs_def)
  have "i \<noteq> 1" using flat_ids(3) [OF ok(1)] i by force
  then have e: "Fs.entries (fs ?m) i = Some (config_value now i ce)" using ok(1) i by (simp add: flat_memfs_def flat_ok_def)
  show "serves_file v ?m nm (config_content ce)" if "\<not> is_dir ce" "length (config_content ce) \<le> 1000"
    using l e v that
    by (auto simp: serves_file_def memfs_def ReadOnlyAdapter_def memfs_read_def config_value_def file_read_def file_new_def Let_def)
  show "serves_dir v ?m nm" if "is_dir ce"
    using l e v that
    by (auto simp: serves_dir_def memfs_def ReadOnlyAdapter_def ReadOnlyAdapter_getattr_def memfs_getattr_def read_fs_def
        await_def ret_def config_value_def dir_new_def new_attr_def remove_write_permissions_def)
qed

lemma README_lengths: "length READONLY_README \<le> 1000" "length WRITABLE_README \<le> 1000" "length CAT \<le> 1000"
  by (simp_all add: READONLY_README_def WRITABLE_README_def CAT_def raw_text_def string_bytes_def)

lemma default_config_ok:
  "root_names (default_config ro)" "length (default_config ro) < 998" "\<forall>e \<in> set (default_config ro). length (config_content e) < 2 ^ 63"
  using README_lengths
  by (auto simp: default_config_entries root_names_def root_entry_def string_bytes_simps DOT_def DOTDOT_def)

text \<open>
  C34: started for an in-memory file system on an address that can be bound, the program serves the
  files and the folders of its configuration, under the name of the export that it was given; a
  read-only server does so through the adapter that refuses to write.
\<close>

theorem default_server_starts:
  assumes "permuting (fst env)" "use_memfs a" "CHR '':'' \<notin> set (bind_ip a)" "bind_ip a \<noteq> ''auto''"
    and "tcp_bind net (bind_ip a @ '':'' @ decimal (unat (bind_port a))) w = (Ok sock, w')"
  shows "\<exists>l m. main net os tbl env start path_exists disk a w = Some (Inl (l, m), w') \<and> memfs_ok m \<and>
    arcfs l = (if readonly a then ReadOnlyAdapter (memfs env) else memfs env) \<and>
    listener_export l = SLASH # trim_start_matches_slash (trim_end_matches_slash (string_bytes (arg_export_name a))) \<and>
    serves_file (arcfs l) m ''README.txt'' (if readonly a then READONLY_README else WRITABLE_README) \<and>
    serves_file (arcfs l) m ''cat.txt'' CAT \<and>
    serves_dir (arcfs l) m ''new folder'' \<and> serves_dir (arcfs l) m ''new folder (1)'' \<and> serves_dir (arcfs l) m ''new folder (2)''"
proof -
  let ?cs = "default_config (readonly a)" and ?v = "if readonly a then ReadOnlyAdapter (memfs env) else memfs env"
  let ?L = "flat_entries (snd env) [] ?cs"
  obtain c where c: "flat_ok c ?L" "memfs_new env ?cs = Some (Ok (flat_memfs (snd env) c ?L))"
    using flat_memfs_new [OF assms(1) default_config_ok(1,2)] by blast
  let ?m = "flat_memfs (snd env) c ?L"
  have v: "?v = memfs env \<or> ?v = ReadOnlyAdapter (memfs env)" by simp
  have "memfs_ok ?m" using memfs_new_ok [OF assms(1) default_config_ok(3) [of "readonly a"]] c(2) by simp
  moreover note served = flat_served [OF c(1) default_config_ok(1) _ _ v]
  have "serves_file ?v ?m ''README.txt'' (if readonly a then READONLY_README else WRITABLE_README)"
    using served(1) [of "root_entry ''README.txt'' False (if readonly a then READONLY_README else WRITABLE_README)" "''README.txt''"]
      README_lengths by (simp add: default_config_entries root_entry_def)
  moreover have "serves_file ?v ?m ''cat.txt'' CAT"
    using served(1) [of "root_entry ''cat.txt'' False CAT" "''cat.txt''"] README_lengths
    by (simp add: default_config_entries root_entry_def)
  moreover have "serves_dir ?v ?m nm" if "nm \<in> {''new folder'', ''new folder (1)'', ''new folder (2)''}" for nm
    using served(2) [of "root_entry nm True []" nm] that by (auto simp: default_config_entries root_entry_def)
  moreover obtain l where "bind net start (bind_ip a @ '':'' @ decimal (unat (bind_port a))) ?v w = (Ok l, w')" "arcfs l = ?v"
    using bind_parsed [OF assms(3), of net start "bind_port a" ?v w] assms(4,5) by (simp add: bind_internal_def)
  ultimately show ?thesis using c(2) assms(2)
    by (intro exI [of _ "with_export_name (string_bytes (arg_export_name a)) l"] exI [of _ ?m])
      (simp add: main_def start_server_def with_export_name_def Let_def)
qed

definition example_args :: Args where
  "example_args = \<lparr> arg_path = None, arg_export_name = ''/data/'', bind_ip = ''127.0.0.1'', bind_port = 2049, readonly = True,
     use_memfs = True \<rparr>"

theorem default_server_starts_witness:
  "\<exists>l m. main example_tcp example_os list_table example_env 7 (\<lambda>_. False) 0 example_args () = Some (Inl (l, m), ()) \<and>
     memfs_ok m \<and> serves_file (arcfs l) m ''README.txt'' READONLY_README \<and> serves_dir (arcfs l) m ''new folder (2)''"
proof -
  have "tcp_bind example_tcp (bind_ip example_args @ '':'' @ decimal (unat (bind_port example_args))) () = (Ok (), ())"
    by (simp add: example_tcp_def example_args_def example_port)
  moreover have "use_memfs example_args" "CHR '':'' \<notin> set (bind_ip example_args)" "bind_ip example_args \<noteq> ''auto''" "readonly example_args"
    by (simp_all add: example_args_def)
  ultimately show ?thesis
    using default_server_starts [of example_env example_args example_tcp "()" "()" "()" example_os list_table 7 "\<lambda>_. False" 0]
    by (auto split: if_splits)
qed

end
