(* ===== verification/Codec_Props.thy ===== *)
theory Codec_Props
  imports Rpc_Types Portmap_Types Mount_Types Nfs3_Messages
begin

text \<open>
  What the codecs of the protocol messages have in common, as properties of the types that the
  client and the server exchange.
\<close>

section \<open>Primitives\<close>

lemma round_up_word:
  assumes "s < (2 :: nat) ^ 64"
  shows "4 * ((s + 3) mod 2 ^ 64 div 4) = (if s + 3 < 2 ^ 64 then 4 * ((s + 3) div 4) else 0)"
    "(s + (4 - s mod 4) mod 4) mod 2 ^ 64 = 4 * ((s + 3) mod 2 ^ 64 div 4)"
proof -
  show 1: "4 * ((s + 3) mod 2 ^ 64 div 4) = (if s + 3 < 2 ^ 64 then 4 * ((s + 3) div 4) else 0)"
  proof (cases "s + 3 < 2 ^ 64")
    case False
    then have "(s + 3) mod 2 ^ 64 = s + 3 - 2 ^ 64" using assms by (simp add: le_mod_geq)
    moreover have "s + 3 - 2 ^ 64 < 4" using assms by simp
    ultimately have "(s + 3) mod 2 ^ 64 div 4 = 0" by (simp only: div_less)
    then show ?thesis using False by (simp only: if_False mult_0_right)
  qed (simp only: mod_less if_True)
  have e: "s + (4 - s mod 4) mod 4 = 4 * ((s + 3) div 4)" by (simp only: round_up_arith)
  show "(s + (4 - s mod 4) mod 4) mod 2 ^ 64 = 4 * ((s + 3) mod 2 ^ 64 div 4)"
  proof (cases "s + 3 < 2 ^ 64")
    case True
    then have "4 * ((s + 3) div 4) < 2 ^ 64" by linarith
    then show ?thesis using True by (simp only: 1 e mod_less if_True)
  next
    case False
    have "(s + 3) div 4 = 2 ^ 62" using False assms by simp
    then have "4 * ((s + 3) div 4) = 2 ^ 64" by (simp only:) simp
    then show ?thesis using False by (simp only: 1 e mod_self if_False)
  qed
qed

text \<open>
  The two padding functions agree: \<^verbatim>\<open>add_padding\<close> gives the least multiple of four that is not
  less than the size, \<^verbatim>\<open>get_padding\<close> the number of bytes in between, and \<^verbatim>\<open>zero_padding\<close> that many
  zeros.  Only the last three values of \<^verbatim>\<open>usize\<close> wrap around, to zero.
\<close>

theorem padding_correct:
  "unat (add_padding sz) = (if unat sz + 3 < 2 ^ 64 then 4 * ((unat sz + 3) div 4) else 0) \<and>
   add_padding sz = sz + get_padding sz \<and> unat (get_padding sz) = (4 - unat sz mod 4) mod 4 \<and>
   zero_padding sz = replicate (unat (get_padding sz)) 0"
proof -
  have less: "unat sz < 2 ^ 64" by (rule order_less_le_trans [OF unsigned_less]) simp
  have "unat (sz + 3) = (unat sz + 3) mod 2 ^ 64" by (simp add: unat_word_ariths)
  then have add: "unat (add_padding sz) = 4 * ((unat sz + 3) mod 2 ^ 64 div 4)"
    by (simp only: add_padding_def unat_and_not_3)
  have get: "unat (get_padding sz) = (4 - unat sz mod 4) mod 4" by (rule unat_get_padding)
  have 1: "unat (add_padding sz) = (if unat sz + 3 < 2 ^ 64 then 4 * ((unat sz + 3) div 4) else 0)"
    unfolding add by (rule round_up_word(1) [OF less])
  have "unat (sz + get_padding sz) = (unat sz + (4 - unat sz mod 4) mod 4) mod 2 ^ 64"
    by (simp add: unat_word_ariths get)
  then have "unat (add_padding sz) = unat (sz + get_padding sz)"
    unfolding add round_up_word(2) [OF less] by (rule sym)
  then have "add_padding sz = sz + get_padding sz" by (simp only: word_unat_eq_iff)
  moreover have "zero_padding sz = replicate (unat (get_padding sz)) 0"
    using take_replicate [of "unat (get_padding sz)" 3 "0 :: u8"] by (simp add: zero_padding_def get numeral_3_eq_3)
  ultimately show ?thesis using 1 get by blast
qed

text \<open>Pushing one item after the other.\<close>

definition push_all :: "'a codec \<Rightarrow> 'a list \<Rightarrow> 'a bounded_list \<Rightarrow> 'a bounded_list" where
  "push_all c xs bl = fold (\<lambda>x bl. snd (try_push c x bl)) xs bl"

lemma push_all_ok: "bounded_list_ok c bl \<Longrightarrow> bounded_list_ok c (push_all c xs bl) \<and> max_size (push_all c xs bl) = max_size bl"
  by (induction xs arbitrary: bl) (auto simp: push_all_def try_push_ok)

text \<open>
  Items are pushed to a bounded list as long as they fit: after any pushes the encoded list is
  empty or within the limit, and an item is refused, and the list left alone, exactly when the
  encoded list with it would be longer than the limit.
\<close>

theorem bounded_list_bound:
  "let bl = push_all c xs (bounded_list_new c mx);
       longer = bounded_list_into_inner bl @ [x];
       full = packed_size (list_codec c) longer > mx
   in (bounded_list_into_inner bl = [] \<or> packed_size (list_codec c) (bounded_list_into_inner bl) \<le> mx) \<and>
      fst (try_push c x bl) = (if full then Err x else Ok ()) \<and>
      bounded_list_into_inner (snd (try_push c x bl)) = (if full then bounded_list_into_inner bl else longer)"
proof -
  have "bounded_list_ok c (push_all c xs (bounded_list_new c mx)) \<and> max_size (push_all c xs (bounded_list_new c mx)) = mx"
    using push_all_ok [OF bounded_list_new_ok, of c xs mx] by (simp add: bounded_list_new_def)
  then show ?thesis
    by (auto simp: Let_def bounded_list_into_inner_def list_codec_def bounded_list_ok_def try_push_def list_packed_size_append)
qed

section \<open>Messages\<close>

text \<open>
  C16: RPC messages survive the wire: an encoded message decodes to itself and to the number of
  bytes written, whatever follows it; its length is a multiple of four; none of its proper
  prefixes decodes.  And whatever decodes can be encoded again, to the same length.
\<close>

theorem rpc_msg_round_trip:
  "(\<forall>n bs rest. pack rpc_msg_codec m [] = Ok (n, bs) \<longrightarrow>
      unpack rpc_msg_codec (bs @ rest) = Ok (m, n, rest) \<and> n = length bs \<and> 4 dvd n \<and>
      (\<forall>k < n. unpack rpc_msg_codec (take k bs) = Err (Io UnexpectedEof))) \<and>
   (\<forall>i n rest. unpack rpc_msg_codec i = Ok (m, n, rest) \<longrightarrow>
      rest = drop n i \<and> (\<exists>bs. pack rpc_msg_codec m [] = Ok (n, bs)))"
proof (intro conjI allI impI)
  fix n bs rest k assume p: "pack rpc_msg_codec m [] = Ok (n, bs)"
  show "unpack rpc_msg_codec (bs @ rest) = Ok (m, n, rest)" by (rule rpc_msg.unpack_pack [OF p])
  show "n = length bs" "4 dvd n" using rpc_msg.pack_size [OF p] rpc_msg.size_aligned [of m] by auto
  show "k < n \<Longrightarrow> unpack rpc_msg_codec (take k bs) = Err (Io UnexpectedEof)" by (rule rpc_msg.unpack_truncated [OF p])
next
  fix i n rest assume u: "unpack rpc_msg_codec i = Ok (m, n, rest)"
  show "rest = drop n i" using rpc_msg.unpack_consumes [OF u] by simp
  show "\<exists>bs. pack rpc_msg_codec m [] = Ok (n, bs)" by (rule rpc_msg.unpack_packable [OF u])
qed

theorem rpc_msg_round_trip_witness:
  "\<exists>n bs. pack rpc_msg_codec \<lparr> rpc_msg.xid = 7, rpc_msg.body = REPLY (MSG_DENIED (RPC_MISMATCH 2 2)) \<rparr> [] = Ok (n, bs) \<and>
     unpack rpc_msg_codec (bs @ [1]) = Ok (\<lparr> rpc_msg.xid = 7, rpc_msg.body = REPLY (MSG_DENIED (RPC_MISMATCH 2 2)) \<rparr>, n, [1])"
proof -
  have "\<exists>n bs. pack rpc_msg_codec \<lparr> rpc_msg.xid = 7, rpc_msg.body = REPLY (MSG_DENIED (RPC_MISMATCH 2 2)) \<rparr> [] = Ok (n, bs)"
    by (simp add: rpc_msg_codec_def struct_codec_def fields_codec_def msg_body_codec_def
        reply_body_codec_def rejected_reply_codec_def complex_enum_codec_def field_payload_def Let_def)
  then show ?thesis using rpc_msg_round_trip by blast
qed

text \<open>
  C17: the argument types of all NFSv3 procedures, and of those of the MOUNT program and the port
  mapper, have lawful codecs: the size is announced right, encodings decode to the value that
  was encoded, prefixes do not decode, and what decodes can be encoded.  The arguments of MKNOD,
  which may hold a device type that decodes only, lack the last law.
\<close>

theorem argument_codecs_lawful:
  "xdr_codec_total GETATTR3args_codec \<and> xdr_codec_total SETATTR3args_codec \<and> xdr_codec_total LOOKUP3args_codec \<and>
   xdr_codec_total ACCESS3args_codec \<and> xdr_codec_total READLINK3args_codec \<and> xdr_codec_total READ3args_codec \<and>
   xdr_codec_total WRITE3args_codec \<and> xdr_codec_total CREATE3args_codec \<and> xdr_codec_total MKDIR3args_codec \<and>
   xdr_codec_total SYMLINK3args_codec \<and> xdr_codec MKNOD3args_codec \<and> xdr_codec_total REMOVE3args_codec \<and>
   xdr_codec_total RMDIR3args_codec \<and> xdr_codec_total RENAME3args_codec \<and> xdr_codec_total LINK3args_codec \<and>
   xdr_codec_total READDIR3args_codec \<and> xdr_codec_total READDIRPLUS3args_codec \<and> xdr_codec_total FSSTAT3args_codec \<and>
   xdr_codec_total FSINFO3args_codec \<and> xdr_codec_total PATHCONF3args_codec \<and> xdr_codec_total COMMIT3args_codec \<and>
   xdr_codec_total dirpath_codec \<and> xdr_codec_total mapping_codec \<and> xdr_codec_total call_args_codec"
  by (intro conjI codec_intros MKNOD3args_codec_xdr)

text \<open>
  C29: the result types of all NFSv3 procedures and of MNT have codecs that decode what was
  encoded, except for an error whose status says success.
\<close>

theorem result_codecs_lawful:
  "xdr_codec_on GETATTR3res_codec nfs3_result_ok \<and> xdr_codec_on SETATTR3res_codec nfs3_result_ok \<and>
   xdr_codec_on LOOKUP3res_codec nfs3_result_ok \<and> xdr_codec_on ACCESS3res_codec nfs3_result_ok \<and>
   xdr_codec_on READLINK3res_codec nfs3_result_ok \<and> xdr_codec_on READ3res_codec nfs3_result_ok \<and>
   xdr_codec_on WRITE3res_codec nfs3_result_ok \<and> xdr_codec_on CREATE3res_codec nfs3_result_ok \<and>
   xdr_codec_on MKDIR3res_codec nfs3_result_ok \<and> xdr_codec_on SYMLINK3res_codec nfs3_result_ok \<and>
   xdr_codec_on MKNOD3res_codec nfs3_result_ok \<and> xdr_codec_on REMOVE3res_codec nfs3_result_ok \<and>
   xdr_codec_on RMDIR3res_codec nfs3_result_ok \<and> xdr_codec_on RENAME3res_codec nfs3_result_ok \<and>
   xdr_codec_on LINK3res_codec nfs3_result_ok \<and> xdr_codec_on READDIR3res_codec nfs3_result_ok \<and>
   xdr_codec_on READDIRPLUS3res_codec nfs3_result_ok \<and> xdr_codec_on FSSTAT3res_codec nfs3_result_ok \<and>
   xdr_codec_on FSINFO3res_codec nfs3_result_ok \<and> xdr_codec_on PATHCONF3res_codec nfs3_result_ok \<and>
   xdr_codec_on COMMIT3res_codec nfs3_result_ok \<and> xdr_codec_on mountres3_codec mountres3_representable"
  by (intro conjI GETATTR3res.xdr_codec_on_axioms SETATTR3res.xdr_codec_on_axioms LOOKUP3res.xdr_codec_on_axioms
    ACCESS3res.xdr_codec_on_axioms READLINK3res.xdr_codec_on_axioms READ3res.xdr_codec_on_axioms
    WRITE3res.xdr_codec_on_axioms CREATE3res.xdr_codec_on_axioms MKDIR3res.xdr_codec_on_axioms
    SYMLINK3res.xdr_codec_on_axioms MKNOD3res.xdr_codec_on_axioms REMOVE3res.xdr_codec_on_axioms
    RMDIR3res.xdr_codec_on_axioms RENAME3res.xdr_codec_on_axioms LINK3res.xdr_codec_on_axioms
    READDIR3res.xdr_codec_on_axioms READDIRPLUS3res.xdr_codec_on_axioms FSSTAT3res.xdr_codec_on_axioms
    FSINFO3res.xdr_codec_on_axioms PATHCONF3res.xdr_codec_on_axioms COMMIT3res.xdr_codec_on_axioms
    mountres3.xdr_codec_on_axioms)

end
