(* ===== verification/Tcp_Props.thy ===== *)
theory Tcp_Props
  imports Tcp_Bind Server Mirror_Props
begin

text \<open>
  The server with all its connections: what comes in on a connection is cut into messages, every
  reply goes to the connection of its call, and the state that the connections share keeps its
  invariant, however the tasks are interleaved.
\<close>

section \<open>Messages on a connection\<close>

text \<open>The messages in a sequence of bytes, with the part of the first that has been read already.\<close>

lemma incomplete_recv_shorter: "incomplete_recv part i = Ok (l, part', i') \<Longrightarrow> length i' < length i"
  by (auto simp: incomplete_recv_def read_exact_def Let_def split: sum.splits if_splits)

function messages_of :: "bytes \<Rightarrow> bytes \<Rightarrow> CompleteRpcMessage list" where
  "messages_of part i =
     (case incomplete_recv part i of
        Err _ \<Rightarrow> []
      | Ok (is_last, part', i') \<Rightarrow>
          if is_last then part' # messages_of [] i' else messages_of part' i')"
  by pat_completeness auto
termination by (relation "measure (\<lambda>(part, i). length i)") (auto dest: incomplete_recv_shorter)

declare messages_of.simps [simp del]

lemma socket_read_Incomplete:
  "socket_read (Incomplete part) i =
     (case incomplete_recv part i of
        Err e \<Rightarrow> Err e
      | Ok (is_last, part', i') \<Rightarrow> Ok (if is_last then (Some part', Incomplete [], i') else (None, Incomplete part', i')))"
  by (auto simp: socket_read_def packed_rpc_message_new_def and_then_def split: sum.splits)

lemma messages_of_frames:
  "ps \<noteq> [] \<Longrightarrow> \<forall>p \<in> set ps. length p < 2 ^ 31 \<Longrightarrow>
   messages_of part (frames ps @ rest) = (part @ concat ps) # messages_of [] rest"
proof (induction ps arbitrary: part rule: frames.induct)
  case (2 p)
  then have "incomplete_recv part (frame True p @ rest) = Ok (True, part @ p, rest)"
    using fragment_recv [of p True] fragment_header_new_Some [of p True] by (auto simp: frame_def)
  then show ?case by (subst messages_of.simps) simp
next
  case (3 p p' ps)
  then have "incomplete_recv part (frame False p @ frames (p' # ps) @ rest) = Ok (False, part @ p, frames (p' # ps) @ rest)"
    using fragment_recv [of p False] fragment_header_new_Some [of p False] by (auto simp: frame_def)
  then show ?case using 3 by (subst messages_of.simps) simp
qed simp

section \<open>Replies on a connection\<close>

definition call_xid :: "CompleteRpcMessage \<Rightarrow> u32 option" where
  "call_xid msg = (case incoming_try_from msg of Ok m \<Rightarrow> Some (incoming_xid m) | Err _ \<Rightarrow> None)"

definition reply_xid :: "CompleteRpcMessage \<Rightarrow> u32 option" where
  "reply_xid buf = (case unpack rpc_msg_codec buf of
     Ok (r, _) \<Rightarrow> (case rpc_msg.body r of REPLY _ \<Rightarrow> Some (rpc_msg.xid r) | CALL _ \<Rightarrow> None)
   | Err _ \<Rightarrow> None)"

definition answers_message :: "CompleteRpcMessage \<Rightarrow> rpc_error + HandleResult \<Rightarrow> bool" where
  "answers_message msg result \<longleftrightarrow>
     (\<forall>buf. result = Ok (Reply buf) \<longrightarrow> (\<exists>i. call_xid msg = Some i \<and> reply_xid buf = Some i))"

lemma replies_to_answers:
  assumes "incoming_try_from msg = Ok m" "replies_to (incoming_xid m) result"
  shows "answers_message msg result"
  using assms by (fastforce simp: answers_message_def replies_to_def call_xid_def reply_xid_def)

text \<open>A message is answered at once, or the tracker decides.\<close>

lemma begin_message_cases:
  assumes run: "begin_message now ctx msg st = Some (r, st')"
  obtains (at_once) result where "r = Inl result" "st' = st" "answers_message msg result"
  | (refused) m e t where "incoming_try_from msg = Ok m" "st' = st\<lparr> transaction_tracker := t \<rparr>"
      "start_transaction (client_addr ctx) (incoming_xid m) now (transaction_tracker st) = Some (Err e, t)"
      "r = Inl (Ok NoReply) \<or> r = Inl (into_error_reply SYSTEM_ERR m)"
  | (admitted) m au lock t where "incoming_try_from msg = Ok m" "st' = st\<lparr> transaction_tracker := t \<rparr>"
      "start_transaction (client_addr ctx) (incoming_xid m) now (transaction_tracker st) = Some (Ok lock, t)"
      "r = Inr (ctx\<lparr> auth := au \<rparr>, m, lock)"
proof (cases "incoming_try_from msg")
  case (Inl e)
  with run show ?thesis by (intro at_once) (auto simp: begin_message_def answers_message_def ret_def)
next
  case (Inr m)
  note m = this
  show ?thesis
  proof (cases "call_body.rpcvers (incoming_body m) = RPC_VERSION_2")
    case False
    then show ?thesis using run m replies_to_answers [OF m rpc_mismatch_replies]
      by (intro at_once) (auto simp: begin_message_def Let_def ret_def)
  next
    case True
    let ?auth = "if opaque_auth.flavor (call_body.cred (incoming_body m)) = AUTH_UNIX
      then (case unpack auth_unix_codec (opaque_auth.body (call_body.cred (incoming_body m))) of
              Err e \<Rightarrow> Err e | Ok (a, _) \<Rightarrow> Ok (ctx\<lparr> auth := a \<rparr>))
      else Ok ctx"
    show ?thesis
    proof (cases ?auth)
      case (Inl e)
      then show ?thesis using run m True
        by (intro at_once) (auto simp: begin_message_def Let_def ret_def answers_message_def)
    next
      case (Inr ctx')
      then obtain au where ctx': "ctx' = ctx\<lparr> auth := au \<rparr>"
      proof (cases "opaque_auth.flavor (call_body.cred (incoming_body m)) = AUTH_UNIX")
        case False
        with Inr that [of "auth ctx"] show ?thesis by simp
      qed (use Inr that in \<open>auto split: sum.splits\<close>)
      have lock: "await (lock_transaction now (client_addr ctx) (incoming_xid m)) (\<lambda>transaction.
                   ret (case transaction of
                     Err (Some err) \<Rightarrow> Inl (into_error_reply err m)
                   | Err None \<Rightarrow> Inl (Ok NoReply)
                   | Ok lock \<Rightarrow> Inr (ctx\<lparr> auth := au \<rparr>, m, lock))) st = Some (r, st')"
        using run m True Inr ctx' by (simp add: begin_message_def Let_def)
      then obtain x t where x: "start_transaction (client_addr ctx) (incoming_xid m) now (transaction_tracker st) = Some (x, t)"
        by (auto simp: await_def lock_transaction_def split: option.splits)
      show ?thesis
      proof (cases x)
        case (Inl e)
        with lock x m show ?thesis
          by (intro refused [of m t e]) (cases e; simp add: await_def lock_transaction_def ret_def)+
      next
        case (Inr l)
        with lock x m ctx' show ?thesis
          by (intro admitted [of m t l au]) (simp_all add: await_def lock_transaction_def ret_def)
      qed
    qed
  qed
qed

section \<open>The invariant of a connection\<close>

fun oks :: "('e + 'a) list \<Rightarrow> 'a list" where
  "oks [] = []"
| "oks (Ok x # xs) = x # oks xs"
| "oks (Err e # xs) = oks xs"

lemma oks_append [simp]: "oks (xs @ ys) = oks xs @ oks ys"
  by (induction xs rule: oks.induct) auto

fun task_ok :: "('s, 'h, 'i, 'p) NfsFileSystem \<Rightarrow> ('s, 'h, 'i, 'p) task \<Rightarrow> bool" where
  "task_ok v (Spawned msg) = True"
| "task_ok v (Locked msg ctx m lock) = (vfs ctx = v \<and> incoming_try_from msg = Ok m)"
| "task_ok v (Executed msg lock result) = answers_message msg result"

text \<open>The replies that are on their way or written, and the calls that have not been answered yet.\<close>

definition replies_of :: "('s, 'h, 'i, 'p) connection \<Rightarrow> CompleteRpcMessage list" where
  "replies_of c = oks (channel c) @ sent c"

definition pending_calls :: "('s, 'h, 'i, 'p) connection \<Rightarrow> CompleteRpcMessage list" where
  "pending_calls c = map task_message (tasks c)"

definition replies_matched :: "('s, 'h, 'i, 'p) connection \<Rightarrow> bool" where
  "replies_matched c \<longleftrightarrow> None \<notin> reply_xid ` set (replies_of c) \<and>
     mset (map reply_xid (replies_of c)) + mset (map call_xid (pending_calls c)) \<subseteq># mset (map call_xid (messages c))"

definition input_ok :: "('s, 'h, 'i, 'p) connection \<Rightarrow> bool" where
  "input_ok c \<longleftrightarrow> (\<exists>part. cur_fragment c = Incomplete part \<and>
     (\<forall>j. messages_of [] (received c @ j) = messages c @ messages_of part (pipe c @ j)))"

definition output_ok :: "('s, 'h, 'i, 'p) connection \<Rightarrow> bool" where
  "output_ok c \<longleftrightarrow> (\<not> write_failed c \<longrightarrow> written c = concat (map (frame True) (sent c)))"

definition conn_ok :: "('s, 'h, 'i, 'p) NfsFileSystem \<Rightarrow> ('s, 'h, 'i, 'p) connection \<Rightarrow> bool" where
  "conn_ok v c \<longleftrightarrow> vfs (conn_context c) = v \<and> list_all (task_ok v) (tasks c) \<and>
     input_ok c \<and> output_ok c \<and> replies_matched c \<and> (\<forall>t \<in> set (tasks c). task_message t \<in> set (messages c))"

lemmas conn_defs = conn_ok_def input_ok_def output_ok_def replies_matched_def replies_of_def pending_calls_def

lemma receive_bytes_ok: "input_ok c \<Longrightarrow> input_ok (receive_bytes bs c)"
  by (auto simp: input_ok_def receive_bytes_def)

lemma read_fragment_ok:
  assumes "input_ok c" "read_fragment c = Some c'"
  shows "input_ok c'"
proof -
  from assms(1) obtain part where part: "cur_fragment c = Incomplete part"
    "\<And>j. messages_of [] (received c @ j) = messages c @ messages_of part (pipe c @ j)" by (auto simp: input_ok_def)
  from assms(2) part(1) obtain lst part' i' where recv: "incomplete_recv part (pipe c) = Ok (lst, part', i')"
    and c': "c' = (if lst then c\<lparr> cur_fragment := Incomplete [], pipe := i', tasks := tasks c @ [Spawned part'],
        messages := messages c @ [part'] \<rparr> else c\<lparr> cur_fragment := Incomplete part', pipe := i' \<rparr>)"
    by (auto simp: read_fragment_def socket_read_Incomplete Let_def split: sum.splits if_splits)
  have "messages_of part (pipe c @ j) = (if lst then part' # messages_of [] (i' @ j) else messages_of part' (i' @ j))" for j
    using incomplete_recv_more [OF recv, of j] by (subst messages_of.simps) simp
  with part(2) c' show ?thesis by (simp add: input_ok_def)
qed

lemma send_output_ok:
  assumes c: "conn_ok v c" "tasks c = ts @ t # ts'" and answer: "answers_message (task_message t) result"
  shows "conn_ok v (send_output result (c\<lparr> tasks := ts @ ts' \<rparr>))"
proof -
  have sub: "mset (map reply_xid (replies_of c)) + mset (map call_xid (map task_message (ts @ ts'))) +
      {#call_xid (task_message t)#} \<subseteq># mset (map call_xid (messages c))"
    using c by (simp add: conn_defs ac_simps)
  then have "mset (map reply_xid (replies_of c)) + mset (map call_xid (map task_message (ts @ ts'))) \<subseteq># mset (map call_xid (messages c))"
    by (meson mset_subset_eq_add_left subset_mset.order_trans)
  with sub c answer show ?thesis
    by (auto simp: conn_defs send_output_def task_output_def answers_message_def ac_simps
        split: sum.splits HandleResult.splits)
qed

lemma begin_message_Inl:
  "begin_message now ctx msg st = Some (Inl result, st') \<Longrightarrow> answers_message msg result"
  by (erule begin_message_cases)
     (auto simp: answers_message_def [of _ "Inr NoReply"] intro: replies_to_answers error_reply_replies)

lemma begin_message_Inr:
  assumes "begin_message now ctx msg st = Some (Inr (ctx', m, lock), st')"
  shows "vfs ctx' = vfs ctx \<and> incoming_try_from msg = Ok m"
  using assms by (rule begin_message_cases) auto

lemma write_fragment_frame: "write_fragment buf = Some bs \<Longrightarrow> bs = frame True buf"
  by (auto simp: write_fragment_def frame_def split: if_splits)

lemma conn_step_ok:
  assumes "conn_step st c st' c'" "conn_ok v c"
  shows "conn_ok v c'"
  using assms
proof cases
  case (receive bs)
  then show ?thesis
    using assms(2) receive_bytes_ok [of c bs] by (simp add: conn_ok_def output_ok_def replies_matched_def replies_of_def
        pending_calls_def) (simp add: receive_bytes_def)
next
  case fragment
  have "vfs (conn_context c') = v \<and> list_all (task_ok v) (tasks c') \<and> output_ok c' \<and> replies_matched c' \<and>
      (\<forall>t \<in> set (tasks c'). task_message t \<in> set (messages c'))"
    using fragment assms(2)
    by (auto simp: read_fragment_def Let_def conn_defs ac_simps split: sum.splits option.splits)
  then show ?thesis using read_fragment_ok [of c c'] fragment assms(2) by (simp add: conn_ok_def)
next
  case (refused ts msg ts' now result)
  then show ?thesis using send_output_ok [OF assms(2) refused(2)] begin_message_Inl [OF refused(3)] by simp
next
  case (locked ts msg ts' now ctx m lock)
  then show ?thesis using assms(2) begin_message_Inr [of now "conn_context c"] by (fastforce simp: conn_defs)
next
  case (executed ts msg ctx m lock ts' result)
  then have "incoming_try_from msg = Ok m" using assms(2) by (simp add: conn_ok_def)
  from replies_to_answers [OF this answersD [OF dispatch_answers executed(3)]]
  show ?thesis using executed assms(2) by (simp add: conn_defs)
next
  case (finished ts msg lock result ts' now)
  then show ?thesis using assms(2) send_output_ok [OF assms(2) finished(2)] by (simp add: conn_ok_def)
next
  case (reply_written buf ch bs)
  then show ?thesis using assms(2) by (auto simp: conn_defs ac_simps dest: write_fragment_frame)
next
  case (reply_torn buf ch bs n)
  then show ?thesis using assms(2) by (auto simp: conn_defs ac_simps)
next
  case (reply_too_long buf ch)
  then have "mset (map reply_xid (oks ch @ sent c)) + mset (map call_xid (pending_calls c)) + {#reply_xid buf#} \<subseteq># mset (map call_xid (messages c))"
    using assms(2) by (simp add: conn_defs ac_simps)
  then have "mset (map reply_xid (oks ch @ sent c)) + mset (map call_xid (pending_calls c)) \<subseteq># mset (map call_xid (messages c))"
    by (meson mset_subset_eq_add_left subset_mset.order_trans)
  then show ?thesis using reply_too_long assms(2) by (auto simp: conn_defs)
qed (use assms(2) in \<open>auto simp: conn_defs\<close>)

section \<open>Locks\<close>

definition conn_locks :: "('s, 'h, 'i, 'p) connection \<Rightarrow> TransactionLock list" where
  "conn_locks c = concat (map task_locks (tasks c))"

definition server_locks :: "('s, 'h, 'i, 'p) tcp_server \<Rightarrow> TransactionLock list" where
  "server_locks s = concat (map conn_locks (connections s))"

lemma tracker_ok_mset: "mset ls = mset ls' \<Longrightarrow> tracker_ok t ls \<longleftrightarrow> tracker_ok t ls'"
proof -
  assume eq: "mset ls = mset ls'"
  then have "set ls = set ls'" "mset (map lock_key ls) = mset (map lock_key ls')" by (auto dest: mset_eq_setD)
  then show ?thesis
    using mset_eq_imp_distinct_iff [of "map lock_key ls" "map lock_key ls'"]
    by (simp add: tracker_ok_def record_ok_def locks_at_def)
qed

lemma begin_message_tracker:
  assumes "begin_message now ctx msg st = Some (r, st')" "tracker_ok (transaction_tracker st) ls"
  shows "vfs_state st' = vfs_state st \<and>
    tracker_ok (transaction_tracker st') ((case r of Inl _ \<Rightarrow> [] | Inr (_, _, lock) \<Rightarrow> [lock]) @ ls)"
  using assms(1)
proof (cases rule: begin_message_cases)
  case (refused m e t)
  then show ?thesis using start_transaction_ok [OF assms(2), of "client_addr ctx" "incoming_xid m" now] by (auto simp: hold_def)
next
  case (admitted m au lock t)
  then show ?thesis using start_transaction_ok [OF assms(2), of "client_addr ctx" "incoming_xid m" now] by (auto simp: hold_def)
qed (use assms(2) in simp)

lemma conn_step_tracker:
  assumes "conn_step st c st' c'" "tracker_ok (transaction_tracker st) (conn_locks c @ ls)"
  shows "tracker_ok (transaction_tracker st') (conn_locks c' @ ls)"
  using assms
proof cases
  case (refused ts msg ts' now result)
  then show ?thesis using begin_message_tracker [OF refused(3) assms(2)] by (simp add: send_output_def conn_locks_def)
next
  case (locked ts msg ts' now ctx m lock)
  have "tracker_ok (transaction_tracker st') (lock # conn_locks c @ ls)"
    using begin_message_tracker [OF locked(3) assms(2)] by simp
  then show ?thesis using locked by (subst tracker_ok_mset [of _ "lock # conn_locks c @ ls"]) (simp_all add: conn_locks_def)
next
  case (executed ts msg ctx m lock ts' result)
  then show ?thesis using assms(2) dispatch_tracker [OF executed(3)] by (simp add: conn_locks_def)
next
  case (finished ts msg lock result ts' now)
  then obtain t where t: "drop_lock now lock (transaction_tracker st) = Some t" "st' = st\<lparr> transaction_tracker := t \<rparr>"
    by (auto simp: release_def split: option.splits)
  let ?ls = "concat (map task_locks (ts @ ts')) @ ls"
  have "mset (conn_locks c @ ls) = mset (lock # ?ls)" using finished by (simp add: conn_locks_def)
  then have "tracker_ok (transaction_tracker st) (lock # ?ls)" using assms(2) tracker_ok_mset by blast
  from drop_lock_ok [OF this, of lock now] t finished show ?thesis
    by (simp add: send_output_def conn_locks_def)
qed (auto simp: conn_locks_def receive_bytes_def read_fragment_def Let_def split: sum.splits option.splits)

section \<open>The invariant of the server\<close>

definition all_messages :: "('s, 'h, 'i, 'p) tcp_server \<Rightarrow> CompleteRpcMessage set" where
  "all_messages s = (\<Union>c \<in> set (connections s). set (messages c))"

definition message_allowed :: "(IncomingRpcMessage \<Rightarrow> bool) \<Rightarrow> CompleteRpcMessage \<Rightarrow> bool" where
  "message_allowed allowed msg \<longleftrightarrow> (\<forall>m. incoming_try_from msg = Ok m \<longrightarrow> allowed m)"

definition server_ok ::
  "('s \<Rightarrow> bool) \<Rightarrow> ('s, 'h, 'i, 'p) NfsFileSystem \<Rightarrow> ('s, 'h, 'i, 'p) tcp_server \<Rightarrow> bool" where
  "server_ok invar v s \<longleftrightarrow> invar (vfs_state (shared s)) \<and>
     tracker_ok (transaction_tracker (shared s)) (server_locks s) \<and> list_all (conn_ok v) (connections s)"

lemma conn_step_messages: "conn_step st c st' c' \<Longrightarrow> set (messages c) \<subseteq> set (messages c')"
  by (induction rule: conn_step.induct)
     (auto simp: receive_bytes_def send_output_def read_fragment_def Let_def split: sum.splits option.splits)

lemma server_step_messages: "server_step l s s' \<Longrightarrow> all_messages s \<subseteq> all_messages s'"
proof (induction rule: server_step.induct)
  case (connection s cs c cs' st' c')
  then show ?case using conn_step_messages by (fastforce simp: all_messages_def)
qed (auto simp: all_messages_def)

lemma begin_message_vfs: "begin_message now ctx msg st = Some (r, st') \<Longrightarrow> vfs_state st' = vfs_state st"
  by (erule begin_message_cases) auto

lemma conn_locks_new [simp]: "conn_locks (new_connection ctx) = []"
  by (simp add: conn_locks_def new_connection_def)

lemma new_connection_ok: "vfs ctx = v \<Longrightarrow> conn_ok v (new_connection ctx)"
  by (simp add: conn_defs new_connection_def packed_rpc_message_new_def)

text \<open>
  A file system whose invariant is kept by every call that is allowed.  The invariant holds in every
  state of a server over it.
\<close>

locale served_vfs =
  fixes v :: "('s, 'h, 'i, 'p) NfsFileSystem" and invar :: "'s \<Rightarrow> bool" and allowed :: "IncomingRpcMessage \<Rightarrow> bool"
  assumes dispatch_keeps: "vfs ctx = v \<Longrightarrow> allowed m \<Longrightarrow> invar (vfs_state st) \<Longrightarrow>
    dispatch ctx m st = Some (r, st') \<Longrightarrow> invar (vfs_state st')"
begin

lemma conn_step_inv:
  assumes "conn_step st c st' c'" "conn_ok v c" "invar (vfs_state st)"
    and "\<And>msg. msg \<in> set (messages c) \<Longrightarrow> message_allowed allowed msg"
  shows "invar (vfs_state st')"
  using assms(1)
proof cases
  case (executed ts msg ctx m lock ts' result)
  then have "vfs ctx = v" "incoming_try_from msg = Ok m" "msg \<in> set (messages c)"
    using assms(2) by (auto simp: conn_ok_def pending_calls_def)
  then show ?thesis using dispatch_keeps [OF _ _ assms(3) executed(3)] assms(4) by (simp add: message_allowed_def)
qed (use assms(3) in \<open>auto dest: begin_message_vfs simp: release_def split: option.splits\<close>)

lemma server_step_ok:
  assumes "server_step l s s'" "server_ok invar v s" "arcfs l = v"
    and "\<And>msg. msg \<in> all_messages s \<Longrightarrow> message_allowed allowed msg"
  shows "server_ok invar v s'"
  using assms(1)
proof cases
  case (accept peer)
  then show ?thesis
    using assms(2,3) new_connection_ok [of "connection_context l peer" v]
    by (simp add: server_ok_def server_locks_def connection_context_def)
next
  case (connection cs c cs' st' c')
  let ?ls = "concat (map conn_locks (cs @ cs'))"
  have c: "conn_ok v c" using assms(2) connection by (simp add: server_ok_def)
  have mset: "mset (server_locks s) = mset (conn_locks c @ ?ls)" using connection by (simp add: server_locks_def)
  then have "tracker_ok (transaction_tracker (shared s)) (conn_locks c @ ?ls)"
    using assms(2) tracker_ok_mset [OF mset] by (simp add: server_ok_def)
  from conn_step_tracker [OF connection(3) this]
  have "tracker_ok (transaction_tracker st') (server_locks s')"
    using connection by (subst tracker_ok_mset [of _ "conn_locks c' @ ?ls"]) (simp_all add: server_locks_def)
  moreover have "invar (vfs_state st')"
    using conn_step_inv [OF connection(3) c] assms(2,4) connection by (auto simp: server_ok_def all_messages_def)
  ultimately show ?thesis
    using assms(2) connection conn_step_ok [OF connection(3) c] by (simp add: server_ok_def)
next
  case (clean now)
  then show ?thesis using assms(2) cleanup_ok by (simp add: server_ok_def server_locks_def)
qed

lemma run_ok:
  assumes "(server_step l)\<^sup>*\<^sup>* s s'" "server_ok invar v s" "arcfs l = v"
    and "\<And>msg. msg \<in> all_messages s' \<Longrightarrow> message_allowed allowed msg"
  shows "server_ok invar v s'"
  using assms(1,4)
proof (induction rule: rtranclp_induct)
  case (step s s')
  then show ?case using server_step_ok [OF step(2) _ assms(3)] server_step_messages [OF step(2)] by blast
qed (rule assms(2))

lemma reachable_ok:
  assumes "server_reachable l s0 s" "invar s0" "arcfs l = v" "tracker_ok (listener_tracker l) []"
    and "\<And>msg. msg \<in> all_messages s \<Longrightarrow> message_allowed allowed msg"
  shows "server_ok invar v s"
proof (rule run_ok [OF assms(1)[unfolded server_reachable_def] _ assms(3,5)])
  show "server_ok invar v (server_init l s0)"
    using assms(2,4) by (simp add: server_ok_def server_init_def server_locks_def)
qed

end

section \<open>The file systems of the program\<close>

definition polite :: "IncomingRpcMessage \<Rightarrow> bool" where
  "polite m \<longleftrightarrow> (\<forall>nm. rename_source m = Some nm \<longrightarrow> nm \<noteq> DOT \<and> nm \<noteq> DOTDOT)"

lemma memfs_served:
  assumes "permuting (fst env)"
  shows "served_vfs (memfs env) memfs_ok polite"
proof
  fix ctx :: "(MemFs, FileHandleU64, MemFsIterator, MemFsIterator) RPCContext" and m st r st'
  assume v: "vfs ctx = memfs env" and m: "polite m" "memfs_ok (vfs_state st)" and run: "dispatch ctx m st = Some (r, st')"
  have "dispatch (ctx\<lparr> vfs := memfs env \<rparr>) m st = Some (r, st')" using v run by (cases ctx) simp
  then show "memfs_ok (vfs_state st')"
    using dispatch_keeps_memfs [OF assms m(2)] m(1) by (simp add: polite_def)
qed

interpretation served_memfs: served_vfs "memfs (\<lambda>xs. xs, now)" memfs_ok polite for now
  by (rule memfs_served) (simp add: permuting_def)

lemma keeps_vfs_ctx: "ctx\<lparr> vfs := v \<rparr> = ctx" if "vfs ctx = v"
  using that by (cases ctx) simp

text \<open>The MOUNT program keeps what path look-ups keep.\<close>

lemma handle_mount_keeps:
  assumes "\<And>path. keeps P (vfs_lookup_by_path (vfs ctx) path) P"
  shows "keeps (\<lambda>st. P (fst st)) (handle_mount ctx m) (\<lambda>st. P (fst st))"
proof -
  have lift: "keeps (\<lambda>st. P (fst st)) (on_vfs p) (\<lambda>st. P (fst st))" if "keeps P p P" for p :: "('a, 'z) prog"
    using that by (auto simp: keeps_def on_vfs_def split: option.splits)
  have signal: "keeps (\<lambda>st. P (fst st)) (send_signal ctx b) (\<lambda>st. P (fst st))" for b
    by (simp add: keeps_def send_signal_def)
  have mnt: "keeps (\<lambda>st. P (fst st)) (mountproc3_mnt ctx x path) (\<lambda>st. P (fst st))" for x path
    unfolding mountproc3_mnt_def Let_def
    by (intro keeps_await_same keeps_intros lift assms signal)
  have umnt: "keeps (\<lambda>st. P (fst st)) (mountproc3_umnt ctx x path) (\<lambda>st. P (fst st))"
    "keeps (\<lambda>st. P (fst st)) (mountproc3_umnt_all ctx x a) (\<lambda>st. P (fst st))"
    "keeps (\<lambda>st. P (fst st)) (mountproc3_null ctx x a) (\<lambda>st. P (fst st))"
    "keeps (\<lambda>st. P (fst st)) (mountproc3_export ctx x a) (\<lambda>st. P (fst st))" for x path a
    unfolding mountproc3_umnt_def mountproc3_umnt_all_def mountproc3_null_def mountproc3_export_def
    by (intro keeps_await_same keeps_intros signal)+
  show ?thesis
    unfolding handle_mount_def Let_def
    by (auto intro!: keeps_handle keeps_ret mnt umnt split: sum.split MOUNT_PROGRAM.split)
qed

lemma dispatch_keeps_vfs:
  assumes "keeps P (handle_nfs ctx m) P" "\<And>path. keeps P (vfs_lookup_by_path (vfs ctx) path) P"
    and "P (vfs_state st)" "dispatch ctx m st = Some (r, st')"
  shows "P (vfs_state st')"
  using assms(3,4) keepsD [OF assms(1) assms(3)] keepsD [OF handle_mount_keeps [OF assms(2)], of "(vfs_state st, signals st)"]
    handle_portmap_preserves [of ctx m, THEN preservesD, of st r st']
  by (auto simp: dispatch_def Let_def with_vfs_def with_mount_def ret_def split: if_splits option.splits)

lemma keeps_lookup_components:
  assumes "\<And>i nm. keeps P (look i nm) P"
  shows "keeps P (lookup_components look i cs) P"
proof (induction cs arbitrary: i)
  case (Cons c cs)
  then show ?case by (auto intro!: keeps_await_same keeps_intros assms)
qed (simp add: keeps_ret)

lemma mirror_served:
  assumes "interner tbl table_ok"
  shows "served_vfs (mirror os tbl exported) (handles_kept tbl table_ok c0) (\<lambda>_. True)"
proof
  fix ctx m st r st'
  assume v: "vfs ctx = mirror os tbl exported" and kept: "handles_kept tbl table_ok c0 (vfs_state st)"
    and run: "dispatch ctx m st = Some (r, st')"
  have "keeps (handles_kept tbl table_ok c0) (handle_nfs ctx m) (handles_kept tbl table_ok c0)"
    using vfs_keeps.keeps_handle_nfs [OF interner.mirror_keeps [OF assms]] keeps_vfs_ctx [OF v] by metis
  moreover have "keeps (handles_kept tbl table_ok c0) (vfs_lookup_by_path (vfs ctx) path) (handles_kept tbl table_ok c0)" for path
    unfolding v by (simp add: mirror_def default_lookup_by_path_def keeps_def) (metis keepsD keeps_lookup_components interner.keeps_mirror_lookup [OF assms])
  ultimately show "handles_kept tbl table_ok c0 (vfs_state st')" using dispatch_keeps_vfs kept run by blast
qed

interpretation served_mirror: served_vfs "mirror os list_table exported" "handles_kept list_table list_table_ok c0" "\<lambda>_. True"
  for os exported c0
  by (rule mirror_served [OF list_table.interner_axioms])

interpretation served_any: served_vfs v "\<lambda>_. True" "\<lambda>_. True" for v
  by unfold_locales simp

section \<open>Listeners\<close>

lemma bind_internal_listener:
  "bind_internal net start ip p v w = (Ok l, w') \<Longrightarrow> arcfs l = v \<and> listener_tracker l = new_transaction_tracker"
  by (auto simp: bind_internal_def split: prod.splits sum.splits)

lemma bind_listener:
  assumes "bind net start addr v w = (Ok l, w')"
  shows "arcfs l = v \<and> tracker_ok (listener_tracker l) [] \<and> listener_tracker l = new_transaction_tracker"
proof -
  obtain ip p where ip: "split_once CHR '':'' addr = Some (ip, p)" using assms by (auto simp: bind_def split: option.splits)
  obtain q where q: "parse_u16 p = Some q" using assms ip by (auto simp: bind_def split: option.splits)
  obtain ip' w1 w2 where "bind_internal net start ip' q v w1 = (Ok l, w2)"
  proof (cases "ip = ''auto''")
    case True
    obtain n w1 where "bind_auto net start 32 1 q v w = bind_internal net start (generate_host_ip (1 + of_nat n)) q v w1"
      using bind_auto_tried [of 32 net q 1 w start v] by blast
    with assms ip q True that show ?thesis by (simp add: bind_def)
  qed (use assms ip q that in \<open>auto simp: bind_def\<close>)
  from bind_internal_listener [OF this] show ?thesis by (simp add: new_transaction_tracker_def tracker_new_def tracker_ok_def)
qed


section \<open>Properties\<close>

lemma start_transaction_max:
  "start_transaction client i now t = Some (r, t') \<Longrightarrow> tracker_max_active t' = tracker_max_active t"
  by (auto simp: start_transaction_def start_read_def start_write_def lock_client_def Let_def split: option.splits prod.splits)

lemma drop_lock_max: "drop_lock now lock t = Some t' \<Longrightarrow> tracker_max_active t' = tracker_max_active t"
  by (auto simp: drop_lock_def split: option.splits)

lemma cleanup_max: "tracker_max_active (cleanup now t) = tracker_max_active t"
  by (simp add: cleanup_def Let_def split: prod.split)

lemma conn_step_max:
  "conn_step st c st' c' \<Longrightarrow> tracker_max_active (transaction_tracker st') = tracker_max_active (transaction_tracker st)"
  by (induction rule: conn_step.induct)
     (auto simp: release_def dispatch_tracker dest!: drop_lock_max start_transaction_max elim!: begin_message_cases split: option.splits)

lemma reachable_max:
  "server_reachable l s0 s \<Longrightarrow> tracker_max_active (transaction_tracker (shared s)) = tracker_max_active (listener_tracker l)"
  unfolding server_reachable_def
proof (induction rule: rtranclp_induct)
  case (step s s')
  from step(2) show ?case using step(3) by cases (auto simp: cleanup_max dest: conn_step_max)
qed (simp add: server_init_def)

lemma tracker_ok_bound:
  assumes "tracker_ok t ls"
  shows "card (locks_at a ls) \<le> unat (tracker_max_active t)"
proof (cases "a \<in> snd ` set (clients t)")
  case True
  obtain c where "client_ok c" "live c = locks_at a ls" "max_active_transactions c = tracker_max_active t"
    by (rule tracker_ok_record [OF assms True])
  then show ?thesis by (auto simp: client_ok_def word_le_nat_alt)
next
  case False
  then have "locks_at a ls = {}" using assms by (auto simp: tracker_ok_def locks_at_def)
  then show ?thesis by simp
qed


text \<open>
  C6: on every connection, the messages that were handled are the first ones in the bytes that came
  in, every reply that was sent is one to a call of this connection, with its xid, at most one for each, and the
  bytes that went out are the replies in their fragments as long as no write failed.
\<close>

theorem replies_match_calls:
  assumes "bind net start addr v w = (Ok l, w')" "server_reachable l s0 s" "c \<in> set (connections s)"
  shows "(\<exists>rest. messages_of [] (received c) = messages c @ rest) \<and>
    None \<notin> reply_xid ` set (sent c) \<and> mset (map reply_xid (sent c)) \<subseteq># mset (map call_xid (messages c)) \<and>
    (write_failed c \<or> written c = concat (map (frame True) (sent c)))"
proof -
  have "conn_ok v c"
    using served_any.reachable_ok [OF assms(2)] bind_listener [OF assms(1)] assms(3)
    by (auto simp: server_ok_def message_allowed_def list_all_iff)
  then obtain part where part: "\<And>j. messages_of [] (received c @ j) = messages c @ messages_of part (pipe c @ j)"
    and sub: "mset (map reply_xid (sent c)) + (mset (map reply_xid (oks (channel c))) + mset (map call_xid (pending_calls c)))
      \<subseteq># mset (map call_xid (messages c))"
    and rest: "None \<notin> reply_xid ` set (sent c)" "write_failed c \<or> written c = concat (map (frame True) (sent c))"
    by (auto simp: conn_defs ac_simps)
  have "mset (map reply_xid (sent c)) \<subseteq># mset (map call_xid (messages c))"
    using sub by (meson mset_subset_eq_add_left subset_mset.order_trans)
  with rest part [of "[]"] show ?thesis by simp
qed


section \<open>Progress\<close>

definition conn_run ::
  "'s server_state \<Rightarrow> ('s, 'h, 'i, 'p) connection \<Rightarrow> 's server_state \<Rightarrow> ('s, 'h, 'i, 'p) connection \<Rightarrow> bool" where
  "conn_run st c st' c' \<longleftrightarrow> (\<lambda>(st, c) (st', c'). conn_step st c st' c')\<^sup>*\<^sup>* (st, c) (st', c')"

lemma conn_run_step: "conn_step st c st' c' \<Longrightarrow> conn_run st c st' c'"
  by (simp add: conn_run_def r_into_rtranclp)

lemma conn_run_trans: "conn_run st c st' c' \<Longrightarrow> conn_run st' c' st'' c'' \<Longrightarrow> conn_run st c st'' c''"
  unfolding conn_run_def by (rule rtranclp_trans)

lemma conn_run_refl: "conn_run st c st c"
  by (simp add: conn_run_def)

lemma conn_run_server:
  assumes "conn_run (shared s) c st' c'" "connections s = cs @ c # cs'"
  shows "(server_step l)\<^sup>*\<^sup>* s (s\<lparr> shared := st', connections := cs @ c' # cs' \<rparr>)"
proof -
  have "(server_step l)\<^sup>*\<^sup>* s (s\<lparr> shared := fst q, connections := cs @ snd q # cs' \<rparr>)"
    if "(\<lambda>(st, c) (st', c'). conn_step st c st' c')\<^sup>*\<^sup>* (shared s, c) q" for q
    using that
  proof (induction rule: rtranclp_induct)
    case base
    then show ?case using assms(2) by (cases s) simp
  next
    case (step q q')
    from step(2) have "conn_step (shared (s\<lparr> shared := fst q, connections := cs @ snd q # cs' \<rparr>)) (snd q) (fst q') (snd q')"
      by (simp add: split_beta)
    from server_step.connection [OF _ this, of cs cs' l] step(3) show ?case by simp
  qed
  from this [of "(st', c')"] assms(1) show ?thesis by (simp add: conn_run_def)
qed

lemma receive_all: "running c \<Longrightarrow> conn_run st c st (receive_bytes bs c)"
proof (induction "length bs" arbitrary: bs c rule: less_induct)
  case less
  show ?case
  proof (cases "bs = []")
    case True
    then show ?thesis by (simp add: receive_bytes_def conn_run_refl)
  next
    case False
    let ?c = "receive_bytes (take 131072 bs) c"
    have "conn_step st c st ?c" using less(2) False by (intro receive) auto
    moreover have "conn_run st ?c st (receive_bytes (drop 131072 bs) ?c)"
      using less(1)[of "drop 131072 bs" ?c] less(2) False by (simp add: receive_bytes_def)
    moreover have "receive_bytes (drop 131072 bs) ?c = receive_bytes bs c"
      by (simp add: receive_bytes_def flip: append_assoc) (simp add: append_assoc)
    ultimately show ?thesis using conn_run_step conn_run_trans by metis
  qed
qed

lemma read_fragments:
  "ps \<noteq> [] \<Longrightarrow> \<forall>p \<in> set ps. length p < 2 ^ 31 \<Longrightarrow> cur_fragment c = Incomplete part \<Longrightarrow> pipe c = frames ps @ rest \<Longrightarrow>
   conn_run st c st (c\<lparr> cur_fragment := Incomplete [], pipe := rest, tasks := tasks c @ [Spawned (part @ concat ps)],
     messages := messages c @ [part @ concat ps] \<rparr>)"
proof (induction ps arbitrary: part c rule: frames.induct)
  case (2 p)
  then show ?case
    using socket_read_frame [of p part True rest]
    by (intro conn_run_step fragment) (simp add: read_fragment_def packed_rpc_message_new_def Let_def)
next
  case (3 p p' ps)
  let ?c = "c\<lparr> cur_fragment := Incomplete (part @ p), pipe := frames (p' # ps) @ rest \<rparr>"
  have "conn_step st c st ?c"
    using 3 socket_read_frame [of p part False "frames (p' # ps) @ rest"] by (intro fragment) (simp add: read_fragment_def)
  moreover note 3(1) [of ?c "part @ p"]
  ultimately show ?case using 3 conn_run_step conn_run_trans by fastforce
qed simp

lemma run_task:
  assumes "tasks c = ts @ Spawned msg # ts'" "handle_rpc_message now later (conn_context c) msg st = Some (result, st')"
  shows "conn_run st c st' (send_output result (c\<lparr> tasks := ts @ ts' \<rparr>))"
proof -
  obtain b st1 where b: "begin_message now (conn_context c) msg st = Some (b, st1)"
    using assms(2) by (auto simp: handle_rpc_message_begin await_def split: option.splits)
  show ?thesis
  proof (cases b)
    case (Inl r)
    with assms b show ?thesis
      by (auto intro!: conn_run_step refused simp: handle_rpc_message_begin await_def ret_def)
  next
    case (Inr x)
    obtain ctx m lock where x: "x = (ctx, m, lock)" by (cases x)
    obtain st2 where exec: "dispatch ctx m st1 = Some (result, st2)" and rel: "release later lock st2 = Some ((), st')"
      using assms(2) b Inr x by (auto simp: handle_rpc_message_begin await_def ret_def split: option.splits)
    let ?c = "c\<lparr> tasks := ts @ Locked msg ctx m lock # ts' \<rparr>" and ?d = "c\<lparr> tasks := ts @ Executed msg lock result # ts' \<rparr>"
    have "conn_step st c st1 ?c" using locked [OF assms(1)] b Inr x by blast
    moreover have "conn_step st1 ?c st2 ?d" using executed [of ?c ts msg ctx m lock ts' st1 result st2] exec by simp
    moreover have "conn_step st2 ?d st' (send_output result (c\<lparr> tasks := ts @ ts' \<rparr>))"
      using finished [of ?d ts msg lock result ts' later st2 st'] rel by simp
    ultimately show ?thesis using conn_run_step conn_run_trans by metis
  qed
qed

text \<open>The connection after a call came in, in the fragments \<open>ps\<close>, and \<open>buf\<close> went out.\<close>

definition after_call :: "bytes list \<Rightarrow> bytes \<Rightarrow> ('s, 'h, 'i, 'p) connection \<Rightarrow> ('s, 'h, 'i, 'p) connection" where
  "after_call ps buf c = c\<lparr> received := received c @ frames ps, messages := messages c @ [concat ps],
     sent := sent c @ [buf], written := written c @ frame True buf \<rparr>"

definition idle :: "('s, 'h, 'i, 'p) connection \<Rightarrow> bool" where
  "idle c \<longleftrightarrow> running c \<and> cur_fragment c = packed_rpc_message_new \<and> pipe c = [] \<and> channel c = []"

lemma conn_serves:
  assumes "idle c" "ps \<noteq> []" "\<forall>p \<in> set ps. length p < 2 ^ 31" "length buf < 2 ^ 31"
    and "handle_rpc_message now later (conn_context c) (concat ps) st = Some (Ok (Reply buf), st')"
  shows "conn_run st c st' (after_call ps buf c)"
proof -
  let ?in = "receive_bytes (frames ps) c"
  let ?task = "?in\<lparr> cur_fragment := Incomplete [], pipe := [], tasks := tasks c @ [Spawned (concat ps)], messages := messages c @ [concat ps] \<rparr>"
  let ?out = "?task\<lparr> tasks := tasks c, channel := [Ok buf] \<rparr>"
  have c: "running c" "cur_fragment c = Incomplete []" "pipe c = []" "channel c = []"
    using assms(1) by (simp_all add: idle_def packed_rpc_message_new_def)
  have input: "conn_run st c st ?in" using c(1) by (rule receive_all)
  have spawned: "conn_run st ?in st ?task"
    using read_fragments [OF assms(2,3), of ?in "[]" "[]" st] c by (simp add: receive_bytes_def)
  have executed: "conn_run st ?task st' ?out"
    using run_task [of ?task "tasks c" "concat ps" "[]" now later st "Ok (Reply buf)" st'] c assms(5)
    by (simp add: receive_bytes_def send_output_def task_output_def)
  have "write_fragment buf = Some (frame True buf)"
    using assms(4) fragment_header_new_Some [of buf True] by (auto simp: write_fragment_def frame_def)
  from reply_written [of ?out buf "[]" "frame True buf" st', OF _ _ this]
  have "conn_step st' ?out st' (after_call ps buf c)"
    using c by (cases c) (simp add: receive_bytes_def after_call_def)
  from conn_run_trans [OF conn_run_trans [OF input spawned] conn_run_trans [OF executed conn_run_step [OF this]]]
  show ?thesis .
qed

text \<open>
  C15: when a client sends a call, in whatever fragments, on a connection that is idle, the server can
  get to a state where exactly the reply of the procedure is written to that connection, with the
  other connections and the calls that are still executed left alone.
\<close>

theorem connection_served:
  assumes "connections s = cs @ c # cs'" "idle c" "ps \<noteq> []" "\<forall>p \<in> set ps. length p < 2 ^ 31" "length buf < 2 ^ 31"
    and "handle_rpc_message now later (conn_context c) (concat ps) (shared s) = Some (Ok (Reply buf), st')"
  shows "(server_step l)\<^sup>*\<^sup>* s (s\<lparr> shared := st', connections := cs @
    c\<lparr> received := received c @ frames ps, messages := messages c @ [concat ps],
       sent := sent c @ [buf], written := written c @ frame True buf \<rparr> # cs' \<rparr>)"
  using conn_run_server [OF conn_serves [OF assms(2-6)] assms(1), of l] by (simp add: after_call_def)

section \<open>Examples\<close>

definition example_null :: bytes where
  "example_null = concat (map to_be_bytes [5 :: u32, 1, 0, 0, 0, 0])"

lemma example_null_reply:
  assumes "incoming_try_from (example_message 100003 3 0) = Ok m"
  shows "dispatch ctx m s = Some (Ok (Reply example_null), s)"
proof -
  have m: "m = \<lparr> incoming_xid = 5,
     incoming_body = \<lparr> call_body.rpcvers = 2, call_body.prog = 100003, call_body.vers = 3,
       call_body.proc = 0, call_body.cred = opaque_auth_default, call_body.verf = opaque_auth_default \<rparr>,
     incoming_data = Some (example_message 100003 3 0), message_start = length (example_message 100003 3 0) \<rparr>"
    using assms example_incoming [of 100003 3 0 "[]"] by simp
  have "dispatch ctx m s = Some (into_error_reply SUCCESS m, s)"
    by (simp add: m dispatch_def Let_def program_numbers with_vfs_def handle_nfs_def NFS_PROGRAM_try_from_def
        handle_def void_codec_def nfsproc3_null_def ret_def into_success_reply_def into_error_reply_def)
  moreover have "into_error_reply SUCCESS m = Ok (Reply example_null)"
    by (simp add: m into_error_reply_def pack_reply_def example_null_def void_codec_def accepted_def rpc_msg_codec_def
        struct_codec_def fields_codec_def msg_body_codec_def reply_body_codec_def accepted_reply_codec_def
        opaque_auth_codec_def accept_stat_data_codec_def complex_enum_codec_def field_payload_def unit_payload_def
        opaque_auth_default_def auth_flavor_pack opaque_codec_def u32_try_from_def Let_def write_all_def zero_padding_def get_padding_def)
  ultimately show ?thesis by simp
qed

lemma example_message_length: "length (example_message prg vs prc) = 40"
  by (simp add: example_message_def example_rpc_def rpc_msg_codec_def struct_codec_def fields_codec_def msg_body_codec_def
      call_body_codec_def opaque_auth_codec_def complex_enum_codec_def field_payload_def opaque_auth_default_def
      auth_flavor_pack opaque_codec_def u32_try_from_def Let_def write_all_def zero_padding_def get_padding_def)

text \<open>A client connects to a new server and calls the NULL procedure.\<close>

definition example_served :: "('s, 'h, 'i, 'p) NfsFileSystem \<Rightarrow> 's server_state \<Rightarrow> ('s, 'h, 'i, 'p) tcp_server" where
  "example_served v st = \<lparr> shared = st, connections = [after_call [example_message 100003 3 0] example_null
     (new_connection (connection_context (example_listener v) ''127.0.0.1:1000''))] \<rparr>"

lemma example_null_handled:
  "\<exists>st'. handle_rpc_message 0 1 ctx (example_message 100003 3 0) \<lparr> vfs_state = s, signals = [], transaction_tracker = tracker_new 60 256 2048 \<rparr> =
     Some (Ok (Reply example_null), st') \<and> vfs_state st' = s"
proof -
  obtain m where m: "admitted (example_message 100003 3 0) m" "incoming_xid m = 5" using example_admitted by blast
  obtain au where h: "handle_rpc_message 0 1 ctx (example_message 100003 3 0) = transacted 0 1 (ctx\<lparr> auth := au \<rparr>) m"
    by (rule admitted_handle [OF m(1)])
  have "incoming_try_from (example_message 100003 3 0) = Ok m" using m(1) by (simp add: admitted_def)
  from example_null_reply [OF this, of "ctx\<lparr> auth := au \<rparr>"] show ?thesis
    unfolding h using m(2)
    by (simp add: transacted_def await_def lock_transaction_def release_def tracker_new_def
        start_transaction_def start_read_def start_write_def lock_client_def client_transactions_new_def
        add_transaction_def find_transaction_def trim_if_needed_def drop_lock_def complete_transaction_def
        transaction_complete_def remove_old_transactions_def in_progress_def is_stale_def Let_def ret_def)
qed

lemma example_accept:
  "(server_step (example_listener v))\<^sup>*\<^sup>* (server_init (example_listener v) s)
     (server_init (example_listener v) s\<lparr> connections := [new_connection (connection_context (example_listener v) peer)] \<rparr>)"
  using accept [of "example_listener v" "server_init (example_listener v) s" peer] by (simp add: server_init_def r_into_rtranclp)

lemma new_connection_idle [simp]: "idle (new_connection ctx)"
  by (simp add: idle_def new_connection_def)

lemma example_run:
  "\<exists>st. (server_step (example_listener v))\<^sup>*\<^sup>* (server_init (example_listener v) s) (example_served v st) \<and> vfs_state st = s"
proof -
  let ?l = "example_listener v"
  let ?c = "new_connection (connection_context ?l ''127.0.0.1:1000'')"
  let ?s = "server_init ?l s\<lparr> connections := [?c] \<rparr>"
  have sh: "shared ?s = \<lparr> vfs_state = s, signals = [], transaction_tracker = tracker_new 60 256 2048 \<rparr>"
    by (simp add: server_init_def example_listener_def)
  obtain st where st: "handle_rpc_message 0 1 (conn_context ?c) (concat [example_message 100003 3 0]) (shared ?s) = Some (Ok (Reply example_null), st)"
      "vfs_state st = s"
    using example_null_handled [of "conn_context ?c" s] unfolding sh by auto
  have "conn_run (shared ?s) ?c st (after_call [example_message 100003 3 0] example_null ?c)"
    by (rule conn_serves [OF _ _ _ _ st(1)]) (simp_all add: example_message_length example_null_def)
  from conn_run_server [OF this, of "[]" "[]" ?l] have "(server_step ?l)\<^sup>*\<^sup>* ?s (example_served v st)"
    by (simp add: example_served_def server_init_def)
  from rtranclp_trans [OF example_accept this] st(2) show ?thesis by blast
qed

lemma example_connection:
  assumes "c \<in> set (connections (example_served v st))"
  shows "messages c = [example_message 100003 3 0]" "sent c = [example_null]"
  using assms by (simp_all add: example_served_def after_call_def new_connection_def)


theorem replies_match_calls_witness:
  "\<exists>st. server_reachable (example_listener (memfs example_env)) example_memfs (example_served (memfs example_env) st) \<and>
     reply_xid example_null \<noteq> None \<and> call_xid (example_message 100003 3 0) = reply_xid example_null"
proof -
  let ?v = "memfs example_env"
  obtain st where run: "server_reachable (example_listener ?v) example_memfs (example_served ?v st)"
    using example_run [of ?v example_memfs] by (auto simp: server_reachable_def)
  obtain c where "c \<in> set (connections (example_served ?v st))" by (auto simp: example_served_def)
  from replies_match_calls [OF example_bind run this] run example_connection [OF this] show ?thesis by force
qed

theorem connection_served_witness:
  "\<exists>s' c. (server_step (example_listener (memfs example_env)))\<^sup>*\<^sup>*
     (server_init (example_listener (memfs example_env)) example_memfs\<lparr> connections := [new_connection example_ctx] \<rparr>) s' \<and>
     connections s' = [c] \<and> sent c = [example_null] \<and> written c = frame True example_null"
proof -
  let ?l = "example_listener (memfs example_env)"
  let ?s = "server_init ?l example_memfs\<lparr> connections := [new_connection example_ctx] \<rparr>"
  obtain st where "handle_rpc_message 0 1 (conn_context (new_connection example_ctx)) (concat [example_message 100003 3 0])
      (shared ?s) = Some (Ok (Reply example_null), st)"
    using example_null_handled [of example_ctx example_memfs]
    by (auto simp: server_init_def example_listener_def new_connection_def)
  from connection_served [where s = ?s and cs = "[]" and cs' = "[]" and l = ?l, OF _ _ _ _ _ this]
  have "(server_step ?l)\<^sup>*\<^sup>* ?s (?s\<lparr> shared := st, connections := [after_call [example_message 100003 3 0] example_null (new_connection example_ctx)] \<rparr>)"
    by (simp add: example_message_length after_call_def) (simp add: example_null_def)
  moreover have "sent (after_call ps buf (new_connection example_ctx)) = [buf]"
    "written (after_call ps buf (new_connection example_ctx)) = frame True buf" for ps buf
    by (simp_all add: after_call_def new_connection_def)
  ultimately show ?thesis by fastforce
qed


end
