(* ===== verification/Fs_Map.thy ===== *)
theory Fs_Map
  imports Fs_Util Symbols_Cache Binary_Search
begin

text \<open>
  The mirror file system among the examples (\<^verbatim>\<open>nfs3_server/examples/mirrorfs.rs\<close>).  It keeps a map of the
  part of the directory tree that clients have seen: an entry with attributes for every file id,
  the id of every path, and the children of the directories that were listed.

  The state has the world in it.  The operating system, the table of symbols and the exported
  directory are parameters; the two hash maps are maps.  The lock around the map makes every
  operation atomic.
\<close>

section \<open>State\<close>

record FSEntry =
  ent_name :: "Symbol list"
  fsmeta :: fattr3
  children_meta :: fattr3
  children :: "fileid3 list option"

text \<open>
  The atomic counter \<^verbatim>\<open>next_fileid\<close> wraps around; \<open>next_fileid\<close> is the number of its increments,
  and its value the number modulo \<open>2 ^ 64\<close>.
\<close>

record ('w, 't) FSMap =
  fsmap_world :: 'w
  next_fileid :: nat
  intern :: 't
  fsmap_ids :: "fileid3 \<rightharpoonup> FSEntry"
  fsmap_paths :: "Symbol list \<rightharpoonup> fileid3"

datatype RefreshResult = Delete | Reload | Noop

text \<open>The table of symbols, and its search for a name without an insertion.\<close>

record 't interned_table =
  interner_ops :: "'t symbol_table"
  check_interned :: "bytes \<Rightarrow> 't \<Rightarrow> Symbol option"

text \<open>Access to the state, and panics on absent values.\<close>

definition get_map :: "(('w, 't) FSMap, ('w, 't) FSMap) prog" where
  "get_map m = Some (m, m)"

definition put_map :: "('w, 't) FSMap \<Rightarrow> (('w, 't) FSMap, unit) prog" where
  "put_map m' m = Some ((), m')"

definition unwrap :: "'a option \<Rightarrow> ('s, 'a) prog" where
  "unwrap x = (case x of None \<Rightarrow> panic | Some y \<Rightarrow> ret y)"

definition on_os :: "('w, 'a) prog \<Rightarrow> (('w, 't) FSMap, 'a) prog" where
  "on_os f m = (case f (fsmap_world m) of None \<Rightarrow> None | Some (x, w) \<Rightarrow> Some (x, m\<lparr> fsmap_world := w \<rparr>))"

definition fsmap_new ::
  "('w, 'f, 'd) os \<Rightarrow> 't interned_table \<Rightarrow> bytes \<Rightarrow> 'w \<Rightarrow> ('w, 't) FSMap option" where
  "fsmap_new os tbl root w =
     (case os_metadata_of os root w of
        (Err _, w1) \<Rightarrow> None
      | (Ok m1, w1) \<Rightarrow>
          (case os_metadata_of os root w1 of
             (Err _, w2) \<Rightarrow> None
           | (Ok m2, w2) \<Rightarrow>
               Some \<lparr> fsmap_world = w2, next_fileid = 1, intern = table_new (interner_ops tbl),
                 fsmap_ids = [0 \<mapsto> \<lparr> ent_name = [], fsmeta = metadata_to_fattr3 1 m1,
                   children_meta = metadata_to_fattr3 1 m2, children = None \<rparr>],
                 fsmap_paths = [[] \<mapsto> 0] \<rparr>))"

section \<open>The map\<close>

text \<open>An unknown symbol is a panic.\<close>

definition sym_to_path :: "'t interned_table \<Rightarrow> bytes \<Rightarrow> Symbol list \<Rightarrow> ('w, 't) FSMap \<Rightarrow> bytes option" where
  "sym_to_path tbl root symlist m = resolve_symbols (interner_ops tbl) (intern m) root symlist"

definition sym_to_fname :: "'t interned_table \<Rightarrow> Symbol list \<Rightarrow> ('w, 't) FSMap \<Rightarrow> bytes option" where
  "sym_to_fname tbl symlist m =
     (if symlist = [] then Some [] else table_get (interner_ops tbl) (last symlist) (intern m))"

text \<open>
  The recursion of \<^verbatim>\<open>collect_all_children\<close> over a list of ids; it does not end when a directory is
  among its own descendants.
\<close>

partial_function (option) collect_children ::
  "(fileid3 \<rightharpoonup> FSEntry) \<Rightarrow> fileid3 list \<Rightarrow> fileid3 list \<Rightarrow> fileid3 list option" where
  "collect_children ids is acc =
     (case is of
        [] \<Rightarrow> Some acc
      | i # is \<Rightarrow>
          Option.bind
            (case ids i of
               None \<Rightarrow> Some (acc @ [i])
             | Some entry \<Rightarrow>
                 (case children entry of
                    None \<Rightarrow> Some (acc @ [i])
                  | Some ch \<Rightarrow> collect_children ids ch (acc @ [i])))
            (\<lambda>acc. collect_children ids is acc))"

definition collect_all_children :: "fileid3 \<Rightarrow> fileid3 list \<Rightarrow> ('w, 't) FSMap \<Rightarrow> fileid3 list option" where
  "collect_all_children i acc m = collect_children (fsmap_ids m) [i] acc"

definition remove_id :: "fileid3 \<Rightarrow> ('w, 't) FSMap \<Rightarrow> ('w, 't) FSMap" where
  "remove_id i m =
     (case fsmap_ids m i of
        None \<Rightarrow> m
      | Some ent \<Rightarrow> m\<lparr> fsmap_ids := (fsmap_ids m)(i := None), fsmap_paths := (fsmap_paths m)(ent_name ent := None) \<rparr>)"

definition delete_entry :: "fileid3 \<Rightarrow> (('w, 't) FSMap, unit) prog" where
  "delete_entry i m =
     (case collect_all_children i [] m of
        None \<Rightarrow> None
      | Some ch \<Rightarrow> Some ((), fold remove_id ch m))"

definition find_entry :: "fileid3 \<Rightarrow> ('w, 't) FSMap \<Rightarrow> nfsstat3 + FSEntry" where
  "find_entry i m = ok_or NFS3ERR_NOENT (fsmap_ids m i)"

definition find_child :: "'t interned_table \<Rightarrow> fileid3 \<Rightarrow> bytes \<Rightarrow> ('w, 't) FSMap \<Rightarrow> nfsstat3 + fileid3" where
  "find_child tbl i filename m =
     and_then (ok_or NFS3ERR_NOENT (fsmap_ids m i)) (\<lambda>entry.
     and_then (ok_or NFS3ERR_NOENT (check_interned tbl filename (intern m))) (\<lambda>y.
     ok_or NFS3ERR_NOENT (fsmap_paths m (ent_name entry @ [y]))))"

text \<open>What \<^verbatim>\<open>find_entry_mut\<close> is used for: the entry of an id is replaced.\<close>

definition set_entry :: "fileid3 \<Rightarrow> FSEntry \<Rightarrow> ('w, 't) FSMap \<Rightarrow> ('w, 't) FSMap" where
  "set_entry i e m = m\<lparr> fsmap_ids := (fsmap_ids m)(i \<mapsto> e) \<rparr>"

definition refresh_entry ::
  "('w, 'f, 'd) os \<Rightarrow> 't interned_table \<Rightarrow> bytes \<Rightarrow> fileid3 \<Rightarrow> (('w, 't) FSMap, nfsstat3 + RefreshResult) prog" where
  "refresh_entry os tbl root i =
     await get_map (\<lambda>m. case fsmap_ids m i of
       None \<Rightarrow> ret (Err NFS3ERR_NOENT)
     | Some entry \<Rightarrow>
         await (unwrap (sym_to_path tbl root (ent_name entry) m)) (\<lambda>path.
         await (on_os (exists_no_traverse os path)) (\<lambda>there.
         if \<not> there then await (delete_entry i) (\<lambda>_. ret (Ok Delete))
         else
           os_ok (map_err (\<lambda>_. NFS3ERR_IO) (on_os (os_call (os_symlink_metadata os path)))) (\<lambda>md.
             let meta = metadata_to_fattr3 i md in
             if \<not> fattr3_differ meta (fsmeta entry) then ret (Ok Noop)
             else if fattr3.type' (fsmeta entry) \<noteq> fattr3.type' meta
             then await (delete_entry i) (\<lambda>_. ret (Ok Delete))
             else
               await get_map (\<lambda>m. await (unwrap (fsmap_ids m i)) (\<lambda>e.
               await (put_map (set_entry i (e\<lparr> fsmeta := meta \<rparr>) m)) (\<lambda>_. ret (Ok Reload))))))))"

definition create_entry :: "Symbol list \<Rightarrow> Metadata \<Rightarrow> ('w, 't) FSMap \<Rightarrow> fileid3 \<times> ('w, 't) FSMap" where
  "create_entry fullpath meta m =
     (case fsmap_paths m fullpath of
        Some chid \<Rightarrow>
          (case fsmap_ids m chid of
             Some chent \<Rightarrow> (chid, set_entry chid (chent\<lparr> fsmeta := metadata_to_fattr3 chid meta \<rparr>) m)
           | None \<Rightarrow> (chid, m))
      | None \<Rightarrow>
          (let next_id = of_nat (next_fileid m);
               metafattr = metadata_to_fattr3 next_id meta;
               new_entry = \<lparr> ent_name = fullpath, fsmeta = metafattr, children_meta = metafattr, children = None \<rparr>
           in (next_id, m\<lparr> next_fileid := Suc (next_fileid m), fsmap_ids := (fsmap_ids m)(next_id \<mapsto> new_entry),
                 fsmap_paths := (fsmap_paths m)(fullpath \<mapsto> next_id) \<rparr>)))"

text \<open>Interning a name; a full table is a panic.\<close>

definition intern_name :: "'t interned_table \<Rightarrow> bytes \<Rightarrow> (('w, 't) FSMap, Symbol) prog" where
  "intern_name tbl nm m =
     (case table_intern (interner_ops tbl) nm (intern m) of
        None \<Rightarrow> None
      | Some (y, t) \<Rightarrow> Some (y, m\<lparr> intern := t \<rparr>))"

definition make_entry :: "Symbol list \<Rightarrow> Metadata \<Rightarrow> (('w, 't) FSMap, fileid3) prog" where
  "make_entry fullpath meta m = Some (create_entry fullpath meta m)"

text \<open>
  The loop over a listing.  A name whose file is gone when its metadata are read is a panic.
\<close>

definition list_entry ::
  "('w, 'f, 'd) os \<Rightarrow> 't interned_table \<Rightarrow> bytes \<Rightarrow> Symbol list \<Rightarrow> bytes \<Rightarrow> (('w, 't) FSMap, fileid3) prog" where
  "list_entry os tbl path cur_path file_name =
     await (intern_name tbl file_name) (\<lambda>y.
     await (on_os (os_call (os_symlink_metadata os (path_push path file_name)))) (\<lambda>r. case r of
       Err _ \<Rightarrow> panic
     | Ok meta \<Rightarrow> make_entry (cur_path @ [y]) meta))"

partial_function (option) list_loop ::
  "('w, 'f, 'd) os \<Rightarrow> 't interned_table \<Rightarrow> bytes \<Rightarrow> Symbol list \<Rightarrow> 'd \<Rightarrow> fileid3 list \<Rightarrow> ('w, 't) FSMap \<Rightarrow>
     ((nfsstat3 + fileid3 list) \<times> ('w, 't) FSMap) option" where
  "list_loop os tbl path cur_path listing new_children m =
     Option.bind (on_os (os_call (os_next_entry os listing)) m) (\<lambda>((r, listing), m).
       case r of
         Err _ \<Rightarrow> Some (Err NFS3ERR_IO, m)
       | Ok None \<Rightarrow> Some (Ok new_children, m)
       | Ok (Some file_name) \<Rightarrow>
           Option.bind (list_entry os tbl path cur_path file_name m) (\<lambda>(next_id, m).
             list_loop os tbl path cur_path listing (new_children @ [next_id]) m))"

text \<open>The attributes \<^verbatim>\<open>children_meta\<close> are compared here, and never set to those of the listing.\<close>

definition refresh_dir_list ::
  "('w, 'f, 'd) os \<Rightarrow> 't interned_table \<Rightarrow> bytes \<Rightarrow> fileid3 \<Rightarrow> (('w, 't) FSMap, nfsstat3 + unit) prog" where
  "refresh_dir_list os tbl root i =
     await get_map (\<lambda>m. case fsmap_ids m i of
       None \<Rightarrow> ret (Err NFS3ERR_NOENT)
     | Some entry \<Rightarrow>
         if children entry \<noteq> None \<and> \<not> fattr3_differ (children_meta entry) (fsmeta entry) then ret (Ok ())
         else if fattr3.type' (fsmeta entry) \<noteq> ftype3.NF3DIR then ret (Ok ())
         else
           await (unwrap (sym_to_path tbl root (ent_name entry) m)) (\<lambda>path.
           await (on_os (os_call (os_read_dir os path))) (\<lambda>r. case r of
             Err _ \<Rightarrow> ret (Ok ())
           | Ok listing \<Rightarrow>
               os_ok (list_loop os tbl path (ent_name entry) listing []) (\<lambda>new_children.
               await get_map (\<lambda>m. case fsmap_ids m i of
                 None \<Rightarrow> ret (Err NFS3ERR_NOENT)
               | Some e \<Rightarrow>
                   await (put_map (set_entry i (e\<lparr> children := Some (sort new_children) \<rparr>) m)) (\<lambda>_. ret (Ok ())))))))"

section \<open>Creating objects\<close>

datatype CreateFSObject = CreateDirectory | CreateFile sattr3 | CreateExclusive | CreateSymlink sattr3 nfspath3

definition make_object :: "('w, 'f, 'd) os \<Rightarrow> bytes \<Rightarrow> CreateFSObject \<Rightarrow> ('w, nfsstat3 + unit) prog" where
  "make_object os path thing =
     (case thing of
        CreateDirectory \<Rightarrow>
          await (exists_no_traverse os path) (\<lambda>there.
          if there then ret (Err NFS3ERR_EXIST)
          else map_err (\<lambda>_. NFS3ERR_IO) (os_call (os_create_dir os path)))
      | CreateFile sa \<Rightarrow>
          os_ok (map_err (\<lambda>_. NFS3ERR_IO) (os_call (os_create os path))) (\<lambda>file.
          await (file_setattr os file sa) (\<lambda>_. ret (Ok ())))
      | CreateExclusive \<Rightarrow>
          os_ok (map_err (\<lambda>_. NFS3ERR_EXIST) (os_call (os_create_new os path))) (\<lambda>_. ret (Ok ()))
      | CreateSymlink _ target \<Rightarrow>
          await (exists_no_traverse os path) (\<lambda>there.
          if there then ret (Err NFS3ERR_EXIST)
          else map_err (\<lambda>_. NFS3ERR_IO) (os_call (os_symlink os target path))))"

text \<open>The new id is put among the children of the directory, if they are known.\<close>

definition add_child :: "fileid3 \<Rightarrow> fileid3 \<Rightarrow> (('w, 't) FSMap, nfsstat3 + unit) prog" where
  "add_child dirid i =
     await get_map (\<lambda>m. case fsmap_ids m dirid of
       None \<Rightarrow> ret (Err NFS3ERR_NOENT)
     | Some e \<Rightarrow>
         (case children e of
            None \<Rightarrow> ret (Ok ())
          | Some ch \<Rightarrow>
              (case binary_search i ch 0 (length ch) of
                 Ok _ \<Rightarrow> ret (Err NFS3ERR_EXIST)
               | Err pos \<Rightarrow>
                   await (put_map (set_entry dirid (e\<lparr> children := Some (take pos ch @ i # drop pos ch) \<rparr>) m))
                     (\<lambda>_. ret (Ok ())))))"

definition remove_child :: "fileid3 \<Rightarrow> fileid3 \<Rightarrow> ('w, 't) FSMap \<Rightarrow> ('w, 't) FSMap" where
  "remove_child dirid i m =
     (case fsmap_ids m dirid of
        None \<Rightarrow> m
      | Some e \<Rightarrow>
          (case children e of
             None \<Rightarrow> m
           | Some ch \<Rightarrow>
               (case binary_search i ch 0 (length ch) of
                  Ok pos \<Rightarrow> set_entry dirid (e\<lparr> children := Some (take pos ch @ drop (Suc pos) ch) \<rparr>) m
                | Err _ \<Rightarrow> m)))"

definition create_fs_object ::
  "('w, 'f, 'd) os \<Rightarrow> 't interned_table \<Rightarrow> bytes \<Rightarrow> fileid3 \<Rightarrow> filename3 \<Rightarrow> CreateFSObject \<Rightarrow>
     (('w, 't) FSMap, nfsstat3 + fileid3 \<times> fattr3) prog" where
  "create_fs_object os tbl root dirid objectname thing =
     await get_map (\<lambda>m. case find_entry dirid m of
       Err e \<Rightarrow> ret (Err e)
     | Ok ent \<Rightarrow>
         await (unwrap (sym_to_path tbl root (ent_name ent) m)) (\<lambda>dir_path.
           let path = path_push dir_path objectname in
           os_ok (on_os (make_object os path thing)) (\<lambda>_.
           await (refresh_entry os tbl root dirid) (\<lambda>_.
           await (intern_name tbl objectname) (\<lambda>y.
           os_ok (map_err (\<lambda>_. NFS3ERR_IO) (on_os (os_call (os_symlink_metadata os path)))) (\<lambda>meta.
           await (make_entry (ent_name ent @ [y]) meta) (\<lambda>fid.
           os_ok (add_child dirid fid) (\<lambda>_.
           ret (Ok (fid, metadata_to_fattr3 fid meta))))))))))"

section \<open>The operations for reading\<close>

definition MirrorFs_lookup ::
  "('w, 'f, 'd) os \<Rightarrow> 't interned_table \<Rightarrow> bytes \<Rightarrow> FileHandleU64 \<Rightarrow> filename3 \<Rightarrow>
     (('w, 't) FSMap, nfsstat3 + FileHandleU64) prog" where
  "MirrorFs_lookup os tbl root dirid filename =
     await get_map (\<lambda>m.
       let found = (case find_child tbl dirid filename m of
         Ok i \<Rightarrow> if fsmap_ids m i \<noteq> None then Some i else None
       | Err _ \<Rightarrow> None) in
       case found of
         Some i \<Rightarrow> ret (Ok i)
       | None \<Rightarrow>
           (case find_entry dirid m of
              Err e \<Rightarrow> ret (Err e)
            | Ok dirent \<Rightarrow>
                await (unwrap (sym_to_path tbl root (ent_name dirent) m)) (\<lambda>dir_path.
                await (on_os (exists_no_traverse os (path_push dir_path filename))) (\<lambda>there.
                if \<not> there then ret (Err NFS3ERR_NOENT)
                else
                  os_ok (refresh_entry os tbl root dirid) (\<lambda>r.
                  if r = Delete then ret (Err NFS3ERR_NOENT)
                  else
                    await (refresh_dir_list os tbl root dirid) (\<lambda>_.
                    await get_map (\<lambda>m. ret (find_child tbl dirid filename m))))))))"

definition MirrorFs_getattr ::
  "('w, 'f, 'd) os \<Rightarrow> 't interned_table \<Rightarrow> bytes \<Rightarrow> FileHandleU64 \<Rightarrow> (('w, 't) FSMap, nfsstat3 + fattr3) prog" where
  "MirrorFs_getattr os tbl root i =
     os_ok (refresh_entry os tbl root i) (\<lambda>r.
     if r = Delete then ret (Err NFS3ERR_NOENT)
     else
       await get_map (\<lambda>m. case find_entry i m of
         Err e \<Rightarrow> ret (Err e)
       | Ok ent \<Rightarrow> await (unwrap (sym_to_path tbl root (ent_name ent) m)) (\<lambda>_. ret (Ok (fsmeta ent)))))"

text \<open>The path of an id, which most operations start with.\<close>

definition entry_path ::
  "'t interned_table \<Rightarrow> bytes \<Rightarrow> fileid3 \<Rightarrow> (('w, 't) FSMap, nfsstat3 + bytes) prog" where
  "entry_path tbl root i =
     await get_map (\<lambda>m. case find_entry i m of
       Err e \<Rightarrow> ret (Err e)
     | Ok ent \<Rightarrow> await (unwrap (sym_to_path tbl root (ent_name ent) m)) (\<lambda>path. ret (Ok path)))"

text \<open>The sum of off and count can overflow, which is a panic.\<close>

definition read_range ::
  "('w, 'f, 'd) os \<Rightarrow> bytes \<Rightarrow> u64 \<Rightarrow> u32 \<Rightarrow> ('w, nfsstat3 + bytes \<times> bool) prog" where
  "read_range os path off cnt =
     os_ok (map_err (\<lambda>_. NFS3ERR_NOENT) (os_call (os_open os path))) (\<lambda>f.
     os_ok (map_err (\<lambda>_. NFS3ERR_NOENT) (os_call (os_metadata os f))) (\<lambda>md.
       let len = meta_len md in
       if unat off + unat cnt \<ge> 2 ^ 64 then panic
       else
         let stop = off + ucast cnt;
             at_end = stop \<ge> len;
             start = (if off \<ge> len then len else off);
             stop = (if stop > len then len else stop) in
         os_ok (map_err (\<lambda>_. NFS3ERR_IO) (os_call (os_seek os start f))) (\<lambda>_.
         os_ok (map_err (\<lambda>_. NFS3ERR_IO) (os_call (os_read_exact os (unat (stop - start)) f))) (\<lambda>buf.
         ret (Ok (buf, at_end))))))"

definition MirrorFs_read ::
  "('w, 'f, 'd) os \<Rightarrow> 't interned_table \<Rightarrow> bytes \<Rightarrow> FileHandleU64 \<Rightarrow> u64 \<Rightarrow> u32 \<Rightarrow>
     (('w, 't) FSMap, nfsstat3 + bytes \<times> bool) prog" where
  "MirrorFs_read os tbl root i off cnt =
     os_ok (entry_path tbl root i) (\<lambda>path. on_os (read_range os path off cnt))"

definition MirrorFs_readlink ::
  "('w, 'f, 'd) os \<Rightarrow> 't interned_table \<Rightarrow> bytes \<Rightarrow> FileHandleU64 \<Rightarrow> (('w, 't) FSMap, nfsstat3 + nfspath3) prog" where
  "MirrorFs_readlink os tbl root i =
     os_ok (entry_path tbl root i) (\<lambda>path.
     await (on_os (os_call (os_symlink_metadata os path))) (\<lambda>r.
     if (case r of Ok md \<Rightarrow> meta_type md = SymbolicLink | Err _ \<Rightarrow> False)
     then map_err (\<lambda>_. NFS3ERR_IO) (on_os (os_call (os_read_link os path)))
     else ret (Err NFS3ERR_BADTYPE)))"

section \<open>Directory listings\<close>

record FSMapIterator =
  iterator_ids :: "fileid3 list"
  iterator_index :: nat

definition FSMapIterator_new ::
  "('w, 'f, 'd) os \<Rightarrow> 't interned_table \<Rightarrow> bytes \<Rightarrow> fileid3 \<Rightarrow> cookie3 \<Rightarrow>
     (('w, 't) FSMap, nfsstat3 + FSMapIterator) prog" where
  "FSMapIterator_new os tbl root dirid start_after =
     os_ok (refresh_entry os tbl root dirid) (\<lambda>_.
     os_ok (refresh_dir_list os tbl root dirid) (\<lambda>_.
     await get_map (\<lambda>m. ret (
       and_then (find_entry dirid m) (\<lambda>entry.
       if fattr3.type' (fsmeta entry) \<noteq> ftype3.NF3DIR then Err NFS3ERR_NOTDIR
       else
         and_then (ok_or NFS3ERR_IO (children entry)) (\<lambda>ch.
           let pos = (case binary_search start_after ch 0 (length ch) of Ok pos \<Rightarrow> pos + 1 | Err pos \<Rightarrow> pos) in
           Ok \<lparr> iterator_ids = drop pos ch, iterator_index = 0 \<rparr>))))))"

text \<open>Entries that are gone are skipped.\<close>

function FSMapIterator_next ::
  "'t interned_table \<Rightarrow> FSMapIterator \<Rightarrow> (('w, 't) FSMap, FileHandleU64 DirEntryPlus NextResult \<times> FSMapIterator) prog" where
  "FSMapIterator_next tbl it m =
     (if iterator_index it \<ge> length (iterator_ids it) then Some ((NextEof, it), m)
      else
        let fid = iterator_ids it ! iterator_index it;
            it = it\<lparr> iterator_index := iterator_index it + 1 \<rparr> in
        case find_entry fid m of
          Err e \<Rightarrow> if e = NFS3ERR_NOENT then FSMapIterator_next tbl it m else Some ((NextErr e, it), m)
        | Ok fs_entry \<Rightarrow>
            (case sym_to_fname tbl (ent_name fs_entry) m of
               None \<Rightarrow> None
             | Some nm \<Rightarrow>
                 Some ((NextOk \<lparr> DirEntryPlus.fileid = fid, DirEntryPlus.name = nm, DirEntryPlus.cookie = fid,
                    DirEntryPlus.name_attributes = Some (fsmeta fs_entry),
                    DirEntryPlus.name_handle = Some fid \<rparr>, it), m)))"
  by pat_completeness auto
termination by (relation "measure (\<lambda>(tbl, it, m). length (iterator_ids it) - iterator_index it)") auto

declare FSMapIterator_next.simps [simp del]

section \<open>The operations for writing\<close>

definition MirrorFs_setattr ::
  "('w, 'f, 'd) os \<Rightarrow> 't interned_table \<Rightarrow> bytes \<Rightarrow> FileHandleU64 \<Rightarrow> sattr3 \<Rightarrow>
     (('w, 't) FSMap, nfsstat3 + fattr3) prog" where
  "MirrorFs_setattr os tbl root i sa =
     os_ok (entry_path tbl root i) (\<lambda>path.
     os_ok (on_os (path_setattr os path sa)) (\<lambda>_.
     os_ok (map_err (\<lambda>_. NFS3ERR_IO) (on_os (os_call (os_symlink_metadata os path)))) (\<lambda>md.
     await get_map (\<lambda>m.
     await (case find_entry i m of
         Ok e \<Rightarrow> put_map (set_entry i (e\<lparr> fsmeta := metadata_to_fattr3 i md \<rparr>) m)
       | Err _ \<Rightarrow> ret ()) (\<lambda>_.
     ret (Ok (metadata_to_fattr3 i md)))))))"

definition write_range ::
  "('w, 'f, 'd) os \<Rightarrow> bytes \<Rightarrow> u64 \<Rightarrow> bytes \<Rightarrow> ('w, nfsstat3 + Metadata) prog" where
  "write_range os path off bs =
     os_ok (map_err (\<lambda>_. NFS3ERR_IO) (os_call (os_open_or_create os path))) (\<lambda>f.
     os_ok (map_err (\<lambda>_. NFS3ERR_IO) (os_call (os_seek os off f))) (\<lambda>_.
     os_ok (map_err (\<lambda>_. NFS3ERR_IO) (os_call (os_write_all os bs f))) (\<lambda>_.
     await (os_call (os_flush os f)) (\<lambda>_.
     await (os_call (os_sync_all os f)) (\<lambda>_.
     map_err (\<lambda>_. NFS3ERR_IO) (os_call (os_metadata os f)))))))"

definition MirrorFs_write ::
  "('w, 'f, 'd) os \<Rightarrow> 't interned_table \<Rightarrow> bytes \<Rightarrow> FileHandleU64 \<Rightarrow> u64 \<Rightarrow> bytes \<Rightarrow>
     (('w, 't) FSMap, nfsstat3 + fattr3) prog" where
  "MirrorFs_write os tbl root i off bs =
     os_ok (entry_path tbl root i) (\<lambda>path.
     os_ok (on_os (write_range os path off bs)) (\<lambda>md. ret (Ok (metadata_to_fattr3 i md))))"

definition MirrorFs_create_exclusive ::
  "('w, 'f, 'd) os \<Rightarrow> 't interned_table \<Rightarrow> bytes \<Rightarrow> FileHandleU64 \<Rightarrow> filename3 \<Rightarrow> createverf3 \<Rightarrow>
     (('w, 't) FSMap, nfsstat3 + FileHandleU64) prog" where
  "MirrorFs_create_exclusive os tbl root dirid filename cv =
     os_ok (create_fs_object os tbl root dirid filename CreateExclusive) (\<lambda>r. ret (Ok (fst r)))"

text \<open>The ids of a path that was removed are forgotten.\<close>

definition forget_path :: "fileid3 \<Rightarrow> Symbol list \<Rightarrow> ('w, 't) FSMap \<Rightarrow> ('w, 't) FSMap" where
  "forget_path dirid sympath m =
     (case fsmap_paths m sympath of
        None \<Rightarrow> m
      | Some fid \<Rightarrow>
          remove_child dirid fid
            (m\<lparr> fsmap_ids := (fsmap_ids m)(fid := None), fsmap_paths := (fsmap_paths m)(sympath := None) \<rparr>))"

definition MirrorFs_remove ::
  "('w, 'f, 'd) os \<Rightarrow> 't interned_table \<Rightarrow> bytes \<Rightarrow> FileHandleU64 \<Rightarrow> filename3 \<Rightarrow> (('w, 't) FSMap, nfsstat3 + unit) prog" where
  "MirrorFs_remove os tbl root dirid filename =
     await get_map (\<lambda>m. case find_entry dirid m of
       Err e \<Rightarrow> ret (Err e)
     | Ok ent \<Rightarrow>
         await (unwrap (sym_to_path tbl root (ent_name ent) m)) (\<lambda>dir_path.
           let path = path_push dir_path filename in
           await (on_os (os_call (os_symlink_metadata os path))) (\<lambda>r. case r of
             Err _ \<Rightarrow> ret (Err NFS3ERR_NOENT)
           | Ok meta \<Rightarrow>
               os_ok (map_err (\<lambda>_. NFS3ERR_IO) (on_os (os_call
                 ((if meta_type meta = Directory then os_remove_dir os else os_remove_file os) path)))) (\<lambda>_.
               await (intern_name tbl filename) (\<lambda>filesym.
               await get_map (\<lambda>m.
               await (put_map (forget_path dirid (ent_name ent @ [filesym]) m)) (\<lambda>_.
               await (refresh_entry os tbl root dirid) (\<lambda>_. ret (Ok ())))))))))"

text \<open>The id of a moved path: its entry gets the new name, and the ids of the paths are updated.\<close>

definition move_path :: "Symbol list \<Rightarrow> Symbol list \<Rightarrow> fileid3 \<Rightarrow> FSEntry \<Rightarrow> ('w, 't) FSMap \<Rightarrow> ('w, 't) FSMap" where
  "move_path from_sympath to_sympath fid e m =
     m\<lparr> fsmap_ids := (fsmap_ids m)(fid \<mapsto> e\<lparr> ent_name := to_sympath \<rparr>),
        fsmap_paths := (fsmap_paths m)(from_sympath := None, to_sympath \<mapsto> fid) \<rparr>"

definition rename_entries ::
  "fileid3 \<Rightarrow> Symbol list \<Rightarrow> fileid3 \<Rightarrow> Symbol list \<Rightarrow> (('w, 't) FSMap, nfsstat3 + unit) prog" where
  "rename_entries from_dirid from_sympath to_dirid to_sympath =
     await get_map (\<lambda>m. case fsmap_paths m from_sympath of
       None \<Rightarrow> ret (Ok ())
     | Some fid \<Rightarrow>
         await (unwrap (fsmap_ids m fid)) (\<lambda>e.
           let m = move_path from_sympath to_sympath fid e m in
           if to_dirid = from_dirid then await (put_map m) (\<lambda>_. ret (Ok ()))
           else
             await (put_map (remove_child from_dirid fid m)) (\<lambda>_.
             await get_map (\<lambda>m. if fsmap_ids m to_dirid = None then ret (Ok ()) else add_child to_dirid fid))))"

definition finish_rename ::
  "('w, 'f, 'd) os \<Rightarrow> 't interned_table \<Rightarrow> bytes \<Rightarrow> fileid3 \<Rightarrow> Symbol list \<Rightarrow> fileid3 \<Rightarrow> Symbol list \<Rightarrow>
     (('w, 't) FSMap, nfsstat3 + unit) prog" where
  "finish_rename os tbl root from_dirid from_sympath to_dirid to_sympath =
     os_ok (rename_entries from_dirid from_sympath to_dirid to_sympath) (\<lambda>_.
     await (refresh_entry os tbl root from_dirid) (\<lambda>_.
     await (if to_dirid \<noteq> from_dirid then await (refresh_entry os tbl root to_dirid) (\<lambda>_. ret ()) else ret ()) (\<lambda>_.
     ret (Ok ()))))"

definition MirrorFs_rename ::
  "('w, 'f, 'd) os \<Rightarrow> 't interned_table \<Rightarrow> bytes \<Rightarrow> FileHandleU64 \<Rightarrow> filename3 \<Rightarrow> FileHandleU64 \<Rightarrow> filename3 \<Rightarrow>
     (('w, 't) FSMap, nfsstat3 + unit) prog" where
  "MirrorFs_rename os tbl root from_dirid from_filename to_dirid to_filename =
     await get_map (\<lambda>m. case find_entry from_dirid m of
       Err e \<Rightarrow> ret (Err e)
     | Ok from_dirent \<Rightarrow>
         await (unwrap (sym_to_path tbl root (ent_name from_dirent) m)) (\<lambda>from_dir_path.
         case find_entry to_dirid m of
           Err e \<Rightarrow> ret (Err e)
         | Ok to_dirent \<Rightarrow>
             await (unwrap (sym_to_path tbl root (ent_name to_dirent) m)) (\<lambda>to_dir_path.
             await (on_os (exists_no_traverse os to_dir_path)) (\<lambda>there.
             if \<not> there then ret (Err NFS3ERR_NOENT)
             else
               let from_path = path_push from_dir_path from_filename; to_path = path_push to_dir_path to_filename in
               await (on_os (exists_no_traverse os from_path)) (\<lambda>there.
               if \<not> there then ret (Err NFS3ERR_NOENT)
               else
                 os_ok (map_err (\<lambda>_. NFS3ERR_IO) (on_os (os_call (os_rename os from_path to_path)))) (\<lambda>_.
                 await (intern_name tbl from_filename) (\<lambda>oldsym.
                 await (intern_name tbl to_filename) (\<lambda>newsym.
                 finish_rename os tbl root from_dirid (ent_name from_dirent @ [oldsym]) to_dirid (ent_name to_dirent @ [newsym])))))))))"

section \<open>The file system\<close>

definition MirrorFs ::
  "('w, 'f, 'd) os \<Rightarrow> 't interned_table \<Rightarrow> bytes \<Rightarrow>
     (('w, 't) FSMap, FileHandleU64, FSMapIterator, FSMapIterator) NfsFileSystem" where
  "MirrorFs os tbl root = \<lparr>
     vfs_handle = FileHandleU64_ops,
     vfs_root_dir = (\<lambda>_. 0),
     vfs_lookup = MirrorFs_lookup os tbl root,
     vfs_lookup_by_path = default_lookup_by_path (\<lambda>_. 0) (MirrorFs_lookup os tbl root),
     vfs_getattr = MirrorFs_getattr os tbl root,
     vfs_read = MirrorFs_read os tbl root,
     vfs_readdir = FSMapIterator_new os tbl root,
     vfs_readdir_next = ReadDirPlusToReadDir_next (FSMapIterator_next tbl),
     vfs_readdir_drop = (\<lambda>_. ret ()),
     vfs_readdirplus = FSMapIterator_new os tbl root,
     vfs_readdirplus_next = FSMapIterator_next tbl,
     vfs_readdirplus_drop = (\<lambda>_. ret ()),
     vfs_readlink = MirrorFs_readlink os tbl root,
     vfs_fsinfo = default_fsinfo (MirrorFs_getattr os tbl root),
     vfs_capabilities = (\<lambda>_. ReadWrite),
     vfs_setattr = MirrorFs_setattr os tbl root,
     vfs_write = MirrorFs_write os tbl root,
     vfs_create = (\<lambda>dirid filename sa. create_fs_object os tbl root dirid filename (CreateFile sa)),
     vfs_create_exclusive = MirrorFs_create_exclusive os tbl root,
     vfs_mkdir = (\<lambda>dirid dirname. create_fs_object os tbl root dirid dirname CreateDirectory),
     vfs_remove = MirrorFs_remove os tbl root,
     vfs_rename = MirrorFs_rename os tbl root,
     vfs_symlink = (\<lambda>dirid linkname target sa. create_fs_object os tbl root dirid linkname (CreateSymlink sa target)) \<rparr>"

end
