(* ===== verification/Fs_Map_Ok.thy ===== *)
theory Fs_Map_Ok
  imports Fs_Map Nfs_Handlers_Props
begin

text \<open>
  The invariant of the map of the example file system: every path that is known leads to an entry
  with this path, all symbols of the names are interned, ids are below the counter, the children are
  sorted, as the binary searches need it, and the root has the empty path.
\<close>

section \<open>The invariant\<close>

definition known :: "'t interned_table \<Rightarrow> ('w, 't) FSMap \<Rightarrow> Symbol list \<Rightarrow> bool" where
  "known tbl m syms \<longleftrightarrow> (\<forall>y \<in> set syms. table_get (interner_ops tbl) y (intern m) \<noteq> None)"

definition paths_ok :: "('w, 't) FSMap \<Rightarrow> bool" where
  "paths_ok m \<longleftrightarrow> (\<forall>p i. fsmap_paths m p = Some i \<longrightarrow> (\<exists>e. fsmap_ids m i = Some e \<and> ent_name e = p))"

definition entry_ok :: "'t interned_table \<Rightarrow> ('w, 't) FSMap \<Rightarrow> fileid3 \<Rightarrow> FSEntry \<Rightarrow> bool" where
  "entry_ok tbl m i e \<longleftrightarrow> unat i < next_fileid m \<and> known tbl m (ent_name e) \<and>
     (\<forall>ch. children e = Some ch \<longrightarrow> sorted ch) \<and> (i = 0 \<longrightarrow> ent_name e = [])"

definition fsmap_ok :: "'t interned_table \<Rightarrow> ('t \<Rightarrow> bool) \<Rightarrow> ('w, 't) FSMap \<Rightarrow> bool" where
  "fsmap_ok tbl table_ok m \<longleftrightarrow> table_ok (intern m) \<and> paths_ok m \<and> 0 < next_fileid m \<and>
     (\<forall>i e. fsmap_ids m i = Some e \<longrightarrow> entry_ok tbl m i e)"

text \<open>The counter of the ids has not wrapped around.\<close>

definition fsmap_room :: "('w, 't) FSMap \<Rightarrow> bool" where
  "fsmap_room m \<longleftrightarrow> next_fileid m < 2 ^ 64"

text \<open>
  How the state changes, given that the symbols \<open>K\<close> are known: the counter grows, the invariant is
  kept, and symbols keep their names.
\<close>

definition evolves ::
  "'t interned_table \<Rightarrow> ('t \<Rightarrow> bool) \<Rightarrow> Symbol list \<Rightarrow> ('w, 't) FSMap \<Rightarrow> ('w, 't) FSMap \<Rightarrow> bool" where
  "evolves tbl table_ok K m m' \<longleftrightarrow> next_fileid m \<le> next_fileid m' \<and>
     (fsmap_ok tbl table_ok m \<and> known tbl m K \<and> fsmap_room m' \<longrightarrow> fsmap_ok tbl table_ok m' \<and>
        (\<forall>y nm. table_get (interner_ops tbl) y (intern m) = Some nm \<longrightarrow> table_get (interner_ops tbl) y (intern m') = Some nm))"

lemma evolvesI:
  assumes "next_fileid m \<le> next_fileid m'"
    and "fsmap_ok tbl table_ok m \<Longrightarrow> known tbl m K \<Longrightarrow> fsmap_room m' \<Longrightarrow> fsmap_ok tbl table_ok m'"
    and "\<And>y nm. fsmap_ok tbl table_ok m \<Longrightarrow> table_get (interner_ops tbl) y (intern m) = Some nm \<Longrightarrow>
      table_get (interner_ops tbl) y (intern m') = Some nm"
  shows "evolves tbl table_ok K m m'"
  using assms by (simp add: evolves_def)

lemma evolves_refl [simp]: "evolves tbl table_ok K m m"
  by (simp add: evolves_def)

lemma evolves_known:
  "evolves tbl table_ok K m m' \<Longrightarrow> fsmap_ok tbl table_ok m \<Longrightarrow> known tbl m K \<Longrightarrow> fsmap_room m' \<Longrightarrow>
   known tbl m syms \<Longrightarrow> known tbl m' syms"
  by (fastforce simp: evolves_def known_def)

lemma evolves_trans:
  assumes "evolves tbl table_ok K m m'" "evolves tbl table_ok K m' m''"
  shows "evolves tbl table_ok K m m''"
proof -
  have "fsmap_room m'' \<Longrightarrow> fsmap_room m'" using assms(2) by (simp add: evolves_def fsmap_room_def)
  then show ?thesis using assms evolves_known [OF assms(1)] by (auto simp: evolves_def)
qed

lemma evolves_more: "evolves tbl table_ok K m m' \<Longrightarrow> set K \<subseteq> set K' \<Longrightarrow> evolves tbl table_ok K' m m'"
  by (auto simp: evolves_def known_def subset_iff)

lemma evolves_less:
  "evolves tbl table_ok (K' @ K) m m' \<Longrightarrow> (fsmap_ok tbl table_ok m \<Longrightarrow> known tbl m K') \<Longrightarrow> evolves tbl table_ok K m m'"
  by (auto simp: evolves_def known_def)

lemma known_simps [simp]: "known tbl m []" "known tbl m (s @ s') \<longleftrightarrow> known tbl m s \<and> known tbl m s'"
  by (auto simp: known_def)

lemma fsmap_ok_entry: "fsmap_ok tbl table_ok m \<Longrightarrow> fsmap_ids m i = Some e \<Longrightarrow> entry_ok tbl m i e"
  by (simp add: fsmap_ok_def)

lemma fsmap_ok_path:
  assumes "fsmap_ok tbl table_ok m" "fsmap_paths m p = Some i"
  shows "\<exists>e. fsmap_ids m i = Some e \<and> ent_name e = p"
  using assms by (simp add: fsmap_ok_def paths_ok_def)

text \<open>A change of the world, and of an entry whose name stays.\<close>

lemma fsmap_ok_world [simp]: "fsmap_ok tbl table_ok (m\<lparr> fsmap_world := w \<rparr>) \<longleftrightarrow> fsmap_ok tbl table_ok m"
  by (simp add: fsmap_ok_def paths_ok_def entry_ok_def known_def)

lemma evolves_world [simp]: "evolves tbl table_ok K m (m\<lparr> fsmap_world := w \<rparr>)"
  by (simp add: evolves_def fsmap_ok_def paths_ok_def entry_ok_def known_def)

lemma evolves_set_entry:
  assumes "fsmap_ids m i = Some e" "ent_name e' = ent_name e" "\<And>ch. fsmap_ok tbl table_ok m \<Longrightarrow> children e' = Some ch \<Longrightarrow> sorted ch"
  shows "evolves tbl table_ok K m (set_entry i e' m)"
proof (rule evolvesI)
  assume ok: "fsmap_ok tbl table_ok m"
  have e: "entry_ok tbl m i e" using fsmap_ok_entry [OF ok assms(1)] .
  have "paths_ok (set_entry i e' m)"
    using ok assms(1,2) by (fastforce simp: fsmap_ok_def paths_ok_def set_entry_def)
  then show "fsmap_ok tbl table_ok (set_entry i e' m)"
    using ok e assms by (auto simp: fsmap_ok_def set_entry_def entry_ok_def known_def)
qed (simp_all add: set_entry_def)

lemma evolves_remove_id: "evolves tbl table_ok K m (remove_id i m)"
proof (cases "fsmap_ids m i")
  case (Some e)
  have "fsmap_ok tbl table_ok (remove_id i m)" if "fsmap_ok tbl table_ok m"
    using that Some by (fastforce simp: fsmap_ok_def paths_ok_def entry_ok_def known_def remove_id_def)
  then show ?thesis using Some by (intro evolvesI) (simp_all add: remove_id_def)
qed (simp add: remove_id_def)

lemma evolves_remove_ids: "evolves tbl table_ok K m (fold remove_id ch m)"
proof (induction ch arbitrary: m)
  case (Cons i ch)
  then show ?case using evolves_trans [OF evolves_remove_id, of tbl table_ok K i m] by simp
qed simp

lemma sorted_remove: "sorted ch \<Longrightarrow> sorted (take p ch @ drop (Suc p) ch)"
  using sorted_nth_mono [of ch] by (auto simp: sorted_append in_set_conv_nth sorted_wrt_take sorted_wrt_drop)

lemma sorted_insert_at:
  assumes "sorted ch" "binary_search i ch 0 (length ch) = Err p"
  shows "sorted (take p ch @ i # drop p ch)"
proof -
  have "search_result i ch (binary_search i ch 0 (length ch))"
    by (rule binary_search_result [OF assms(1)]) (auto simp: below_def above_def)
  with assms(2) have p: "p \<le> length ch" "\<And>j. j < p \<Longrightarrow> ch ! j < i" "\<And>j. p \<le> j \<Longrightarrow> j < length ch \<Longrightarrow> i < ch ! j"
    by (auto simp: search_result_def below_def above_def)
  have "x < i" if "x \<in> set (take p ch)" for x using that p(1,2) by (auto simp: in_set_conv_nth)
  moreover have "i < x" if "x \<in> set (drop p ch)" for x using that p(3) by (auto simp: in_set_conv_nth)
  ultimately show ?thesis
    using assms(1) by (fastforce simp: sorted_append sorted_wrt_take sorted_wrt_drop)
qed

lemma evolves_remove_child: "evolves tbl table_ok K m (remove_child d i m)"
proof (cases "fsmap_ids m d")
  case (Some e)
  then have "sorted ch" if "fsmap_ok tbl table_ok m" "children e = Some ch" for ch
    using that fsmap_ok_entry [of tbl table_ok m d e] by (simp add: entry_ok_def)
  with Some show ?thesis
    by (auto simp: remove_child_def intro!: evolves_set_entry sorted_remove split: option.splits sum.splits)
qed (simp add: remove_child_def)

lemma evolves_make_entry:
  assumes "set p \<subseteq> set K"
  shows "evolves tbl table_ok K m (snd (create_entry p meta m))"
proof (cases "fsmap_paths m p")
  case None
  define i :: fileid3 where "i = of_nat (next_fileid m)"
  define e where "e = \<lparr> ent_name = p, fsmeta = metadata_to_fattr3 i meta, children_meta = metadata_to_fattr3 i meta, children = None \<rparr>"
  define m' where "m' = m\<lparr> next_fileid := Suc (next_fileid m), fsmap_ids := (fsmap_ids m)(i \<mapsto> e), fsmap_paths := (fsmap_paths m)(p \<mapsto> i) \<rparr>"
  have m': "snd (create_entry p meta m) = m'" using None by (simp add: create_entry_def Let_def m'_def e_def i_def)
  have "fsmap_ok tbl table_ok m'" if ok: "fsmap_ok tbl table_ok m" and p: "known tbl m K" and room: "fsmap_room m'"
  proof -
    have i: "unat i = next_fileid m" using room by (simp add: fsmap_room_def m'_def i_def unat_of_nat)
    then have fresh: "fsmap_ids m i = None" using fsmap_ok_entry [OF ok, of i] by (cases "fsmap_ids m i") (auto simp: entry_ok_def)
    have i0: "i \<noteq> 0" using i ok by (auto simp: fsmap_ok_def)
    have "paths_ok m'" using ok fresh None by (fastforce simp: fsmap_ok_def paths_ok_def m'_def e_def)
    moreover have "entry_ok tbl m' j e'" if "fsmap_ids m' j = Some e'" for j e'
    proof (cases "j = i")
      case True
      then show ?thesis using that i i0 p assms by (auto simp: m'_def e_def entry_ok_def known_def)
    next
      case False
      then have "entry_ok tbl m j e'" using that fsmap_ok_entry [OF ok] by (simp add: m'_def)
      then show ?thesis by (auto simp: m'_def entry_ok_def known_def)
    qed
    ultimately show ?thesis using ok by (simp add: fsmap_ok_def m'_def)
  qed
  then show ?thesis unfolding m' by (intro evolvesI) (simp_all add: m'_def)
next
  case (Some i)
  show ?thesis
  proof (cases "fsmap_ids m i")
    case (Some e)
    have "sorted ch" if "fsmap_ok tbl table_ok m" "children e = Some ch" for ch
      using fsmap_ok_entry [OF that(1) Some] that(2) by (simp add: entry_ok_def)
    then show ?thesis using Some \<open>fsmap_paths m p = Some i\<close>
      by (auto simp: create_entry_def intro!: evolves_set_entry)
  qed (use Some in \<open>simp add: create_entry_def\<close>)
qed

lemma evolves_move_path:
  assumes "fsmap_paths m from = Some i" "fsmap_ids m i = Some e" "from \<noteq> []" "set to \<subseteq> set K"
  shows "evolves tbl table_ok K m (move_path from to i e m)"
proof (rule evolvesI)
  assume ok: "fsmap_ok tbl table_ok m" and to: "known tbl m K"
  have name: "ent_name e = from" using fsmap_ok_path [OF ok assms(1)] assms(2) by simp
  have e: "entry_ok tbl m i e" by (rule fsmap_ok_entry [OF ok assms(2)])
  have "i \<noteq> 0" using e name assms(3) by (auto simp: entry_ok_def)
  moreover have "paths_ok (move_path from to i e m)"
    using fsmap_ok_path [OF ok] name assms(2) by (fastforce simp: paths_ok_def move_path_def)
  ultimately show "fsmap_ok tbl table_ok (move_path from to i e m)"
    using ok e to assms(4) by (auto simp: fsmap_ok_def move_path_def entry_ok_def known_def)
qed (simp_all add: move_path_def)

lemma evolves_forget_path: "evolves tbl table_ok K m (forget_path d p m)"
proof (cases "fsmap_paths m p")
  case (Some i)
  let ?m = "m\<lparr> fsmap_ids := (fsmap_ids m)(i := None), fsmap_paths := (fsmap_paths m)(p := None) \<rparr>"
  have "fsmap_ok tbl table_ok ?m" if ok: "fsmap_ok tbl table_ok m"
  proof -
    have "paths_ok ?m" using fsmap_ok_path [OF ok] Some by (auto simp: paths_ok_def) (metis option.inject)
    then show ?thesis using ok by (auto simp: fsmap_ok_def entry_ok_def known_def)
  qed
  then have "evolves tbl table_ok K m ?m" by (intro evolvesI) simp_all
  then show ?thesis using evolves_trans evolves_remove_child Some by (simp add: forget_path_def) blast
qed (simp add: forget_path_def)

section \<open>Operations\<close>

named_theorems grows_intros \<open>operations under which the map evolves\<close>

definition grows :: 
  "'t interned_table \<Rightarrow> ('t \<Rightarrow> bool) \<Rightarrow> Symbol list \<Rightarrow> ('w, 't) FSMap \<Rightarrow> (('w, 't) FSMap, 'a) prog \<Rightarrow> bool" where
  "grows tbl table_ok K m0 f \<longleftrightarrow> (\<forall>m r m'. evolves tbl table_ok K m0 m \<longrightarrow> f m = Some (r, m') \<longrightarrow> evolves tbl table_ok K m0 m')"

lemma growsD: "grows tbl table_ok K m0 f \<Longrightarrow> f m0 = Some (r, m') \<Longrightarrow> evolves tbl table_ok K m0 m'"
  unfolding grows_def by (meson evolves_refl)

lemma growsI:
  "(\<And>m r m'. evolves tbl table_ok K m0 m \<Longrightarrow> f m = Some (r, m') \<Longrightarrow> evolves tbl table_ok K m m') \<Longrightarrow> grows tbl table_ok K m0 f"
  by (auto simp: grows_def intro: evolves_trans)

lemma grows_ret [grows_intros]: "grows tbl table_ok K m0 (ret x)"
  by (simp add: grows_def)

lemma grows_panic [grows_intros]: "grows tbl table_ok K m0 panic"
  by (simp add: grows_def panic_def)

lemma grows_await [grows_intros]:
  "grows tbl table_ok K m0 a \<Longrightarrow> (\<And>x. grows tbl table_ok K m0 (f x)) \<Longrightarrow> grows tbl table_ok K m0 (await a f)"
  unfolding grows_def await_eq_Some by meson

lemma grows_if [grows_intros]:
  "(b \<Longrightarrow> grows tbl table_ok K m0 f) \<Longrightarrow> (\<not> b \<Longrightarrow> grows tbl table_ok K m0 g) \<Longrightarrow> grows tbl table_ok K m0 (if b then f else g)"
  by simp

lemma grows_sum [grows_intros]:
  "(\<And>e. r = Err e \<Longrightarrow> grows tbl table_ok K m0 (f e)) \<Longrightarrow> (\<And>x. r = Ok x \<Longrightarrow> grows tbl table_ok K m0 (g x)) \<Longrightarrow>
   grows tbl table_ok K m0 (case r of Err e \<Rightarrow> f e | Ok x \<Rightarrow> g x)"
  by (simp split: sum.split)

lemma grows_option [grows_intros]:
  "(r = None \<Longrightarrow> grows tbl table_ok K m0 f) \<Longrightarrow> (\<And>x. r = Some x \<Longrightarrow> grows tbl table_ok K m0 (g x)) \<Longrightarrow>
   grows tbl table_ok K m0 (case r of None \<Rightarrow> f | Some x \<Rightarrow> g x)"
  by (simp split: option.split)

lemma grows_os_ok [grows_intros]:
  "grows tbl table_ok K m0 a \<Longrightarrow> (\<And>x. grows tbl table_ok K m0 (f x)) \<Longrightarrow> grows tbl table_ok K m0 (os_ok a f)"
  unfolding os_ok_def by (intro grows_intros)

lemma grows_map_err [grows_intros]: "grows tbl table_ok K m0 a \<Longrightarrow> grows tbl table_ok K m0 (map_err g a)"
  unfolding map_err_def by (intro grows_intros)

lemma grows_on_os [grows_intros]: "grows tbl table_ok K m0 (on_os f)"
  by (rule growsI) (auto simp: on_os_def split: option.splits)

lemma grows_delete_entry [grows_intros]: "grows tbl table_ok K m0 (delete_entry i)"
  by (rule growsI) (auto simp: delete_entry_def evolves_remove_ids split: option.splits)

text \<open>Rules that pass on what is known about the current state; they have to be tried before the others.\<close>

lemma grows_get_map:
  "(\<And>m. evolves tbl table_ok K m0 m \<Longrightarrow> grows tbl table_ok K m (f m)) \<Longrightarrow> grows tbl table_ok K m0 (await get_map f)"
  by (rule growsI) (auto simp: await_def get_map_def dest: growsD)

lemma grows_unwrap:
  "(\<And>y. x = Some y \<Longrightarrow> grows tbl table_ok K m0 (f y)) \<Longrightarrow> grows tbl table_ok K m0 (await (unwrap x) f)"
  by (auto simp: grows_def unwrap_def await_def panic_def split: option.splits)

lemma grows_put_map: "evolves tbl table_ok K m0 m' \<Longrightarrow> grows tbl table_ok K m0 (put_map m')"
  by (auto simp: grows_def put_map_def)

lemma grows_make_entry: "set p \<subseteq> set K \<Longrightarrow> grows tbl table_ok K m0 (make_entry p meta)"
  by (rule growsI) (metis evolves_make_entry make_entry_def option.inject snd_conv)

lemma grows_more:
  assumes "grows tbl table_ok (K' @ K) m f" "fsmap_ok tbl table_ok m \<Longrightarrow> known tbl m K'"
  shows "grows tbl table_ok K m f"
  unfolding grows_def
proof (intro allI impI)
  fix m1 r m' assume "evolves tbl table_ok K m m1" "f m1 = Some (r, m')"
  then have "evolves tbl table_ok (K' @ K) m m'"
    using assms(1) evolves_more [of tbl table_ok K m m1 "K' @ K"] by (auto simp: grows_def)
  then show "evolves tbl table_ok K m m'" using assms(2) by (rule evolves_less)
qed

text \<open>The symbols of the name of an entry are known.\<close>

lemma known_entry: "fsmap_ok tbl table_ok m \<Longrightarrow> fsmap_ids m i = Some e \<Longrightarrow> known tbl m (ent_name e)"
  using fsmap_ok_entry [of tbl table_ok m i e] by (simp add: entry_ok_def)

lemma sorted_children: "fsmap_ok tbl table_ok m \<Longrightarrow> fsmap_ids m i = Some e \<Longrightarrow> children e = Some ch \<Longrightarrow> sorted ch"
  using fsmap_ok_entry [of tbl table_ok m i e] by (simp add: entry_ok_def)

lemma grows_entry:
  "(fsmap_ids m i = None \<Longrightarrow> grows tbl table_ok K m f) \<Longrightarrow>
   (\<And>e. fsmap_ids m i = Some e \<Longrightarrow> grows tbl table_ok (ent_name e @ K) m (g e)) \<Longrightarrow>
   grows tbl table_ok K m (case fsmap_ids m i of None \<Rightarrow> f | Some e \<Rightarrow> g e)"
  by (auto intro: grows_more known_entry split: option.split)

lemma grows_find_entry:
  "(\<And>e. grows tbl table_ok K m (f e)) \<Longrightarrow>
   (\<And>e. fsmap_ids m i = Some e \<Longrightarrow> grows tbl table_ok (ent_name e @ K) m (g e)) \<Longrightarrow>
   grows tbl table_ok K m (case find_entry i m of Err e \<Rightarrow> f e | Ok e \<Rightarrow> g e)"
  by (auto simp: find_entry_def ok_or_def intro: grows_more known_entry split: option.split)

lemma grows_set_fsmeta:
  "fsmap_ids m i = Some e \<Longrightarrow> grows tbl table_ok K m (put_map (set_entry i (e\<lparr> fsmeta := a \<rparr>) m))"
  by (auto intro!: grows_put_map evolves_set_entry dest: sorted_children)

lemmas grows_state = grows_get_map grows_unwrap grows_entry grows_find_entry grows_set_fsmeta

lemma grows_refresh_entry [grows_intros]: "grows tbl table_ok K m0 (refresh_entry os tbl root i)"
  unfolding refresh_entry_def Let_def by (intro grows_state grows_intros) simp_all

lemma grows_add_child [grows_intros]: "grows tbl table_ok K m0 (add_child d i)"
  unfolding add_child_def
  by (intro grows_get_map grows_intros grows_put_map) (auto intro!: evolves_set_entry sorted_insert_at dest: sorted_children)

text \<open>What the documentation of the table says about the search for a name.\<close>

locale checked_interner = interner "interner_ops tbl" table_ok
  for tbl :: "'t interned_table" and table_ok :: "'t \<Rightarrow> bool" +
  assumes check: "table_ok t \<Longrightarrow> check_interned tbl nm t = Some y \<longleftrightarrow> table_get (interner_ops tbl) y t = Some nm"
begin

lemma evolves_intern:
  assumes "table_intern (interner_ops tbl) nm (intern m) = Some (y, t)"
  shows "evolves tbl table_ok K m (m\<lparr> intern := t \<rparr>)"
proof (rule evolvesI)
  assume ok: "fsmap_ok tbl table_ok m"
  then have t: "table_ok (intern m)" by (simp add: fsmap_ok_def)
  have known: "known tbl m s \<Longrightarrow> known tbl (m\<lparr> intern := t \<rparr>) s" for s
    using intern_keeps [OF t assms] by (fastforce simp: known_def)
  show "fsmap_ok tbl table_ok (m\<lparr> intern := t \<rparr>)"
    using ok intern_ok [OF t assms] known by (auto simp: fsmap_ok_def paths_ok_def entry_ok_def)
next
  fix y' nm' assume "fsmap_ok tbl table_ok m" "table_get (interner_ops tbl) y' (intern m) = Some nm'"
  then show "table_get (interner_ops tbl) y' (intern (m\<lparr> intern := t \<rparr>)) = Some nm'"
    using intern_keeps [OF _ assms] by (simp add: fsmap_ok_def)
qed simp

lemma grows_intern:
  assumes "\<And>y m. grows tbl table_ok (y # K) m (f y)"
  shows "grows tbl table_ok K m0 (await (intern_name tbl nm) f)"
proof (rule growsI)
  fix m r m' assume "await (intern_name tbl nm) f m = Some (r, m')"
  then obtain y t where t: "table_intern (interner_ops tbl) nm (intern m) = Some (y, t)" and f: "f y (m\<lparr> intern := t \<rparr>) = Some (r, m')"
    by (auto simp: await_eq_Some intern_name_def split: option.splits)
  let ?m = "m\<lparr> intern := t \<rparr>"
  have m1: "evolves tbl table_ok K m ?m" by (rule evolves_intern [OF t])
  have m2: "evolves tbl table_ok (y # K) ?m m'" by (rule growsD [OF assms f])
  have "table_get (interner_ops tbl) y t = Some nm" if "fsmap_ok tbl table_ok m"
    using intern_get [OF _ t] that by (simp add: fsmap_ok_def)
  then have "known tbl ?m (y # K)" if "fsmap_ok tbl table_ok m" "known tbl m K" "fsmap_room ?m"
    using that evolves_known [OF m1] by (auto simp: known_def)
  moreover have "fsmap_room m' \<Longrightarrow> fsmap_room ?m" using m2 by (simp add: evolves_def fsmap_room_def)
  ultimately show "evolves tbl table_ok K m m'" using m1 m2 by (auto simp: evolves_def)
qed

lemma grows_list_entry: "grows tbl table_ok K m0 (list_entry os tbl path K nm)"
  unfolding list_entry_def by (intro grows_intern grows_intros grows_make_entry) auto

lemma list_loop_evolves:
  "list_loop os tbl path cur listing acc m = Some y \<Longrightarrow> evolves tbl table_ok cur m (snd y)"
proof -
  let ?P = "\<lambda>os t path cur listing acc m y. t = tbl \<longrightarrow> evolves tbl table_ok cur m (snd y)"
  assume run: "list_loop os tbl path cur listing acc m = Some y"
  have "?P os tbl path cur listing acc m y"
  proof (rule list_loop.raw_induct [where P = ?P, OF _ run], goal_cases)
    case (1 f os t path cur listing acc m y)
    show ?case
    proof
      assume t: "t = tbl"
      obtain r l m1 where n: "on_os (os_call (os_next_entry os listing)) m = Some ((r, l), m1)"
        using 1(2) by (cases "on_os (os_call (os_next_entry os listing)) m") auto
      have m1: "evolves tbl table_ok cur m m1" using growsD [OF grows_on_os n] .
      show "evolves tbl table_ok cur m (snd y)"
      proof (cases "\<exists>nm. r = Ok (Some nm)")
        case True
        then obtain nm where r: "r = Ok (Some nm)" ..
        obtain i m2 where e: "list_entry os t path cur nm m1 = Some (i, m2)"
          using 1(2) n r by (cases "list_entry os t path cur nm m1") auto
        have m2: "evolves tbl table_ok cur m1 m2" using growsD [OF grows_list_entry] e t by blast
        have "f os t path cur l (acc @ [i]) m2 = Some y" using 1(2) n r e by simp
        from 1(1) [OF this] t have "evolves tbl table_ok cur m2 (snd y)" by simp
        with m1 m2 show ?thesis by (blast intro: evolves_trans)
      qed (use 1(2) n m1 in \<open>auto split: sum.splits option.splits\<close>)
    qed
  qed
  then show ?thesis by simp
qed

lemma grows_list_loop: "set cur \<subseteq> set K \<Longrightarrow> grows tbl table_ok K m0 (list_loop os tbl path cur listing acc)"
  using list_loop_evolves evolves_more by (intro growsI) fastforce

lemma grows_refresh_dir_list [grows_intros]: "grows tbl table_ok K m0 (refresh_dir_list os tbl root i)"
  unfolding refresh_dir_list_def
  by (intro grows_state grows_intros grows_list_loop grows_put_map) (auto intro!: evolves_set_entry)

lemma grows_create_fs_object [grows_intros]: "grows tbl table_ok K m0 (create_fs_object os tbl root d nm thing)"
  unfolding create_fs_object_def Let_def
  by (intro grows_state grows_intern grows_intros grows_make_entry) auto

lemma grows_lookup [grows_intros]: "grows tbl table_ok K m0 (MirrorFs_lookup os tbl root d nm)"
  unfolding MirrorFs_lookup_def Let_def by (intro grows_state grows_intros)

lemma grows_getattr [grows_intros]: "grows tbl table_ok K m0 (MirrorFs_getattr os tbl root i)"
  unfolding MirrorFs_getattr_def by (intro grows_state grows_intros)

lemma grows_entry_path [grows_intros]: "grows tbl table_ok K m0 (entry_path tbl root i)"
  unfolding entry_path_def by (intro grows_state grows_intros)

lemma grows_iterator_new [grows_intros]: "grows tbl table_ok K m0 (FSMapIterator_new os tbl root d ck)"
  unfolding FSMapIterator_new_def by (intro grows_state grows_intros)

lemma iterator_next_state: "FSMapIterator_next tbl it m = Some (r, m') \<Longrightarrow> m' = m"
proof (induction tbl it m rule: FSMapIterator_next.induct)
  case (1 tbl it m)
  from 1(2) show ?case
    by (subst (asm) FSMapIterator_next.simps) (auto simp: Let_def dest: 1(1) split: if_splits sum.splits option.splits)
qed

lemma grows_iterator_next [grows_intros]: "grows tbl table_ok K m0 (FSMapIterator_next tbl it)"
  by (rule growsI) (auto dest: iterator_next_state)

lemma grows_setattr [grows_intros]: "grows tbl table_ok K m0 (MirrorFs_setattr os tbl root i sa)"
  unfolding MirrorFs_setattr_def
  by (intro grows_state grows_intros) (auto simp: find_entry_def ok_or_def intro!: grows_set_fsmeta split: option.splits)

lemma grows_remove [grows_intros]: "grows tbl table_ok K m0 (MirrorFs_remove os tbl root d nm)"
  unfolding MirrorFs_remove_def Let_def
  by (intro grows_state grows_intern grows_intros grows_put_map evolves_forget_path)

lemma grows_rename_entries:
  "from \<noteq> [] \<Longrightarrow> set to \<subseteq> set K \<Longrightarrow> grows tbl table_ok K m0 (rename_entries fd from td to)"
  unfolding rename_entries_def Let_def
  by (intro grows_get_map grows_unwrap grows_intros grows_put_map evolves_trans [OF evolves_move_path evolves_remove_child] evolves_move_path)
     assumption+

lemma grows_finish_rename:
  "from \<noteq> [] \<Longrightarrow> set to \<subseteq> set K \<Longrightarrow> grows tbl table_ok K m0 (finish_rename os tbl root fd from td to)"
  unfolding finish_rename_def by (intro grows_intros grows_rename_entries)

lemma grows_rename [grows_intros]: "grows tbl table_ok K m0 (MirrorFs_rename os tbl root fd fn td tn)"
  unfolding MirrorFs_rename_def Let_def
  by (intro grows_state grows_intern grows_intros grows_finish_rename) auto

section \<open>The server\<close>

text \<open>The invariant, unless the ids have run out.\<close>

abbreviation fsmap_inv :: "('w, 't) FSMap \<Rightarrow> bool" where
  "fsmap_inv m \<equiv> fsmap_room m \<longrightarrow> fsmap_ok tbl table_ok m"

lemma grows_keeps: "(\<And>m. grows tbl table_ok [] m f) \<Longrightarrow> keeps fsmap_inv f fsmap_inv"
proof (rule keepsI)
  fix m x m' assume g: "\<And>m. grows tbl table_ok [] m f" and inv: "fsmap_inv m" and run: "f m = Some (x, m')"
  have "evolves tbl table_ok [] m m'" by (rule growsD [OF g run])
  with inv show "fsmap_inv m'" by (auto simp: evolves_def fsmap_room_def)
qed

lemma MirrorFs_keeps: "vfs_keeps (ctx\<lparr> vfs := MirrorFs os tbl root \<rparr>) fsmap_inv"
  by unfold_locales
     (simp_all add: MirrorFs_def default_fsinfo_def Let_def MirrorFs_read_def MirrorFs_readlink_def MirrorFs_write_def
        MirrorFs_create_exclusive_def ReadDirPlusToReadDir_next_def split_def,
      (intro grows_keeps grows_intros)+)

end

text \<open>The table that lists the names.\<close>

definition list_interned :: "bytes list interned_table" where
  "list_interned = \<lparr> interner_ops = list_table,
     check_interned = (\<lambda>nm t. map_option of_nat (find (\<lambda>i. t ! i = nm) [0..<length t])) \<rparr>"

lemma list_interned_ops [simp]: "interner_ops list_interned = list_table"
  by (simp add: list_interned_def)

interpretation list_interned: checked_interner list_interned list_table_ok
proof
  fix t nm y assume t: "list_table_ok t"
  show "check_interned list_interned nm t = Some y \<longleftrightarrow> table_get (interner_ops list_interned) y t = Some nm"
  proof (cases "find (\<lambda>i. t ! i = nm) [0..<length t]")
    case None
    then show ?thesis by (simp add: list_interned_def list_table_def) (auto simp: find_None_iff)
  next
    case (Some i)
    then have i: "i < length t" "t ! i = nm" by (auto simp: find_Some_iff)
    then have "unat (of_nat i :: Symbol) = i" using t by (simp add: list_table_ok_def unat_symbol)
    with Some i t show ?thesis
      by (auto simp: list_interned_def list_table_def list_table_ok_def nth_eq_iff_index_eq split: if_splits)
  qed
qed (use list_table.new_ok list_table.intern_ok list_table.intern_get list_table.intern_keeps list_table.get_inject in auto)

interpretation fsmap_server: vfs_keeps "ctx\<lparr> vfs := MirrorFs os list_interned root \<rparr>"
  "\<lambda>m. fsmap_room m \<longrightarrow> fsmap_ok list_interned list_table_ok m" for ctx os root
  by (rule list_interned.MirrorFs_keeps)

end
