(* ===== verification/Fs_Map_Props.thy ===== *)
theory Fs_Map_Props
  imports Fs_Map_Ok Tcp_Props
begin

text \<open>
  What the operations of the example file system do to its map, and when the collection of the
  descendants of an entry ends.
\<close>

section \<open>Names\<close>

text \<open>No entry is new or has a new name, and no path is new.\<close>

definition names_kept :: "('w, 't) FSMap \<Rightarrow> ('w, 't) FSMap \<Rightarrow> bool" where
  "names_kept m m' \<longleftrightarrow> intern m' = intern m \<and>
     (\<forall>i e'. fsmap_ids m' i = Some e' \<longrightarrow> (\<exists>e. fsmap_ids m i = Some e \<and> ent_name e' = ent_name e)) \<and>
     (\<forall>p i. fsmap_paths m' p = Some i \<longrightarrow> fsmap_paths m p = Some i)"

lemma names_kept_refl [simp]: "names_kept m m"
  by (simp add: names_kept_def)

lemma names_keptD:
  assumes "names_kept m m'"
  shows "intern m' = intern m"
    and "fsmap_ids m' i = Some e' \<Longrightarrow> \<exists>e. fsmap_ids m i = Some e \<and> ent_name e' = ent_name e"
    and "fsmap_paths m' p = Some j \<Longrightarrow> fsmap_paths m p = Some j"
  using assms unfolding names_kept_def by blast+

lemma names_kept_trans: "names_kept m m' \<Longrightarrow> names_kept m' m'' \<Longrightarrow> names_kept m m''"
  unfolding names_kept_def by metis

lemma names_kept_world [simp]: "names_kept m (m\<lparr> fsmap_world := w \<rparr>)"
  by (simp add: names_kept_def)

lemma names_kept_set_entry: "fsmap_ids m i = Some e \<Longrightarrow> ent_name e' = ent_name e \<Longrightarrow> names_kept m (set_entry i e' m)"
  by (simp add: names_kept_def set_entry_def)

lemma names_kept_remove_id: "names_kept m (remove_id i m)"
  by (auto simp: names_kept_def remove_id_def split: option.split)

lemma names_kept_remove_ids: "names_kept m (fold remove_id ch m)"
proof (induction ch arbitrary: m)
  case (Cons i ch)
  then show ?case using names_kept_trans [OF names_kept_remove_id, of i m] by simp
qed simp

lemma names_kept_remove_child: "names_kept m (remove_child d i m)"
  by (auto simp: remove_child_def intro: names_kept_set_entry split: option.split sum.split)

lemma on_os_eq_Some:
  "on_os f m = Some (x, m') \<longleftrightarrow> (\<exists>w. f (fsmap_world m) = Some (x, w) \<and> m' = m\<lparr> fsmap_world := w \<rparr>)"
  by (auto simp: on_os_def split: option.split)

lemma map_err_run:
  "map_err g a m = Some (Ok x, m') \<longleftrightarrow> a m = Some (Ok x, m')"
  "map_err g a m = Some (Err y, m') \<longleftrightarrow> (\<exists>e. a m = Some (Err e, m') \<and> y = g e)"
  by (auto simp: map_err_def await_def ret_def split: option.splits sum.splits)

lemma get_map_eq_Some [simp]: "await get_map f m = f m m"
  by (simp add: await_def get_map_def)

lemma put_map_eq_Some [simp]: "await (put_map m') f m = f () m'"
  by (simp add: await_def put_map_def)

lemma unwrap_eq_Some: "unwrap x m = Some (y, m') \<longleftrightarrow> x = Some y \<and> m' = m"
  by (cases x) (auto simp: unwrap_def panic_def)

lemma os_call_eq_Some: "os_call f w = Some (x, w') \<longleftrightarrow> f w = (x, w')"
  by (simp add: os_call_def)

lemma exists_no_traverse_eq_Some:
  "exists_no_traverse os path w = Some (b, w') \<longleftrightarrow> (\<exists>r. os_symlink_metadata os path w = (r, w') \<and> b = is_ok r)"
  by (cases "os_symlink_metadata os path w") (auto simp: exists_no_traverse_def await_def os_call_def ret_def)

lemma case_sum_eq_Some:
  "(case r of Err e \<Rightarrow> f e | Ok x \<Rightarrow> g x) m = Some z \<longleftrightarrow>
     (\<exists>e. r = Err e \<and> f e m = Some z) \<or> (\<exists>x. r = Ok x \<and> g x m = Some z)"
  by (cases r) auto

lemmas run_simps = case_sum_eq_Some await_eq_Some on_os_eq_Some os_ok_eq_Some map_err_run unwrap_eq_Some os_call_eq_Some
  exists_no_traverse_eq_Some

lemma refresh_entry_cases:
  assumes "refresh_entry os tbl exported i m = Some (r, m')"
  obtains (missing) "fsmap_ids m i = None" "r = Err NFS3ERR_NOENT" "m' = m"
  | (gone) w where "delete_entry i (m\<lparr> fsmap_world := w \<rparr>) = Some ((), m')" "r = Ok Delete"
  | (failed) w where "m' = m\<lparr> fsmap_world := w \<rparr>" "r = Err NFS3ERR_IO"
  | (unchanged) e path w0 md w where "fsmap_ids m i = Some e" "sym_to_path tbl exported (ent_name e) m = Some path"
      "os_symlink_metadata os path w0 = (Ok md, w)" "\<not> fattr3_differ (metadata_to_fattr3 i md) (fsmeta e)"
      "m' = m\<lparr> fsmap_world := w \<rparr>" "r = Ok Noop"
  | (changed) e path w0 md w where "fsmap_ids m i = Some e" "sym_to_path tbl exported (ent_name e) m = Some path"
      "os_symlink_metadata os path w0 = (Ok md, w)" "r = Ok Reload"
      "m' = set_entry i (e\<lparr> fsmeta := metadata_to_fattr3 i md \<rparr>) (m\<lparr> fsmap_world := w \<rparr>)"
proof (cases "fsmap_ids m i")
  case None
  with assms missing show ?thesis by (simp add: refresh_entry_def)
next
  case (Some e)
  then obtain path q w1 where path: "sym_to_path tbl exported (ent_name e) m = Some path"
    and q: "os_symlink_metadata os path (fsmap_world m) = (q, w1)"
    using assms by (auto simp: refresh_entry_def run_simps)
  let ?m = "m\<lparr> fsmap_world := w1 \<rparr>"
  obtain q2 w2 where q2: "os_symlink_metadata os path w1 = (q2, w2)" by fastforce
  show ?thesis
  proof (cases "is_ok q")
    case False
    with assms Some path q gone show ?thesis by (auto simp: refresh_entry_def run_simps)
  next
    case True
    show ?thesis
    proof (cases q2)
      case (Inl err)
      with assms Some path q q2 True failed show ?thesis by (auto simp: refresh_entry_def run_simps)
    next
      case (Inr md)
      with assms Some path q q2 True gone unchanged [OF Some path q2 [unfolded Inr]] changed [OF Some path q2 [unfolded Inr]]
      show ?thesis by (auto simp: refresh_entry_def run_simps Let_def split: if_splits)
    qed
  qed
qed

lemma delete_entry_names: "delete_entry i m = Some (r, m') \<Longrightarrow> names_kept m m'"
  by (auto simp: delete_entry_def names_kept_remove_ids split: option.splits)

lemma refresh_entry_names:
  assumes "refresh_entry os tbl exported i m = Some (r, m')"
  shows "names_kept m m'"
  using assms
proof (cases rule: refresh_entry_cases)
  case (gone w)
  then show ?thesis using names_kept_trans [OF names_kept_world delete_entry_names [OF gone(1)]] by simp
next
  case (changed e path w0 md w)
  then show ?thesis
    using names_kept_trans [OF names_kept_world names_kept_set_entry [of "m\<lparr> fsmap_world := w \<rparr>" i e]] by simp
qed simp_all

lemma add_child_names:
  "add_child d i m = Some (r, m') \<Longrightarrow> names_kept m m' \<and> fsmap_paths m' = fsmap_paths m \<and> next_fileid m' = next_fileid m"
  by (auto simp: add_child_def intro: names_kept_set_entry split: option.splits sum.splits) (simp_all add: set_entry_def)

text \<open>
  The attributes that GETATTR returns have the id of the file, and its type, size and time of
  modification as the operating system last reported them in this call.
\<close>

theorem fsmap_getattr_fresh:
  assumes "MirrorFs_getattr os tbl exported i m = Some (Ok a, m')"
  shows "\<exists>e path w md. fsmap_ids m i = Some e \<and> sym_to_path tbl exported (ent_name e) m = Some path \<and>
    os_symlink_metadata os path w = (Ok md, fsmap_world m') \<and> fattr3.fileid a = i \<and>
    fattr3.type' a = meta_ext_file_type (meta_type md) \<and> fattr3.size a = meta_len md \<and>
    fattr3.mtime a = to_nfstime3 (meta_modified md)"
proof -
  obtain r m1 where r: "refresh_entry os tbl exported i m = Some (Ok r, m1)" "r \<noteq> Delete"
    and a: "\<exists>e. fsmap_ids m1 i = Some e \<and> a = fsmeta e" and m': "m' = m1"
    using assms by (auto simp: MirrorFs_getattr_def run_simps find_entry_def ok_or_def split: if_splits option.splits sum.splits)
  from r(1) obtain e path w md where e: "fsmap_ids m i = Some e" and p: "sym_to_path tbl exported (ent_name e) m = Some path"
    and md: "os_symlink_metadata os path w = (Ok md, fsmap_world m')"
    and fresh: "\<not> fattr3_differ (metadata_to_fattr3 i md) a"
  proof (cases rule: refresh_entry_cases)
    case (unchanged e path w0 md w)
    then show ?thesis using that [of e path w0 md] a m' by simp
  next
    case (changed e path w0 md w)
    then show ?thesis using that [of e path w0 md] a m' by (simp add: set_entry_def fattr3_differ_def)
  qed (use r(2) in auto)
  from fresh have "fattr3.fileid a = i" "fattr3.type' a = meta_ext_file_type (meta_type md)" "fattr3.size a = meta_len md"
    "fattr3.mtime a = to_nfstime3 (meta_modified md)"
    by (simp_all add: fattr3_differ_def metadata_to_fattr3_def)
  with e p md show ?thesis by blast
qed

section \<open>Creating, removing and renaming\<close>

lemma next_remove_child [simp]: "next_fileid (remove_child d i m) = next_fileid m"
  by (simp add: remove_child_def set_entry_def split: option.split sum.split)

lemma forget_path_names: "names_kept m (forget_path d p m)"
proof (cases "fsmap_paths m p")
  case (Some i)
  have "names_kept m (m\<lparr> fsmap_ids := (fsmap_ids m)(i := None), fsmap_paths := (fsmap_paths m)(p := None) \<rparr>)"
    by (auto simp: names_kept_def)
  then show ?thesis using Some names_kept_trans names_kept_remove_child by (simp add: forget_path_def) blast
qed (simp add: forget_path_def)

lemma forget_path_None [simp]: "fsmap_paths (forget_path d p m) p = None"
  by (simp add: forget_path_def remove_child_def set_entry_def split: option.split sum.split)

context checked_interner
begin

lemma find_child_known:
  assumes "fsmap_ok tbl table_ok m" "fsmap_ids m d = Some e" "table_get (interner_ops tbl) y (intern m) = Some nm"
  shows "find_child tbl d nm m = ok_or NFS3ERR_NOENT (fsmap_paths m (ent_name e @ [y]))"
proof -
  have "check_interned tbl nm (intern m) = Some y" using check [of "intern m"] assms by (simp add: fsmap_ok_def)
  then show ?thesis using assms(2) by (simp add: find_child_def ok_or_def)
qed

lemma intern_name_ok:
  assumes "intern_name tbl nm m = Some (y, m')" "fsmap_ok tbl table_ok m" "fsmap_room m'"
  shows "fsmap_ok tbl table_ok m' \<and> table_get (interner_ops tbl) y (intern m') = Some nm \<and>
    fsmap_ids m' = fsmap_ids m \<and> fsmap_paths m' = fsmap_paths m \<and> next_fileid m' = next_fileid m"
proof -
  obtain t where t: "table_intern (interner_ops tbl) nm (intern m) = Some (y, t)" "m' = m\<lparr> intern := t \<rparr>"
    using assms(1) by (auto simp: intern_name_def split: option.splits)
  then show ?thesis
    using evolves_intern [OF t(1), of "[]"] intern_get [OF _ t(1)] assms(2,3) by (simp add: evolves_def fsmap_ok_def)
qed

lemma create_lookup:
  assumes run: "create_fs_object os tbl exported d nm thing m = Some (Ok (i, a), m')"
    and ok: "fsmap_ok tbl table_ok m" "fsmap_room m'"
  shows "find_child tbl d nm m' = Ok i \<and> fsmap_ids m' i \<noteq> None"
proof -
  obtain ent where ent: "fsmap_ids m d = Some ent"
    using run by (cases "fsmap_ids m d") (auto simp: create_fs_object_def find_entry_def ok_or_def)
  from run ent obtain w0 q m1 y m2 w meta m3 where
    refresh: "refresh_entry os tbl exported d (m\<lparr> fsmap_world := w0 \<rparr>) = Some (q, m1)"
    and y: "intern_name tbl nm m1 = Some (y, m2)"
    and m3: "create_entry (ent_name ent @ [y]) meta (m2\<lparr> fsmap_world := w \<rparr>) = (i, m3)"
    and m': "add_child d i m3 = Some (Ok (), m')"
    by (auto simp: create_fs_object_def find_entry_def ok_or_def Let_def run_simps make_entry_def)
  have next3: "next_fileid m' = next_fileid m3"
    using m' by (auto simp: add_child_def set_entry_def split: option.splits sum.splits)
  have mono: "next_fileid m2 \<le> next_fileid m3" "intern m3 = intern m2" "fsmap_paths m3 (ent_name ent @ [y]) = Some i"
    using m3 by (auto simp: create_entry_def set_entry_def Let_def split: option.splits)
  have room: "fsmap_room m2" using ok(2) next3 mono(1) by (simp add: fsmap_room_def)
  have ev: "evolves tbl table_ok [] (m\<lparr> fsmap_world := w0 \<rparr>) m1" by (rule growsD [OF grows_refresh_entry refresh])
  have "fsmap_room m1" using room y by (auto simp: intern_name_def fsmap_room_def split: option.splits)
  then have ok1: "fsmap_ok tbl table_ok m1" using ev ok(1) by (simp add: evolves_def)
  note ok2 = intern_name_ok [OF y ok1 room]
  have names: "\<exists>e0. fsmap_ids m j = Some e0 \<and> ent_name e = ent_name e0" if "fsmap_ids m2 j = Some e" for j e
    using names_keptD(2) [OF refresh_entry_names [OF refresh], of j e] that ok2 by simp
  have ok': "fsmap_ok tbl table_ok m'"
    using growsD [OF grows_create_fs_object run, of "[]"] ok by (simp add: evolves_def)
  have path: "fsmap_paths m' (ent_name ent @ [y]) = Some i" "intern m' = intern m2"
    using add_child_names [OF m'] names_keptD(1) mono by fastforce+
  obtain e' where e': "fsmap_ids m' d = Some e'"
    using m' by (auto simp: add_child_def set_entry_def split: option.splits sum.splits)
  have "ent_name e' = ent_name ent"
  proof -
    obtain e3 where e3: "fsmap_ids m3 d = Some e3" "ent_name e' = ent_name e3"
      using add_child_names [OF m'] names_keptD(2) e' by blast
    have d: "unat d < next_fileid m" using fsmap_ok_entry [OF ok(1) ent] by (simp add: entry_ok_def)
    have "next_fileid m \<le> next_fileid m2" using ev ok2 by (simp add: evolves_def)
    then have "d \<noteq> of_nat (next_fileid m2)" using d room by (auto simp: fsmap_room_def unat_of_nat)
    then have "\<exists>e2. fsmap_ids m2 d = Some e2 \<and> ent_name e3 = ent_name e2"
      using m3 e3(1) by (auto simp: create_entry_def set_entry_def Let_def split: option.splits if_splits)
    then show ?thesis using names ent e3(2) by fastforce
  qed
  then have "find_child tbl d nm m' = Ok i"
    using find_child_known [OF ok' e', of y nm] path ok2 by (simp add: ok_or_def)
  with fsmap_ok_path [OF ok' path(1)] show ?thesis by auto
qed

lemma remove_unknown:
  assumes run: "MirrorFs_remove os tbl exported d nm m = Some (Ok (), m')"
    and ok: "fsmap_ok tbl table_ok m" "fsmap_room m'"
  shows "find_child tbl d nm m' = Err NFS3ERR_NOENT"
proof -
  obtain ent where ent: "fsmap_ids m d = Some ent"
    using run by (cases "fsmap_ids m d") (auto simp: MirrorFs_remove_def find_entry_def ok_or_def)
  from run ent obtain w y m1 q where y: "intern_name tbl nm (m\<lparr> fsmap_world := w \<rparr>) = Some (y, m1)"
    and refresh: "refresh_entry os tbl exported d (forget_path d (ent_name ent @ [y]) m1) = Some (q, m')"
    by (auto simp: MirrorFs_remove_def find_entry_def ok_or_def Let_def run_simps)
  let ?m = "forget_path d (ent_name ent @ [y]) m1"
  have ev: "evolves tbl table_ok [] ?m m'" by (rule growsD [OF grows_refresh_entry refresh])
  have "next_fileid m1 \<le> next_fileid ?m" "next_fileid ?m \<le> next_fileid m'"
    using evolves_forget_path [of tbl table_ok "[]" m1] ev by (simp_all add: evolves_def)
  then have "fsmap_room m1" using ok(2) by (simp add: fsmap_room_def)
  note ok1 = intern_name_ok [OF y _ this, simplified, OF ok(1)]
  have ok': "fsmap_ok tbl table_ok m'" using growsD [OF grows_remove run, of "[]"] ok by (simp add: evolves_def)
  have kept: "names_kept m1 m'"
    using names_kept_trans [OF forget_path_names refresh_entry_names [OF refresh]] .
  show ?thesis
  proof (cases "fsmap_ids m' d")
    case (Some e')
    then have "ent_name e' = ent_name ent" using names_keptD(2) [OF kept Some] ok1 ent by simp
    moreover have "fsmap_paths m' (ent_name ent @ [y]) = None"
      using names_keptD(3) [OF refresh_entry_names [OF refresh], of "ent_name ent @ [y]"]
      by (cases "fsmap_paths m' (ent_name ent @ [y])") auto
    moreover have "table_get (interner_ops tbl) y (intern m') = Some nm" using ok1 names_keptD(1) [OF kept] by simp
    ultimately show ?thesis using find_child_known [OF ok' Some] by (simp add: ok_or_def)
  qed (simp add: find_child_def ok_or_def)
qed

text \<open>What a rename does to the names.\<close>

lemma rename_entries_names:
  assumes run: "rename_entries fd from td to m = Some (r, m')" and ok: "fsmap_ok tbl table_ok m"
  shows "intern m' = intern m \<and> next_fileid m' = next_fileid m \<and> (\<forall>j e'. fsmap_ids m' j = Some e' \<longrightarrow>
    (\<exists>e. fsmap_ids m j = Some e \<and> (ent_name e' = ent_name e \<or> ent_name e = from \<and> ent_name e' = to)))"
proof (cases "fsmap_paths m from")
  case None
  then show ?thesis using run by (simp add: rename_entries_def)
next
  case (Some i)
  then obtain e where e: "fsmap_ids m i = Some e" "ent_name e = from" using fsmap_ok_path [OF ok Some] by blast
  let ?m = "move_path from to i e m"
  have kept: "names_kept ?m m' \<and> next_fileid m' = next_fileid m"
  proof (cases "td = fd \<or> fsmap_ids (remove_child fd i ?m) td = None")
    case True
    then show ?thesis
      using run Some e names_kept_remove_child [of ?m fd i]
      by (auto simp: rename_entries_def run_simps Let_def move_path_def split: if_splits)
  next
    case False
    then have "add_child td i (remove_child fd i ?m) = Some (r, m')"
      using run Some e by (auto simp: rename_entries_def run_simps Let_def)
    from add_child_names [OF this] show ?thesis
      using names_kept_trans [OF names_kept_remove_child, of fd i ?m m'] by (simp add: move_path_def)
  qed
  have "\<exists>e. fsmap_ids m j = Some e \<and> (ent_name e' = ent_name e \<or> ent_name e = from \<and> ent_name e' = to)"
    if j: "fsmap_ids m' j = Some e'" for j e'
  proof -
    obtain e1 where "fsmap_ids ?m j = Some e1" "ent_name e' = ent_name e1"
      using names_keptD(2) [OF conjunct1 [OF kept] j] by blast
    then show ?thesis using e by (auto simp: move_path_def split: if_splits)
  qed
  with kept names_keptD(1) [OF conjunct1 [OF kept]] show ?thesis by (simp add: move_path_def)
qed

lemma refresh_entry_next:
  "refresh_entry os tbl exported i m = Some (q, m') \<Longrightarrow> names_kept m m' \<and> next_fileid m \<le> next_fileid m'"
  using refresh_entry_names [of os tbl exported i m q m'] growsD [OF grows_refresh_entry, of os tbl exported i m q m' table_ok "[]"]
  by (simp add: evolves_def)

lemma finish_rename_cases:
  assumes "finish_rename os tbl exported fd from td to m = Some (r, m')"
  obtains q m1 where "rename_entries fd from td to m = Some (q, m1)" "names_kept m1 m'" "next_fileid m1 \<le> next_fileid m'"
proof (cases "\<exists>e. rename_entries fd from td to m = Some (Err e, m')")
  case False
  then obtain m1 q1 m2 where m1: "rename_entries fd from td to m = Some (Ok (), m1)"
    and m2: "refresh_entry os tbl exported fd m1 = Some (q1, m2)"
    and m': "(if td \<noteq> fd then await (refresh_entry os tbl exported td) (\<lambda>_. ret ()) else ret ()) m2 = Some ((), m')"
    using assms by (auto simp: finish_rename_def os_ok_eq_Some await_eq_Some split del: if_split)
  have "names_kept m2 m' \<and> next_fileid m2 \<le> next_fileid m'"
    using m' by (auto simp: await_eq_Some dest: refresh_entry_next split: if_splits)
  with refresh_entry_next [OF m2] that [OF m1] show ?thesis using names_kept_trans [of m1 m2 m'] by simp
qed (use that in auto)

lemma rename_cases:
  assumes run: "MirrorFs_rename os tbl exported fd fn td tn m = Some (r, m')"
  obtains (early) w where "m' = m\<lparr> fsmap_world := w \<rparr>"
  | (moved) ef et w y m1 y' m2 where "fsmap_ids m fd = Some ef" "fsmap_ids m td = Some et"
      "intern_name tbl fn (m\<lparr> fsmap_world := w \<rparr>) = Some (y, m1)" "intern_name tbl tn m1 = Some (y', m2)"
      "finish_rename os tbl exported fd (ent_name ef @ [y]) td (ent_name et @ [y']) m2 = Some (r, m')"
proof (cases "fsmap_ids m fd = None \<or> fsmap_ids m td = None")
  case True
  then have "m' = m\<lparr> fsmap_world := fsmap_world m \<rparr>"
    using run by (auto simp: MirrorFs_rename_def find_entry_def ok_or_def run_simps split: option.splits)
  then show ?thesis by (rule early)
next
  case False
  then obtain ef et where e: "fsmap_ids m fd = Some ef" "fsmap_ids m td = Some et" by auto
  show ?thesis
    using run e
    by (auto simp: MirrorFs_rename_def find_entry_def ok_or_def Let_def run_simps split: if_splits intro: early moved)
qed

lemma rename_names:
  assumes run: "MirrorFs_rename os tbl exported fd fn td tn m = Some (r, m')"
    and ok: "fsmap_ok tbl table_ok m" "fsmap_room m'" and e': "fsmap_ids m' j = Some e'"
  shows "\<exists>e. fsmap_ids m j = Some e \<and> (ent_name e' = ent_name e \<or>
    (\<exists>ef et y y'. fsmap_ids m fd = Some ef \<and> fsmap_ids m td = Some et \<and> ent_name e = ent_name ef @ [y] \<and>
      ent_name e' = ent_name et @ [y'] \<and> table_get (interner_ops tbl) y (intern m') = Some fn \<and>
      table_get (interner_ops tbl) y' (intern m') = Some tn))"
  using run
proof (cases rule: rename_cases)
  case (early w)
  then show ?thesis using e' by simp
next
  case (moved ef et w y m1 y' m2)
  obtain q m3 where m3: "rename_entries fd (ent_name ef @ [y]) td (ent_name et @ [y']) m2 = Some (q, m3)" "names_kept m3 m'"
      "next_fileid m3 \<le> next_fileid m'" by (rule finish_rename_cases [OF moved(5)])
  have fine: "fsmap_room m2 \<Longrightarrow> fsmap_room m1"
    using moved(4) by (auto simp: intern_name_def fsmap_room_def split: option.splits)
  have mono: "next_fileid m2 \<le> next_fileid m3"
    using growsD [OF grows_rename_entries m3(1), of "ent_name et @ [y']"] by (simp add: evolves_def)
  then have room: "fsmap_room m2" using m3(3) ok(2) by (simp add: fsmap_room_def)
  note ok1 = intern_name_ok [OF moved(3) _ fine [OF room], simplified, OF ok(1)]
  then have "fsmap_ok tbl table_ok m1" by simp
  note ok2 = intern_name_ok [OF moved(4) this room]
  have "fsmap_ok tbl table_ok m2" using ok2 by simp
  note names = rename_entries_names [OF m3(1) this]
  have "table_get (interner_ops tbl) y (intern m2) = Some fn"
    using ok1 moved(4) intern_keeps by (auto simp: intern_name_def fsmap_ok_def split: option.splits)
  moreover obtain e3 where e3: "fsmap_ids m3 j = Some e3" "ent_name e' = ent_name e3"
    using names_keptD(2) [OF m3(2) e'] by blast
  ultimately show ?thesis
    using names ok1 ok2 names_keptD(1) [OF m3(2)] moved(1,2) by fastforce
qed

end

text \<open>
  C26: an object that was created is found under its name from then on: LOOKUP returns the id that
  CREATE, MKDIR or SYMLINK returned, without asking the operating system.
\<close>

theorem fsmap_create_lookup:
  assumes "checked_interner tbl table_ok" "fsmap_ok tbl table_ok m" "fsmap_room m'"
    and "create_fs_object os tbl exported d nm thing m = Some (Ok (i, a), m')"
  shows "MirrorFs_lookup os tbl exported d nm m' = Some (Ok i, m')"
  using checked_interner.create_lookup [OF assms(1,4,2,3)] by (simp add: MirrorFs_lookup_def)

text \<open>
  The map has no id for a name that was removed, so that the next LOOKUP asks the operating
  system.
\<close>

theorem fsmap_remove_forgets:
  assumes "checked_interner tbl table_ok" "fsmap_ok tbl table_ok m" "fsmap_room m'"
    and "MirrorFs_remove os tbl exported d nm m = Some (Ok (), m')"
  shows "find_child tbl d nm m' = Err NFS3ERR_NOENT"
  using checked_interner.remove_unknown [OF assms(1,4,2,3)] .


section \<open>Listings\<close>

lemma drop_search_filter:
  assumes "sorted ch" "distinct ch"
  shows "drop (case binary_search k ch 0 (length ch) of Ok pos \<Rightarrow> pos + 1 | Err pos \<Rightarrow> pos) ch = filter (\<lambda>i. k < i) ch"
proof -
  define p where "p = (case binary_search k ch 0 (length ch) of Ok pos \<Rightarrow> pos + 1 | Err pos \<Rightarrow> pos)"
  have strict: "sorted_wrt (<) ch" using assms by (simp add: strict_sorted_iff)
  have "search_result k ch (binary_search k ch 0 (length ch))"
    by (rule binary_search_result [OF assms(1)]) (auto simp: below_def above_def)
  then have p: "p \<le> length ch" "\<And>j. j < p \<Longrightarrow> ch ! j \<le> k" "\<And>j. p \<le> j \<Longrightarrow> j < length ch \<Longrightarrow> k < ch ! j"
    using sorted_wrt_nth_less [OF strict] sorted_nth_mono [OF assms(1)]
    by (auto simp: search_result_def p_def below_def above_def less_imp_le split: sum.splits)
  have "filter (\<lambda>i. k < i) (take p ch) = []" using p(1,2) by (fastforce simp: filter_empty_conv in_set_conv_nth dest: leD)
  moreover have "filter (\<lambda>i. k < i) (drop p ch) = drop p ch" using p(3) by (auto simp: filter_id_conv in_set_conv_nth)
  ultimately have "filter (\<lambda>i. k < i) (take p ch @ drop p ch) = drop p ch" by (simp only: filter_append append_Nil)
  then show ?thesis by (simp add: p_def)
qed

text \<open>
  A listing that starts after a cookie has exactly the children of the directory with larger ids,
  in increasing order, whether the child of the cookie is still there or not; so a client that
  goes on with the cookie of the last entry it got misses none of them and gets none twice.
\<close>

theorem fsmap_listing_resumes:
  assumes "checked_interner tbl table_ok" "fsmap_ok tbl table_ok m" "fsmap_room m'"
    and "FSMapIterator_new os tbl exported d start m = Some (Ok it, m')"
  shows "\<exists>e ch. fsmap_ids m' d = Some e \<and> children e = Some ch \<and> sorted ch \<and> iterator_index it = 0 \<and>
    (distinct ch \<longrightarrow> iterator_ids it = filter (\<lambda>i. start < i) ch)"
proof -
  have "fsmap_ok tbl table_ok m'"
    using growsD [OF checked_interner.grows_iterator_new [OF assms(1)] assms(4), of "[]"] assms(2,3) by (simp add: evolves_def)
  moreover obtain e ch where e: "fsmap_ids m' d = Some e" "children e = Some ch"
    and it: "it = \<lparr> iterator_ids = drop (case binary_search start ch 0 (length ch) of Ok pos \<Rightarrow> pos + 1 | Err pos \<Rightarrow> pos) ch, iterator_index = 0 \<rparr>"
    using assms(4) by (auto simp: FSMapIterator_new_def run_simps Let_def find_entry_def ok_or_def result_simps split: if_splits option.splits)
  ultimately have "sorted ch" using sorted_children by blast
  with e it show ?thesis using drop_search_filter [of ch start] by auto
qed

section \<open>Descendants\<close>

definition child_of :: "(fileid3 \<rightharpoonup> FSEntry) \<Rightarrow> fileid3 \<Rightarrow> fileid3 \<Rightarrow> bool" where
  "child_of ids i j \<longleftrightarrow> (\<exists>e ch. ids i = Some e \<and> children e = Some ch \<and> j \<in> set ch)"

definition descendants :: "(fileid3 \<rightharpoonup> FSEntry) \<Rightarrow> fileid3 list \<Rightarrow> fileid3 set" where
  "descendants ids is = {j. \<exists>i \<in> set is. (child_of ids)\<^sup>*\<^sup>* i j}"

lemma descendants_Cons: "descendants ids (i # is) = descendants ids [i] \<union> descendants ids is"
  by (auto simp: descendants_def)

lemma descendants_children:
  "descendants ids [i] = insert i (case ids i of None \<Rightarrow> {} | Some e \<Rightarrow> (case children e of None \<Rightarrow> {} | Some ch \<Rightarrow> descendants ids ch))"
proof -
  have "(child_of ids)\<^sup>*\<^sup>* i j \<longleftrightarrow> j = i \<or> (\<exists>c. child_of ids i c \<and> (child_of ids)\<^sup>*\<^sup>* c j)" for j
    by (metis converse_rtranclpE converse_rtranclp_into_rtranclp rtranclp.rtrancl_refl)
  then show ?thesis by (auto simp: descendants_def child_of_def split: option.split)
qed

text \<open>The call for one id, in the loop over several.\<close>

definition collect_below :: "(fileid3 \<rightharpoonup> FSEntry) \<Rightarrow> fileid3 \<Rightarrow> fileid3 list \<Rightarrow> fileid3 list option" where
  "collect_below ids i acc = (case ids i of None \<Rightarrow> Some (acc @ [i]) | Some entry \<Rightarrow> (case children entry of
     None \<Rightarrow> Some (acc @ [i]) | Some ch \<Rightarrow> collect_children ids ch (acc @ [i])))"

lemma collect_children_simps [simp]:
  "collect_children ids [] acc = Some acc"
  "collect_children ids (i # is) acc = Option.bind (collect_below ids i acc) (collect_children ids is)"
  by (simp_all add: collect_children.simps [of ids "[]"] collect_children.simps [of ids "i # is"] collect_below_def)

lemma collect_children_rank:
  assumes rank: "\<And>i j. child_of ids i j \<Longrightarrow> rank j < (rank i :: nat)"
  shows "\<forall>i \<in> set is. rank i < n \<Longrightarrow> \<exists>out. collect_children ids is acc = Some (acc @ out) \<and> set out = descendants ids is"
proof (induction n arbitrary: "is" acc)
  case 0
  then show ?case by (cases "is") (auto simp: descendants_def)
next
  case (Suc n)
  have one: "\<exists>out. collect_below ids i acc = Some (acc @ out) \<and> set out = descendants ids [i]" if "rank i < Suc n" for i acc
  proof (cases "\<exists>e ch. ids i = Some e \<and> children e = Some ch")
    case True
    then obtain e ch where e: "ids i = Some e" "children e = Some ch" by blast
    have "\<forall>j \<in> set ch. rank j < n" using rank [of i] e that by (fastforce simp: child_of_def)
    from Suc.IH [OF this, of "acc @ [i]"] e show ?thesis by (auto simp: collect_below_def descendants_children [of ids i])
  qed (auto simp: collect_below_def descendants_children [of ids i] split: option.splits)
  from Suc.prems show ?case
  proof (induction "is" arbitrary: acc)
    case (Cons i "is")
    obtain out where out: "collect_below ids i acc = Some (acc @ out)" "set out = descendants ids [i]"
      using one [of i acc] Cons.prems by auto
    obtain out' where "collect_children ids is (acc @ out) = Some (acc @ out @ out')" "set out' = descendants ids is"
      using Cons.IH [of "acc @ out"] Cons.prems by auto
    then show ?case using out descendants_Cons [of ids i "is"] by (intro exI [of _ "out @ out'"]) simp
  qed (simp add: descendants_def)
qed

lemma collect_children_cycle:
  assumes "\<And>i. i \<in> C \<Longrightarrow> \<exists>j \<in> C. child_of ids i j"
  shows "collect_children ids is acc = Some out \<Longrightarrow> set is \<inter> C = {}"
proof -
  let ?P = "\<lambda>t is acc out. t = ids \<longrightarrow> set is \<inter> C = {}"
  assume run: "collect_children ids is acc = Some out"
  have "?P ids is acc out"
  proof (rule collect_children.raw_induct [where P = ?P, OF _ run], goal_cases)
    case (1 f t "is" acc out)
    show ?case
    proof (cases "is")
      case (Cons i is')
      have "i \<notin> C" if t: "t = ids"
      proof
        assume "i \<in> C"
        then obtain e ch j where e: "ids i = Some e" "children e = Some ch" "j \<in> set ch" "j \<in> C"
          using assms [of i] by (auto simp: child_of_def)
        then obtain acc' where "f t ch (acc @ [i]) = Some acc'"
          using 1(2) Cons t by (cases "f t ch (acc @ [i])") auto
        from 1(1) [OF this] t e show False by blast
      qed
      moreover obtain acc' where "f t is' acc' = Some out" using 1(2) Cons by (auto simp: bind_eq_Some_conv)
      ultimately show ?thesis using 1(1) Cons by fastforce
    qed simp
  qed
  then show ?thesis by simp
qed

text \<open>
  C35: the removal of an entry that is gone ends if the children of directories have smaller ranks
  than the directories; it then forgets the entry and all its descendants, and nothing else.  It does not
  end, and the server overflows its stack, if the entry is among directories each of which
  has one of them as a child.
\<close>

theorem delete_entry_spec:
  "((\<forall>i j. child_of (fsmap_ids m) i j \<longrightarrow> rank j < (rank i :: nat)) \<longrightarrow>
     (\<exists>m'. delete_entry i m = Some ((), m') \<and>
       fsmap_ids m' = (\<lambda>j. if j \<in> descendants (fsmap_ids m) [i] then None else fsmap_ids m j))) \<and>
   (i \<in> C \<and> (\<forall>i \<in> C. \<exists>j \<in> C. child_of (fsmap_ids m) i j) \<longrightarrow> delete_entry i m = None)"
proof (intro conjI impI)
  assume rank: "\<forall>i j. child_of (fsmap_ids m) i j \<longrightarrow> rank j < (rank i :: nat)"
  obtain out where out: "collect_all_children i [] m = Some out" "set out = descendants (fsmap_ids m) [i]"
    using collect_children_rank [of "fsmap_ids m" rank "[i]" "Suc (rank i)" "[]"] rank
    by (auto simp: collect_all_children_def)
  have "fsmap_ids (fold remove_id is m) = (\<lambda>j. if j \<in> set is then None else fsmap_ids m j)" for "is"
    by (induction "is" arbitrary: m) (auto simp: remove_id_def split: option.splits)
  with out show "\<exists>m'. delete_entry i m = Some ((), m') \<and>
      fsmap_ids m' = (\<lambda>j. if j \<in> descendants (fsmap_ids m) [i] then None else fsmap_ids m j)"
    by (simp add: delete_entry_def)
next
  assume C: "i \<in> C \<and> (\<forall>i \<in> C. \<exists>j \<in> C. child_of (fsmap_ids m) i j)"
  then have "collect_all_children i [] m = None"
    using collect_children_cycle [of C "fsmap_ids m" "[i]"] by (cases "collect_children (fsmap_ids m) [i] []") (auto simp: collect_all_children_def)
  then show "delete_entry i m = None" by (simp add: delete_entry_def)
qed

section \<open>A server over the file system\<close>

lemma fsmap_served:
  assumes "checked_interner tbl table_ok"
  shows "served_vfs (MirrorFs os tbl exported) (\<lambda>m. fsmap_room m \<longrightarrow> fsmap_ok tbl table_ok m) (\<lambda>_. True)"
proof
  let ?P = "\<lambda>m. fsmap_room m \<longrightarrow> fsmap_ok tbl table_ok m"
  fix ctx m st r st'
  assume v: "vfs ctx = MirrorFs os tbl exported" and kept: "?P (vfs_state st)" and run: "dispatch ctx m st = Some (r, st')"
  have look: "keeps ?P (MirrorFs_lookup os tbl exported i nm) ?P" for i nm
    by (rule checked_interner.grows_keeps [OF assms checked_interner.grows_lookup [OF assms]])
  have "keeps ?P (handle_nfs (ctx\<lparr> vfs := MirrorFs os tbl exported \<rparr>) m) ?P"
    by (rule vfs_keeps.keeps_handle_nfs [OF checked_interner.MirrorFs_keeps [OF assms]])
  then have "keeps ?P (handle_nfs ctx m) ?P" unfolding keeps_vfs_ctx [OF v] .
  moreover have "keeps ?P (vfs_lookup_by_path (vfs ctx) path) ?P" for path
  proof (rule keepsI)
    fix s x s' assume s: "?P s" "vfs_lookup_by_path (vfs ctx) path s = Some (x, s')"
    then have "lookup_components (MirrorFs_lookup os tbl exported) 0 (split_delimiter DELIMITER path) s = Some (x, s')"
      by (simp add: v MirrorFs_def default_lookup_by_path_def)
    then show "?P s'" by (rule keepsD [OF keeps_lookup_components [OF look] s(1)])
  qed
  ultimately show "?P (vfs_state st')" using dispatch_keeps_vfs [of ?P ctx m st r st'] kept run by blast
qed

interpretation served_fsmap: served_vfs "MirrorFs os list_interned exported"
  "\<lambda>m. fsmap_room m \<longrightarrow> fsmap_ok list_interned list_table_ok m" "\<lambda>_. True" for os exported
  by (rule fsmap_served [OF list_interned.checked_interner_axioms])

lemma fsmap_new_ok:
  assumes "checked_interner tbl table_ok" "fsmap_new os tbl exported w = Some m"
  shows "fsmap_ok tbl table_ok m"
proof -
  have "table_ok (table_new (interner_ops tbl))"
    using assms(1) by (simp add: checked_interner_def interner_def)
  then show ?thesis
    using assms(2) by (auto simp: fsmap_new_def fsmap_ok_def paths_ok_def entry_ok_def split: prod.splits sum.splits if_splits)
qed

text \<open>
  C25: in every state of a server over the example file system, whatever its clients do, the paths lead
  to entries with these paths, all symbols are interned and the children are sorted, unless the
  ids have run out.
\<close>

theorem fsmap_server_ok:
  assumes "checked_interner tbl table_ok" "fsmap_new os tbl exported w0 = Some m0"
    and "bind net start addr (MirrorFs os tbl exported) w = (Ok l, w')" "server_reachable l m0 s"
    and "fsmap_room (vfs_state (shared s))"
  shows "fsmap_ok tbl table_ok (vfs_state (shared s))"
proof -
  note l = bind_listener [OF assms(3)]
  have "server_ok (\<lambda>m. fsmap_room m \<longrightarrow> fsmap_ok tbl table_ok m) (MirrorFs os tbl exported) s"
    by (rule served_vfs.reachable_ok [OF fsmap_served [OF assms(1)] assms(4)])
       (use l fsmap_new_ok [OF assms(1,2)] in \<open>auto simp: message_allowed_def\<close>)
  with assms(5) show ?thesis by (simp add: server_ok_def)
qed

section \<open>Examples\<close>

definition example_dir_os :: "(nat, bytes, bytes list) os" where
  "example_dir_os = example_os\<lparr> os_create := (\<lambda>p w. (Ok p, w)), os_remove_file := (\<lambda>p w. (Ok (), w)),
     os_rename := (\<lambda>p q w. (Ok (), w)), os_metadata_of := (\<lambda>p w. (Ok (example_meta Directory 0), w)) \<rparr>"

definition example_entry :: "fileid3 \<Rightarrow> file_type \<Rightarrow> u64 \<Rightarrow> Symbol list \<Rightarrow> fileid3 list option \<Rightarrow> FSEntry" where
  "example_entry i t n nm ch = \<lparr> ent_name = nm, fsmeta = metadata_to_fattr3 i (example_meta t n),
     children_meta = metadata_to_fattr3 i (example_meta t n), children = ch \<rparr>"

definition example_map :: "(nat, bytes list) FSMap" where
  "example_map = \<lparr> fsmap_world = 0, next_fileid = 1, intern = [], fsmap_ids = [0 \<mapsto> example_entry 1 Directory 0 [] None],
     fsmap_paths = [[] \<mapsto> 0] \<rparr>"

lemma example_map_new: "fsmap_new example_dir_os list_interned [47, 120, 47] 0 = Some example_map"
  by (simp add: fsmap_new_def example_dir_os_def example_map_def example_entry_def list_table_def)

lemma example_map_ok: "fsmap_ok list_interned list_table_ok example_map" "fsmap_room example_map"
  using fsmap_new_ok [OF list_interned.checked_interner_axioms example_map_new] by (simp_all add: fsmap_room_def example_map_def)

lemma example_dir_os:
  "os_symlink_metadata example_dir_os p w = (Ok (if p = [47, 120, 47] then example_meta Directory 0 else example_meta RegularFile 3), w)"
  "os_create example_dir_os p w = (Ok p, w)" "os_remove_file example_dir_os p w = (Ok (), w)"
  "os_rename example_dir_os p q w = (Ok (), w)" "os_read_dir example_dir_os p w = (Ok [[97], [98]], w)"
  by (simp_all add: example_dir_os_def example_os_def)

lemmas fsmap_eval = refresh_entry_def await_def get_map_def put_map_def unwrap_def ret_def panic_def on_os_def os_ok_def
  map_err_def os_call_def exists_no_traverse_def sym_to_path_def set_entry_def find_entry_def ok_or_def Let_def
  example_dir_os example_meta_def example_entry_def fattr3_differ_def metadata_to_fattr3_def path_push_def

lemma example_getattr:
  "\<exists>a m'. MirrorFs_getattr example_dir_os list_interned [47, 120, 47] 0 example_map = Some (Ok a, m')"
  by (simp add: MirrorFs_getattr_def example_map_def fsmap_eval)

theorem fsmap_getattr_fresh_witness:
  "\<exists>a m'. MirrorFs_getattr example_dir_os list_interned [47, 120, 47] 0 example_map = Some (Ok a, m') \<and>
     fattr3.fileid a = 0"
proof -
  obtain a m' where run: "MirrorFs_getattr example_dir_os list_interned [47, 120, 47] 0 example_map = Some (Ok a, m')"
    using example_getattr by blast
  from fsmap_getattr_fresh [OF run] run show ?thesis by blast
qed

text \<open>The map after the file \<^verbatim>\<open>c\<close> was created.\<close>

definition example_created :: "(nat, bytes list) FSMap" where
  "example_created = \<lparr> fsmap_world = 0, next_fileid = 2, intern = [[99]],
     fsmap_ids = [0 \<mapsto> (example_entry 1 Directory 0 [] None)\<lparr> fsmeta := metadata_to_fattr3 0 (example_meta Directory 0) \<rparr>,
       1 \<mapsto> example_entry 1 RegularFile 3 [0] None],
     fsmap_paths = [[] \<mapsto> 0, [0] \<mapsto> 1] \<rparr>"

lemma example_create:
  "create_fs_object example_dir_os list_interned [47, 120, 47] 0 [99] (CreateFile sattr3_default) example_map =
     Some (Ok (1, metadata_to_fattr3 1 (example_meta RegularFile 3)), example_created)"
  by (simp add: create_fs_object_def example_map_def make_object_def file_setattr_def sattr3_default_def intern_name_def
      make_entry_def create_entry_def add_child_def list_table_def example_created_def fsmap_eval)

theorem fsmap_create_lookup_witness:
  "MirrorFs_lookup example_dir_os list_interned [47, 120, 47] 0 [99] example_created = Some (Ok 1, example_created)"
  using fsmap_create_lookup [OF list_interned.checked_interner_axioms example_map_ok(1) _ example_create]
  by (simp add: fsmap_room_def example_created_def)

lemma example_created_ok: "fsmap_ok list_interned list_table_ok example_created"
proof -
  have "evolves list_interned list_table_ok [] example_map example_created"
    by (rule growsD [OF list_interned.grows_create_fs_object example_create])
  then show ?thesis using example_map_ok(1) by (simp add: evolves_def fsmap_room_def example_created_def)
qed

lemma example_remove:
  "\<exists>m'. MirrorFs_remove example_dir_os list_interned [47, 120, 47] 0 [99] example_created = Some (Ok (), m') \<and> next_fileid m' = 2"
  by (simp add: MirrorFs_remove_def example_created_def intern_name_def list_table_def forget_path_def remove_child_def fsmap_eval)

theorem fsmap_remove_forgets_witness:
  "\<exists>m'. MirrorFs_remove example_dir_os list_interned [47, 120, 47] 0 [99] example_created = Some (Ok (), m') \<and>
     find_child list_interned 0 [99] m' = Err NFS3ERR_NOENT"
proof -
  obtain m' where run: "MirrorFs_remove example_dir_os list_interned [47, 120, 47] 0 [99] example_created = Some (Ok (), m')"
    "next_fileid m' = 2" using example_remove by blast
  from fsmap_remove_forgets [OF list_interned.checked_interner_axioms example_created_ok _ run(1)] run
  show ?thesis by (simp add: fsmap_room_def)
qed

text \<open>The file \<^verbatim>\<open>c\<close> is renamed to \<^verbatim>\<open>d\<close>.\<close>

lemma example_rename:
  "\<exists>m' e'. MirrorFs_rename example_dir_os list_interned [47, 120, 47] 0 [99] 0 [100] example_created = Some (Ok (), m') \<and>
     next_fileid m' = 2 \<and> fsmap_ids m' 1 = Some e' \<and> ent_name e' = [1]"
  by (simp add: MirrorFs_rename_def finish_rename_def rename_entries_def move_path_def example_created_def intern_name_def
      list_table_def fsmap_eval)


text \<open>A listing of the directory, with the files \<^verbatim>\<open>a\<close> and \<^verbatim>\<open>b\<close>.\<close>

lemma example_loop:
  "list_loop example_dir_os tbl path cur [] acc m = Some (Ok acc, m)"
  "list_loop example_dir_os tbl path cur (nm # nms) acc m =
     Option.bind (list_entry example_dir_os tbl path cur nm m) (\<lambda>(i, m). list_loop example_dir_os tbl path cur nms (acc @ [i]) m)"
  by (subst list_loop.simps, simp add: on_os_def os_call_def example_dir_os_def example_os_def)+

lemma example_search: "binary_search (1 :: fileid3) [1, 2] 0 2 = Ok 0"
  by (simp add: binary_search.simps [of _ _ 0 2] binary_search.simps [of _ _ 0 "Suc 0"])

lemma example_listing:
  "\<exists>it m' e. FSMapIterator_new example_dir_os list_interned [47, 120, 47] 0 1 example_map = Some (Ok it, m') \<and>
     next_fileid m' = 3 \<and> fsmap_ids m' 0 = Some e \<and> children e = Some [1, 2]"
  by (simp add: FSMapIterator_new_def refresh_dir_list_def example_loop list_entry_def intern_name_def make_entry_def
      create_entry_def example_search example_map_def list_table_def fsmap_eval)

theorem fsmap_listing_resumes_witness:
  "\<exists>it m'. FSMapIterator_new example_dir_os list_interned [47, 120, 47] 0 1 example_map = Some (Ok it, m') \<and> iterator_ids it = [2]"
proof -
  obtain it m' e where run: "FSMapIterator_new example_dir_os list_interned [47, 120, 47] 0 1 example_map = Some (Ok it, m')"
    and m': "next_fileid m' = 3" "fsmap_ids m' 0 = Some e" "children e = Some [1, 2]" using example_listing by blast
  have "fsmap_room m'" using m'(1) by (simp add: fsmap_room_def)
  from fsmap_listing_resumes [OF list_interned.checked_interner_axioms example_map_ok(1) this run] m' run
  show ?thesis by auto
qed

text \<open>Two directories that are children of each other.\<close>

definition example_cycle :: "(nat, bytes list) FSMap" where
  "example_cycle = example_map\<lparr> fsmap_ids := [1 \<mapsto> example_entry 1 Directory 0 [0] (Some [2]), 2 \<mapsto> example_entry 2 Directory 0 [1] (Some [1])] \<rparr>"

theorem delete_entry_spec_witness:
  "(\<exists>m'. delete_entry 0 example_map = Some ((), m') \<and> fsmap_ids m' 0 = None) \<and> delete_entry 1 example_cycle = None"
proof
  have "\<forall>i j. child_of (fsmap_ids example_map) i j \<longrightarrow> (0 :: nat) < 0"
    by (simp add: child_of_def example_map_def example_entry_def)
  then show "\<exists>m'. delete_entry 0 example_map = Some ((), m') \<and> fsmap_ids m' 0 = None"
    using delete_entry_spec [of example_map "\<lambda>_. 0" 0 "{}"] descendants_children [of _ 0] by auto
next
  have "\<forall>i \<in> {1, 2}. \<exists>j \<in> {1, 2}. child_of (fsmap_ids example_cycle) i j"
    by (simp add: child_of_def example_cycle_def example_entry_def)
  then show "delete_entry 1 example_cycle = None"
    using delete_entry_spec [of example_cycle "\<lambda>_. 0" 1 "{1, 2}"] by auto
qed

theorem fsmap_server_ok_witness:
  "\<exists>st. server_reachable (example_listener (MirrorFs example_dir_os list_interned [47, 120, 47])) example_map
       (example_served (MirrorFs example_dir_os list_interned [47, 120, 47]) st) \<and>
     fsmap_ok list_interned list_table_ok (vfs_state st)"
proof -
  let ?v = "MirrorFs example_dir_os list_interned [47, 120, 47]"
  obtain st where run: "server_reachable (example_listener ?v) example_map (example_served ?v st)" and st: "vfs_state st = example_map"
    using example_run [of ?v example_map] by (auto simp: server_reachable_def)
  have "fsmap_room (vfs_state (shared (example_served ?v st)))" using example_map_ok(2) st by (simp add: example_served_def)
  from fsmap_server_ok [OF list_interned.checked_interner_axioms example_map_new example_bind run this] run
  show ?thesis by (auto simp: example_served_def)
qed

end
