(* ===== verification/Format_Number.thy ===== *)
theory Format_Number
  imports Threshold_Logger
begin

text \<open>
  The message of the threshold logger (\<^verbatim>\<open>format_number\<close> of
  \<^verbatim>\<open>cargo_nfs3_server/src/threshold_logger.rs\<close>).  The quotients of the source are \<^verbatim>\<open>f64\<close>
  values: the exact quotient, rounded to 53 binary digits, is printed with a fixed number of
  decimal digits; both roundings are to the nearest value, ties to even.
\<close>

section \<open>Printing\<close>

text \<open>The quotient of two numbers, rounded to the nearest integer, ties to even.\<close>

definition round_div :: "nat \<Rightarrow> nat \<Rightarrow> nat" where
  "round_div a b =
     (let q = a div b; r = a mod b in if 2 * r < b \<or> 2 * r = b \<and> even q then q else q + 1)"

fun log2_floor :: "nat \<Rightarrow> nat" where
  "log2_floor n = (if n < 2 then 0 else Suc (log2_floor (n div 2)))"

declare log2_floor.simps [simp del]

text \<open>
  The \<^verbatim>\<open>f64\<close> quotient of two integers below \<open>2 ^ 53\<close>, the first not below the second: the pair
  \<open>(m, e)\<close> is the number \<open>m / 2 ^ e\<close>.
\<close>

definition f64_div :: "nat \<Rightarrow> nat \<Rightarrow> nat \<times> nat" where
  "f64_div n d = (let e = 52 - log2_floor (n div d) in (round_div (n * 2 ^ e) d, e))"

text \<open>\<^verbatim>\<open>{:.p}\<close>: the number of units of the last decimal place, and its digits.\<close>

definition fixed_units :: "nat \<Rightarrow> nat \<times> nat \<Rightarrow> nat" where
  "fixed_units p x = round_div (fst x * 10 ^ p) (2 ^ snd x)"

definition format_fixed :: "nat \<Rightarrow> nat \<times> nat \<Rightarrow> string" where
  "format_fixed p x =
     (let u = fixed_units p x; frac = decimal (u mod 10 ^ p)
      in decimal (u div 10 ^ p) @ ''.'' @ replicate (p - length frac) (CHR ''0'') @ frac)"

definition with_unit :: "nat \<Rightarrow> nat \<Rightarrow> nat \<Rightarrow> string \<Rightarrow> string" where
  "with_unit n d p sfx =
     (if n mod d = 0 then decimal (n div d) @ sfx else format_fixed p (f64_div n d) @ sfx)"

definition format_number :: "nat \<Rightarrow> string" where
  "format_number n =
     (if n \<le> 999999 then decimal n
      else if n \<le> 9999999 then with_unit n 1000 2 ''K''
      else if n \<le> 99999999 then with_unit n 1000000 2 ''M''
      else if n \<le> 999999999 then with_unit n 1000000 1 ''M''
      else if n \<le> 9999999999 then with_unit n 1000000000 2 ''B''
      else if n \<le> 99999999999 then with_unit n 1000000000 1 ''B''
      else decimal (n div 1000000000) @ ''B'')"

text \<open>The fields of the message that \<^verbatim>\<open>check_and_log\<close> writes, if it writes one.\<close>

definition log_message :: "nat \<Rightarrow> ThresholdLogger \<Rightarrow> (string \<times> nat \<times> string) option" where
  "log_message sz l =
     (if fst (check_and_log sz l) then Some (logger_name l, sz, format_number sz) else None)"

section \<open>Rounding\<close>

lemma round_div_error:
  assumes "0 < b"
  shows "2 * (round_div a b * b) \<le> 2 * a + b" "2 * a \<le> 2 * (round_div a b * b) + b"
proof -
  have a: "2 * a = 2 * (a div b * b) + 2 * (a mod b)" by (metis div_mult_mod_eq distrib_left)
  have r: "a mod b < b" using assms by simp
  show "2 * (round_div a b * b) \<le> 2 * a + b" "2 * a \<le> 2 * (round_div a b * b) + b"
    unfolding a by (auto simp: round_div_def Let_def algebra_simps) (use r in linarith)+
qed

lemma log2_floor_less: "n < 2 ^ Suc k \<Longrightarrow> log2_floor n \<le> k"
proof (induction k arbitrary: n)
  case (Suc k)
  then show ?case by (subst log2_floor.simps) auto
qed (simp add: log2_floor.simps)

text \<open>
  The decimal digits that are printed for a quotient differ from it by less than one unit of the
  last place.
\<close>

lemma fixed_units_error:
  assumes d: "0 < d" and n: "n div d < 2 ^ 14" and p: "10 ^ p \<le> (2 :: nat) ^ 38"
  shows "fixed_units p (f64_div n d) * d < n * 10 ^ p + d" "n * 10 ^ p < fixed_units p (f64_div n d) * d + d"
proof -
  define e where "e = 52 - log2_floor (n div d)"
  define m where "m = round_div (n * 2 ^ e) d"
  define u where "u = fixed_units p (f64_div n d)"
  have u: "u = round_div (m * 10 ^ p) (2 ^ e)" by (simp add: u_def fixed_units_def f64_div_def Let_def e_def m_def)
  have "log2_floor (n div d) \<le> 13" using log2_floor_less [of "n div d" 13] n by simp
  then have "38 < e" by (simp add: e_def)
  then have "(2 :: nat) ^ 38 < 2 ^ e" by (rule power_strict_increasing) simp
  then have pe: "10 ^ p < (2 :: nat) ^ e" using p by simp
  have m: "2 * (m * d) \<le> 2 * (n * 2 ^ e) + d" "2 * (n * 2 ^ e) \<le> 2 * (m * d) + d"
    using round_div_error [OF d, of "n * 2 ^ e"] by (simp_all add: m_def)
  have k: "2 * (u * 2 ^ e) \<le> 2 * (m * 10 ^ p) + 2 ^ e" "2 * (m * 10 ^ p) \<le> 2 * (u * 2 ^ e) + 2 ^ e"
    using round_div_error [of "2 ^ e" "m * 10 ^ p"] by (simp_all add: u)
  have dp: "d * 10 ^ p < d * 2 ^ e" using d pe by simp
  have "2 * (u * d) * 2 ^ e \<le> 2 * (m * d) * 10 ^ p + d * 2 ^ e"
    using mult_right_mono [OF k(1), of d] by (simp add: algebra_simps)
  also have "\<dots> \<le> (2 * (n * 2 ^ e) + d) * 10 ^ p + d * 2 ^ e" using m(1) by simp
  also have "\<dots> < (2 * (n * 10 ^ p) + 2 * d) * 2 ^ e" using dp by (simp add: algebra_simps)
  finally show "u * d < n * 10 ^ p + d" by simp
  have "2 * (n * 10 ^ p) * 2 ^ e \<le> (2 * (m * d) + d) * 10 ^ p"
    using mult_right_mono [OF m(2), of "10 ^ p"] by (simp add: algebra_simps)
  also have "\<dots> < 2 * (m * 10 ^ p) * d + d * 2 ^ e" using dp by (simp add: algebra_simps)
  also have "\<dots> \<le> (2 * (u * 2 ^ e) + 2 ^ e) * d + d * 2 ^ e" using k(2) by simp
  also have "\<dots> = (2 * (u * d) + 2 * d) * 2 ^ e" by (simp add: algebra_simps)
  finally show "n * 10 ^ p < u * d + d" by simp
qed

section \<open>The length of the text\<close>

lemma length_decimal: "n < 10 ^ Suc k \<Longrightarrow> length (decimal n) \<le> Suc k"
proof (induction k arbitrary: n)
  case (Suc k)
  then have "n div 10 < 10 ^ Suc k" by (simp add: less_mult_imp_div_less)
  from Suc.IH [OF this] show ?case by (subst decimal.simps) simp
qed (simp add: decimal.simps)

lemma length_with_unit:
  assumes d: "0 < d" and n: "n div d < 10 ^ Suc k" "k \<le> 3" and p: "0 < p" "p \<le> 2"
  shows "length (with_unit n d p sfx) \<le> k + p + 3 + length sfx"
proof -
  define u where "u = fixed_units p (f64_div n d)"
  have "(10 :: nat) ^ Suc k \<le> 10 ^ 4" using n(2) by (intro power_increasing) simp_all
  then have small: "n div d < 2 ^ 14" using n(1) by simp
  have "(10 :: nat) ^ p \<le> 10 ^ 2" using p(2) by (intro power_increasing) simp_all
  then have "u * d < n * 10 ^ p + d" using fixed_units_error(1) [OF d small, of p] by (simp add: u_def)
  also have "\<dots> \<le> ((n div d + 1) * d) * 10 ^ p + d"
    using d by (simp add: dividend_less_div_times less_imp_le)
  also have "\<dots> = ((n div d + 1) * 10 ^ p + 1) * d" by (simp add: algebra_simps)
  finally have "u < (n div d + 1) * 10 ^ p + 1" by (simp only: mult_less_cancel2)
  then have "u \<le> (n div d + 1) * 10 ^ p" by simp
  then have "u div 10 ^ p \<le> (n div d + 1) * 10 ^ p div 10 ^ p" by (rule div_le_mono)
  then have "u div 10 ^ p \<le> n div d + 1" by simp
  then have "length (decimal (u div 10 ^ p)) \<le> Suc (Suc k)" using n(1) by (intro length_decimal) simp
  moreover have "length (decimal (u mod 10 ^ p)) \<le> p" using length_decimal [of "u mod 10 ^ p" "p - 1"] p(1) by simp
  moreover have "length (decimal (n div d)) \<le> Suc k" by (rule length_decimal [OF n(1)])
  ultimately show ?thesis by (simp add: with_unit_def format_fixed_def Let_def u_def)
qed

text \<open>
  The text has at most seven characters, as its documentation says, for all numbers below
  \<open>10 ^ 15\<close> but those from one to ten millions: these can take up to nine.
\<close>

theorem format_number_length:
  assumes "n < 10 ^ 15"
  shows "length (format_number n) \<le> (if 10 ^ 6 \<le> n \<and> n < 10 ^ 7 then 9 else 7)"
proof -
  have plain: "n \<le> 999999 \<Longrightarrow> length (decimal n) \<le> 6" using length_decimal [of n 5] by simp
  have kilo: "n \<le> 9999999 \<Longrightarrow> length (with_unit n 1000 2 ''K'') \<le> 9" using length_with_unit [of 1000 n 3 2 "''K''"] by simp
  have mega: "n \<le> 99999999 \<Longrightarrow> length (with_unit n 1000000 2 ''M'') \<le> 7"
    "n \<le> 999999999 \<Longrightarrow> length (with_unit n 1000000 1 ''M'') \<le> 7"
    using length_with_unit [of 1000000 n 1 2 "''M''"] length_with_unit [of 1000000 n 2 1 "''M''"] by simp_all
  have giga: "n \<le> 9999999999 \<Longrightarrow> length (with_unit n 1000000000 2 ''B'') \<le> 6"
    "n \<le> 99999999999 \<Longrightarrow> length (with_unit n 1000000000 1 ''B'') \<le> 6"
    using length_with_unit [of 1000000000 n 0 2 "''B''"] length_with_unit [of 1000000000 n 1 1 "''B''"] by simp_all
  have big: "length (decimal (n div 1000000000)) \<le> 6" using length_decimal [of "n div 1000000000" 5] assms by simp
  show ?thesis unfolding format_number_def using plain kilo mega giga big by (auto intro: le_trans [of _ 6 7])
qed

lemmas format_eval = format_number_def with_unit_def format_fixed_def fixed_units_def f64_div_def round_div_def Let_def
  decimal.simps log2_floor.simps digit_eval

lemma format_number_long: "format_number 9999999 = ''10000.00K''"
  by (simp add: format_eval)

end
