(* ===== verification/Spec2Isabelle.thy ===== *)
theory Spec2Isabelle
  imports Client_Download_Props Client_Ls_Props Server_Main Mount_Props Codec_Props Mirror_Props Tcp_Props Fs_Map_Props Format_Number
begin

text \<open>
  A verification of \<^verbatim>\<open>nfs3\<close>, a library for NFS version 3 servers and clients in Rust, with the server
  program and the file systems that come with it.

  \<^bold>\<open>The program.\<close>  A client packs a call in XDR, frames it as a record and writes it to a connection.  The
  server cuts the bytes of a connection into messages, runs every message as a task of its own,
  refuses retransmissions with the help of a transaction tracker that all connections share, and
  dispatches by program number to the port mapper, MOUNT or NFS procedures.  These call a file system behind the
  traits of \<^verbatim>\<open>vfs\<close>: the in-memory file system, the mirror of a directory of the operating system in
  the server program, the mirror among the examples, or one of these behind the read-only adapter.

  \<^bold>\<open>Conventions.\<close>  Rust's \<^verbatim>\<open>Result\<close> is a sum with the error on the left.  An operation with state is a
  function from the state to an option of the result and the new state; \<^const>\<open>None\<close> is a panic, which
  includes arithmetic overflow.  Machine integers are words; lengths of buffers are natural numbers,
  instants are natural numbers.  Loops are recursive functions with a termination proof where they
  end, and \<open>partial_function (option)\<close> where the operating system, the peer or a cycle in the data can
  keep them going.  Code outside the repository is a parameter: the operating system, sockets, the
  clock, the iteration order of hash sets, random numbers, the table of the crate \<^verbatim>\<open>intaglio\<close>, and
  the executor of the client.

  \<^bold>\<open>The theories,\<close> each with what it models and what it shows:

  \<^item> \<open>Prelude\<close>: results, byte orders, exact reads; the collections of rules.  \<open>Binary_Search\<close>: the search of
    the Rust library, and its result on sorted lists.
  \<^item> \<open>Xdr_Codec\<close> (\<^verbatim>\<open>nfs3_types/src/xdr_codec\<close>): \<^verbatim>\<open>Pack\<close> and \<^verbatim>\<open>Unpack\<close> of the basic types as records
    of functions.  The locales of codecs state sizes, round trips, prefixes and totality.  \<open>Xdr_Derive\<close>
    (\<^verbatim>\<open>nfs3_macros\<close>): what the macro generates, as combinators that keep these laws.
  \<^item> \<open>Rpc_Types\<close>, \<open>Portmap_Types\<close>, \<open>Mount_Types\<close>, \<open>Nfs3_Types\<close>, \<open>Nfs3_Messages\<close> (\<^verbatim>\<open>nfs3_types/src\<close>): all
    data types with their codecs, which are shown lawful.  \<open>Codec_Props\<close> collects this for whole
    messages and for the arguments and results of the procedures.
  \<^item> \<open>File_Handle\<close>, \<open>Vfs\<close> (\<^verbatim>\<open>nfs3_server/src/vfs\<close>): handles with the generation of the server, the traits
    as records of operations, default methods, iterators and the read-only adapter.
  \<^item> \<open>Mem_Fs\<close> (\<^verbatim>\<open>nfs3_server/src/memfs\<close>): the in-memory file system.  \<open>Mem_Fs_Tree\<close> and \<open>Mem_Fs_Ops\<close>: its
    entries form a tree, under every operation.  \<open>Mem_Fs_Props\<close>: reachable states, what reads, writes,
    creation, removal, renaming and attributes do, and that the operations return.
  \<^item> \<open>Rpc_Messages\<close>, \<open>Nfs_Handlers\<close>, \<open>Mount_Handlers\<close>, \<open>Portmap_Handlers\<close> (\<^verbatim>\<open>nfs_handlers.rs\<close>,
    \<^verbatim>\<open>mount_handlers.rs\<close>, \<^verbatim>\<open>portmap_handlers.rs\<close>, \<^verbatim>\<open>rpcwire/messages.rs\<close>): calls, replies and every
    procedure.  \<open>Nfs_Handlers_Props\<close>: size limits of listings, handles that are refused, and the locales
    \<open>vfs_reads\<close>, \<open>vfs_keeps\<close> and \<open>vfs_invariant\<close>, which carry an invariant of a file system over to the
    dispatcher.  \<open>Memfs_Server\<close> and \<open>Mount_Props\<close> apply them to the in-memory file system.
  \<^item> \<open>Transaction_Tracker\<close> (\<^verbatim>\<open>transaction_tracker.rs\<close>): the tracker with a store for the records that are
    shared, a step relation for its users, its invariant, and that it never panics.
  \<^item> \<open>Rpc_Wire\<close>, \<open>Rpc_Wire_Props\<close>, \<open>Server\<close> (\<^verbatim>\<open>rpcwire.rs\<close>): framing, \<^verbatim>\<open>handle_rpc_message\<close>, replies with
    the xid of their call, retransmissions, refused calls, and the invariant of one call.
  \<^item> \<open>Tcp_Server\<close>, \<open>Tcp_Bind\<close>, \<open>Tcp_Props\<close> (\<^verbatim>\<open>tcp.rs\<close>): listeners, and the system of all connections with
    their tasks, pipes and channels as the relations \<open>conn_step\<close> and \<open>server_step\<close>.  The locale
    \<open>served_vfs\<close> is a file system whose invariant every allowed call keeps; it holds in every reachable
    state of a server, however tasks are interleaved.  Further: each reply goes to the connection of
    its call, no transaction is executed twice at once, and a call on an idle connection can be answered.
  \<^item> \<open>Client_Rpc\<close>, \<open>Client_Programs\<close>, \<open>Client_Props\<close>, \<open>Client_Server\<close>, \<open>Client_Session\<close>
    (\<^verbatim>\<open>nfs3_client/src\<close>): the RPC client over a byte stream, the programs' methods, the connection
    builder, a call from the client through the server and back, and a sequence of calls.
  \<^item> \<open>Client_Download\<close>, \<open>Client_Download_Props\<close>, \<open>Client_Ls\<close>, \<open>Client_Ls_Props\<close>
    (\<^verbatim>\<open>nfs3_client/examples\<close>): the programs that copy a folder to the local disk and that list a
    directory.  Against a server with the in-memory file system a file is downloaded completely, and
    every name is listed once; the locale \<open>served_file\<close> is what the download asks of a server.
  \<^item> \<open>Threshold_Logger\<close>, \<open>Format_Number\<close> (\<^verbatim>\<open>threshold_logger.rs\<close>): when a message about the size of a cache is
    written and how the number looks, with \<^verbatim>\<open>f64\<close> division and rounding; how long it can become.
  \<^item> \<open>Symbols_Cache\<close>, \<open>Iterator_Cache\<close>, \<open>Fs_Util\<close>, \<open>Mirror_Fs\<close>, \<open>Mirror_Props\<close>
    (\<^verbatim>\<open>cargo_nfs3_server/src\<close>, \<^verbatim>\<open>nfs3_server/src/fs_util\<close>): the mirror file system.  The locale \<open>interner\<close> is
    the contract of the symbol table.  Handles and paths are in one-to-one correspondence and handles keep their
    meaning, suspended iterators have different cookies, what READ returns, and why a long
    listing cannot be continued.
  \<^item> \<open>Fs_Map\<close>, \<open>Fs_Map_Ok\<close>, \<open>Fs_Map_Props\<close> (\<^verbatim>\<open>nfs3_server/examples/mirrorfs.rs\<close>): the mirror file system
    among the examples, the invariant of its map of ids and paths under every operation and in every
    server, what creating, removing, renaming and listing do to it, and when the removal of an entry ends.

  \<^item> \<open>Server_Main\<close> (\<^verbatim>\<open>cargo_nfs3_server/src/main.rs\<close>, \<^verbatim>\<open>memfs.rs\<close>): the program that serves the in-memory or the
    mirror file system, and that the files and folders of its configuration are served.

  \<^bold>\<open>Bounds.\<close>  Counters that wrap around in the code are words, or natural numbers with the word taken
  where the code reads them; invariants that need fresh numbers hold as long as the counter has
  not wrapped (\<open>cache_room\<close>, \<open>fsmap_room\<close>).  Fragments are shorter than \<open>2 ^ 31\<close> bytes, as in the code.
  \<open>read_message\<close> has the number of fragments as fuel; the theorems take the number that there are.

  \<^bold>\<open>Not modelled.\<close>  Logging and \<^verbatim>\<open>Display\<close>, the layout of the lines that \<^verbatim>\<open>ls\<close> prints; the parser of the
  server program's command line and its handler of Ctrl-C; variants for Windows, and conversions
  between bytes and \<^verbatim>\<open>OsStr\<close>, which are the identity on Unix; the socket adapters of the client, which
  pass everything on to the runtime; tests, the demonstrations of single calls (\<^verbatim>\<open>nfs.rs\<close>,
  \<^verbatim>\<open>nfs_smol.rs\<close>, \<^verbatim>\<open>portmap.rs\<close>) and the two demonstration servers.  The steps of a task are atomic, the execution of a procedure among them; in the
  program a procedure that calls several operations of a file system can be interleaved with others
  in between.  A procedure that panics has no step; in the program its task ends without a reply, and
  unwinding gives its lock back.  The pipe of a connection is unbounded; a full one only delays its
  writer.
\<close>

end
